(* ===== verification/Prelude.thy ===== *)
theory Prelude imports Main "HOL-Library.AList" "HOL-Library.List_Lexorder"
  "HOL-Library.Multiset"
begin

text \<open>
  What every component of the model shares: Python's exceptions as values of a sum type and the
  sequencing of computations that may raise, dictionaries as insertion-ordered association lists
  behind an interface of laws, the two selection idioms of the code (\<open>max(xs, key=f)\<close> and
  \<open>sorted(xs, key=f, reverse=True)\<close>), and the locale of event-driven machines from which the
  components obtain their run invariants.
\<close>

section \<open>Collections of facts\<close>

named_theorems res_simps \<open>evaluation of computations that may raise\<close>
named_theorems machine_simps \<open>one-step unfolding of the components' event machines\<close>

section \<open>Exceptions as values\<close>

text \<open>
  The exception classes the code raises or tells apart. \<open>OtherError\<close> stands for every class no
  handler of the code names (RPC failures, encoder errors). \<open>RuntimeError\<close> carries its message
  because the code shows it to the peer.
\<close>

type_synonym pystr = "nat list"

datatype pyexc =
    KeyError | ValueError | TypeError | AttributeError | OverflowError | IndexError
  | RuntimeError pystr | OtherError

type_synonym 'a res = "pyexc + 'a"

text \<open>The tuple \<open>(KeyError, ValueError, TypeError)\<close> the request handlers catch.\<close>

fun is_malformed :: "pyexc \<Rightarrow> bool" where
  "is_malformed KeyError = True"
| "is_malformed ValueError = True"
| "is_malformed TypeError = True"
| "is_malformed _ = False"

definition rbind :: "'e + 'a \<Rightarrow> ('a \<Rightarrow> 'e + 'b) \<Rightarrow> 'e + 'b" where
  "rbind m f = (case m of Inl e \<Rightarrow> Inl e | Inr x \<Rightarrow> f x)"

lemma rbind_simps [simp, res_simps]:
  "rbind (Inl e) f = Inl e"
  "rbind (Inr x) f = f x"
  by (simp_all add: rbind_def)

lemma rbind_cong [fundef_cong]:
  "m = n \<Longrightarrow> (\<And>x. n = Inr x \<Longrightarrow> f x = g x) \<Longrightarrow> rbind m f = rbind n g"
  by (cases n) auto

lemma rbind_Inr_iff [simp]:
  "rbind m f = Inr y \<longleftrightarrow> (\<exists>x. m = Inr x \<and> f x = Inr y)"
  by (cases m) auto

lemma rbind_Inl_iff:
  "rbind m f = Inl e \<longleftrightarrow> m = Inl e \<or> (\<exists>x. m = Inr x \<and> f x = Inl e)"
  by (cases m) auto

text \<open>A comprehension whose body may raise: the first failing element decides.\<close>

fun map_res :: "('a \<Rightarrow> 'e + 'b) \<Rightarrow> 'a list \<Rightarrow> 'e + 'b list" where
  "map_res f [] = Inr []"
| "map_res f (x # xs) = rbind (f x) (\<lambda>y. rbind (map_res f xs) (\<lambda>ys. Inr (y # ys)))"

lemma map_res_cong [fundef_cong]:
  "xs = ys \<Longrightarrow> (\<And>x. x \<in> set ys \<Longrightarrow> f x = g x) \<Longrightarrow> map_res f xs = map_res g ys"
  by (induction ys arbitrary: xs) (auto intro: rbind_cong)

lemma map_res_Inr_iff:
  "map_res f xs = Inr ys \<longleftrightarrow> list_all2 (\<lambda>x y. f x = Inr y) xs ys"
  by (induction xs arbitrary: ys) (auto simp: list_all2_Cons1)

lemma map_res_length: "map_res f xs = Inr ys \<Longrightarrow> length ys = length xs"
  by (auto simp: map_res_Inr_iff dest: list_all2_lengthD)

lemma map_res_pure [simp]: "map_res (\<lambda>x. Inr (g x)) xs = Inr (map g xs)"
  by (induction xs) auto

lemma map_res_total:
  assumes "\<And>x. x \<in> set xs \<Longrightarrow> f x = Inr (g x)"
  shows "map_res f xs = Inr (map g xs)"
  using assms by (induction xs) auto

lemma map_res_set:
  assumes "map_res f xs = Inr ys"
  shows "y \<in> set ys \<longleftrightarrow> (\<exists>x \<in> set xs. f x = Inr y)"
  using assms by (induction xs arbitrary: ys) auto

lemma map_res_map:
  assumes "map_res f xs = Inr ys"
  shows "ys = map (\<lambda>x. projr (f x)) xs" "\<forall>x \<in> set xs. f x = Inr (projr (f x))"
  using assms by (induction xs arbitrary: ys) auto

section \<open>Dictionaries\<close>

text \<open>
  A Python dict iterates in insertion order, and overwriting a key keeps its position: this is
  the association list of \<^theory_text>\<open>HOL-Library.AList\<close>. The locale states what the components rely on;
  they use only its facts.
\<close>

type_synonym ('k, 'v) dict = "('k \<times> 'v) list"

abbreviation dict_get :: "('k, 'v) dict \<Rightarrow> 'k \<Rightarrow> 'v option" where
  "dict_get d \<equiv> map_of d"

abbreviation dict_set :: "'k \<Rightarrow> 'v \<Rightarrow> ('k, 'v) dict \<Rightarrow> ('k, 'v) dict" where
  "dict_set \<equiv> AList.update"

abbreviation dict_pop :: "'k \<Rightarrow> ('k, 'v) dict \<Rightarrow> ('k, 'v) dict" where
  "dict_pop \<equiv> AList.delete"

abbreviation dict_keys :: "('k, 'v) dict \<Rightarrow> 'k list" where
  "dict_keys d \<equiv> map fst d"

abbreviation dict_ok :: "('k, 'v) dict \<Rightarrow> bool" where
  "dict_ok d \<equiv> distinct (map fst d)"

text \<open>\<open>d.get(k, x)\<close>, and the value a \<open>defaultdict\<close> shows for a missing key.\<close>

definition dict_get_or :: "('k, 'v) dict \<Rightarrow> 'k \<Rightarrow> 'v \<Rightarrow> 'v" where
  "dict_get_or d k x = (case dict_get d k of None \<Rightarrow> x | Some v \<Rightarrow> v)"

locale dictionary =
  fixes look :: "'d \<Rightarrow> 'k \<Rightarrow> 'v option"
    and put :: "'k \<Rightarrow> 'v \<Rightarrow> 'd \<Rightarrow> 'd"
    and drop_key :: "'k \<Rightarrow> 'd \<Rightarrow> 'd"
    and keys :: "'d \<Rightarrow> 'k list"
    and ok :: "'d \<Rightarrow> bool"
  assumes look_put: "look (put k v d) = (look d)(k \<mapsto> v)"
    and look_drop: "look (drop_key k d) = (look d)(k := None)"
    and keys_look: "k \<in> set (keys d) \<longleftrightarrow> look d k \<noteq> None"
    and ok_distinct: "ok d \<Longrightarrow> distinct (keys d)"
    and ok_put: "ok d \<Longrightarrow> ok (put k v d)"
    and ok_drop: "ok d \<Longrightarrow> ok (drop_key k d)"
begin

text \<open>A loop that stores one binding per element keeps the last one for each key.\<close>

lemma look_puts:
  "look (foldl (\<lambda>d (k, v). put k v d) d ps) = look d ++ map_of (rev ps)"
proof (induction ps arbitrary: d)
  case Nil
  then show ?case by simp
next
  case (Cons p ps)
  obtain k v where "p = (k, v)" by (cases p)
  have "foldl (\<lambda>d (k, v). put k v d) d (p # ps) = foldl (\<lambda>d (k, v). put k v d) (put k v d) ps"
    by (simp add: \<open>p = (k, v)\<close>)
  then show ?case
    by (simp only: Cons look_put)
      (auto simp: \<open>p = (k, v)\<close> map_add_def fun_eq_iff map_of_append split: option.splits)
qed

lemma ok_puts: "ok d \<Longrightarrow> ok (foldl (\<lambda>d (k, v). put k v d) d ps)"
  by (induction ps arbitrary: d) (auto simp: ok_put)

lemma keys_put: "set (keys (put k v d)) = insert k (set (keys d))"
  using keys_look look_put by (auto simp: fun_upd_def split: if_splits)

end

lemma dict_ok_delete: "dict_ok d \<Longrightarrow> dict_ok (dict_pop k d)"
  by (simp add: distinct_delete)

interpretation alist_dict: dictionary "dict_get" "dict_set" "dict_pop" "dict_keys" "dict_ok"
  by unfold_locales
    (auto simp: update_conv' delete_conv' map_of_eq_None_iff distinct_update dict_ok_delete
       split: if_splits)

lemmas dict_simps =
  alist_dict.look_put alist_dict.look_drop alist_dict.keys_put alist_dict.ok_put alist_dict.ok_drop

lemma dict_get_or_set [simp]:
  "dict_get_or (dict_set k v d) k' x = (if k' = k then v else dict_get_or d k' x)"
  by (simp add: dict_get_or_def dict_simps)

lemma dict_get_or_Nil [simp]: "dict_get_or [] k x = x"
  by (simp add: dict_get_or_def)

lemma dict_get_or_Some [simp]: "dict_get d k = Some v \<Longrightarrow> dict_get_or d k x = v"
  by (simp add: dict_get_or_def)

lemma dict_get_in_keys: "dict_get d k = Some v \<Longrightarrow> k \<in> set (dict_keys d)"
  using alist_dict.keys_look [of k d] by simp

lemma dict_keys_set_old: "k \<in> set (dict_keys d) \<Longrightarrow> dict_keys (dict_set k v d) = dict_keys d"
  by (induction d) auto

lemma dict_keys_set_new: "k \<notin> set (dict_keys d) \<Longrightarrow> dict_keys (dict_set k v d) = dict_keys d @ [k]"
  by (induction d) auto

section \<open>Grouping\<close>

text \<open>\<open>d[k].append(x)\<close> on a \<open>defaultdict(list)\<close>, folded over key and value pairs.\<close>

definition append_to :: "('k, 'v list) dict \<Rightarrow> 'k \<times> 'v \<Rightarrow> ('k, 'v list) dict" where
  "append_to d p = dict_set (fst p) (dict_get_or d (fst p) [] @ [snd p]) d"

definition group_pairs :: "('k \<times> 'v) list \<Rightarrow> ('k, 'v list) dict" where
  "group_pairs ps = foldl append_to [] ps"

lemma keys_append_to:
  "dict_keys (append_to d p) = (if fst p \<in> set (dict_keys d) then dict_keys d else dict_keys d @ [fst p])"
  by (cases "fst p \<in> set (dict_keys d)") (simp_all add: append_to_def dict_keys_set_old dict_keys_set_new)

lemma group_pairs_snoc: "group_pairs (ps @ [p]) = append_to (group_pairs ps) p"
  by (simp add: group_pairs_def)

lemma group_pairs_Nil [simp]: "group_pairs [] = []"
  by (simp add: group_pairs_def)

lemma group_pairs_ok: "dict_ok (group_pairs ps)"
  by (induction ps rule: rev_induct) (auto simp: group_pairs_snoc keys_append_to)

lemma set_keys_group_pairs: "fst ` set (group_pairs ps) = fst ` set ps"
proof -
  have "set (dict_keys (group_pairs ps)) = fst ` set ps"
    by (induction ps rule: rev_induct) (auto simp: group_pairs_snoc keys_append_to simp del: set_map)
  then show ?thesis by simp
qed

text \<open>Each group lists the values of its key in order.\<close>

lemma group_pairs_get:
  "dict_get_or (group_pairs ps) k [] = map snd (filter (\<lambda>p. fst p = k) ps)"
  by (induction ps rule: rev_induct) (auto simp: group_pairs_snoc append_to_def)

lemma group_pairs_mem:
  assumes "(k, vs) \<in> set (group_pairs ps)"
  shows "vs = map snd (filter (\<lambda>p. fst p = k) ps)" "vs \<noteq> []"
proof -
  have "dict_get (group_pairs ps) k = Some vs"
    using assms group_pairs_ok [of ps] by (intro map_of_is_SomeI)
  then show vs: "vs = map snd (filter (\<lambda>p. fst p = k) ps)"
    using group_pairs_get [of ps k] by simp
  have "k \<in> fst ` set ps" using assms set_keys_group_pairs [of ps] by force
  then show "vs \<noteq> []" unfolding vs by (auto simp: filter_empty_conv)
qed

lemma set_map_filter: "y \<in> set (List.map_filter f xs) \<longleftrightarrow> (\<exists>x \<in> set xs. f x = Some y)"
  by (induction xs) (auto simp: List.map_filter_simps split: option.splits)

section \<open>Selection idioms\<close>

text \<open>\<open>max(xs, key=f)\<close> returns the first element whose key no later one exceeds.\<close>

fun max_by :: "('a \<Rightarrow> 'b::linorder) \<Rightarrow> 'a \<Rightarrow> 'a list \<Rightarrow> 'a" where
  "max_by f b [] = b"
| "max_by f b (x # xs) = max_by f (if f b < f x then x else b) xs"

lemma max_by_in: "max_by f b xs \<in> insert b (set xs)"
  by (induction f b xs rule: max_by.induct) auto

lemma max_by_ge_start: "f b \<le> f (max_by f b xs)"
proof (induction f b xs rule: max_by.induct)
  case (2 f b x xs)
  then show ?case by (cases "f b < f x") auto
qed simp

lemma max_by_ge: "y \<in> insert b (set xs) \<Longrightarrow> f y \<le> f (max_by f b xs)"
proof (induction f b xs arbitrary: y rule: max_by.induct)
  case (2 f b x xs)
  let ?m = "if f b < f x then x else b"
  have "f ?m \<le> f (max_by f ?m xs)" by (rule max_by_ge_start)
  moreover have "y \<in> set xs \<Longrightarrow> f y \<le> f (max_by f ?m xs)"
    using "2.IH" [of y] by simp
  ultimately show ?case using "2.prems" by (auto split: if_splits)
qed simp

text \<open>\<open>sorted(xs, key=f, reverse=True)\<close> is stable: equal keys keep their order.\<close>

definition sort_desc :: "('a \<Rightarrow> 'b::{linorder, ordered_ab_group_add}) \<Rightarrow> 'a list \<Rightarrow> 'a list" where
  "sort_desc f xs = sort_key (\<lambda>x. - f x) xs"

lemma set_sort_desc [simp]: "set (sort_desc f xs) = set xs"
  by (simp add: sort_desc_def)

lemma length_sort_desc [simp]: "length (sort_desc f xs) = length xs"
  by (simp add: sort_desc_def)

lemma mset_sort_desc [simp]: "mset (sort_desc f xs) = mset xs"
  by (simp add: sort_desc_def)

lemma sort_desc_sorted: "sorted_wrt (\<lambda>x y. f y \<le> f x) (sort_desc f xs)"
proof -
  have "sorted (map (\<lambda>x. - f x) (sort_key (\<lambda>x. - f x) xs))" by (rule sorted_sort_key)
  then show ?thesis by (simp add: sort_desc_def sorted_map)
qed

lemma sort_desc_nth_mono:
  "i \<le> j \<Longrightarrow> j < length xs \<Longrightarrow> f (sort_desc f xs ! j) \<le> f (sort_desc f xs ! i)"
  using sort_desc_sorted [of f xs]
  by (cases "i = j") (auto simp: sorted_wrt_iff_nth_less)

section \<open>Event machines\<close>

text \<open>
  A component is driven by the events it handles. The locale says what a component owes: its
  invariant holds initially and every event keeps it; \<open>log\<close> is an append-only record of effects
  (calls made to the chain, receipts queued), so runs only extend it.
\<close>

locale event_machine =
  fixes step :: "'s \<Rightarrow> 'e \<Rightarrow> 's"
    and init :: "'s \<Rightarrow> bool"
    and inv :: "'s \<Rightarrow> bool"
  assumes inv_init: "init s \<Longrightarrow> inv s"
    and inv_step: "inv s \<Longrightarrow> inv (step s e)"
begin

lemma inv_run: "inv s \<Longrightarrow> inv (foldl step s es)"
  by (induction es arbitrary: s) (auto simp: inv_step)

lemma reachable_inv: "init s \<Longrightarrow> inv (foldl step s es)"
  by (simp add: inv_init inv_run)

lemma inv_prefix: "init s \<Longrightarrow> inv (foldl step s (take n es))"
  by (rule reachable_inv)

lemma mono_run:
  assumes "\<And>s e. inv s \<Longrightarrow> R s (step s e)" and "reflp R" and "transp R" and "inv s"
  shows "R s (foldl step s es)"
  using \<open>inv s\<close>
proof (induction es arbitrary: s)
  case Nil
  with \<open>reflp R\<close> show ?case by (simp add: reflp_def)
next
  case (Cons e es)
  then have "R s (step s e)" and "R (step s e) (foldl step (step s e) es)"
    by (auto simp: assms(1) inv_step)
  with \<open>transp R\<close> show ?case by (auto dest: transpD)
qed

end

end
