(* ===== verification/PyText.thy ===== *)
theory PyText imports Prelude "HOL-Library.Word"
begin

text \<open>
  The Python text and byte operations the code uses: \<open>str\<close> as a list of code points, \<open>bytes\<close> as a
  list of 8-bit words (compared lexicographically, as Python compares both), \<open>str.lower\<close>,
  \<open>str.startswith\<close>, \<open>str.rstrip\<close>, \<open>str.split\<close>, UTF-8 encoding, \<open>bytes.hex\<close>, \<open>bytes.fromhex\<close> and
  \<open>int(text, base)\<close>.

  Case conversion is modelled on the code points below 256 and decimal digits on ASCII. The strings
  whose case or digits decide something in the code are hexadecimal, but for the words of answers
  and references in the quality score: there, letters beyond Latin-1 are compared as they stand.
\<close>

type_synonym byte = "8 word"
type_synonym bytes = "byte list"

definition lit :: "string \<Rightarrow> pystr" where
  "lit s = map of_char s"

lemma lit_eq_iff [simp]: "lit a = lit b \<longleftrightarrow> a = b"
  by (auto simp: lit_def inj_map_eq_map [OF inj_of_char])

lemma lit_Nil [simp]: "lit '''' = []" by (simp add: lit_def)

lemma lit_eq_Nil_iff [simp]: "lit s = [] \<longleftrightarrow> s = []" by (simp add: lit_def)

section \<open>Strings\<close>

definition lower_char :: "nat \<Rightarrow> nat" where
  "lower_char c = (if (65 \<le> c \<and> c \<le> 90) \<or> (192 \<le> c \<and> c \<le> 222 \<and> c \<noteq> 215) then c + 32 else c)"

definition lower :: "pystr \<Rightarrow> pystr" where
  "lower s = map lower_char s"

lemma lower_char_idem [simp]: "lower_char (lower_char c) = lower_char c"
  by (simp add: lower_char_def)

lemma lower_idem [simp]: "lower (lower s) = lower s"
  by (simp add: lower_def)

lemma length_lower [simp]: "length (lower s) = length s"
  by (simp add: lower_def)

lemma lower_Nil [simp]: "lower [] = []"
  by (simp add: lower_def)

lemma lower_Cons [simp]: "lower (c # s) = lower_char c # lower s"
  by (simp add: lower_def)

lemma lower_append [simp]: "lower (s @ t) = lower s @ lower t"
  by (simp add: lower_def)

definition startswith :: "pystr \<Rightarrow> pystr \<Rightarrow> bool" where
  "startswith s p \<longleftrightarrow> take (length p) s = p"

lemma startswith_append [simp]: "startswith (p @ s) p"
  by (simp add: startswith_def)

lemma startswithE:
  assumes "startswith s p"
  obtains t where "s = p @ t"
  using assms by (metis append_take_drop_id startswith_def)

text \<open>\<open>url.rstrip('/')\<close>.\<close>

definition rstrip_slash :: "pystr \<Rightarrow> pystr" where
  "rstrip_slash s = rev (dropWhile (\<lambda>c. c = 47) (rev s))"

text \<open>The code points for which \<open>str.isspace\<close> holds.\<close>

definition is_space :: "nat \<Rightarrow> bool" where
  "is_space c \<longleftrightarrow> (9 \<le> c \<and> c \<le> 13) \<or> (28 \<le> c \<and> c \<le> 32) \<or> c = 133 \<or> c = 160 \<or> c = 5760
     \<or> (8192 \<le> c \<and> c \<le> 8202) \<or> c = 8232 \<or> c = 8233 \<or> c = 8239 \<or> c = 8287 \<or> c = 12288"

text \<open>\<open>str.split()\<close>: the maximal runs of characters that are not white space.\<close>

fun split_ws_aux :: "pystr \<Rightarrow> pystr \<Rightarrow> pystr list" where
  "split_ws_aux w [] = (if w = [] then [] else [rev w])"
| "split_ws_aux w (c # cs) =
     (if is_space c then (if w = [] then split_ws_aux [] cs else rev w # split_ws_aux [] cs)
      else split_ws_aux (c # w) cs)"

definition split_ws :: "pystr \<Rightarrow> pystr list" where
  "split_ws s = split_ws_aux [] s"

section \<open>UTF-8\<close>

text \<open>
  A lone surrogate cannot be encoded: \<open>UnicodeEncodeError\<close>, a subclass of \<open>ValueError\<close>. JSON text
  can contain one (escaped), so the case is reachable.
\<close>

definition utf8_char :: "nat \<Rightarrow> bytes res" where
  "utf8_char c =
     (if c < 128 then Inr [of_nat c]
      else if c < 2048 then Inr [of_nat (192 + c div 64), of_nat (128 + c mod 64)]
      else if 55296 \<le> c \<and> c \<le> 57343 then Inl ValueError
      else if c < 65536 then
        Inr [of_nat (224 + c div 4096), of_nat (128 + c div 64 mod 64), of_nat (128 + c mod 64)]
      else Inr [of_nat (240 + c div 262144), of_nat (128 + c div 4096 mod 64),
                of_nat (128 + c div 64 mod 64), of_nat (128 + c mod 64)])"

definition utf8_encode :: "pystr \<Rightarrow> bytes res" where
  "utf8_encode s = rbind (map_res utf8_char s) (\<lambda>bss. Inr (concat bss))"

lemma utf8_char_length: "utf8_char c = Inr bs \<Longrightarrow> 1 \<le> length bs \<and> length bs \<le> 4"
  by (auto simp: utf8_char_def split: if_splits)

lemma utf8_encode_length:
  assumes "utf8_encode s = Inr bs"
  shows "length s \<le> length bs \<and> length bs \<le> 4 * length s"
proof -
  obtain bss where bss: "map_res utf8_char s = Inr bss" and "bs = concat bss"
    using assms by (auto simp: utf8_encode_def)
  have "length s \<le> length (concat bss) \<and> length (concat bss) \<le> 4 * length s"
    using bss by (induction s arbitrary: bss) (fastforce dest!: utf8_char_length)+
  then show ?thesis by (simp add: \<open>bs = concat bss\<close>)
qed

section \<open>Hexadecimal text\<close>

definition hex_char :: "nat \<Rightarrow> nat" where
  "hex_char n = (if n < 10 then 48 + n else 87 + n)"

definition hex_digit :: "nat \<Rightarrow> nat option" where
  "hex_digit c =
     (if 48 \<le> c \<and> c \<le> 57 then Some (c - 48)
      else if 97 \<le> c \<and> c \<le> 102 then Some (c - 87)
      else if 65 \<le> c \<and> c \<le> 70 then Some (c - 55)
      else None)"

lemma hex_digit_char [simp]: "n < 16 \<Longrightarrow> hex_digit (hex_char n) = Some n"
  by (auto simp: hex_digit_def hex_char_def)

lemma hex_digit_bound: "hex_digit c = Some n \<Longrightarrow> n < 16"
  by (auto simp: hex_digit_def split: if_splits)

lemma hex_digit_lower [simp]: "hex_digit (lower_char c) = hex_digit c"
  by (auto simp: hex_digit_def lower_char_def)

lemma lower_hex_char [simp]: "n < 16 \<Longrightarrow> lower_char (hex_char n) = hex_char n"
  by (auto simp: lower_char_def hex_char_def)

text \<open>Text that becomes \<open>0x...\<close> in lower case is \<open>0x...\<close> already or not hexadecimal.\<close>

lemma lower_char_48 [simp]: "lower_char c = 48 \<longleftrightarrow> c = 48"
  by (auto simp: lower_char_def)

lemma lower_char_120: "lower_char c = 120 \<longleftrightarrow> c = 120 \<or> c = 88"
  by (auto simp: lower_char_def)

text \<open>\<open>bytes.hex()\<close>.\<close>

fun to_hex :: "bytes \<Rightarrow> pystr" where
  "to_hex [] = []"
| "to_hex (b # bs) = hex_char (unat b div 16) # hex_char (unat b mod 16) # to_hex bs"

text \<open>\<open>bytes.fromhex\<close>: ASCII white space may stand between bytes; anything else raises.\<close>

definition is_ascii_space :: "nat \<Rightarrow> bool" where
  "is_ascii_space c \<longleftrightarrow> (9 \<le> c \<and> c \<le> 13) \<or> c = 32"

fun fromhex :: "pystr \<Rightarrow> bytes res" where
  "fromhex [] = Inr []"
| "fromhex [c] = (if is_ascii_space c then Inr [] else Inl ValueError)"
| "fromhex (c # d # cs) =
     (if is_ascii_space c then fromhex (d # cs)
      else case (hex_digit c, hex_digit d) of
        (Some h, Some l) \<Rightarrow> rbind (fromhex cs) (\<lambda>bs. Inr (of_nat (16 * h + l) # bs))
      | _ \<Rightarrow> Inl ValueError)"

lemma unat_byte_bound: "unat (b :: byte) < 256"
  using unsigned_less [of b] by simp

lemma hex_char_not_space: "n < 16 \<Longrightarrow> \<not> is_ascii_space (hex_char n)"
  by (auto simp: hex_char_def is_ascii_space_def)

lemma lower_char_space [simp]: "is_ascii_space (lower_char c) = is_ascii_space c"
  by (auto simp: lower_char_def is_ascii_space_def)

lemma fromhex_to_hex [simp]: "fromhex (to_hex bs) = Inr bs"
proof (induction bs)
  case (Cons b bs)
  have b: "unat b div 16 < 16" using unat_byte_bound [of b] by simp
  have "16 * (unat b div 16) + unat b mod 16 = unat b" by simp
  then have "(of_nat (16 * (unat b div 16) + unat b mod 16) :: byte) = b"
    by (simp only: of_nat_unat ucast_id)
  with b Cons show ?case by (simp add: hex_char_not_space)
qed simp

lemma fromhex_lower [simp]: "fromhex (lower s) = fromhex s"
  by (induction s rule: fromhex.induct) (auto split: option.splits)

lemma lower_to_hex [simp]: "lower (to_hex bs) = to_hex bs"
  using unat_byte_bound by (induction bs) (auto simp: less_mult_imp_div_less)

lemma length_to_hex [simp]: "length (to_hex bs) = 2 * length bs"
  by (induction bs) auto

lemma to_hex_inject [simp]: "to_hex a = to_hex b \<longleftrightarrow> a = b"
  by (metis fromhex_to_hex sum.inject(2))

lemma fromhex_length: "fromhex s = Inr bs \<Longrightarrow> 2 * length bs \<le> length s"
  by (induction s arbitrary: bs rule: fromhex.induct)
    (fastforce split: if_splits option.splits)+

lemma fromhex_error: "fromhex s = Inl e \<Longrightarrow> e = ValueError"
  by (induction s rule: fromhex.induct)
    (auto simp: rbind_Inl_iff split: if_splits option.splits)

abbreviation ox :: pystr where "ox \<equiv> lit ''0x''"

lemma ox_def: "ox = [48, 120]"
  by (simp add: lit_def of_char_def)

lemma length_ox [simp]: "length ox = 2"
  by (simp add: ox_def)

lemma drop2_ox [simp]: "drop 2 ox = []"
  by (simp add: ox_def)

lemma lower_ox [simp]: "lower ox = ox"
  by (simp add: ox_def lower_def lower_char_def)

lemma to_hex_no_prefix [simp]: "\<not> startswith (to_hex bs) ox"
  by (cases bs) (auto simp: startswith_def ox_def hex_char_def)

lemma fromhex_upper_prefix:
  assumes "startswith (lower t) ox" and "\<not> startswith t ox"
  shows "fromhex t = Inl ValueError"
proof -
  obtain c d u where t: "t = c # d # u" and cd: "lower_char c = 48" "lower_char d = 120"
    using assms(1) by (cases t; cases "tl t") (auto simp: startswith_def ox_def)
  from cd assms(2) t have "c = 48" "d = 88" by (auto simp: lower_char_120 startswith_def ox_def)
  with t show ?thesis by (simp add: is_ascii_space_def hex_digit_def)
qed

definition hex0x :: "bytes \<Rightarrow> pystr" where
  "hex0x bs = ox @ to_hex bs"

lemma lower_hex0x [simp]: "lower (hex0x bs) = hex0x bs"
  by (simp add: hex0x_def)

lemma drop2_hex0x [simp]: "drop 2 (hex0x bs) = to_hex bs"
  by (simp add: hex0x_def ox_def)

lemma hex0x_inject [simp]: "hex0x a = hex0x b \<longleftrightarrow> a = b"
  by (simp add: hex0x_def)

lemma startswith_hex0x [simp]: "startswith (hex0x bs) ox"
  by (simp add: hex0x_def)

lemma hex_char_not_ws: "n < 16 \<Longrightarrow> \<not> is_space (hex_char n)"
  by (auto simp: hex_char_def is_space_def)

declare to_hex.simps [simp del]

section \<open>Numbers in text\<close>

text \<open>
  \<open>int(text, base)\<close> for base 10 and 16: surrounding white space, a sign, for base 16 an optional
  \<open>0x\<close>, then digits with single underscores between them (and one allowed after the prefix).
\<close>

fun digits_val :: "nat \<Rightarrow> nat \<Rightarrow> bool \<Rightarrow> pystr \<Rightarrow> nat option" where
  "digits_val base acc sep [] = (if sep then None else Some acc)"
| "digits_val base acc sep (c # cs) =
     (if c = 95 then (if sep then None else digits_val base acc True cs)
      else case hex_digit c of
        Some d \<Rightarrow> if d < base then digits_val base (base * acc + d) False cs else None
      | None \<Rightarrow> None)"

definition strip_ws :: "pystr \<Rightarrow> pystr" where
  "strip_ws s = rev (dropWhile is_space (rev (dropWhile is_space s)))"

definition unsigned_int :: "nat \<Rightarrow> pystr \<Rightarrow> nat option" where
  "unsigned_int base s =
     (if base = 16 \<and> startswith (lower s) ox then
        (case drop 2 s of [] \<Rightarrow> None
         | c # cs \<Rightarrow> digits_val base 0 True (if c = 95 then cs else c # cs))
      else digits_val base 0 True s)"

definition py_int_text :: "nat \<Rightarrow> pystr \<Rightarrow> int res" where
  "py_int_text base s =
     (let t = strip_ws s;
          (sgn, u) = (case t of [] \<Rightarrow> (1, []) | c # cs \<Rightarrow>
             if c = 45 then (-1, cs) else if c = 43 then (1, cs) else (1, t))
      in case unsigned_int base u of None \<Rightarrow> Inl ValueError | Some n \<Rightarrow> Inr (sgn * int n))"

lemma py_int_text_plain:
  assumes "strip_ws s = s" and "s = c # t" and "c \<noteq> 45" and "c \<noteq> 43" and "unsigned_int base s = Some n"
  shows "py_int_text base s = Inr (int n)"
  using assms by (simp add: py_int_text_def)

lemma py_int_text_error: "py_int_text base s = Inl e \<Longrightarrow> e = ValueError"
  by (auto simp: py_int_text_def Let_def split: option.splits prod.splits)

end
