(* ===== verification/Json.thy ===== *)
theory Json imports PyText Complex_Main
begin

text \<open>
  Decoded JSON values as the request handlers see them, and the Python operations applied to them:
  subscription, \<open>dict.get\<close>, \<open>int(...)\<close>, \<open>list(...)\<close>, \<open>str(...)\<close> and truth, each with the exception
  CPython raises when the value has the wrong shape. Parsing the body is the JSON library's work:
  handlers take the parsed value, or \<open>None\<close> when the body is not JSON (\<open>JSONDecodeError\<close>, a
  subclass of \<open>ValueError\<close>).
\<close>

datatype jfloat = Finite rat | PosInf | NegInf | NaN

datatype json =
    JNull | JBool bool | JInt int | JFloat jfloat | JStr pystr
  | JList "json list" | JObj "(pystr \<times> json) list"

text \<open>\<open>x[k]\<close> with a string key: only a dict can be subscripted with a string.\<close>

fun jkey :: "json \<Rightarrow> pystr \<Rightarrow> json res" where
  "jkey (JObj d) k = (case dict_get d k of None \<Rightarrow> Inl KeyError | Some v \<Rightarrow> Inr v)"
| "jkey _ k = Inl TypeError"

text \<open>\<open>x.get(k, default)\<close>: only a dict has the method.\<close>

fun jget :: "json \<Rightarrow> pystr \<Rightarrow> json \<Rightarrow> json res" where
  "jget (JObj d) k x = Inr (dict_get_or d k x)"
| "jget _ k x = Inl AttributeError"

definition trunc_rat :: "rat \<Rightarrow> int" where
  "trunc_rat q = (if 0 \<le> q then \<lfloor>q\<rfloor> else \<lceil>q\<rceil>)"

text \<open>\<open>int(x)\<close>.\<close>

fun py_int :: "json \<Rightarrow> int res" where
  "py_int (JInt i) = Inr i"
| "py_int (JBool b) = Inr (if b then 1 else 0)"
| "py_int (JFloat (Finite q)) = Inr (trunc_rat q)"
| "py_int (JFloat PosInf) = Inl OverflowError"
| "py_int (JFloat NegInf) = Inl OverflowError"
| "py_int (JFloat NaN) = Inl ValueError"
| "py_int (JStr s) = py_int_text 10 s"
| "py_int _ = Inl TypeError"

text \<open>\<open>list(x)\<close>: a string gives its characters, a dict its keys.\<close>

fun py_list :: "json \<Rightarrow> json list res" where
  "py_list (JList xs) = Inr xs"
| "py_list (JStr s) = Inr (map (\<lambda>c. JStr [c]) s)"
| "py_list (JObj d) = Inr (map (\<lambda>p. JStr (fst p)) d)"
| "py_list _ = Inl TypeError"

text \<open>Iterating over a value directly: the same elements, the same error.\<close>

abbreviation py_iter :: "json \<Rightarrow> json list res" where
  "py_iter \<equiv> py_list"

fun py_true :: "json \<Rightarrow> bool" where
  "py_true JNull = False"
| "py_true (JBool b) = b"
| "py_true (JInt i) = (i \<noteq> 0)"
| "py_true (JFloat (Finite q)) = (q \<noteq> 0)"
| "py_true (JFloat _) = True"
| "py_true (JStr s) = (s \<noteq> [])"
| "py_true (JList xs) = (xs \<noteq> [])"
| "py_true (JObj d) = (d \<noteq> [])"

fun nat_digits :: "nat \<Rightarrow> pystr" where
  "nat_digits n = (if n < 10 then [48 + n] else nat_digits (n div 10) @ [48 + n mod 10])"

declare nat_digits.simps [simp del]

definition int_text :: "int \<Rightarrow> pystr" where
  "int_text i = (if i < 0 then 45 # nat_digits (nat (- i)) else nat_digits (nat i))"

text \<open>
  \<open>str(x)\<close>. The representation of floats and containers is CPython's \<open>repr\<close>, which the code never
  inspects; it is the parameter \<open>rep\<close>.
\<close>

fun py_str :: "(json \<Rightarrow> pystr) \<Rightarrow> json \<Rightarrow> pystr" where
  "py_str rep JNull = lit ''None''"
| "py_str rep (JBool b) = (if b then lit ''True'' else lit ''False'')"
| "py_str rep (JInt i) = int_text i"
| "py_str rep (JStr s) = s"
| "py_str rep j = rep j"

text \<open>\<open>response.raise_for_status()\<close> of the HTTP client: every status but a success raises, redirects too.\<close>

definition raises_for_status :: "nat \<Rightarrow> bool" where
  "raises_for_status status \<longleftrightarrow> status < 200 \<or> 300 \<le> status"

lemma status_200 [simp]: "\<not> raises_for_status 200"
  by (simp add: raises_for_status_def)

text \<open>The exceptions these operations can raise are the ones the handlers expect, but for two.\<close>

lemma jkey_error: "jkey j k = Inl e \<Longrightarrow> is_malformed e"
  by (cases j) (auto split: option.splits)

lemma py_int_error: "py_int j = Inl e \<Longrightarrow> is_malformed e \<or> e = OverflowError"
proof (cases j)
  case (JFloat f)
  then show "py_int j = Inl e \<Longrightarrow> ?thesis" by (cases f) auto
qed (auto dest: py_int_text_error)

lemma py_list_error: "py_list j = Inl e \<Longrightarrow> is_malformed e"
  by (cases j) auto

lemma nat_digits_ascii: "c \<in> set (nat_digits n) \<Longrightarrow> 48 \<le> c \<and> c \<le> 57"
  by (induction n rule: nat_digits.induct) (subst (asm) nat_digits.simps, auto split: if_splits)

lemma digits_val_append:
  "95 \<notin> set xs \<Longrightarrow> digits_val b acc False (xs @ ys) =
     Option.bind (digits_val b acc False xs) (\<lambda>v. digits_val b v False ys)"
  by (induction xs arbitrary: acc) (auto split: option.splits)

lemma digits_val_nat_digits: "digits_val 10 0 False (nat_digits n) = Some n"
proof (induction n rule: nat_digits.induct)
  case (1 n)
  show ?case
  proof (cases "n < 10")
    case True
    then show ?thesis by (simp add: nat_digits.simps [of n] hex_digit_def)
  next
    case False
    have "95 \<notin> set (nat_digits (n div 10))" by (auto dest: nat_digits_ascii)
    moreover have "digits_val 10 0 False (nat_digits (n div 10)) = Some (n div 10)"
      using "1.IH" False by simp
    ultimately show ?thesis
      using False
      by (simp add: nat_digits.simps [of n] digits_val_append hex_digit_def)
  qed
qed

end
