(* ===== verification/EthLib.thy ===== *)
theory EthLib imports Json
begin

text \<open>
  The Ethereum libraries the code calls (\<open>eth_utils\<close>, \<open>eth_abi\<close>, \<open>eth_account\<close>, \<open>web3\<close>) are not part
  of the repository: they are the fields of a record of functions that every definition using
  them takes as an argument. The predicates below name the documented behaviour some theorems
  rely on; each has a concrete instance.
\<close>

text \<open>The typed values handed to \<open>abi_encode\<close>, with the width of the unsigned integers.\<close>

datatype abi_val =
    AUint nat int | AAddress pystr | ABytes32 bytes | AString pystr

record ethlib =
  keccak :: "bytes \<Rightarrow> bytes"
  abi_encode :: "abi_val list \<Rightarrow> bytes res"
  to_checksum_address :: "json \<Rightarrow> pystr res"
  recover_message :: "bytes \<Rightarrow> json \<Rightarrow> pystr res"
  key_address :: "pystr \<Rightarrow> pystr"
  sign_message :: "pystr \<Rightarrow> bytes \<Rightarrow> pystr"

text \<open>
  \<open>recover_message E digest sig\<close> is \<open>Account.recover_message(encode_defunct(digest), signature=sig)\<close>
  and \<open>sign_message E key digest\<close> the text of
  \<open>Account.from_key(key).sign_message(encode_defunct(digest)).signature.hex()\<close>, which carries a
  \<open>0x\<close> prefix or not depending on the library's version.
\<close>

text \<open>\<open>sig if sig.startswith("0x") else "0x" + sig\<close>.\<close>

definition with_0x :: "pystr \<Rightarrow> pystr" where
  "with_0x s = (if startswith s ox then s else ox @ s)"

lemma startswith_with_0x [simp]: "startswith (with_0x s) ox"
  by (simp add: with_0x_def)

definition strip_0x :: "pystr \<Rightarrow> pystr" where
  "strip_0x s = (if startswith s ox then drop 2 s else s)"

lemma strip_0x_with_0x: "strip_0x (with_0x s) = strip_0x s"
  by (auto simp: strip_0x_def with_0x_def)

definition checksum :: "ethlib \<Rightarrow> pystr \<Rightarrow> pystr res" where
  "checksum E s = to_checksum_address E (JStr s)"

definition keccak_text :: "ethlib \<Rightarrow> pystr \<Rightarrow> bytes res" where
  "keccak_text E s = rbind (utf8_encode s) (\<lambda>bs. Inr (keccak E bs))"

text \<open>Keccak-256 digests have 32 bytes.\<close>

definition keccak_width :: "ethlib \<Rightarrow> bool" where
  "keccak_width E \<longleftrightarrow> (\<forall>bs. length (keccak E bs) = 32)"

text \<open>A pair of distinct inputs with one digest.\<close>

definition keccak_collision :: "ethlib \<Rightarrow> bool" where
  "keccak_collision E \<longleftrightarrow> (\<exists>x y. x \<noteq> y \<and> keccak E x = keccak E y)"

text \<open>Recovering a signature gives the address of the key that made it (ECDSA).\<close>

definition recovers_signer :: "ethlib \<Rightarrow> bool" where
  "recovers_signer E \<longleftrightarrow>
     (\<forall>key digest. recover_message E digest (JStr (sign_message E key digest)) = Inr (key_address E key)
        \<and> recover_message E digest (JStr (with_0x (sign_message E key digest))) = Inr (key_address E key))"

text \<open>A signature's text is read with or without its \<open>0x\<close>.\<close>

definition recover_ignores_prefix :: "ethlib \<Rightarrow> bool" where
  "recover_ignores_prefix E \<longleftrightarrow>
     (\<forall>digest s. recover_message E digest (JStr (with_0x s)) = recover_message E digest (JStr s))"

text \<open>
  EIP-55: a checksummed address is its own checksum, two that differ only in case are equal, and
  an address read as a hexadecimal number determines it.
\<close>

definition checksum_canonical :: "ethlib \<Rightarrow> bool" where
  "checksum_canonical E \<longleftrightarrow>
     (\<forall>j a. to_checksum_address E j = Inr a \<longrightarrow> checksum E a = Inr a
        \<and> (\<exists>n. py_int_text 16 a = Inr n))
   \<and> (\<forall>i j a b. to_checksum_address E i = Inr a \<longrightarrow> to_checksum_address E j = Inr b \<longrightarrow>
        lower a = lower b \<or> py_int_text 16 a = py_int_text 16 b \<longrightarrow> a = b)"

section \<open>A concrete library\<close>

text \<open>
  A small instance on which theorems with library hypotheses are applied: one-byte addresses, a
  checksum-like 32-byte digest, and signatures that carry the key and the digest.
\<close>

fun demo_abi :: "abi_val \<Rightarrow> bytes res" where
  "demo_abi (AUint w i) = (if 0 \<le> i \<and> i < 2 ^ w then Inr [of_int i] else Inl OtherError)"
| "demo_abi (AAddress a) = fromhex (drop 2 a)"
| "demo_abi (ABytes32 b) = Inr b"
| "demo_abi (AString s) = utf8_encode s"

definition demo_recover :: "bytes \<Rightarrow> json \<Rightarrow> pystr res" where
  "demo_recover digest j = (case j of JStr s \<Rightarrow>
     rbind (fromhex (strip_0x s)) (\<lambda>bs. case bs of
       [] \<Rightarrow> Inl OtherError
     | b # d \<Rightarrow> if d = digest then Inr (hex0x [b]) else Inr (hex0x [b + 1]))
   | _ \<Rightarrow> Inl TypeError)"

definition demo_key :: "pystr \<Rightarrow> byte" where
  "demo_key k = (case k of [] \<Rightarrow> 0 | c # _ \<Rightarrow> of_nat c)"

definition demo_checksum :: "json \<Rightarrow> pystr res" where
  "demo_checksum j = (case j of JStr s \<Rightarrow>
     if startswith s ox then
       rbind (fromhex (drop 2 s)) (\<lambda>bs. if length bs = 1 then Inr (hex0x bs) else Inl ValueError)
     else Inl ValueError
   | _ \<Rightarrow> Inl TypeError)"

definition demo_hash :: "byte \<Rightarrow> bytes" where
  "demo_hash b = replicate 31 0 @ [b]"

lemma demo_hash_inject [simp]: "demo_hash a = demo_hash b \<longleftrightarrow> a = b"
  by (simp add: demo_hash_def)

lemma length_demo_hash [simp]: "length (demo_hash b) = 32"
  by (simp add: demo_hash_def)

lemma append_le_same: "(xs :: 'a::linorder list) @ ys \<le> xs @ zs \<longleftrightarrow> ys \<le> zs"
  by (induction xs) auto

lemma demo_hash_le [simp]: "demo_hash a \<le> demo_hash b \<longleftrightarrow> a \<le> b"
  by (auto simp: demo_hash_def append_le_same)

lemma sum_list_zeros: "sum_list (replicate n (0 :: byte)) = 0"
  by (induction n) auto

lemma sum_demo_hash [simp]: "sum_list (demo_hash b) = b"
  by (simp add: demo_hash_def sum_list_zeros del: replicate_Suc)

definition demo_eth :: ethlib where
  "demo_eth = \<lparr>
     keccak = (\<lambda>bs. demo_hash (sum_list bs)),
     abi_encode = (\<lambda>vs. rbind (map_res demo_abi vs) (\<lambda>bss. Inr (concat bss))),
     to_checksum_address = demo_checksum,
     recover_message = demo_recover,
     key_address = (\<lambda>k. hex0x [demo_key k]),
     sign_message = (\<lambda>k d. to_hex (demo_key k # d))\<rparr>"

lemma demo_eth_simps [simp]:
  "keccak demo_eth bs = demo_hash (sum_list bs)"
  "abi_encode demo_eth vs = rbind (map_res demo_abi vs) (\<lambda>bss. Inr (concat bss))"
  "to_checksum_address demo_eth = demo_checksum"
  "recover_message demo_eth = demo_recover"
  "key_address demo_eth k = hex0x [demo_key k]"
  "sign_message demo_eth k d = to_hex (demo_key k # d)"
  by (simp_all add: demo_eth_def)

lemma demo_keccak_width: "keccak_width demo_eth"
  by (simp add: keccak_width_def)

lemma demo_recovers: "recovers_signer demo_eth"
  by (simp add: recovers_signer_def demo_recover_def strip_0x_with_0x)
    (simp add: strip_0x_def)

lemma demo_recover_prefix: "recover_ignores_prefix demo_eth"
  by (simp add: recover_ignores_prefix_def demo_recover_def strip_0x_with_0x)

lemma demo_checksum_Inr: "demo_checksum j = Inr a \<longleftrightarrow>
    (\<exists>s b. j = JStr s \<and> startswith s ox \<and> fromhex (drop 2 s) = Inr [b] \<and> a = hex0x [b])"
  by (cases j) (auto simp: demo_checksum_def length_Suc_conv split: if_splits)

lemma py_int_text_byte: "py_int_text 16 (hex0x [b]) = Inr (uint b)"
proof -
  let ?h = "unat b div 16" and ?l = "unat b mod 16"
  have h: "?h < 16" and l: "?l < 16" using unat_byte_bound [of b] by simp_all
  have sp: "\<not> is_space (hex_char ?h)" "\<not> is_space (hex_char ?l)" "\<not> is_space 48"
    using h l by (simp_all add: hex_char_not_ws) (simp add: is_space_def)
  have us: "hex_char n \<noteq> 95" if "n < 16" for n using that by (auto simp: hex_char_def)
  have strip: "strip_ws (hex0x [b]) = hex0x [b]"
    using sp by (simp add: strip_ws_def hex0x_def ox_def to_hex.simps)
  have val: "unsigned_int 16 (hex0x [b]) = Some (unat b)"
    using h l by (simp add: unsigned_int_def us to_hex.simps)
  have "hex0x [b] = 48 # 120 # to_hex [b]" by (simp add: hex0x_def ox_def)
  then have "py_int_text 16 (hex0x [b]) = Inr (int (unat b))"
    by (rule py_int_text_plain [OF strip _ _ _ val]) simp_all
  then show ?thesis by simp
qed

lemma demo_checksum_canonical: "checksum_canonical demo_eth"
  unfolding checksum_canonical_def checksum_def
  by (auto simp: demo_checksum_Inr py_int_text_byte word_uint_eq_iff)

lemma demo_checksum_hex0x [simp]:
  "demo_checksum (JStr (hex0x [b])) = Inr (hex0x [b])" "checksum demo_eth (hex0x [b]) = Inr (hex0x [b])"
  by (auto simp: demo_checksum_Inr checksum_def)

end
