(* ===== verification/Receipts.thy ===== *)
theory Receipts imports EthLib
begin

text \<open>
  \<open>miner/src/basedai_miner/receipts.py\<close>: receipts, their digest and signature check, and the batcher
  that redeems them on chain. A receipt's fields are what its maker put there: the miner checksums
  the addresses it reads (text), the client keeps those of an answer as they came (JSON), so the
  record leaves the type of the addresses open; hashes are not converted by either.
\<close>

section \<open>The code\<close>

record 'a receipt =
  rc_user :: 'a
  rc_miner :: 'a
  rc_brain_id :: int
  rc_prompt_hash :: json
  rc_response_hash :: json
  rc_amount :: int
  rc_expiry :: int
  rc_nonce :: int

text \<open>\<open>bytes.fromhex(h[2:])\<close>: slicing or decoding anything but text raises.\<close>

fun hash_bytes :: "json \<Rightarrow> bytes res" where
  "hash_bytes (JStr s) = fromhex (drop 2 s)"
| "hash_bytes _ = Inl TypeError"

type_synonym receipt_tuple = "pystr \<times> pystr \<times> int \<times> bytes \<times> bytes \<times> int \<times> int \<times> int"

definition to_tuple :: "pystr receipt \<Rightarrow> receipt_tuple res" where
  "to_tuple r =
     rbind (hash_bytes (rc_prompt_hash r)) (\<lambda>ph.
     rbind (hash_bytes (rc_response_hash r)) (\<lambda>rh.
       Inr (rc_user r, rc_miner r, rc_brain_id r, ph, rh, rc_amount r, rc_expiry r, rc_nonce r)))"

definition receipt_fields :: "pystr \<Rightarrow> int \<Rightarrow> pystr receipt \<Rightarrow> bytes \<Rightarrow> bytes \<Rightarrow> abi_val list" where
  "receipt_fields market_address chain_id r ph rh =
     [AAddress market_address, AUint 256 chain_id, AAddress (rc_user r), AAddress (rc_miner r),
      AUint 256 (rc_brain_id r), ABytes32 ph, ABytes32 rh, AUint 256 (rc_amount r),
      AUint 64 (rc_expiry r), AUint 256 (rc_nonce r)]"

definition receipt_digest :: "ethlib \<Rightarrow> pystr \<Rightarrow> int \<Rightarrow> pystr receipt \<Rightarrow> bytes res" where
  "receipt_digest E market_address chain_id r =
     rbind (hash_bytes (rc_prompt_hash r)) (\<lambda>ph.
     rbind (hash_bytes (rc_response_hash r)) (\<lambda>rh.
     rbind (abi_encode E (receipt_fields market_address chain_id r ph rh)) (\<lambda>encoded.
       Inr (keccak E encoded))))"

definition verify_user_signature :: "ethlib \<Rightarrow> pystr \<Rightarrow> int \<Rightarrow> pystr receipt \<Rightarrow> json \<Rightarrow> bool res" where
  "verify_user_signature E market_address chain_id r sig =
     rbind (receipt_digest E market_address chain_id r) (\<lambda>digest.
     rbind (recover_message E digest sig) (\<lambda>recovered.
       Inr (lower recovered = lower (rc_user r))))"

text \<open>The batcher: the market and the account are in the calls of \<open>flush\<close>.\<close>

type_synonym queued = "pystr receipt \<times> json"

record batcher =
  batch_size :: nat
  pending :: "queued list"

definition new_batcher :: "nat \<Rightarrow> batcher" where
  "new_batcher n = \<lparr>batch_size = n, pending = []\<rparr>"

definition batcher_add :: "batcher \<Rightarrow> pystr receipt \<Rightarrow> json \<Rightarrow> batcher" where
  "batcher_add q r user_sig = q\<lparr>pending := pending q @ [(r, user_sig)]\<rparr>"

definition same_slot :: "pystr receipt \<Rightarrow> pystr receipt \<Rightarrow> bool" where
  "same_slot r r' \<longleftrightarrow> lower (rc_user r) = lower (rc_user r') \<and> rc_nonce r = rc_nonce r'"

definition add_or_replace :: "batcher \<Rightarrow> pystr receipt \<Rightarrow> json \<Rightarrow> batcher" where
  "add_or_replace q r user_sig =
     q\<lparr>pending := filter (\<lambda>x. \<not> same_slot (fst x) r) (pending q) @ [(r, user_sig)]\<rparr>"

definition should_flush :: "batcher \<Rightarrow> bool" where
  "should_flush q \<longleftrightarrow> batch_size q \<le> length (pending q)"

text \<open>
  The calls \<open>flush\<close> makes for one receipt: building the transaction (with the account's next nonce),
  signing it and reading its \<open>rawTransaction\<close>, sending it. The number is the position in the batch,
  since the chain moves while the loop runs. Every failure is caught.
\<close>

record redeem_calls =
  build_transaction :: "nat \<Rightarrow> receipt_tuple \<Rightarrow> json \<Rightarrow> bytes res"
  raw_transaction :: "bytes \<Rightarrow> bytes res"
  send_raw_transaction :: "nat \<Rightarrow> bytes \<Rightarrow> pystr res"

definition redeem_one :: "redeem_calls \<Rightarrow> nat \<Rightarrow> queued \<Rightarrow> pystr res" where
  "redeem_one api i x =
     rbind (to_tuple (fst x)) (\<lambda>t.
     rbind (build_transaction api i t (snd x)) (\<lambda>tx.
     rbind (raw_transaction api tx) (\<lambda>raw. send_raw_transaction api i raw)))"

fun flush_loop :: "redeem_calls \<Rightarrow> nat \<Rightarrow> queued list \<Rightarrow> pystr list \<times> queued list" where
  "flush_loop api i [] = ([], [])"
| "flush_loop api i (x # xs) =
     (case flush_loop api (Suc i) xs of (tx_hashes, retained) \<Rightarrow>
        (case redeem_one api i x of
           Inl e \<Rightarrow> (tx_hashes, x # retained)
         | Inr h \<Rightarrow> (h # tx_hashes, retained)))"

definition batcher_flush :: "redeem_calls \<Rightarrow> batcher \<Rightarrow> batcher \<times> pystr list" where
  "batcher_flush api q =
     (case flush_loop api 0 (pending q) of (tx_hashes, retained) \<Rightarrow> (q\<lparr>pending := retained\<rparr>, tx_hashes))"

section \<open>Flushing\<close>

text \<open>The entries a flush redeems: those whose call succeeds at their position.\<close>

definition redeemed :: "redeem_calls \<Rightarrow> nat \<Rightarrow> queued list \<Rightarrow> (nat \<times> queued) list" where
  "redeemed api i xs = filter (\<lambda>(j, x). \<exists>h. redeem_one api j x = Inr h) (enumerate i xs)"

lemma flush_loop_eq:
  "flush_loop api i xs =
     (map (\<lambda>(j, x). projr (redeem_one api j x)) (redeemed api i xs),
      map snd (filter (\<lambda>(j, x). \<exists>e. redeem_one api j x = Inl e) (enumerate i xs)))"
  by (induction api i xs rule: flush_loop.induct)
    (auto simp: redeemed_def split: sum.splits)

lemma flush_loop_retained: "set (snd (flush_loop api i xs)) \<subseteq> set xs"
  by (induction api i xs rule: flush_loop.induct) (auto split: prod.splits sum.splits)

lemma flush_loop_mset:
  "mset xs = mset (map snd (redeemed api i xs)) + mset (snd (flush_loop api i xs))"
  by (induction api i xs rule: flush_loop.induct)
    (auto simp: redeemed_def split: prod.splits sum.splits)

lemma flush_loop_length: "length (fst (flush_loop api i xs)) = length (redeemed api i xs)"
  by (simp add: flush_loop_eq)

lemma redeemed_index: "(j, x) \<in> set (redeemed api i xs) \<Longrightarrow> i \<le> j \<and> j < i + length xs \<and> xs ! (j - i) = x"
  by (auto simp: redeemed_def in_set_enumerate_eq)

lemma distinct_redeemed: "distinct (map fst (redeemed api i xs))"
  by (simp add: redeemed_def distinct_map_filter)

lemma mem_add_or_replace:
  "x \<in> set (pending (add_or_replace q r s)) \<longleftrightarrow>
     x = (r, s) \<or> (x \<in> set (pending q) \<and> \<not> same_slot (fst x) r)"
  by (auto simp: add_or_replace_def)

lemma mem_batcher_flush: "x \<in> set (pending (fst (batcher_flush api q))) \<Longrightarrow> x \<in> set (pending q)"
  using flush_loop_retained [of api 0 "pending q"]
  by (auto simp: batcher_flush_def split: prod.splits)

section \<open>Properties\<close>

text \<open>
  A flush loses nothing: every queued receipt is either redeemed, and its transaction hash
  returned in order, or still queued in the old order; as a multiset the queue is what was redeemed
  together with what is left.
\<close>
theorem flush_keeps_failures:
  "mset (pending q) = mset (map snd (redeemed api 0 (pending q))) + mset (pending (fst (batcher_flush api q)))
   \<and> snd (batcher_flush api q) = map (\<lambda>(j, x). projr (redeem_one api j x)) (redeemed api 0 (pending q))
   \<and> pending (fst (batcher_flush api q)) =
       map snd (filter (\<lambda>(j, x). \<exists>e. redeem_one api j x = Inl e) (enumerate 0 (pending q)))
   \<and> batch_size (fst (batcher_flush api q)) = batch_size q"
  using flush_loop_mset [of "pending q" api 0]
  by (simp add: batcher_flush_def flush_loop_eq)

text \<open>
  With a library whose signed transactions have no attribute \<open>rawTransaction\<close> (eth-account from 0.13
  on calls it \<open>raw_transaction\<close>), every redemption raises inside the loop and is retried for ever.
\<close>
lemma flush_without_raw_attribute:
  assumes "\<And>tx. raw_transaction api tx = Inl AttributeError"
  shows "batcher_flush api q = (q, [])"
proof -
  have "\<exists>e. redeem_one api i x = Inl e" for i x
  proof (cases "to_tuple (fst x)")
    case (Inr t)
    then show ?thesis
      by (cases "build_transaction api i t (snd x)") (simp_all add: redeem_one_def assms)
  qed (simp add: redeem_one_def)
  then have "flush_loop api i xs = ([], xs)" for i xs
  proof (induction xs arbitrary: i)
    case (Cons x xs)
    obtain e where "redeem_one api i x = Inl e" using \<open>\<And>i x. \<exists>e. redeem_one api i x = Inl e\<close> by blast
    with Cons show ?case by simp
  qed simp
  then show ?thesis by (simp add: batcher_flush_def)
qed

end
