(* ===== verification/Market.thy ===== *)
theory Market imports Receipts
begin

text \<open>
  The user accounts of \<open>contracts/src/market/ComputeUnitMarket.sol\<close>, as far as the miner and the
  client depend on them: deposits, the two-step withdrawal, and \<open>redeem\<close> with all its guards. A
  reverted call is a \<open>market_error\<close>. Addresses are values in the contract and texts in the Python
  code, which compares them in lower case: mappings are keyed by the lower-cased text. Whether the
  token transfers of a call succeed is an argument; the fee split of \<open>_settle\<close> and the administration
  are in theory Fees; events are not modelled.
\<close>

section \<open>The contract\<close>

datatype market_error =
    InsufficientBalance | ExpiredReceipt | ReceiptLifetimeTooLong | EmptyResponse | NonceUsed
  | InvalidSignature | InvalidAmount | NoPendingWithdrawal | WithdrawalNotReady
  | ReservationExceedsCap | EnforcedPause | TransferFailed | ArithmeticPanic

definition WITHDRAW_DELAY :: int where "WITHDRAW_DELAY = 86400"

definition MAX_RECEIPT_LIFETIME :: int where "MAX_RECEIPT_LIFETIME = 86400"

record market =
  mk_balances :: "pystr \<Rightarrow> int"
  mk_used :: "pystr \<Rightarrow> int \<Rightarrow> bool"
  mk_withdrawals :: "pystr \<Rightarrow> int \<times> int"
  mk_max_reservation :: int
  mk_paused :: bool

type_synonym 'a call = "market_error + 'a"

definition market_quote :: "int \<Rightarrow> int \<Rightarrow> int \<Rightarrow> int \<Rightarrow> int call" where
  "market_quote price_per_byte price_per_request prompt_bytes response_bytes =
     (let q = price_per_request + price_per_byte * (prompt_bytes + response_bytes)
      in if q < 2 ^ 256 then Inr q else Inl ArithmeticPanic)"

definition market_deposit :: "bool \<Rightarrow> market \<Rightarrow> pystr \<Rightarrow> int \<Rightarrow> market call" where
  "market_deposit transfers m sender amount =
     (if mk_paused m then Inl EnforcedPause
      else if amount = 0 then Inl InvalidAmount
      else if \<not> transfers then Inl TransferFailed
      else if 2 ^ 256 \<le> mk_balances m (lower sender) + amount then Inl ArithmeticPanic
      else Inr (m\<lparr>mk_balances := (mk_balances m)(lower sender := mk_balances m (lower sender) + amount)\<rparr>))"

definition market_request_withdraw :: "int \<Rightarrow> market \<Rightarrow> pystr \<Rightarrow> int \<Rightarrow> market call" where
  "market_request_withdraw timestamp m sender amount =
     (if amount = 0 then Inl InvalidAmount
      else if mk_balances m (lower sender) < amount then Inl InsufficientBalance
      else Inr (m\<lparr>mk_withdrawals := (mk_withdrawals m)(lower sender := (amount, timestamp + WITHDRAW_DELAY))\<rparr>))"

definition market_cancel_withdraw :: "market \<Rightarrow> pystr \<Rightarrow> market call" where
  "market_cancel_withdraw m sender =
     (if snd (mk_withdrawals m (lower sender)) = 0 then Inl NoPendingWithdrawal
      else Inr (m\<lparr>mk_withdrawals := (mk_withdrawals m)(lower sender := (0, 0))\<rparr>))"

definition market_withdraw :: "bool \<Rightarrow> int \<Rightarrow> market \<Rightarrow> pystr \<Rightarrow> market call" where
  "market_withdraw transfers timestamp m sender =
     (case mk_withdrawals m (lower sender) of (requested, ready_at) \<Rightarrow>
        if ready_at = 0 then Inl NoPendingWithdrawal
        else if timestamp < ready_at then Inl WithdrawalNotReady
        else
          (let bal = mk_balances m (lower sender);
               amount = (if requested < bal then requested else bal)
           in if amount = 0 then Inl InsufficientBalance
              else if \<not> transfers then Inl TransferFailed
              else Inr (m\<lparr>mk_withdrawals := (mk_withdrawals m)(lower sender := (0, 0)),
                         mk_balances := (mk_balances m)(lower sender := bal - amount)\<rparr>)))"

text \<open>\<open>bytes32(nonce)\<close>: big endian.\<close>

fun be_bytes :: "nat \<Rightarrow> int \<Rightarrow> bytes" where
  "be_bytes 0 n = []"
| "be_bytes (Suc k) n = be_bytes k (n div 256) @ [of_int n]"

definition sentinel_hash :: "ethlib \<Rightarrow> bytes \<Rightarrow> int \<Rightarrow> bytes" where
  "sentinel_hash E prompt_hash n = keccak E (prompt_hash @ be_bytes 32 n)"

fun market_digest :: "ethlib \<Rightarrow> pystr \<Rightarrow> int \<Rightarrow> receipt_tuple \<Rightarrow> bytes res" where
  "market_digest E this chain (user, miner, brain_id, ph, rh, amount, expiry, n) =
     rbind (abi_encode E [AAddress this, AUint 256 chain, AAddress user, AAddress miner,
              AUint 256 brain_id, ABytes32 ph, ABytes32 rh, AUint 256 amount, AUint 64 expiry,
              AUint 256 n]) (\<lambda>enc. Inr (keccak E enc))"

fun market_redeem ::
    "ethlib \<Rightarrow> pystr \<Rightarrow> int \<Rightarrow> bool \<Rightarrow> int \<Rightarrow> market \<Rightarrow> pystr \<Rightarrow> receipt_tuple \<Rightarrow> json \<Rightarrow> market call"
where
  "market_redeem E this chain transfers timestamp m sender
      (user, miner, brain_id, ph, rh, amount, expiry, n) sig =
     (if mk_paused m then Inl EnforcedPause
      else if expiry < timestamp then Inl ExpiredReceipt
      else if timestamp + MAX_RECEIPT_LIFETIME < expiry then Inl ReceiptLifetimeTooLong
      else if rh = replicate 32 0 then Inl EmptyResponse
      else if amount = 0 then Inl InvalidAmount
      else if rh = sentinel_hash E ph n \<and> mk_max_reservation m < amount then Inl ReservationExceedsCap
      else if mk_used m (lower user) n then Inl NonceUsed
      else if mk_balances m (lower user) < amount then Inl InsufficientBalance
      else if lower sender \<noteq> lower miner then Inl InvalidSignature
      else
        (case rbind (market_digest E this chain (user, miner, brain_id, ph, rh, amount, expiry, n))
                (\<lambda>digest. recover_message E digest sig) of
           Inl e \<Rightarrow> Inl InvalidSignature
         | Inr signer \<Rightarrow>
             if lower signer \<noteq> lower user then Inl InvalidSignature
             else if \<not> transfers then Inl TransferFailed
             else Inr (m\<lparr>mk_used := (mk_used m)(lower user := (mk_used m (lower user))(n := True)),
                        mk_balances := (mk_balances m)(lower user := mk_balances m (lower user) - amount)\<rparr>)))"

section \<open>The contract as an event machine\<close>

text \<open>The calls with their senders; the log records the receipts paid, as \<open>ReceiptRedeemed\<close> does.\<close>

datatype market_event =
    Deposit bool pystr int
  | RequestWithdraw int pystr int
  | CancelWithdraw pystr
  | Withdraw bool int pystr
  | Redeem bool int pystr receipt_tuple json

fun tuple_key :: "receipt_tuple \<Rightarrow> pystr \<times> int" where
  "tuple_key (user, miner, brain_id, ph, rh, amount, expiry, n) = (lower user, n)"

fun tuple_amount :: "receipt_tuple \<Rightarrow> int" where
  "tuple_amount (user, miner, brain_id, ph, rh, amount, expiry, n) = amount"

definition or_reverted :: "market \<Rightarrow> market call \<Rightarrow> market" where
  "or_reverted m c = (case c of Inl e \<Rightarrow> m | Inr m' \<Rightarrow> m')"

fun market_step ::
    "ethlib \<Rightarrow> pystr \<Rightarrow> int \<Rightarrow> market \<times> receipt_tuple list \<Rightarrow> market_event \<Rightarrow> market \<times> receipt_tuple list"
where
  "market_step E this chain (m, paid) (Deposit tr sender amount) =
     (or_reverted m (market_deposit tr m sender amount), paid)"
| "market_step E this chain (m, paid) (RequestWithdraw t sender amount) =
     (or_reverted m (market_request_withdraw t m sender amount), paid)"
| "market_step E this chain (m, paid) (CancelWithdraw sender) =
     (or_reverted m (market_cancel_withdraw m sender), paid)"
| "market_step E this chain (m, paid) (Withdraw tr t sender) =
     (or_reverted m (market_withdraw tr t m sender), paid)"
| "market_step E this chain (m, paid) (Redeem tr t sender tu sig) =
     (case market_redeem E this chain tr t m sender tu sig of
        Inl e \<Rightarrow> (m, paid)
      | Inr m' \<Rightarrow> (m', paid @ [tu]))"

definition market_ok :: "market \<times> receipt_tuple list \<Rightarrow> bool" where
  "market_ok x \<longleftrightarrow> (case x of (m, paid) \<Rightarrow>
     distinct (map tuple_key paid)
     \<and> (\<forall>u n. mk_used m u n = ((u, n) \<in> set (map tuple_key paid))))"

text \<open>A new market has used no nonce.\<close>

definition market_new :: "market \<Rightarrow> bool" where
  "market_new m \<longleftrightarrow> (\<forall>u n. \<not> mk_used m u n)"

lemma redeem_Inr:
  assumes "market_redeem E this chain tr t m sender tu sig = Inr m'"
  shows "\<not> mk_used m (fst (tuple_key tu)) (snd (tuple_key tu))
    \<and> mk_used m' = (mk_used m)(fst (tuple_key tu) := (mk_used m (fst (tuple_key tu)))(snd (tuple_key tu) := True))
    \<and> tuple_amount tu \<le> mk_balances m (fst (tuple_key tu))
    \<and> mk_balances m' = (mk_balances m)(fst (tuple_key tu) := mk_balances m (fst (tuple_key tu)) - tuple_amount tu)
    \<and> (\<exists>digest signer. market_digest E this chain tu = Inr digest \<and> recover_message E digest sig = Inr signer
        \<and> lower signer = fst (tuple_key tu))"
  using assms
  by (cases tu) (auto split: if_splits sum.splits simp: rbind_Inl_iff)

lemma used_unchanged [simp]:
  "mk_used (or_reverted m (market_deposit tr m s a)) = mk_used m"
  "mk_used (or_reverted m (market_request_withdraw t m s a)) = mk_used m"
  "mk_used (or_reverted m (market_cancel_withdraw m s)) = mk_used m"
  "mk_used (or_reverted m (market_withdraw tr t m s)) = mk_used m"
  by (simp_all add: or_reverted_def market_deposit_def market_request_withdraw_def
      market_cancel_withdraw_def market_withdraw_def Let_def split: prod.splits)

lemma market_ok_step:
  assumes "market_ok x"
  shows "market_ok (market_step E this chain x ev)"
proof -
  obtain m paid where x: "x = (m, paid)" by (cases x)
  show ?thesis
  proof (cases ev)
    case (Redeem tr t sender tu sig)
    show ?thesis
    proof (cases "market_redeem E this chain tr t m sender tu sig")
      case (Inr m')
      obtain u n where key: "tuple_key tu = (u, n)" by (cases "tuple_key tu")
      from redeem_Inr [OF Inr] key assms x Inr Redeem show ?thesis
        by (auto simp: market_ok_def)
    qed (use assms x Redeem in simp)
  qed (use assms x in \<open>simp_all add: market_ok_def\<close>)
qed

interpretation market_machine: event_machine "market_step E this chain"
    "\<lambda>x. market_new (fst x) \<and> snd x = []" market_ok for E this chain
proof
  fix x :: "market \<times> receipt_tuple list" and ev
  show "market_ok x \<Longrightarrow> market_ok (market_step E this chain x ev)" by (rule market_ok_step)
  show "market_new (fst x) \<and> snd x = [] \<Longrightarrow> market_ok x"
    by (cases x) (simp add: market_new_def market_ok_def)
qed

section \<open>Properties\<close>

lemma market_digest_to_tuple:
  "to_tuple r = Inr tu \<Longrightarrow> market_digest E this chain tu = receipt_digest E this chain r"
  by (auto simp: to_tuple_def receipt_digest_def receipt_fields_def)


definition demo_market :: market where
  "demo_market = \<lparr>mk_balances = (\<lambda>_. 100), mk_used = (\<lambda>_ _. False), mk_withdrawals = (\<lambda>_. (0, 0)),
     mk_max_reservation = 50, mk_paused = False\<rparr>"

definition demo_tuple :: "int \<Rightarrow> receipt_tuple" where
  "demo_tuple a = (hex0x [7], hex0x [8], 3, demo_hash 1, demo_hash 2, a, 200, 5)"

definition demo_receipt_sig :: "int \<Rightarrow> json" where
  "demo_receipt_sig a = JStr (sign_message demo_eth [7]
     (projr (market_digest demo_eth (hex0x [9]) 1 (demo_tuple a))))"

abbreviation demo_redeem :: "int \<Rightarrow> market_event" where
  "demo_redeem a \<equiv> Redeem True 100 (hex0x [8]) (demo_tuple a) (demo_receipt_sig a)"

lemma demo_hash_zero [simp]: "demo_hash b = replicate 32 0 \<longleftrightarrow> b = 0"
proof -
  have "replicate 32 (0 :: byte) = demo_hash 0" by (simp add: demo_hash_def numeral_eq_Suc replicate_append_same)
  then show ?thesis by simp
qed

lemma demo_recover_own [simp]: "demo_recover d (JStr (to_hex (b # d))) = Inr (hex0x [b])"
  by (simp add: demo_recover_def) (simp add: strip_0x_def)

lemma demo_redeem_once:
  "snd (market_step demo_eth (hex0x [9]) 1 (demo_market, []) (demo_redeem 10)) = [demo_tuple 10]"
  by (simp add: demo_market_def demo_tuple_def demo_receipt_sig_def sentinel_hash_def
      demo_key_def MAX_RECEIPT_LIFETIME_def)


text \<open>
  Withdrawing before redeeming: a user whose withdrawal is ready takes the whole balance out, and
  from then on no receipt of theirs can be redeemed, whatever a miner saw before.
\<close>

lemma withdrawn_collateral_is_gone:
  assumes "mk_withdrawals m (lower user) = (requested, ready_at)" and "ready_at \<noteq> 0" and "ready_at \<le> t"
    and "0 < mk_balances m (lower user)" and "mk_balances m (lower user) \<le> requested"
  shows "\<exists>m'. market_withdraw True t m user = Inr m' \<and> mk_balances m' (lower user) = 0
     \<and> (\<forall>chain this tr t' sender tu sig m''. fst (tuple_key tu) = lower user \<longrightarrow> 0 \<le> tuple_amount tu \<longrightarrow>
          market_redeem E this chain tr t' m' sender tu sig \<noteq> Inr m'')"
proof -
  let ?m' = "m\<lparr>mk_withdrawals := (mk_withdrawals m)(lower user := (0, 0)),
               mk_balances := (mk_balances m)(lower user := 0)\<rparr>"
  have "market_withdraw True t m user = Inr ?m'"
    using assms by (simp add: market_withdraw_def Let_def)
  then show ?thesis by (intro exI [of _ ?m']) auto
qed

end
