(* ===== verification/Miner.thy ===== *)
theory Miner imports Market
begin

text \<open>
  \<open>miner/src/basedai_miner/runtime.py\<close> and \<open>inference.py\<close>: the request handlers of the miner, the
  registration check and the receipt queue they feed. A handler takes the payload bytes; \<open>loads\<close> is
  \<open>json.loads\<close>, the reply is the JSON value that \<open>json.dumps(...).encode()\<close> sends. \<open>_handle_infer\<close>
  awaits the engine between its checks and the queueing of the receipt, so it has two steps here and
  other requests may come between them.
\<close>

section \<open>Inference\<close>

record inference_request =
  iq_prompt :: pystr
  iq_max_tokens :: int
  iq_temperature :: rat
  iq_top_p :: rat
  iq_seed :: "int option"

text \<open>The dataclass defaults.\<close>

definition new_inference_request :: "pystr \<Rightarrow> inference_request" where
  "new_inference_request prompt =
     \<lparr>iq_prompt = prompt, iq_max_tokens = 256, iq_temperature = 7 / 10, iq_top_p = 95 / 100, iq_seed = None\<rparr>"

record inference_response =
  ir_text :: pystr
  ir_prompt_hash :: pystr
  ir_response_hash :: pystr
  ir_tokens_in :: int
  ir_tokens_out :: int
  ir_latency_ms :: int

definition text_hash :: "ethlib \<Rightarrow> pystr \<Rightarrow> pystr res" where
  "text_hash E s = rbind (keccak_text E s) (\<lambda>h. Inr (ox @ to_hex h))"

text \<open>\<open>generate\<close>: the engine is \<open>None\<close> until it is started; \<open>elapsed\<close> is the measured time.\<close>

definition generate ::
    "ethlib \<Rightarrow> (inference_request \<Rightarrow> pystr res) option \<Rightarrow> int \<Rightarrow> inference_request \<Rightarrow> inference_response res" where
  "generate E engine elapsed req =
     (case engine of
        None \<Rightarrow> Inl (RuntimeError (lit ''Engine not started''))
      | Some backend \<Rightarrow>
          rbind (backend req) (\<lambda>text.
          rbind (text_hash E (iq_prompt req)) (\<lambda>prompt_hash.
          rbind (text_hash E text) (\<lambda>response_hash.
            Inr \<lparr>ir_text = text, ir_prompt_hash = prompt_hash, ir_response_hash = response_hash,
                 ir_tokens_in = int (length (split_ws (iq_prompt req))),
                 ir_tokens_out = int (length (split_ws text)), ir_latency_ms = elapsed\<rparr>))))"

section \<open>Configuration and chain\<close>

record miner_config =
  mc_brain_id :: int
  mc_market :: pystr
  mc_chain_id :: int
  mc_key :: pystr
  mc_max_fee :: int

text \<open>What the contracts answer at one moment, and the clock.\<close>

record miner_view =
  used_nonces :: "pystr \<Rightarrow> int \<Rightarrow> bool res"
  balances :: "pystr \<Rightarrow> int res"
  price_per_byte :: "int res"
  price_per_request :: "int res"
  view_is_miner :: "int \<Rightarrow> pystr \<Rightarrow> bool res"
  view_is_validator :: "int \<Rightarrow> pystr \<Rightarrow> bool res"
  clock :: int

definition miner_address :: "ethlib \<Rightarrow> miner_config \<Rightarrow> pystr" where
  "miner_address E cfg = key_address E (mc_key cfg)"

definition MAX_PAYLOAD_BYTES :: nat where "MAX_PAYLOAD_BYTES = 256 * 1024"

definition MAX_PROMPT_CHARS :: nat where "MAX_PROMPT_CHARS = 32 * 1024"

text \<open>Any exception of the two calls becomes one \<open>RuntimeError\<close>.\<close>

definition miner_quote :: "miner_view \<Rightarrow> pystr \<Rightarrow> pystr \<Rightarrow> int res" where
  "miner_quote mv prompt response =
     (case (price_per_byte mv, price_per_request mv) of
        (Inr ppt, Inr ppr) \<Rightarrow>
          if ppt \<le> 0 \<and> ppr \<le> 0 then Inl (RuntimeError (lit ''market pricing is disabled''))
          else rbind (utf8_encode prompt) (\<lambda>p.
               rbind (utf8_encode response) (\<lambda>r.
                 Inr (ppr + ppt * (int (length p) + int (length r)))))
      | _ \<Rightarrow> Inl (RuntimeError (lit ''market pricing unavailable'')))"

text \<open>
  \<open>verify_registration\<close>: the registry before and after the transaction, which is sent (with the
  configured fee cap, or 2\<open>^\<close>255) and awaited only when the miner is not registered.
\<close>

definition verify_registration ::
    "ethlib \<Rightarrow> miner_config \<Rightarrow> miner_view \<Rightarrow> (int \<Rightarrow> int \<Rightarrow> unit res) \<Rightarrow> miner_view
       \<Rightarrow> (int \<times> int) option \<times> bool res" where
  "verify_registration E cfg before send_register after =
     (case view_is_miner before (mc_brain_id cfg) (miner_address E cfg) of
        Inl e \<Rightarrow> (None, Inl e)
      | Inr True \<Rightarrow> (None, Inr True)
      | Inr False \<Rightarrow>
          (let max_fee = (if mc_max_fee cfg \<noteq> 0 then mc_max_fee cfg else 2 ^ 255)
           in (Some (mc_brain_id cfg, max_fee),
               rbind (send_register (mc_brain_id cfg) max_fee) (\<lambda>_.
                 view_is_miner after (mc_brain_id cfg) (miner_address E cfg)))))"

definition check_eligibility ::
    "ethlib \<Rightarrow> miner_config \<Rightarrow> miner_view \<Rightarrow> pystr receipt \<Rightarrow> int option \<Rightarrow> pystr option" where
  "check_eligibility E cfg mv r min_balance =
     (if rc_brain_id r \<noteq> mc_brain_id cfg then Some (lit ''wrong brain'')
      else if lower (rc_miner r) \<noteq> lower (miner_address E cfg) then Some (lit ''wrong miner'')
      else if rc_expiry r \<le> clock mv then Some (lit ''expired'')
      else
        (case rbind (checksum E (rc_user r)) (\<lambda>u. used_nonces mv u (rc_nonce r)) of
           Inl e \<Rightarrow> Some (lit ''eligibility check failed'')
         | Inr True \<Rightarrow> Some (lit ''nonce used'')
         | Inr False \<Rightarrow>
             (case rbind (checksum E (rc_user r)) (balances mv) of
                Inl e \<Rightarrow> Some (lit ''eligibility check failed'')
              | Inr balance \<Rightarrow>
                  if balance < (case min_balance of Some b \<Rightarrow> b | None \<Rightarrow> rc_amount r)
                  then Some (lit ''insufficient user balance'') else None)))"

section \<open>The handlers\<close>

definition err_reply :: "pystr \<Rightarrow> json" where
  "err_reply msg = JObj [(lit ''error'', JStr msg)]"

text \<open>
  The \<open>except\<close> clauses the handlers share; \<open>txt\<close> is \<open>str(e)\<close> for the exceptions whose message is
  not ours.
\<close>

fun exc_text :: "(pyexc \<Rightarrow> pystr) \<Rightarrow> pyexc \<Rightarrow> pystr" where
  "exc_text txt (RuntimeError m) = m"
| "exc_text txt e = txt e"

definition answer :: "(pyexc \<Rightarrow> pystr) \<Rightarrow> string \<Rightarrow> json res \<Rightarrow> json" where
  "answer txt label x =
     (case x of
        Inr j \<Rightarrow> j
      | Inl e \<Rightarrow> if is_malformed e then err_reply (lit label @ exc_text txt e) else err_reply (exc_text txt e))"

text \<open>The \<open>Receipt(...)\<close> both receipt handlers build.\<close>

definition read_receipt :: "ethlib \<Rightarrow> json \<Rightarrow> pystr receipt res" where
  "read_receipt E rd =
     rbind (rbind (jkey rd (lit ''user'')) (to_checksum_address E)) (\<lambda>user.
     rbind (rbind (jkey rd (lit ''miner'')) (to_checksum_address E)) (\<lambda>miner.
     rbind (rbind (jkey rd (lit ''brain_id'')) py_int) (\<lambda>brain_id.
     rbind (jkey rd (lit ''prompt_hash'')) (\<lambda>prompt_hash.
     rbind (jkey rd (lit ''response_hash'')) (\<lambda>response_hash.
     rbind (rbind (jkey rd (lit ''amount'')) py_int) (\<lambda>amount.
     rbind (rbind (jkey rd (lit ''expiry'')) py_int) (\<lambda>expiry.
     rbind (rbind (jkey rd (lit ''nonce'')) py_int) (\<lambda>n.
       Inr \<lparr>rc_user = user, rc_miner = miner, rc_brain_id = brain_id, rc_prompt_hash = prompt_hash,
            rc_response_hash = response_hash, rc_amount = amount, rc_expiry = expiry, rc_nonce = n\<rparr>))))))))"

text \<open>\<open>h.lower()\<close> exists only on text.\<close>

fun jlower :: "json \<Rightarrow> pystr res" where
  "jlower (JStr s) = Inr (lower s)"
| "jlower _ = Inl AttributeError"

fun prompt_ok :: "json \<Rightarrow> bool" where
  "prompt_ok (JStr s) = (length s \<le> MAX_PROMPT_CHARS)"
| "prompt_ok _ = False"

fun jtext :: "json \<Rightarrow> pystr" where
  "jtext (JStr s) = s"
| "jtext _ = []"

text \<open>
  A request that passed all checks of \<open>_handle_infer\<close> and waits for the engine. The checks end with
  an exception, with an early \<open>return _err(...)\<close>, or here.
\<close>

record served =
  sv_prompt :: pystr
  sv_receipt :: "pystr receipt"
  sv_sig :: json
  sv_budget :: int

datatype 'a verdict = Refuse pystr | Accept 'a

definition infer_check ::
    "ethlib \<Rightarrow> miner_config \<Rightarrow> (bytes \<Rightarrow> json res) \<Rightarrow> miner_view \<Rightarrow> bytes \<Rightarrow> served verdict res" where
  "infer_check E cfg loads mv payload =
     (if MAX_PAYLOAD_BYTES < length payload then Inr (Refuse (lit ''payload too large''))
      else
        rbind (loads payload) (\<lambda>req_data.
        rbind (jkey req_data (lit ''user_signature'')) (\<lambda>user_sig.
        rbind (jkey req_data (lit ''receipt'')) (\<lambda>receipt_data.
        rbind (jkey req_data (lit ''prompt'')) (\<lambda>p.
        if \<not> prompt_ok p then Inr (Refuse (lit ''invalid or oversized prompt''))
        else
          let prompt = jtext p in
          rbind (read_receipt E receipt_data) (\<lambda>r.
          rbind (text_hash E prompt) (\<lambda>expected_ph.
          rbind (jlower (rc_prompt_hash r)) (\<lambda>ph.
          if ph \<noteq> lower expected_ph then Inr (Refuse (lit ''prompt hash mismatch''))
          else
            rbind (verify_user_signature E (mc_market cfg) (mc_chain_id cfg) r user_sig) (\<lambda>ok.
            if \<not> ok then Inr (Refuse (lit ''bad signature''))
            else
              rbind (rbind (jget req_data (lit ''budget'') (JInt (rc_amount r))) py_int) (\<lambda>asked.
              let budget = (if asked < rc_amount r then rc_amount r else asked) in
              case check_eligibility E cfg mv r (Some budget) of
                Some err \<Rightarrow> Inr (Refuse err)
              | None \<Rightarrow> Inr (Accept \<lparr>sv_prompt = prompt, sv_receipt = r, sv_sig = user_sig,
                                   sv_budget = budget\<rparr>)))))))))))"

definition sign_response :: "ethlib \<Rightarrow> miner_config \<Rightarrow> inference_response \<Rightarrow> pystr res" where
  "sign_response E cfg response =
     rbind (fromhex (drop 2 (ir_prompt_hash response))) (\<lambda>ph.
     rbind (fromhex (drop 2 (ir_response_hash response))) (\<lambda>rh.
     rbind (abi_encode E [AUint 256 (mc_brain_id cfg), ABytes32 ph, ABytes32 rh]) (\<lambda>enc.
       Inr (sign_message E (mc_key cfg) (keccak E enc)))))"

definition final_receipt_json :: "pystr receipt \<Rightarrow> inference_response \<Rightarrow> int \<Rightarrow> json" where
  "final_receipt_json r response charge =
     JObj [(lit ''user'', JStr (rc_user r)), (lit ''miner'', JStr (rc_miner r)),
           (lit ''brain_id'', JInt (rc_brain_id r)), (lit ''prompt_hash'', rc_prompt_hash r),
           (lit ''response_hash'', JStr (ir_response_hash response)), (lit ''amount'', JInt charge),
           (lit ''expiry'', JInt (rc_expiry r)), (lit ''nonce'', JInt (rc_nonce r))]"

definition infer_reply :: "pystr receipt \<Rightarrow> inference_response \<Rightarrow> int \<Rightarrow> pystr \<Rightarrow> json" where
  "infer_reply r response charge signature =
     JObj [(lit ''text'', JStr (ir_text response)),
           (lit ''prompt_hash'', JStr (ir_prompt_hash response)),
           (lit ''response_hash'', JStr (ir_response_hash response)),
           (lit ''tokens_in'', JInt (ir_tokens_in response)),
           (lit ''tokens_out'', JInt (ir_tokens_out response)),
           (lit ''final_receipt'', final_receipt_json r response charge),
           (lit ''miner_signature'', JStr signature)]"

text \<open>From the engine on: queue the pre-authorization, then price and sign the answer.\<close>

definition infer_finish ::
    "ethlib \<Rightarrow> miner_config \<Rightarrow> miner_view \<Rightarrow> (inference_request \<Rightarrow> pystr res) option \<Rightarrow> int \<Rightarrow> served
       \<Rightarrow> batcher \<Rightarrow> batcher \<times> json res" where
  "infer_finish E cfg mv engine elapsed sv q =
     (case generate E engine elapsed (new_inference_request (sv_prompt sv)) of
        Inl e \<Rightarrow> (q, Inl e)
      | Inr response \<Rightarrow>
          (batcher_add q (sv_receipt sv) (sv_sig sv),
           rbind (miner_quote mv (sv_prompt sv) (ir_text response)) (\<lambda>q.
           let charge = min q (sv_budget sv) in
           rbind (sign_response E cfg response) (\<lambda>signature.
             Inr (infer_reply (sv_receipt sv) response charge signature)))))"

text \<open>\<open>_handle_settle\<close>: its checks, then the queueing.\<close>

definition settle_check ::
    "ethlib \<Rightarrow> miner_config \<Rightarrow> (bytes \<Rightarrow> json res) \<Rightarrow> miner_view \<Rightarrow> bytes \<Rightarrow> queued verdict res" where
  "settle_check E cfg loads mv payload =
     rbind (loads payload) (\<lambda>data.
     rbind (jkey data (lit ''receipt'')) (\<lambda>receipt_data.
     rbind (jkey data (lit ''user_signature'')) (\<lambda>user_sig.
     rbind (read_receipt E receipt_data) (\<lambda>r.
     if rc_response_hash r = JStr (ox @ concat (replicate 32 (lit ''00'')))
     then Inr (Refuse (lit ''final receipt must bind a delivered response''))
     else
       rbind (verify_user_signature E (mc_market cfg) (mc_chain_id cfg) r user_sig) (\<lambda>ok.
       if \<not> ok then Inr (Refuse (lit ''bad signature''))
       else case check_eligibility E cfg mv r None of
           Some err \<Rightarrow> Inr (Refuse err)
         | None \<Rightarrow> Inr (Accept (r, user_sig)))))))"

definition handle_settle ::
    "ethlib \<Rightarrow> miner_config \<Rightarrow> (bytes \<Rightarrow> json res) \<Rightarrow> miner_view \<Rightarrow> batcher \<Rightarrow> bytes
       \<Rightarrow> batcher \<times> json res" where
  "handle_settle E cfg loads mv q payload =
     (case settle_check E cfg loads mv payload of
        Inl e \<Rightarrow> (q, Inl e)
      | Inr (Refuse msg) \<Rightarrow> (q, Inr (err_reply msg))
      | Inr (Accept (r, user_sig)) \<Rightarrow> (add_or_replace q r user_sig, Inr (JObj [(lit ''ok'', JBool True)])))"

definition challenge_reply :: "inference_response \<Rightarrow> pystr \<Rightarrow> json" where
  "challenge_reply response signature =
     JObj [(lit ''text'', JStr (ir_text response)),
           (lit ''response_hash'', JStr (ir_response_hash response)),
           (lit ''miner_signature'', JStr signature)]"

definition challenge_digest :: "ethlib \<Rightarrow> int \<Rightarrow> pystr \<Rightarrow> int \<Rightarrow> bytes res" where
  "challenge_digest E brain_id prompt seed =
     rbind (keccak_text E prompt) (\<lambda>ph.
     rbind (abi_encode E [AUint 256 brain_id, ABytes32 ph, AUint 256 seed]) (\<lambda>enc.
       Inr (keccak E enc)))"

text \<open>The part of \<open>_handle_challenge\<close> before the engine.\<close>

definition challenge_check ::
    "ethlib \<Rightarrow> miner_config \<Rightarrow> (bytes \<Rightarrow> json res) \<Rightarrow> miner_view \<Rightarrow> bytes \<Rightarrow> (pystr \<times> int) verdict res" where
  "challenge_check E cfg loads mv payload =
     (if MAX_PAYLOAD_BYTES < length payload then Inr (Refuse (lit ''payload too large''))
      else
        rbind (loads payload) (\<lambda>data.
        rbind (jkey data (lit ''prompt'')) (\<lambda>p.
        rbind (rbind (jkey data (lit ''validator'')) (to_checksum_address E)) (\<lambda>validator.
        rbind (jkey data (lit ''validator_signature'')) (\<lambda>challenge_sig.
        rbind (rbind (jget data (lit ''seed'') (JInt 0)) py_int) (\<lambda>seed.
        if \<not> prompt_ok p then Inr (Refuse (lit ''invalid or oversized prompt''))
        else
          rbind (challenge_digest E (mc_brain_id cfg) (jtext p) seed) (\<lambda>digest.
          rbind (recover_message E digest challenge_sig) (\<lambda>recovered.
          if lower recovered \<noteq> lower validator then Inr (Refuse (lit ''bad validator signature''))
          else case view_is_validator mv (mc_brain_id cfg) validator of
              Inl e \<Rightarrow> Inr (Refuse (lit ''validator check failed''))
            | Inr False \<Rightarrow> Inr (Refuse (lit ''not a registered validator''))
            | Inr True \<Rightarrow> Inr (Accept (jtext p, seed))))))))))"

definition handle_challenge ::
    "ethlib \<Rightarrow> miner_config \<Rightarrow> (bytes \<Rightarrow> json res) \<Rightarrow> miner_view
       \<Rightarrow> (inference_request \<Rightarrow> pystr res) option \<Rightarrow> int \<Rightarrow> bytes \<Rightarrow> json res" where
  "handle_challenge E cfg loads mv engine elapsed payload =
     rbind (challenge_check E cfg loads mv payload) (\<lambda>v.
     case v of
       Refuse msg \<Rightarrow> Inr (err_reply msg)
     | Accept (prompt, seed) \<Rightarrow>
         rbind (generate E engine elapsed
                  ((new_inference_request prompt)\<lparr>iq_temperature := 0, iq_seed := Some seed\<rparr>)) (\<lambda>response.
         rbind (sign_response E cfg response) (\<lambda>signature.
           Inr (challenge_reply response signature))))"

end
