(* ===== verification/Client.thy ===== *)
theory Client imports Miner
begin

text \<open>
  \<open>client/python/basedai_client/client.py\<close> and \<open>types.py\<close>: choosing a miner, the pre-authorization,
  the checks of the miner's answer, the counter-signed final receipt and its settlement. The HTTP
  calls, the clock, the random nonce and the contracts' answers are arguments; the signatures made
  and the settlement sent are part of the outcome, also when the call raises.

  \<open>Web3.keccak(...).hex()\<close> has no \<open>0x\<close> prefix with the locked \<open>hexbytes\<close> 1.3.1.
\<close>

section \<open>Types and configuration\<close>

record client_request =
  rq_brain_id :: int
  rq_prompt :: pystr
  rq_budget :: int
  rq_max_tokens :: int
  rq_temperature :: rat
  rq_expiry :: "int option"
  rq_reservation :: int

record client_response =
  rs_text :: json
  rs_miner :: json
  rs_prompt_hash :: json
  rs_response_hash :: json
  rs_tokens_in :: json
  rs_tokens_out :: json
  rs_amount :: int
  rs_miner_signature :: json

record client_config =
  cc_chain_id :: int
  cc_market :: pystr
  cc_key :: "pystr option"

definition DEFAULT_RESERVATION :: int where "DEFAULT_RESERVATION = 10 ^ 16"

text \<open>
  The world of one call: the answer to the miner list (status and body), the answer to the posted
  request (raised, or a status and a body), whether the settlement went through, the two prices,
  the clock and \<open>secrets.randbits(64)\<close>.
\<close>

record client_world =
  w_miners :: "nat \<times> json"
  w_answer :: "json \<Rightarrow> (nat \<times> json res) res"
  w_price_per_byte :: "int res"
  w_price_per_request :: "int res"
  w_now :: int
  w_nonce :: int

section \<open>Choosing a miner\<close>

definition list_miners :: "client_world \<Rightarrow> json" where
  "list_miners w = (case w_miners w of (status, body) \<Rightarrow> if status \<noteq> 200 then JList [] else body)"

text \<open>
  Python's \<open>x > y\<close> on decoded numbers (booleans are integers) and on texts; other operands, lists
  among them, are refused here.
\<close>

fun jnum :: "json \<Rightarrow> jfloat option" where
  "jnum (JInt i) = Some (Finite (of_int i))"
| "jnum (JBool b) = Some (Finite (if b then 1 else 0))"
| "jnum (JFloat f) = Some f"
| "jnum _ = None"

fun float_gt :: "jfloat \<Rightarrow> jfloat \<Rightarrow> bool" where
  "float_gt (Finite x) (Finite y) = (y < x)"
| "float_gt (Finite x) NegInf = True"
| "float_gt PosInf (Finite y) = True"
| "float_gt PosInf NegInf = True"
| "float_gt _ _ = False"

definition py_gt :: "json \<Rightarrow> json \<Rightarrow> bool res" where
  "py_gt x y =
     (case (jnum x, jnum y) of
        (Some a, Some b) \<Rightarrow> Inr (float_gt a b)
      | _ \<Rightarrow> (case (x, y) of (JStr a, JStr b) \<Rightarrow> Inr (b < a) | _ \<Rightarrow> Inl TypeError))"

text \<open>\<open>max(miners, key=lambda m: m.get("score", 0))\<close>: the first of the largest.\<close>

definition score_key :: "json \<Rightarrow> json res" where
  "score_key m = jget m (lit ''score'') (JInt 0)"

fun best_from :: "json \<Rightarrow> json \<Rightarrow> json list \<Rightarrow> json res" where
  "best_from best key [] = Inr best"
| "best_from best key (m # ms) =
     rbind (score_key m) (\<lambda>k.
     rbind (py_gt k key) (\<lambda>larger.
       if larger then best_from m k ms else best_from best key ms))"

definition choose_miner :: "json \<Rightarrow> json res" where
  "choose_miner miners =
     rbind (py_iter miners) (\<lambda>ms.
     case ms of
       [] \<Rightarrow> Inl ValueError
     | m # rest \<Rightarrow> rbind (score_key m) (\<lambda>k. best_from m k rest))"

section \<open>Receipts\<close>

text \<open>\<open>format(nonce, "064x")\<close>.\<close>

fun hex_text :: "nat \<Rightarrow> pystr" where
  "hex_text n = (if n < 16 then [hex_char n] else hex_text (n div 16) @ [hex_char (n mod 16)])"

declare hex_text.simps [simp del]

definition format_064x :: "int \<Rightarrow> pystr" where
  "format_064x n =
     (let d = hex_text (nat \<bar>n\<bar>);
          sgn = (if n < 0 then lit ''-'' else [])
      in sgn @ replicate (64 - length d - length sgn) 48 @ d)"

definition sentinel_text :: "ethlib \<Rightarrow> pystr \<Rightarrow> int \<Rightarrow> pystr res" where
  "sentinel_text E prompt_hash n =
     rbind (fromhex (drop 2 prompt_hash @ format_064x n)) (\<lambda>bs. Inr (ox @ to_hex (keccak E bs)))"

definition serialize_receipt :: "json receipt \<Rightarrow> json" where
  "serialize_receipt r =
     JObj [(lit ''user'', rc_user r), (lit ''miner'', rc_miner r), (lit ''brain_id'', JInt (rc_brain_id r)),
           (lit ''prompt_hash'', rc_prompt_hash r), (lit ''response_hash'', rc_response_hash r),
           (lit ''amount'', JInt (rc_amount r)), (lit ''expiry'', JInt (rc_expiry r)),
           (lit ''nonce'', JInt (rc_nonce r))]"

text \<open>The encoder refuses addresses that are not texts.\<close>

fun address_text :: "json \<Rightarrow> pystr res" where
  "address_text (JStr s) = Inr s"
| "address_text _ = Inl OtherError"

definition text_receipt :: "json receipt \<Rightarrow> pystr receipt res" where
  "text_receipt r =
     rbind (address_text (rc_user r)) (\<lambda>user.
     rbind (address_text (rc_miner r)) (\<lambda>miner.
       Inr \<lparr>rc_user = user, rc_miner = miner, rc_brain_id = rc_brain_id r,
            rc_prompt_hash = rc_prompt_hash r, rc_response_hash = rc_response_hash r,
            rc_amount = rc_amount r, rc_expiry = rc_expiry r, rc_nonce = rc_nonce r\<rparr>))"

definition sign_receipt :: "ethlib \<Rightarrow> client_config \<Rightarrow> pystr \<Rightarrow> json receipt \<Rightarrow> pystr res" where
  "sign_receipt E cfg key r =
     rbind (hash_bytes (rc_prompt_hash r)) (\<lambda>_.
     rbind (hash_bytes (rc_response_hash r)) (\<lambda>_.
     rbind (text_receipt r) (\<lambda>tr.
     rbind (receipt_digest E (cc_market cfg) (cc_chain_id cfg) tr) (\<lambda>digest.
       Inr (sign_message E key digest)))))"

definition same_text :: "json \<Rightarrow> json \<Rightarrow> bool res" where
  "same_text a b = rbind (jlower a) (\<lambda>x. rbind (jlower b) (\<lambda>y. Inr (x = y)))"

definition assert_final_receipt_identity :: "json receipt \<Rightarrow> json receipt \<Rightarrow> unit res" where
  "assert_final_receipt_identity preauth final =
     (let mismatch = Inl (RuntimeError (lit ''final receipt identity does not match preauthorization''))
      in rbind (same_text (rc_user final) (rc_user preauth)) (\<lambda>u. if \<not> u then mismatch
         else rbind (same_text (rc_miner final) (rc_miner preauth)) (\<lambda>m. if \<not> m then mismatch
         else if rc_brain_id final \<noteq> rc_brain_id preauth then mismatch
         else rbind (same_text (rc_prompt_hash final) (rc_prompt_hash preauth)) (\<lambda>p. if \<not> p then mismatch
         else if rc_expiry final \<noteq> rc_expiry preauth then mismatch
         else if rc_nonce final \<noteq> rc_nonce preauth then mismatch
         else Inr ()))))"

section \<open>The call\<close>

definition reservation_of :: "client_request \<Rightarrow> int" where
  "reservation_of req =
     (let r = (if rq_reservation req \<noteq> 0 then rq_reservation req
               else min (rq_budget req) DEFAULT_RESERVATION)
      in if r > rq_budget req then rq_budget req else r)"

text \<open>The pre-authorization for the chosen miner and its signature.\<close>

definition prepare ::
    "ethlib \<Rightarrow> client_config \<Rightarrow> pystr \<Rightarrow> client_world \<Rightarrow> client_request \<Rightarrow> json
       \<Rightarrow> (json \<times> json receipt \<times> pystr) res" where
  "prepare E cfg key w req miner =
     rbind (text_hash E (rq_prompt req)) (\<lambda>prompt_hash.
     let expiry = (case rq_expiry req of Some x \<Rightarrow> if x \<noteq> 0 then x else w_now w + 3600 | None \<Rightarrow> w_now w + 3600) in
     rbind (sentinel_text E prompt_hash (w_nonce w)) (\<lambda>sentinel.
     rbind (jkey miner (lit ''address'')) (\<lambda>address.
     let preauth = \<lparr>rc_user = JStr (key_address E key), rc_miner = address,
                    rc_brain_id = rq_brain_id req, rc_prompt_hash = JStr prompt_hash,
                    rc_response_hash = JStr sentinel, rc_amount = reservation_of req,
                    rc_expiry = expiry, rc_nonce = w_nonce w\<rparr> in
     rbind (sign_receipt E cfg key preauth) (\<lambda>sig. Inr (address, preauth, sig)))))"

definition request_body :: "client_request \<Rightarrow> json \<Rightarrow> json receipt \<Rightarrow> pystr \<Rightarrow> json" where
  "request_body req address preauth sig =
     JObj [(lit ''prompt'', JStr (rq_prompt req)), (lit ''max_tokens'', JInt (rq_max_tokens req)),
           (lit ''temperature'', JFloat (Finite (rq_temperature req))), (lit ''budget'', JInt (rq_budget req)),
           (lit ''receipt'', serialize_receipt preauth), (lit ''user_signature'', JStr sig),
           (lit ''target_miner'', address)]"

text \<open>The body of an answer after \<open>raise_for_status\<close>.\<close>

definition answer_json :: "(nat \<times> json res) res \<Rightarrow> json res" where
  "answer_json a = rbind a (\<lambda>(status, body). if raises_for_status status then Inl OtherError else body)"

text \<open>
  \<open>"error" in data\<close> with what follows: lists and texts support \<open>in\<close>, but the next subscription with
  a string raises the same \<open>TypeError\<close> as \<open>in\<close> does on other values.
\<close>

fun miner_error :: "json \<Rightarrow> json option res" where
  "miner_error (JObj d) = Inr (dict_get d (lit ''error''))"
| "miner_error _ = Inl TypeError"

definition read_final :: "json \<Rightarrow> json receipt res" where
  "read_final final =
     rbind (jkey final (lit ''user'')) (\<lambda>user.
     rbind (jkey final (lit ''miner'')) (\<lambda>miner.
     rbind (rbind (jkey final (lit ''brain_id'')) py_int) (\<lambda>brain_id.
     rbind (jkey final (lit ''prompt_hash'')) (\<lambda>prompt_hash.
     rbind (jkey final (lit ''response_hash'')) (\<lambda>response_hash.
     rbind (rbind (jkey final (lit ''amount'')) py_int) (\<lambda>amount.
     rbind (rbind (jkey final (lit ''expiry'')) py_int) (\<lambda>expiry.
     rbind (rbind (jkey final (lit ''nonce'')) py_int) (\<lambda>n.
       Inr \<lparr>rc_user = user, rc_miner = miner, rc_brain_id = brain_id, rc_prompt_hash = prompt_hash,
            rc_response_hash = response_hash, rc_amount = amount, rc_expiry = expiry, rc_nonce = n\<rparr>))))))))"

definition read_pricing :: "client_world \<Rightarrow> int \<times> int" where
  "read_pricing w =
     (case (w_price_per_byte w, w_price_per_request w) of (Inr ppt, Inr ppr) \<Rightarrow> (ppt, ppr) | _ \<Rightarrow> (0, 0))"

text \<open>The checks of the proposed final receipt, up to the counter-signature.\<close>

definition check_final ::
    "client_world \<Rightarrow> client_request \<Rightarrow> json receipt \<Rightarrow> pystr \<Rightarrow> pystr \<Rightarrow> json \<Rightarrow> json receipt res" where
  "check_final w req preauth text expected_rh final =
     rbind (read_final final) (\<lambda>final_receipt.
     rbind (assert_final_receipt_identity preauth final_receipt) (\<lambda>_.
     if rc_amount final_receipt > rq_budget req then Inl (RuntimeError (lit ''final amount exceeds budget''))
     else
       (case read_pricing w of (ppt, ppr) \<Rightarrow>
          if ppt \<le> 0 \<and> ppr \<le> 0 then Inl (RuntimeError (lit ''market pricing is disabled''))
          else
            rbind (utf8_encode (rq_prompt req)) (\<lambda>p.
            rbind (utf8_encode text) (\<lambda>t.
            let expected = min (ppr + ppt * (int (length p) + int (length t))) (rq_budget req) in
            if rc_amount final_receipt \<noteq> expected
            then Inl (RuntimeError (lit ''incorrect metered charge: amount '' @ int_text (rc_amount final_receipt)
                        @ lit '', expected '' @ int_text expected))
            else
              rbind (jlower (rc_response_hash final_receipt)) (\<lambda>rh.
              if rh \<noteq> lower expected_rh
              then Inl (RuntimeError (lit ''final receipt response hash does not match delivered text''))
              else Inr final_receipt))))))"

text \<open>\<open>Web3.keccak(text=x)\<close> encodes a text.\<close>

fun jtext_res :: "json \<Rightarrow> pystr res" where
  "jtext_res (JStr s) = Inr s"
| "jtext_res _ = Inl AttributeError"

text \<open>The text of the answer, once its response hash has been checked.\<close>

definition delivered_text :: "ethlib \<Rightarrow> (json \<Rightarrow> pystr) \<Rightarrow> json \<Rightarrow> (pystr \<times> pystr) res" where
  "delivered_text E rep data =
     rbind (miner_error data) (\<lambda>err.
     case err of
       Some e \<Rightarrow> Inl (RuntimeError (lit ''miner error: '' @ py_str rep e))
     | None \<Rightarrow>
         rbind (rbind (jkey data (lit ''text'')) jtext_res) (\<lambda>text.
         rbind (text_hash E text) (\<lambda>expected_rh.
         rbind (rbind (jkey data (lit ''response_hash'')) jlower) (\<lambda>rh.
           if rh \<noteq> lower expected_rh
           then Inl (RuntimeError (lit ''response hash does not match returned text''))
           else Inr (text, expected_rh)))))"

definition make_response :: "json \<Rightarrow> json \<Rightarrow> int \<Rightarrow> client_response res" where
  "make_response address data charged =
     rbind (jkey data (lit ''text'')) (\<lambda>text.
     rbind (jkey data (lit ''prompt_hash'')) (\<lambda>prompt_hash.
     rbind (jkey data (lit ''response_hash'')) (\<lambda>response_hash.
     rbind (jkey data (lit ''tokens_in'')) (\<lambda>tokens_in.
     rbind (jkey data (lit ''tokens_out'')) (\<lambda>tokens_out.
     rbind (jkey data (lit ''miner_signature'')) (\<lambda>miner_signature.
       Inr \<lparr>rs_text = text, rs_miner = address, rs_prompt_hash = prompt_hash,
            rs_response_hash = response_hash, rs_tokens_in = tokens_in, rs_tokens_out = tokens_out,
            rs_amount = charged, rs_miner_signature = miner_signature\<rparr>))))))"

record client_outcome =
  oc_signed :: "json receipt list"
  oc_posted :: "json list"
  oc_result :: "client_response res"

definition settle_body :: "json receipt \<Rightarrow> pystr \<Rightarrow> json" where
  "settle_body r sig = JObj [(lit ''receipt'', serialize_receipt r), (lit ''user_signature'', JStr sig)]"

text \<open>\<open>infer\<close> from the answer on; the settlement is posted and its failure ignored.\<close>

definition conclude ::
    "ethlib \<Rightarrow> (json \<Rightarrow> pystr) \<Rightarrow> client_config \<Rightarrow> pystr \<Rightarrow> client_world \<Rightarrow> client_request \<Rightarrow> json
       \<Rightarrow> json receipt \<Rightarrow> json list \<Rightarrow> json \<Rightarrow> client_outcome" where
  "conclude E rep cfg key w req address preauth posted data =
     (case delivered_text E rep data of
        Inl e \<Rightarrow> \<lparr>oc_signed = [preauth], oc_posted = posted, oc_result = Inl e\<rparr>
      | Inr (text, expected_rh) \<Rightarrow>
          (case jget data (lit ''final_receipt'') JNull of
             Inl e \<Rightarrow> \<lparr>oc_signed = [preauth], oc_posted = posted, oc_result = Inl e\<rparr>
           | Inr final \<Rightarrow>
               if \<not> py_true final then
                 \<lparr>oc_signed = [preauth], oc_posted = posted,
                  oc_result = make_response address data (rc_amount preauth)\<rparr>
               else
                 (case rbind (check_final w req preauth text expected_rh final) (\<lambda>fr.
                         rbind (sign_receipt E cfg key fr) (\<lambda>sig. Inr (fr, sig))) of
                    Inl e \<Rightarrow> \<lparr>oc_signed = [preauth], oc_posted = posted, oc_result = Inl e\<rparr>
                  | Inr (fr, sig) \<Rightarrow>
                      \<lparr>oc_signed = [preauth, fr], oc_posted = posted @ [settle_body fr sig],
                       oc_result = make_response address data (rc_amount fr)\<rparr>)))"

definition client_infer ::
    "ethlib \<Rightarrow> (json \<Rightarrow> pystr) \<Rightarrow> client_config \<Rightarrow> client_world \<Rightarrow> client_request \<Rightarrow> client_outcome" where
  "client_infer E rep cfg w req =
     (case cc_key cfg of
        None \<Rightarrow> \<lparr>oc_signed = [], oc_posted = [],
                 oc_result = Inl (RuntimeError (lit ''Client requires private_key for this operation''))\<rparr>
      | Some key \<Rightarrow>
          let miners = list_miners w in
          if \<not> py_true miners then
            \<lparr>oc_signed = [], oc_posted = [],
             oc_result = Inl (RuntimeError (lit ''No miners available for brain '' @ int_text (rq_brain_id req)))\<rparr>
          else
            (case rbind (choose_miner miners) (prepare E cfg key w req) of
               Inl e \<Rightarrow> \<lparr>oc_signed = [], oc_posted = [], oc_result = Inl e\<rparr>
             | Inr (address, preauth, sig) \<Rightarrow>
                 let body = request_body req address preauth sig in
                 (case answer_json (w_answer w body) of
                    Inl e \<Rightarrow> \<lparr>oc_signed = [preauth], oc_posted = [body], oc_result = Inl e\<rparr>
                  | Inr data \<Rightarrow> conclude E rep cfg key w req address preauth [body] data)))"

section \<open>Account operations\<close>

text \<open>
  The transactions of \<open>deposit\<close>, \<open>request_withdraw\<close> and \<open>withdraw\<close>: reading the account's nonce,
  building and signing (with its \<open>rawTransaction\<close>), sending, and waiting for the approval. The outcome
  lists what was sent, in order, also when a later step raises.
\<close>

datatype client_tx = Approve pystr int | DepositTx int | RequestWithdrawTx int | WithdrawTx

record account_calls =
  transaction_count :: "int res"
  build_and_sign :: "client_tx \<Rightarrow> int \<Rightarrow> bytes res"
  send_raw :: "bytes \<Rightarrow> pystr res"
  wait_for_receipt :: "pystr \<Rightarrow> unit res"

definition require_account :: "client_config \<Rightarrow> unit res" where
  "require_account cfg =
     (if cc_key cfg = None then Inl (RuntimeError (lit ''Client requires private_key for this operation''))
      else Inr ())"

definition send_tx :: "account_calls \<Rightarrow> client_tx \<Rightarrow> int \<Rightarrow> (client_tx \<times> int) list \<times> pystr res" where
  "send_tx api tx n =
     (case build_and_sign api tx n of
        Inl e \<Rightarrow> ([], Inl e)
      | Inr raw \<Rightarrow> (case send_raw api raw of Inl e \<Rightarrow> ([], Inl e) | Inr h \<Rightarrow> ([(tx, n)], Inr h)))"

definition client_deposit :: "client_config \<Rightarrow> account_calls \<Rightarrow> int \<Rightarrow> (client_tx \<times> int) list \<times> pystr res" where
  "client_deposit cfg api amount =
     (case rbind (require_account cfg) (\<lambda>_. transaction_count api) of
        Inl e \<Rightarrow> ([], Inl e)
      | Inr n \<Rightarrow>
          (case send_tx api (Approve (cc_market cfg) amount) n of
             (sent, Inl e) \<Rightarrow> (sent, Inl e)
           | (sent, Inr approve_hash) \<Rightarrow>
               (case wait_for_receipt api approve_hash of
                  Inl e \<Rightarrow> (sent, Inl e)
                | Inr _ \<Rightarrow>
                    (case send_tx api (DepositTx amount) (n + 1) of (sent', h) \<Rightarrow> (sent @ sent', h)))))"

definition client_request_withdraw ::
    "client_config \<Rightarrow> account_calls \<Rightarrow> int \<Rightarrow> (client_tx \<times> int) list \<times> pystr res" where
  "client_request_withdraw cfg api amount =
     (case rbind (require_account cfg) (\<lambda>_. transaction_count api) of
        Inl e \<Rightarrow> ([], Inl e)
      | Inr n \<Rightarrow> send_tx api (RequestWithdrawTx amount) n)"

definition client_withdraw ::
    "client_config \<Rightarrow> account_calls \<Rightarrow> (client_tx \<times> int) list \<times> pystr res" where
  "client_withdraw cfg api =
     (case rbind (require_account cfg) (\<lambda>_. transaction_count api) of
        Inl e \<Rightarrow> ([], Inl e)
      | Inr n \<Rightarrow> send_tx api WithdrawTx n)"

section \<open>What the checks establish\<close>

lemma same_text_True: "same_text a b = Inr True \<longleftrightarrow> (\<exists>s t. a = JStr s \<and> b = JStr t \<and> lower s = lower t)"
  by (cases a; cases b) (auto simp: same_text_def)

lemma identity_Inr:
  "assert_final_receipt_identity p f = Inr x \<longleftrightarrow>
     same_text (rc_user f) (rc_user p) = Inr True \<and> same_text (rc_miner f) (rc_miner p) = Inr True
     \<and> rc_brain_id f = rc_brain_id p \<and> same_text (rc_prompt_hash f) (rc_prompt_hash p) = Inr True
     \<and> rc_expiry f = rc_expiry p \<and> rc_nonce f = rc_nonce p"
  by (auto simp: assert_final_receipt_identity_def Let_def split: if_splits)

lemma check_final_Inr:
  "check_final w req p t rh final = Inr f \<longleftrightarrow>
     read_final final = Inr f \<and> assert_final_receipt_identity p f = Inr ()
     \<and> (\<exists>ppt ppr pb tb. read_pricing w = (ppt, ppr) \<and> (0 < ppt \<or> 0 < ppr)
          \<and> utf8_encode (rq_prompt req) = Inr pb \<and> utf8_encode t = Inr tb
          \<and> rc_amount f = min (ppr + ppt * (int (length pb) + int (length tb))) (rq_budget req))
     \<and> jlower (rc_response_hash f) = Inr (lower rh)"
proof -
  obtain ppt ppr where "read_pricing w = (ppt, ppr)" by (cases "read_pricing w")
  note prices = this
  show ?thesis (is "?l = ?r")
  proof
    assume ?l
    with prices show ?r by (auto simp: check_final_def Let_def split: if_splits)
  next
    assume r: ?r
    with prices obtain pb tb where bytes: "utf8_encode (rq_prompt req) = Inr pb" "utf8_encode t = Inr tb"
      "rc_amount f = min (ppr + ppt * (int (length pb) + int (length tb))) (rq_budget req)"
      "\<not> (ppt \<le> 0 \<and> ppr \<le> 0)" by auto
    moreover have "\<not> rq_budget req < rc_amount f" unfolding bytes(3) by simp
    ultimately show ?l
      using prices r by (simp add: check_final_def Let_def del: rbind_Inr_iff de_Morgan_conj)
  qed
qed

lemma delivered_text_Inr:
  "delivered_text E rep data = Inr (text, rh) \<longleftrightarrow>
     miner_error data = Inr None \<and> jkey data (lit ''text'') = Inr (JStr text) \<and> text_hash E text = Inr rh
     \<and> rbind (jkey data (lit ''response_hash'')) jlower = Inr (lower rh)"
proof -
  have "jtext_res j = Inr t \<longleftrightarrow> j = JStr t" for j t by (cases j) auto
  then show ?thesis
    by (auto simp: delivered_text_def split: option.splits if_splits)
qed

lemma prepare_Inr:
  assumes "prepare E cfg key w req miner = Inr (address, p, sig)"
  shows "rc_user p = JStr (key_address E key) \<and> rc_miner p = address \<and> jkey miner (lit ''address'') = Inr address
    \<and> rc_brain_id p = rq_brain_id req \<and> rc_amount p = reservation_of req \<and> rc_nonce p = w_nonce w
    \<and> sign_receipt E cfg key p = Inr sig
    \<and> (\<exists>ph s. text_hash E (rq_prompt req) = Inr ph \<and> rc_prompt_hash p = JStr ph
         \<and> sentinel_text E ph (w_nonce w) = Inr s \<and> rc_response_hash p = JStr s)"
  using assms by (auto simp: prepare_def Let_def)

lemma reservation_le_budget: "reservation_of req \<le> rq_budget req"
  by (simp add: reservation_of_def Let_def)

text \<open>A call signs nothing, a pre-authorization, or a pre-authorization and a checked final receipt.\<close>

lemma conclude_cases:
  obtains (plain) "oc_signed (conclude E rep cfg key w req address p posted data) = [p]"
      "\<And>r. oc_result (conclude E rep cfg key w req address p posted data) = Inr r \<Longrightarrow>
         make_response address data (rc_amount p) = Inr r"
      "oc_posted (conclude E rep cfg key w req address p posted data) = posted"
  | (settled) tx rh final f sig where "delivered_text E rep data = Inr (tx, rh)"
      "jget data (lit ''final_receipt'') JNull = Inr final" "check_final w req p tx rh final = Inr f"
      "sign_receipt E cfg key f = Inr sig"
      "conclude E rep cfg key w req address p posted data =
        \<lparr>oc_signed = [p, f], oc_posted = posted @ [settle_body f sig],
         oc_result = make_response address data (rc_amount f)\<rparr>"
proof (cases "delivered_text E rep data")
  case (Inr x)
  obtain tx rh where x: "x = (tx, rh)" by (cases x)
  show ?thesis
  proof (cases "jget data (lit ''final_receipt'') JNull")
    case (Inr final)
    note final = this
    show ?thesis
    proof (cases "py_true final \<and> (\<exists>y. rbind (check_final w req p tx rh final) (\<lambda>fr.
        rbind (sign_receipt E cfg key fr) (\<lambda>sig. Inr (fr, sig))) = Inr y)")
      case True
      then obtain f sig where "check_final w req p tx rh final = Inr f" "sign_receipt E cfg key f = Inr sig"
        by auto
      with True \<open>delivered_text E rep data = Inr x\<close> x final show ?thesis
        by (intro settled [of tx rh final f sig]) (simp_all add: conclude_def)
    next
      case False
      with \<open>delivered_text E rep data = Inr x\<close> x final show ?thesis
        by (intro plain)
          (auto simp: conclude_def simp del: rbind_Inr_iff split: sum.splits if_splits)
    qed
  qed (use \<open>delivered_text E rep data = Inr x\<close> x in \<open>intro plain; simp add: conclude_def\<close>)
qed (intro plain; simp add: conclude_def)

lemma client_infer_cases:
  obtains (nothing) "oc_signed (client_infer E rep cfg w req) = []" "oc_posted (client_infer E rep cfg w req) = []"
      "\<And>r. oc_result (client_infer E rep cfg w req) \<noteq> Inr r"
  | (unanswered) key miner address p sig e where "cc_key cfg = Some key"
      "choose_miner (list_miners w) = Inr miner" "prepare E cfg key w req miner = Inr (address, p, sig)"
      "answer_json (w_answer w (request_body req address p sig)) = Inl e"
      "client_infer E rep cfg w req =
        \<lparr>oc_signed = [p], oc_posted = [request_body req address p sig], oc_result = Inl e\<rparr>"
  | (answered) key miner address p sig data where "cc_key cfg = Some key"
      "choose_miner (list_miners w) = Inr miner" "prepare E cfg key w req miner = Inr (address, p, sig)"
      "answer_json (w_answer w (request_body req address p sig)) = Inr data"
      "client_infer E rep cfg w req =
        conclude E rep cfg key w req address p [request_body req address p sig] data"
proof (cases "cc_key cfg")
  case (Some key)
  show ?thesis
  proof (cases "py_true (list_miners w) \<and> (\<exists>x. rbind (choose_miner (list_miners w)) (prepare E cfg key w req) = Inr x)")
    case True
    then obtain miner address p sig where *: "choose_miner (list_miners w) = Inr miner"
      "prepare E cfg key w req miner = Inr (address, p, sig)" by auto
    show ?thesis
    proof (cases "answer_json (w_answer w (request_body req address p sig))")
      case (Inl e)
      with True Some * show ?thesis
        by (intro unanswered [of key miner address p sig e]) (simp_all add: client_infer_def Let_def)
    next
      case (Inr data)
      with True Some * show ?thesis
        by (intro answered [of key miner address p sig data]) (simp_all add: client_infer_def Let_def)
    qed
  next
    case False
    have "\<exists>e. client_infer E rep cfg w req = \<lparr>oc_signed = [], oc_posted = [], oc_result = Inl e\<rparr>"
    proof (cases "py_true (list_miners w)")
      case True
      with False obtain e where "rbind (choose_miner (list_miners w)) (prepare E cfg key w req) = Inl e"
        by (cases "rbind (choose_miner (list_miners w)) (prepare E cfg key w req)") blast+
      with True Some show ?thesis by (simp add: client_infer_def Let_def)
    qed (use Some in \<open>simp add: client_infer_def Let_def\<close>)
    then show ?thesis by (elim exE) (rule nothing, simp_all)
  qed
next
  case None
  show ?thesis by (rule nothing) (simp_all add: None client_infer_def)
qed

end
