(* ===== verification/MinerRun.thy ===== *)
theory MinerRun imports Miner
begin

text \<open>
  The miner serving requests: its handlers as an event machine over the receipt queue and the
  requests whose inference is under way, what its queue holds in every run, what it charges, and
  how its receipts fare at the market contract.
\<close>

section \<open>What the checks establish\<close>

definition eligible :: "ethlib \<Rightarrow> miner_config \<Rightarrow> miner_view \<Rightarrow> pystr receipt \<Rightarrow> int \<Rightarrow> bool" where
  "eligible E cfg mv r needed \<longleftrightarrow>
     rc_brain_id r = mc_brain_id cfg \<and> lower (rc_miner r) = lower (miner_address E cfg)
     \<and> clock mv < rc_expiry r
     \<and> (\<exists>u bal. checksum E (rc_user r) = Inr u \<and> used_nonces mv u (rc_nonce r) = Inr False
          \<and> balances mv u = Inr bal \<and> needed \<le> bal)"

lemma check_eligibility_None:
  "check_eligibility E cfg mv r mb = None \<longleftrightarrow>
     eligible E cfg mv r (case mb of Some b \<Rightarrow> b | None \<Rightarrow> rc_amount r)"
  by (auto simp: check_eligibility_def eligible_def rbind_Inl_iff not_less
      split: sum.splits bool.splits)

lemma eligible_amount: "eligible E cfg mv r (rc_amount r) \<longleftrightarrow> check_eligibility E cfg mv r None = None"
  by (simp add: check_eligibility_None)

lemma prompt_okD: "prompt_ok p \<Longrightarrow> p = JStr (jtext p) \<and> length (jtext p) \<le> MAX_PROMPT_CHARS"
  by (cases p) auto

lemma jlower_Inr: "jlower j = Inr s \<longleftrightarrow> (\<exists>t. j = JStr t \<and> s = lower t)"
  by (cases j) auto

lemma infer_check_Accept:
  assumes "infer_check E cfg loads mv payload = Inr (Accept sv)"
  obtains req rd asked ph expected where
    "length payload \<le> MAX_PAYLOAD_BYTES" "loads payload = Inr req"
    "jkey req (lit ''user_signature'') = Inr (sv_sig sv)"
    "jkey req (lit ''receipt'') = Inr rd" "jkey req (lit ''prompt'') = Inr (JStr (sv_prompt sv))"
    "length (sv_prompt sv) \<le> MAX_PROMPT_CHARS" "read_receipt E rd = Inr (sv_receipt sv)"
    "rc_prompt_hash (sv_receipt sv) = JStr ph" "text_hash E (sv_prompt sv) = Inr expected"
    "lower ph = lower expected"
    "verify_user_signature E (mc_market cfg) (mc_chain_id cfg) (sv_receipt sv) (sv_sig sv) = Inr True"
    "rbind (jget req (lit ''budget'') (JInt (rc_amount (sv_receipt sv)))) py_int = Inr asked"
    "sv_budget sv = max asked (rc_amount (sv_receipt sv))"
    "eligible E cfg mv (sv_receipt sv) (sv_budget sv)"
  using assms
  by (auto simp: infer_check_def Let_def jlower_Inr check_eligibility_None max_def
      dest!: prompt_okD split: if_splits option.splits)

lemma infer_check_complete:
  assumes "length payload \<le> MAX_PAYLOAD_BYTES" "loads payload = Inr req"
    "jkey req (lit ''user_signature'') = Inr sig"
    "jkey req (lit ''receipt'') = Inr rd" "jkey req (lit ''prompt'') = Inr (JStr prompt)"
    "length prompt \<le> MAX_PROMPT_CHARS" "read_receipt E rd = Inr r"
    "rc_prompt_hash r = JStr ph" "text_hash E prompt = Inr expected" "lower ph = lower expected"
    "verify_user_signature E (mc_market cfg) (mc_chain_id cfg) r sig = Inr True"
    "rbind (jget req (lit ''budget'') (JInt (rc_amount r))) py_int = Inr asked"
    "eligible E cfg mv r (max asked (rc_amount r))"
  shows "infer_check E cfg loads mv payload =
     Inr (Accept \<lparr>sv_prompt = prompt, sv_receipt = r, sv_sig = sig, sv_budget = max asked (rc_amount r)\<rparr>)"
proof -
  have "check_eligibility E cfg mv r (Some (max asked (rc_amount r))) = None"
    using assms by (simp add: check_eligibility_None)
  moreover have "(if asked < rc_amount r then rc_amount r else asked) = max asked (rc_amount r)" by simp
  ultimately show ?thesis
    using assms by (simp add: infer_check_def Let_def del: rbind_Inr_iff)
qed

lemma settle_check_Accept:
  assumes "settle_check E cfg loads mv payload = Inr (Accept (r, sig))"
  obtains body rd where "loads payload = Inr body" "jkey body (lit ''receipt'') = Inr rd"
    "jkey body (lit ''user_signature'') = Inr sig" "read_receipt E rd = Inr r"
    "rc_response_hash r \<noteq> JStr (ox @ concat (replicate 32 (lit ''00'')))"
    "verify_user_signature E (mc_market cfg) (mc_chain_id cfg) r sig = Inr True"
    "eligible E cfg mv r (rc_amount r)"
  using assms by (auto simp: settle_check_def eligible_amount split: if_splits option.splits)

lemma settle_check_complete:
  assumes "loads payload = Inr body" "jkey body (lit ''receipt'') = Inr rd"
    "jkey body (lit ''user_signature'') = Inr sig" "read_receipt E rd = Inr r"
    "rc_response_hash r \<noteq> JStr (ox @ concat (replicate 32 (lit ''00'')))"
    "verify_user_signature E (mc_market cfg) (mc_chain_id cfg) r sig = Inr True"
    "eligible E cfg mv r (rc_amount r)"
  shows "settle_check E cfg loads mv payload = Inr (Accept (r, sig))"
  using assms by (simp add: settle_check_def eligible_amount del: rbind_Inr_iff)

lemma handle_settle_cases:
  obtains (kept) x where "handle_settle E cfg loads mv q payload = (q, x)"
      "x \<noteq> Inr (JObj [(lit ''ok'', JBool True)])"
  | (queued) r sig where "settle_check E cfg loads mv payload = Inr (Accept (r, sig))"
      "handle_settle E cfg loads mv q payload =
         (add_or_replace q r sig, Inr (JObj [(lit ''ok'', JBool True)]))"
proof (cases "\<exists>r sig. settle_check E cfg loads mv payload = Inr (Accept (r, sig))")
  case False
  then have "handle_settle E cfg loads mv q payload = (q, snd (handle_settle E cfg loads mv q payload))
      \<and> snd (handle_settle E cfg loads mv q payload) \<noteq> Inr (JObj [(lit ''ok'', JBool True)])"
    by (auto simp: handle_settle_def err_reply_def split: sum.splits verdict.splits)
  then show ?thesis using kept by blast
next
  case True
  then show ?thesis using queued by (fastforce simp: handle_settle_def)
qed

lemma generate_Inr:
  assumes "generate E engine elapsed req = Inr response"
  shows "\<exists>backend hp hr. engine = Some backend \<and> backend req = Inr (ir_text response)
     \<and> text_hash E (iq_prompt req) = Inr (ir_prompt_hash response)
     \<and> text_hash E (ir_text response) = Inr (ir_response_hash response)
     \<and> utf8_encode (iq_prompt req) = Inr hp \<and> utf8_encode (ir_text response) = Inr hr
     \<and> ir_prompt_hash response = hex0x (keccak E hp) \<and> ir_response_hash response = hex0x (keccak E hr)"
  using assms by (auto simp: generate_def text_hash_def keccak_text_def hex0x_def split: option.splits)

section \<open>The miner as an event machine\<close>

record miner_state =
  queue :: batcher
  serving :: "served list"

definition new_miner :: "nat \<Rightarrow> miner_state" where
  "new_miner n = \<lparr>queue = new_batcher n, serving = []\<rparr>"

datatype miner_event =
    InferStart miner_view bytes
  | InferEnd nat miner_view "(inference_request \<Rightarrow> pystr res) option" int
  | SettleRequest miner_view bytes
  | FlushDue redeem_calls

definition drop_nth :: "nat \<Rightarrow> 'a list \<Rightarrow> 'a list" where
  "drop_nth i xs = take i xs @ drop (Suc i) xs"

text \<open>\<open>_receipt_flusher\<close> flushes a queue that is not empty.\<close>

fun miner_step ::
    "ethlib \<Rightarrow> miner_config \<Rightarrow> (bytes \<Rightarrow> json res) \<Rightarrow> miner_state \<Rightarrow> miner_event \<Rightarrow> miner_state" where
  "miner_step E cfg loads st (InferStart mv payload) =
     (case infer_check E cfg loads mv payload of
        Inr (Accept sv) \<Rightarrow> st\<lparr>serving := serving st @ [sv]\<rparr>
      | _ \<Rightarrow> st)"
| "miner_step E cfg loads st (InferEnd i mv engine elapsed) =
     (if i < length (serving st) then
        st\<lparr>queue := fst (infer_finish E cfg mv engine elapsed (serving st ! i) (queue st)),
           serving := drop_nth i (serving st)\<rparr>
      else st)"
| "miner_step E cfg loads st (SettleRequest mv payload) =
     st\<lparr>queue := fst (handle_settle E cfg loads mv (queue st) payload)\<rparr>"
| "miner_step E cfg loads st (FlushDue api) =
     (if pending (queue st) = [] then st else st\<lparr>queue := fst (batcher_flush api (queue st))\<rparr>)"

text \<open>A receipt this miner may redeem: for its Brain, payable to it, signed by its user.\<close>

definition entry_ok :: "ethlib \<Rightarrow> miner_config \<Rightarrow> queued \<Rightarrow> bool" where
  "entry_ok E cfg x \<longleftrightarrow>
     rc_brain_id (fst x) = mc_brain_id cfg \<and> lower (rc_miner (fst x)) = lower (miner_address E cfg)
     \<and> verify_user_signature E (mc_market cfg) (mc_chain_id cfg) (fst x) (snd x) = Inr True"

definition miner_ok :: "ethlib \<Rightarrow> miner_config \<Rightarrow> miner_state \<Rightarrow> bool" where
  "miner_ok E cfg st \<longleftrightarrow>
     (\<forall>x \<in> set (pending (queue st)). entry_ok E cfg x)
     \<and> (\<forall>sv \<in> set (serving st). entry_ok E cfg (sv_receipt sv, sv_sig sv)
          \<and> rc_amount (sv_receipt sv) \<le> sv_budget sv)"

lemma infer_finish_queue:
  "fst (infer_finish E cfg mv engine elapsed sv q) =
     (case generate E engine elapsed (new_inference_request (sv_prompt sv)) of
        Inl e \<Rightarrow> q | Inr response \<Rightarrow> batcher_add q (sv_receipt sv) (sv_sig sv))"
  by (simp add: infer_finish_def split: sum.splits)

lemma set_drop_nth: "set (drop_nth i xs) \<subseteq> set xs"
  by (auto simp: drop_nth_def dest: in_set_takeD in_set_dropD)

lemma miner_ok_step:
  assumes "miner_ok E cfg st"
  shows "miner_ok E cfg (miner_step E cfg loads st ev)"
proof (cases ev)
  case (InferStart mv payload)
  show ?thesis
  proof (cases "\<exists>sv. infer_check E cfg loads mv payload = Inr (Accept sv)")
    case True
    then obtain sv where sv: "infer_check E cfg loads mv payload = Inr (Accept sv)" ..
    then have "entry_ok E cfg (sv_receipt sv, sv_sig sv) \<and> rc_amount (sv_receipt sv) \<le> sv_budget sv"
      by (rule infer_check_Accept) (simp add: entry_ok_def eligible_def)
    with assms sv InferStart show ?thesis by (auto simp: miner_ok_def)
  qed (use assms InferStart in \<open>simp split: sum.splits verdict.splits\<close>)
next
  case (InferEnd i mv engine elapsed)
  have "\<forall>x \<in> set (pending (fst (infer_finish E cfg mv engine elapsed (serving st ! i) (queue st)))). entry_ok E cfg x"
    if "i < length (serving st)"
    using assms nth_mem [OF that]
    by (auto simp: infer_finish_queue miner_ok_def batcher_add_def split: sum.splits)
  with assms InferEnd set_drop_nth [of i "serving st"] show ?thesis
    by (auto simp: miner_ok_def)
next
  case (SettleRequest mv payload)
  show ?thesis
  proof (cases rule: handle_settle_cases [where E = E and cfg = cfg and loads = loads and mv = mv
        and q = "queue st" and payload = payload])
    case (queued r sig)
    from queued(1) have "entry_ok E cfg (r, sig)"
      by (rule settle_check_Accept) (simp add: entry_ok_def eligible_def)
    with assms queued SettleRequest show ?thesis
      by (auto simp: miner_ok_def mem_add_or_replace)
  qed (use assms SettleRequest in simp)
next
  case (FlushDue api)
  with assms show ?thesis by (auto simp: miner_ok_def dest: mem_batcher_flush)
qed

interpretation miner_machine: event_machine "miner_step E cfg loads" "\<lambda>st. \<exists>n. st = new_miner n"
    "miner_ok E cfg" for E cfg loads
proof
  fix st ev
  show "miner_ok E cfg st \<Longrightarrow> miner_ok E cfg (miner_step E cfg loads st ev)" by (rule miner_ok_step)
next
  fix st
  show "\<exists>n. st = new_miner n \<Longrightarrow> miner_ok E cfg st"
    by (auto simp: new_miner_def new_batcher_def miner_ok_def)
qed

section \<open>Properties\<close>

text \<open>
  C23. The miner spends its engine only on paid work: a request reaches the engine exactly when its
  payload and prompt are within bounds and carry the field values read below, the prompt hash of
  the receipt is that of the prompt, the user's signature over the receipt verifies, the receipt is
  for this Brain and this miner and not expired, its nonce is unused and the user's balance covers
  the budget, which is never below the reserved amount.
\<close>
theorem infer_serves_only_eligible:
  "infer_check E cfg loads mv payload = Inr (Accept sv) \<longleftrightarrow>
     length payload \<le> MAX_PAYLOAD_BYTES \<and> length (sv_prompt sv) \<le> MAX_PROMPT_CHARS
   \<and> (\<exists>req rd ph expected asked. loads payload = Inr req
        \<and> jkey req (lit ''user_signature'') = Inr (sv_sig sv) \<and> jkey req (lit ''receipt'') = Inr rd
        \<and> jkey req (lit ''prompt'') = Inr (JStr (sv_prompt sv)) \<and> read_receipt E rd = Inr (sv_receipt sv)
        \<and> rc_prompt_hash (sv_receipt sv) = JStr ph \<and> text_hash E (sv_prompt sv) = Inr expected
        \<and> lower ph = lower expected
        \<and> rbind (jget req (lit ''budget'') (JInt (rc_amount (sv_receipt sv)))) py_int = Inr asked
        \<and> sv_budget sv = max asked (rc_amount (sv_receipt sv)))
   \<and> verify_user_signature E (mc_market cfg) (mc_chain_id cfg) (sv_receipt sv) (sv_sig sv) = Inr True
   \<and> eligible E cfg mv (sv_receipt sv) (sv_budget sv)"
  (is "?check \<longleftrightarrow> ?conds")
proof
  assume ?check
  then show ?conds by (rule infer_check_Accept) blast
next
  assume conds: ?conds
  then obtain req rd ph expected asked where
    "loads payload = Inr req" "jkey req (lit ''user_signature'') = Inr (sv_sig sv)"
    "jkey req (lit ''receipt'') = Inr rd" "jkey req (lit ''prompt'') = Inr (JStr (sv_prompt sv))"
    "read_receipt E rd = Inr (sv_receipt sv)" "rc_prompt_hash (sv_receipt sv) = JStr ph"
    "text_hash E (sv_prompt sv) = Inr expected" "lower ph = lower expected"
    "rbind (jget req (lit ''budget'') (JInt (rc_amount (sv_receipt sv)))) py_int = Inr asked"
    "sv_budget sv = max asked (rc_amount (sv_receipt sv))" by blast
  with conds show ?check
    by (subst infer_check_complete [of payload loads req "sv_sig sv" rd "sv_prompt sv" E "sv_receipt sv" ph
          expected cfg asked mv]) (auto intro: served.equality)
qed

text \<open>
  Whatever requests, settlements and flushes interleave, every receipt the miner ever queues is
  for its Brain, payable to its address and signed by its user, and so is the receipt of every
  request being served, whose budget covers the reserved amount.
\<close>
theorem miner_queue_is_signed:
  assumes "foldl (miner_step E cfg loads) (new_miner n) evs = st"
  shows "(\<forall>x \<in> set (pending (queue st)). entry_ok E cfg x)
    \<and> (\<forall>sv \<in> set (serving st). entry_ok E cfg (sv_receipt sv, sv_sig sv)
         \<and> rc_amount (sv_receipt sv) \<le> sv_budget sv)"
  using miner_machine.reachable_inv [of "new_miner n" E cfg loads evs] assms
  by (auto simp: miner_ok_def)

lemma answered_iff: "(\<exists>response. generate E engine elapsed req = Inr response) \<longleftrightarrow>
    (\<forall>e. generate E engine elapsed req \<noteq> Inl e)"
  by (cases "generate E engine elapsed req") auto

text \<open>The metered price of an exchange, from the byte lengths of its two texts.\<close>

definition metered :: "int \<Rightarrow> int \<Rightarrow> bytes \<Rightarrow> bytes \<Rightarrow> int" where
  "metered ppt ppr p r = ppr + ppt * (int (length p) + int (length r))"

lemma miner_quote_Inr:
  "miner_quote mv prompt response = Inr q \<longleftrightarrow>
     (\<exists>ppt ppr p r. price_per_byte mv = Inr ppt \<and> price_per_request mv = Inr ppr
        \<and> (0 < ppt \<or> 0 < ppr) \<and> utf8_encode prompt = Inr p \<and> utf8_encode response = Inr r
        \<and> q = metered ppt ppr p r)"
  by (auto simp: miner_quote_def metered_def split: sum.splits)

text \<open>
  The answer to a served request bills the metered price of the delivered text and never more
  than the budget: the proposed final receipt differs from the pre-authorization only in the
  response hash, which is that of the text, and the amount, the smaller of budget and price.
\<close>
theorem charge_is_metered:
  assumes "infer_finish E cfg mv engine elapsed sv q = (q', Inr reply)"
  shows "\<exists>response signature ppt ppr p r.
      generate E engine elapsed (new_inference_request (sv_prompt sv)) = Inr response
    \<and> q' = batcher_add q (sv_receipt sv) (sv_sig sv)
    \<and> price_per_byte mv = Inr ppt \<and> price_per_request mv = Inr ppr \<and> (0 < ppt \<or> 0 < ppr)
    \<and> utf8_encode (sv_prompt sv) = Inr p \<and> utf8_encode (ir_text response) = Inr r
    \<and> ir_response_hash response = hex0x (keccak E r)
    \<and> reply = infer_reply (sv_receipt sv) response (min (metered ppt ppr p r) (sv_budget sv)) signature
    \<and> min (metered ppt ppr p r) (sv_budget sv) \<le> sv_budget sv"
proof -
  obtain response where g: "generate E engine elapsed (new_inference_request (sv_prompt sv)) = Inr response"
    using assms by (auto simp: infer_finish_def split: sum.splits)
  from generate_Inr [OF g] obtain hp hr where
    h: "utf8_encode (sv_prompt sv) = Inr hp" "utf8_encode (ir_text response) = Inr hr"
      "ir_response_hash response = hex0x (keccak E hr)"
    by (auto simp: new_inference_request_def)
  with assms g show ?thesis
    by (auto simp: infer_finish_def miner_quote_Inr Let_def)
qed

text \<open>
  Delivered or not, the work is on record: whatever the pricing, the signature or the encoding
  of the answer do afterwards, the pre-authorization is in the queue exactly when the engine
  answered; when it fails nothing is queued.
\<close>
theorem preauth_queued_iff_engine_answers:
  "fst (infer_finish E cfg mv engine elapsed sv q) =
     (if \<exists>response. generate E engine elapsed (new_inference_request (sv_prompt sv)) = Inr response
      then batcher_add q (sv_receipt sv) (sv_sig sv) else q)"
  by (auto simp: infer_finish_queue split: sum.splits)

lemma filter_add_or_replace:
  "filter (\<lambda>x. same_slot (fst x) r) (pending (add_or_replace q r sig)) = [(r, sig)]"
  "filter (\<lambda>x. \<not> same_slot (fst x) r) (pending (add_or_replace q r sig)) =
     filter (\<lambda>x. \<not> same_slot (fst x) r) (pending q)"
  by (simp_all add: add_or_replace_def same_slot_def)

text \<open>
  C24. A settlement replaces the reservation: a request that is answered \<open>ok\<close> carries a receipt
  signed by its user, eligible for its amount and not bound to the zero hash, and afterwards that
  receipt is the only one queued for its user and nonce, with every other entry kept in order; any
  other request leaves the queue alone.
\<close>
theorem settle_supersedes_preauth:
  assumes "handle_settle E cfg loads mv q payload = (q', reply)"
  shows "(reply \<noteq> Inr (JObj [(lit ''ok'', JBool True)]) \<and> q' = q)
    \<or> (reply = Inr (JObj [(lit ''ok'', JBool True)])
       \<and> (\<exists>r sig. settle_check E cfg loads mv payload = Inr (Accept (r, sig))
            \<and> entry_ok E cfg (r, sig) \<and> eligible E cfg mv r (rc_amount r)
            \<and> rc_response_hash r \<noteq> JStr (ox @ concat (replicate 32 (lit ''00'')))
            \<and> filter (\<lambda>x. same_slot (fst x) r) (pending q') = [(r, sig)]
            \<and> filter (\<lambda>x. \<not> same_slot (fst x) r) (pending q') =
                filter (\<lambda>x. \<not> same_slot (fst x) r) (pending q)))"
proof (cases rule: handle_settle_cases [where E = E and cfg = cfg and loads = loads and mv = mv
      and q = q and payload = payload])
  case (queued r sig)
  from queued(1) have ok: "entry_ok E cfg (r, sig)" "eligible E cfg mv r (rc_amount r)"
    "rc_response_hash r \<noteq> JStr (ox @ concat (replicate 32 (lit ''00'')))"
    by (auto elim!: settle_check_Accept simp: entry_ok_def eligible_def)
  have "q' = add_or_replace q r sig" "reply = Inr (JObj [(lit ''ok'', JBool True)])"
    using queued(2) assms by auto
  with queued(1) ok show ?thesis
    by (intro disjI2 conjI exI [of _ r] exI [of _ sig]) (simp_all add: filter_add_or_replace)
qed (use assms in simp)

section \<open>Receipts at the market\<close>

text \<open>The chain the miner reads is the market it redeems at.\<close>

definition view_of_market :: "miner_view \<Rightarrow> market \<Rightarrow> bool" where
  "view_of_market mv m \<longleftrightarrow>
     (\<forall>u n used. used_nonces mv u n = Inr used \<longrightarrow> used = mk_used m (lower u) n)
     \<and> (\<forall>u bal. balances mv u = Inr bal \<longrightarrow> bal = mk_balances m (lower u))"

lemma read_receipt_user:
  assumes "read_receipt E rd = Inr r" and "checksum_canonical E"
  shows "checksum E (rc_user r) = Inr (rc_user r)" "checksum E (rc_miner r) = Inr (rc_miner r)"
  using assms by (auto simp: read_receipt_def checksum_canonical_def)


text \<open>
  A validator's challenge reaches the engine only when a registered validator of this Brain
  signed exactly this prompt and seed, and it is answered with temperature 0 and that seed.
\<close>
theorem challenge_needs_registered_validator:
  assumes "challenge_check E cfg loads mv payload = Inr (Accept (prompt, seed))"
  shows "length payload \<le> MAX_PAYLOAD_BYTES \<and> length prompt \<le> MAX_PROMPT_CHARS
    \<and> (\<exists>body v validator sig digest recovered. loads payload = Inr body
        \<and> jkey body (lit ''prompt'') = Inr (JStr prompt)
        \<and> jkey body (lit ''validator'') = Inr v \<and> to_checksum_address E v = Inr validator
        \<and> jkey body (lit ''validator_signature'') = Inr sig
        \<and> challenge_digest E (mc_brain_id cfg) prompt seed = Inr digest
        \<and> recover_message E digest sig = Inr recovered \<and> lower recovered = lower validator
        \<and> view_is_validator mv (mc_brain_id cfg) validator = Inr True)
    \<and> handle_challenge E cfg loads mv engine elapsed payload =
        rbind (generate E engine elapsed
                 ((new_inference_request prompt)\<lparr>iq_temperature := 0, iq_seed := Some seed\<rparr>)) (\<lambda>response.
        rbind (sign_response E cfg response) (\<lambda>signature. Inr (challenge_reply response signature)))"
proof -
  have "handle_challenge E cfg loads mv engine elapsed payload =
        rbind (generate E engine elapsed
                 ((new_inference_request prompt)\<lparr>iq_temperature := 0, iq_seed := Some seed\<rparr>)) (\<lambda>response.
        rbind (sign_response E cfg response) (\<lambda>signature. Inr (challenge_reply response signature)))"
    using assms by (simp add: handle_challenge_def)
  with assms show ?thesis
    by (auto simp: challenge_check_def dest!: prompt_okD split: if_splits sum.splits bool.splits)
qed

section \<open>Replay\<close>

lemma serve_once:
  assumes "infer_check E cfg loads mv payload = Inr (Accept sv)" and "serving st = []"
    and "generate E engine elapsed (new_inference_request (sv_prompt sv)) = Inr response"
  shows "foldl (miner_step E cfg loads) st [InferStart mv payload, InferEnd 0 mv engine elapsed] =
     st\<lparr>queue := batcher_add (queue st) (sv_receipt sv) (sv_sig sv)\<rparr>"
  using assms by (simp add: infer_finish_queue drop_nth_def)

lemma serve_many:
  assumes "infer_check E cfg loads mv payload = Inr (Accept sv)" and "serving st = []"
    and "generate E engine elapsed (new_inference_request (sv_prompt sv)) = Inr response"
  shows "pending (queue (foldl (miner_step E cfg loads) st
           (concat (replicate k [InferStart mv payload, InferEnd 0 mv engine elapsed])))) =
         pending (queue st) @ replicate k (sv_receipt sv, sv_sig sv)"
  using assms(2)
proof (induction k arbitrary: st)
  case (Suc k)
  have "foldl (miner_step E cfg loads) st
      (concat (replicate (Suc k) [InferStart mv payload, InferEnd 0 mv engine elapsed])) =
    foldl (miner_step E cfg loads) (st\<lparr>queue := batcher_add (queue st) (sv_receipt sv) (sv_sig sv)\<rparr>)
      (concat (replicate k [InferStart mv payload, InferEnd 0 mv engine elapsed]))"
    using serve_once [OF assms(1) Suc.prems assms(3)] by simp
  then show ?case
    by (simp add: Suc.IH Suc.prems batcher_add_def)
qed simp

lemma distinct_map_one:
  "distinct (map f xs) \<Longrightarrow> length (filter (\<lambda>x. f x = k) xs) \<le> 1"
proof (induction xs)
  case (Cons x xs)
  have "f x \<notin> f ` set xs" using Cons.prems by simp
  then have "f x = k \<Longrightarrow> filter (\<lambda>y. f y = k) xs = []"
    by (auto simp: filter_empty_conv simp del: image_iff) (metis imageI)
  with Cons show ?case by (cases "f x = k") simp_all
qed simp

text \<open>
  A pre-authorization can be served more often than it can be paid: as long as its nonce is not
  redeemed, sending the same payload \<open>k\<close> times gets it served \<open>k\<close> times and queued \<open>k\<close> times, while
  no sequence of calls makes the market pay its nonce more than once.
\<close>
theorem preauth_served_many_paid_once:
  assumes "infer_check E cfg loads mv payload = Inr (Accept sv)" and "serving st = []"
    and "generate E engine elapsed (new_inference_request (sv_prompt sv)) = Inr response"
    and "market_new m" and "foldl (market_step E this chain) (m, []) evs = (m', paid)"
  shows "pending (queue (foldl (miner_step E cfg loads) st
            (concat (replicate k [InferStart mv payload, InferEnd 0 mv engine elapsed])))) =
          pending (queue st) @ replicate k (sv_receipt sv, sv_sig sv)
    \<and> length (filter (\<lambda>t. tuple_key t = (lower (rc_user (sv_receipt sv)), rc_nonce (sv_receipt sv))) paid) \<le> 1"
proof -
  have "distinct (map tuple_key paid)"
    using market_machine.reachable_inv [of "(m, [])" E this chain evs] assms(4,5)
    by (simp add: market_ok_def)
  from distinct_map_one [OF this] serve_many [OF assms(1-3)] show ?thesis by simp
qed

section \<open>A concrete miner\<close>

definition demo_miner_cfg :: miner_config where
  "demo_miner_cfg = \<lparr>mc_brain_id = 3, mc_market = hex0x [9], mc_chain_id = 1, mc_key = [8], mc_max_fee = 0\<rparr>"

definition demo_view :: miner_view where
  "demo_view = \<lparr>used_nonces = (\<lambda>_ _. Inr False), balances = (\<lambda>_. Inr 100), price_per_byte = Inr 1,
     price_per_request = Inr 5, view_is_miner = (\<lambda>_ _. Inr True), view_is_validator = (\<lambda>_ _. Inr True),
     clock = 100\<rparr>"

definition demo_receipt :: "pystr receipt" where
  "demo_receipt = \<lparr>rc_user = hex0x [7], rc_miner = hex0x [8], rc_brain_id = 3,
     rc_prompt_hash = JStr (hex0x (demo_hash 209)), rc_response_hash = JStr (hex0x (demo_hash 2)),
     rc_amount = 10, rc_expiry = 200, rc_nonce = 5\<rparr>"

definition demo_digest_of :: "pystr receipt \<Rightarrow> bytes" where
  "demo_digest_of r = projr (receipt_digest demo_eth (hex0x [9]) 1 r)"

definition demo_sig :: json where
  "demo_sig = JStr (sign_message demo_eth [7] (demo_digest_of demo_receipt))"

definition demo_body :: json where
  "demo_body = JObj [(lit ''user_signature'', demo_sig), (lit ''prompt'', JStr (lit ''hi'')),
     (lit ''budget'', JInt 50),
     (lit ''receipt'', JObj [(lit ''user'', JStr (hex0x [7])), (lit ''miner'', JStr (hex0x [8])),
        (lit ''brain_id'', JInt 3), (lit ''prompt_hash'', JStr (hex0x (demo_hash 209))),
        (lit ''response_hash'', JStr (hex0x (demo_hash 2))), (lit ''amount'', JInt 10),
        (lit ''expiry'', JInt 200), (lit ''nonce'', JInt 5)])]"

definition demo_served :: served where
  "demo_served = \<lparr>sv_prompt = lit ''hi'', sv_receipt = demo_receipt, sv_sig = demo_sig, sv_budget = 50\<rparr>"

lemma demo_hi: "utf8_encode (lit ''hi'') = Inr [104, 105]"
  by (simp add: utf8_encode_def lit_def utf8_char_def of_char_def)

lemma demo_hi_hash: "text_hash demo_eth (lit ''hi'') = Inr (hex0x (demo_hash 209))"
  by (simp add: text_hash_def keccak_text_def demo_hi hex0x_def)

lemma demo_read: "read_receipt demo_eth (projr (jkey demo_body (lit ''receipt''))) = Inr demo_receipt"
  by (simp add: demo_body_def read_receipt_def demo_receipt_def)

lemma demo_verify:
  "verify_user_signature demo_eth (hex0x [9]) 1 demo_receipt demo_sig = Inr True"
proof -
  obtain d where d: "receipt_digest demo_eth (hex0x [9]) 1 demo_receipt = Inr d"
    by (simp add: receipt_digest_def receipt_fields_def demo_receipt_def)
  then have "demo_sig = JStr (to_hex (7 # d))"
    by (simp add: demo_sig_def demo_digest_of_def demo_key_def)
  then have "demo_recover d demo_sig = Inr (hex0x [7])"
    by (metis demo_recover_own)
  moreover have "rc_user demo_receipt = hex0x [7]" by (simp add: demo_receipt_def)
  ultimately show ?thesis by (simp add: verify_user_signature_def d)
qed

lemma demo_eligible: "b \<le> 100 \<Longrightarrow> eligible demo_eth demo_miner_cfg demo_view demo_receipt b"
  by (simp add: eligible_def demo_miner_cfg_def demo_view_def demo_receipt_def miner_address_def demo_key_def)

lemma demo_infer_check:
  "infer_check demo_eth demo_miner_cfg (\<lambda>_. Inr demo_body) demo_view [] = Inr (Accept demo_served)"
proof -
  have "infer_check demo_eth demo_miner_cfg (\<lambda>_. Inr demo_body) demo_view [] =
      Inr (Accept \<lparr>sv_prompt = lit ''hi'', sv_receipt = demo_receipt, sv_sig = demo_sig,
                   sv_budget = max 50 (rc_amount demo_receipt)\<rparr>)"
  proof (rule infer_check_complete)
    show "jkey demo_body (lit ''receipt'') = Inr (projr (jkey demo_body (lit ''receipt'')))"
      by (simp add: demo_body_def)
    show "verify_user_signature demo_eth (mc_market demo_miner_cfg) (mc_chain_id demo_miner_cfg)
        demo_receipt demo_sig = Inr True"
      using demo_verify by (simp add: demo_miner_cfg_def)
    show "rc_prompt_hash demo_receipt = JStr (hex0x (demo_hash 209))" by (simp add: demo_receipt_def)
    show "text_hash demo_eth (lit ''hi'') = Inr (hex0x (demo_hash 209))" by (rule demo_hi_hash)
    show "read_receipt demo_eth (projr (jkey demo_body (lit ''receipt''))) = Inr demo_receipt"
      by (rule demo_read)
    show "eligible demo_eth demo_miner_cfg demo_view demo_receipt (max 50 (rc_amount demo_receipt))"
      by (rule demo_eligible) (simp add: demo_receipt_def)
  qed (simp_all add: demo_body_def MAX_PROMPT_CHARS_def dict_get_or_def lit_def)
  then show ?thesis by (simp add: demo_served_def demo_receipt_def)
qed

abbreviation demo_engine :: "(inference_request \<Rightarrow> pystr res) option" where
  "demo_engine \<equiv> Some (\<lambda>_. Inr (lit ''hi''))"

lemma demo_generate: "\<exists>response. generate demo_eth demo_engine 0 (new_inference_request (lit ''hi'')) = Inr response"
  by (simp add: generate_def new_inference_request_def demo_hi_hash)

theorem preauth_served_many_paid_once_witness:
  "\<exists>m' paid. foldl (market_step demo_eth (hex0x [9]) 1) (demo_market, []) [demo_redeem 10, demo_redeem 10] = (m', paid)
     \<and> pending (queue (foldl (miner_step demo_eth demo_miner_cfg (\<lambda>_. Inr demo_body)) (new_miner 50)
            (concat (replicate 3 [InferStart demo_view [], InferEnd 0 demo_view demo_engine 0])))) =
          replicate 3 (demo_receipt, demo_sig)
     \<and> length (filter (\<lambda>t. tuple_key t = (hex0x [7], 5)) paid) \<le> 1"
proof -
  obtain m' paid where run: "foldl (market_step demo_eth (hex0x [9]) 1) (demo_market, [])
      [demo_redeem 10, demo_redeem 10] = (m', paid)" by fastforce
  obtain response where g: "generate demo_eth demo_engine 0 (new_inference_request (sv_prompt demo_served)) = Inr response"
    using demo_generate by (auto simp: demo_served_def)
  have m: "market_new demo_market" by (simp add: market_new_def demo_market_def)
  have "serving (new_miner 50) = []" by (simp add: new_miner_def)
  from preauth_served_many_paid_once [OF demo_infer_check this g m run, of 3] run show ?thesis
    by (simp add: demo_served_def demo_receipt_def new_miner_def new_batcher_def)
qed

theorem miner_queue_is_signed_witness:
  "\<forall>x \<in> set (pending (queue (foldl (miner_step demo_eth demo_miner_cfg (\<lambda>_. Inr demo_body)) (new_miner 50)
       [InferStart demo_view [], InferEnd 0 demo_view demo_engine 0, SettleRequest demo_view []]))).
     entry_ok demo_eth demo_miner_cfg x"
  using miner_queue_is_signed [OF refl, of demo_eth demo_miner_cfg "\<lambda>_. Inr demo_body" 50
      "[InferStart demo_view [], InferEnd 0 demo_view demo_engine 0, SettleRequest demo_view []]"]
  by blast

lemma demo_finish:
  "\<exists>reply. infer_finish demo_eth demo_miner_cfg demo_view demo_engine 0 demo_served (new_batcher 50) =
     (batcher_add (new_batcher 50) demo_receipt demo_sig, Inr reply)"
  by (simp add: infer_finish_def generate_def new_inference_request_def demo_served_def demo_hi_hash
      miner_quote_def demo_view_def demo_hi sign_response_def demo_miner_cfg_def Let_def)

theorem charge_is_metered_witness:
  "\<exists>response signature. infer_finish demo_eth demo_miner_cfg demo_view demo_engine 0 demo_served (new_batcher 50) =
     (batcher_add (new_batcher 50) demo_receipt demo_sig, Inr (infer_reply demo_receipt response 9 signature))"
proof -
  obtain reply where r: "infer_finish demo_eth demo_miner_cfg demo_view demo_engine 0 demo_served (new_batcher 50) =
      (batcher_add (new_batcher 50) demo_receipt demo_sig, Inr reply)" using demo_finish by blast
  from charge_is_metered [OF r] obtain response signature p r' where
    *: "generate demo_eth demo_engine 0 (new_inference_request (lit ''hi'')) = Inr response"
      "utf8_encode (lit ''hi'') = Inr p" "utf8_encode (ir_text response) = Inr r'"
      "reply = infer_reply demo_receipt response (min (metered 1 5 p r') 50) signature"
    by (auto simp: demo_served_def demo_view_def)
  then have "ir_text response = lit ''hi''" by (auto simp: generate_def)
  with *(2,3) have "p = [104, 105]" "r' = [104, 105]" by (simp_all add: demo_hi)
  with * have "reply = infer_reply demo_receipt response 9 signature" by (simp add: metered_def)
  with r show ?thesis by blast
qed

lemma to_hex_zeros: "to_hex (replicate n 0) = concat (replicate n (lit ''00''))"
  by (induction n) (simp_all add: to_hex.simps hex_char_def lit_def of_char_def)

lemma demo_settle_check:
  "settle_check demo_eth demo_miner_cfg (\<lambda>_. Inr demo_body) demo_view [] = Inr (Accept (demo_receipt, demo_sig))"
proof -
  have body: "jkey demo_body (lit ''receipt'') = Inr (projr (jkey demo_body (lit ''receipt'')))"
    "jkey demo_body (lit ''user_signature'') = Inr demo_sig"
    by (simp_all add: demo_body_def)
  have "demo_hash 2 \<noteq> replicate 32 0" by simp
  then have "to_hex (demo_hash 2) \<noteq> to_hex (replicate 32 0)" by (simp only: to_hex_inject not_False_eq_True)
  moreover have "to_hex (replicate 32 0) = concat (replicate 32 (lit ''00''))"
    by (rule to_hex_zeros)
  ultimately have "rc_response_hash demo_receipt \<noteq> JStr (ox @ concat (replicate 32 (lit ''00'')))"
    by (simp add: demo_receipt_def hex0x_def)
  moreover have "eligible demo_eth demo_miner_cfg demo_view demo_receipt (rc_amount demo_receipt)"
    by (rule demo_eligible) (simp add: demo_receipt_def)
  moreover have "verify_user_signature demo_eth (mc_market demo_miner_cfg) (mc_chain_id demo_miner_cfg)
      demo_receipt demo_sig = Inr True"
    using demo_verify by (simp add: demo_miner_cfg_def)
  ultimately show ?thesis
    by (intro settle_check_complete [OF refl body(1) body(2) demo_read])
qed

theorem settle_supersedes_preauth_witness:
  "pending (fst (handle_settle demo_eth demo_miner_cfg (\<lambda>_. Inr demo_body) demo_view
     (batcher_add (new_batcher 50) demo_receipt (JStr (lit ''preauth''))) [])) = [(demo_receipt, demo_sig)]"
proof -
  let ?q = "batcher_add (new_batcher 50) demo_receipt (JStr (lit ''preauth''))"
  have "handle_settle demo_eth demo_miner_cfg (\<lambda>_. Inr demo_body) demo_view ?q [] =
      (add_or_replace ?q demo_receipt demo_sig, Inr (JObj [(lit ''ok'', JBool True)]))"
    by (simp add: handle_settle_def demo_settle_check)
  from settle_supersedes_preauth [OF this] show ?thesis
    by (simp add: handle_settle_def demo_settle_check add_or_replace_def batcher_add_def
        new_batcher_def same_slot_def)
qed


definition demo_challenge :: json where
  "demo_challenge = JObj [(lit ''prompt'', JStr (lit ''hi'')), (lit ''validator'', JStr (hex0x [6])),
     (lit ''validator_signature'', JStr (sign_message demo_eth [6]
        (projr (challenge_digest demo_eth 3 (lit ''hi'') 1)))), (lit ''seed'', JInt 1)]"

theorem challenge_needs_registered_validator_witness:
  "challenge_check demo_eth demo_miner_cfg (\<lambda>_. Inr demo_challenge) demo_view [] = Inr (Accept (lit ''hi'', 1))
   \<and> view_is_validator demo_view 3 (hex0x [6]) = Inr True"
proof -
  obtain d where d: "challenge_digest demo_eth 3 (lit ''hi'') 1 = Inr d"
    by (simp add: challenge_digest_def keccak_text_def demo_hi)
  then have sig: "jkey demo_challenge (lit ''validator_signature'') = Inr (JStr (to_hex (6 # d)))"
    by (simp add: demo_challenge_def demo_key_def)
  have rec: "demo_recover d (JStr (to_hex (6 # d))) = Inr (hex0x [6])" by (rule demo_recover_own)
  have ok: "prompt_ok (JStr (lit ''hi''))" by (simp add: lit_def MAX_PROMPT_CHARS_def)
  have rest: "jkey demo_challenge (lit ''prompt'') = Inr (JStr (lit ''hi''))"
    "jkey demo_challenge (lit ''validator'') = Inr (JStr (hex0x [6]))"
    "jget demo_challenge (lit ''seed'') (JInt 0) = Inr (JInt 1)"
    by (simp_all add: demo_challenge_def dict_get_or_def)
  have "challenge_check demo_eth demo_miner_cfg (\<lambda>_. Inr demo_challenge) demo_view [] = Inr (Accept (lit ''hi'', 1))"
    unfolding challenge_check_def
    by (simp add: rest sig rec ok d demo_miner_cfg_def demo_view_def del: rbind_Inr_iff prompt_ok.simps)
  from this challenge_needs_registered_validator [OF this] show ?thesis
    by (auto simp: rest demo_miner_cfg_def demo_view_def)
qed

end
