(* ===== verification/Session.thy ===== *)
theory Session imports Client MinerRun
begin

text \<open>
  One inference from both ends: what a client's call can commit its user to, that the two programs
  and the contract agree on the receipts they exchange, and that an honest exchange goes through.
\<close>

section \<open>The sentinel\<close>

lemma length_be_bytes [simp]: "length (be_bytes k n) = k"
  by (induction k arbitrary: n) auto

fun fixed_hex :: "nat \<Rightarrow> nat \<Rightarrow> pystr" where
  "fixed_hex 0 n = []"
| "fixed_hex (Suc k) n = fixed_hex k (n div 16) @ [hex_char (n mod 16)]"

lemma hex_char_0: "hex_char 0 = 48"
  by (simp add: hex_char_def)

lemma fixed_hex_0: "fixed_hex k 0 = replicate k 48"
  by (induction k) (simp_all add: hex_char_0 replicate_append_same)

lemma length_hex_text: "n < 16 ^ k \<Longrightarrow> 0 < k \<Longrightarrow> length (hex_text n) \<le> k"
proof (induction n arbitrary: k rule: hex_text.induct)
  case (1 n)
  show ?case
  proof (cases "n < 16")
    case True
    with 1 show ?thesis by (simp add: hex_text.simps [of n])
  next
    case False
    with 1 obtain j where k: "k = Suc j" "0 < j" by (cases k; cases "k - 1") auto
    then have "n div 16 < 16 ^ j" using 1 by (simp add: div_less_iff_less_mult mult.commute)
    with 1 False k show ?thesis by (simp add: hex_text.simps [of n])
  qed
qed

lemma padded_hex: "n < 16 ^ k \<Longrightarrow> 0 < k \<Longrightarrow> replicate (k - length (hex_text n)) 48 @ hex_text n = fixed_hex k n"
proof (induction n arbitrary: k rule: hex_text.induct)
  case (1 n)
  then obtain j where k: "k = Suc j" by (cases k) auto
  show ?case
  proof (cases "n < 16")
    case True
    then have "n div 16 = 0" by simp
    with True k show ?thesis by (simp add: hex_text.simps [of n] fixed_hex_0)
  next
    case False
    with 1 k have j: "0 < j" by (cases j) auto
    have lt: "n div 16 < 16 ^ j" using 1 k by (simp add: div_less_iff_less_mult mult.commute)
    have "length (hex_text (n div 16)) \<le> j" by (rule length_hex_text [OF lt j])
    with "1.IH" [OF False lt j] False k show ?thesis
      by (simp add: hex_text.simps [of n] Suc_diff_le)
  qed
qed

lemma to_hex_append: "to_hex (xs @ ys) = to_hex xs @ to_hex ys"
  by (induction xs) (simp_all add: to_hex.simps)

lemma nibbles: "(n :: nat) mod 256 div 16 = n div 16 mod 16" "n mod 256 mod 16 = n mod 16"
  using mod_mult2_eq [of n 16 16] by simp_all

lemma fixed_hex_be_bytes: "fixed_hex (2 * k) n = to_hex (be_bytes k (int n))"
proof (induction k arbitrary: n)
  case (Suc k)
  have "unat (of_int (int n) :: byte) = n mod 256" by (simp add: unat_of_nat)
  then have "to_hex [of_int (int n)] = [hex_char (n div 16 mod 16), hex_char (n mod 16)]"
    by (simp add: to_hex.simps nibbles)
  moreover have "int n div 256 = int (n div 256)" by (simp add: zdiv_int)
  ultimately show ?case
    using Suc [of "n div 256"] by (simp add: to_hex_append div_mult2_eq [symmetric])
qed (simp add: to_hex.simps)

lemma format_064x_bytes:
  assumes "0 \<le> n" and "n < 2 ^ 256"
  shows "format_064x n = to_hex (be_bytes 32 n)"
proof -
  have "nat n < 16 ^ 64" using assms by (simp add: nat_less_iff)
  from padded_hex [OF this] have "replicate (64 - length (hex_text (nat n))) 48 @ hex_text (nat n) = fixed_hex (2 * 32) (nat n)"
    by simp
  also have "\<dots> = to_hex (be_bytes 32 (int (nat n)))" by (rule fixed_hex_be_bytes)
  finally show ?thesis using assms by (simp add: format_064x_def Let_def)
qed

lemma sentinel_text_bytes:
  assumes "0 \<le> n" and "n < 2 ^ 256"
  shows "sentinel_text E (hex0x bs) n = Inr (hex0x (sentinel_hash E bs n))"
proof -
  have "fromhex (to_hex bs @ to_hex (be_bytes 32 n)) = Inr (bs @ be_bytes 32 n)"
    by (simp add: to_hex_append [symmetric])
  with format_064x_bytes [OF assms] show ?thesis
    by (simp add: sentinel_text_def sentinel_hash_def hex0x_def [symmetric])
qed

text \<open>
  The client's sentinel is the contract's: for the prompt hash it sends and any nonce of up to
  256 bits, the text the client signs as response hash is the hexadecimal form of the hash
  \<open>redeem\<close> caps at the maximal reservation.
\<close>
theorem client_sentinel_is_the_contracts:
  assumes "text_hash E prompt = Inr ph" and "0 \<le> n" and "n < 2 ^ 256"
  shows "\<exists>bs. hash_bytes (JStr ph) = Inr bs \<and> sentinel_text E ph n = Inr (hex0x (sentinel_hash E bs n))
     \<and> hash_bytes (JStr (hex0x (sentinel_hash E bs n))) = Inr (sentinel_hash E bs n)"
proof -
  obtain pb where "ph = hex0x (keccak E pb)"
    using assms(1) by (auto simp: text_hash_def keccak_text_def hex0x_def)
  then show ?thesis
    using sentinel_text_bytes [OF assms(2,3)] by simp
qed

section \<open>What a call commits its user to\<close>

text \<open>The final receipts a client counter-signs for the pre-authorization \<open>p\<close> and the text \<open>t\<close>.\<close>

definition counter_signable :: "ethlib \<Rightarrow> client_world \<Rightarrow> client_request \<Rightarrow> json receipt \<Rightarrow> pystr \<Rightarrow> json receipt \<Rightarrow> bool" where
  "counter_signable E w req p t f \<longleftrightarrow>
     same_text (rc_user f) (rc_user p) = Inr True \<and> same_text (rc_miner f) (rc_miner p) = Inr True
     \<and> same_text (rc_prompt_hash f) (rc_prompt_hash p) = Inr True
     \<and> rc_brain_id f = rc_brain_id p \<and> rc_expiry f = rc_expiry p \<and> rc_nonce f = rc_nonce p
     \<and> (\<exists>rh. text_hash E t = Inr rh \<and> jlower (rc_response_hash f) = Inr (lower rh))
     \<and> (\<exists>ppt ppr pb tb. read_pricing w = (ppt, ppr) \<and> (0 < ppt \<or> 0 < ppr)
          \<and> utf8_encode (rq_prompt req) = Inr pb \<and> utf8_encode t = Inr tb
          \<and> rc_amount f = min (metered ppt ppr pb tb) (rq_budget req))"

definition is_preauth :: "ethlib \<Rightarrow> pystr \<Rightarrow> client_world \<Rightarrow> client_request \<Rightarrow> json receipt \<Rightarrow> bool" where
  "is_preauth E key w req p \<longleftrightarrow>
     rc_user p = JStr (key_address E key) \<and> rc_brain_id p = rq_brain_id req
     \<and> rc_amount p = reservation_of req \<and> rc_nonce p = w_nonce w
     \<and> (\<exists>ph. text_hash E (rq_prompt req) = Inr ph \<and> rc_prompt_hash p = JStr ph)"

lemma check_final_counter_signable:
  assumes "delivered_text E rep data = Inr (t, rh)" and "check_final w req p t rh final = Inr f"
  shows "counter_signable E w req p t f"
  using assms unfolding delivered_text_Inr check_final_Inr identity_Inr counter_signable_def metered_def
  by blast

lemma conclude_signed:
  "oc_signed (conclude E rep cfg key w req address p posted data) = [p] \<or>
   (\<exists>t f rh. delivered_text E rep data = Inr (t, rh) \<and> counter_signable E w req p t f
      \<and> oc_signed (conclude E rep cfg key w req address p posted data) = [p, f]
      \<and> (\<forall>r. oc_result (conclude E rep cfg key w req address p posted data) = Inr r \<longrightarrow>
           rs_text r = JStr t \<and> rs_amount r = rc_amount f))"
proof (cases rule: conclude_cases [where E = E and rep = rep and cfg = cfg and key = key and w = w
      and req = req and address = address and p = p and posted = posted and data = data])
  case (settled t rh final f sig)
  from check_final_counter_signable [OF settled(1,3)] settled(1,5) show ?thesis
    by (intro disjI2 exI [of _ t] exI [of _ f] exI [of _ rh])
      (auto simp: make_response_def delivered_text_Inr)
qed simp

lemma prepare_is_preauth:
  "prepare E cfg key w req miner = Inr (address, p, sig) \<Longrightarrow> is_preauth E key w req p"
  by (drule prepare_Inr) (auto simp: is_preauth_def)

lemma client_signed_cases:
  "oc_signed (client_infer E rep cfg w req) = [] \<or>
   (\<exists>key p. cc_key cfg = Some key \<and> is_preauth E key w req p
      \<and> (oc_signed (client_infer E rep cfg w req) = [p]
         \<or> (\<exists>t f. counter_signable E w req p t f \<and> oc_signed (client_infer E rep cfg w req) = [p, f]
              \<and> (\<forall>r. oc_result (client_infer E rep cfg w req) = Inr r \<longrightarrow>
                   rs_text r = JStr t \<and> rs_amount r = rc_amount f))))"
proof (cases rule: client_infer_cases [where E = E and rep = rep and cfg = cfg and w = w and req = req])
  case (unanswered key miner address p sig e)
  from prepare_is_preauth [OF unanswered(3)] unanswered(1,5) show ?thesis by auto
next
  case (answered key miner address p sig data)
  from prepare_is_preauth [OF answered(3)] answered(1) show ?thesis
    unfolding answered(5)
    using conclude_signed [of E rep cfg key w req address p "[request_body req address p sig]" data]
    by blast
qed simp

text \<open>
  C29. A call of the client signs at most two receipts: the pre-authorization of the reservation, for
  its own account, nonce and prompt, and after it a final receipt only for a text whose hash was
  checked, for the same user, miner, Brain, prompt, expiry and nonce, and for the smaller of the
  budget and the metered price of the two texts; a result that the call returns has that text and
  that amount.
\<close>
theorem client_signs_at_most_twice:
  "oc_signed (client_infer E rep cfg w req) = [] \<or>
   (\<exists>key p. cc_key cfg = Some key \<and> is_preauth E key w req p \<and> rc_amount p \<le> rq_budget req
      \<and> (oc_signed (client_infer E rep cfg w req) = [p]
         \<or> (\<exists>t f. counter_signable E w req p t f \<and> rc_amount f \<le> rq_budget req
              \<and> oc_signed (client_infer E rep cfg w req) = [p, f]
              \<and> (\<forall>r. oc_result (client_infer E rep cfg w req) = Inr r \<longrightarrow>
                   rs_text r = JStr t \<and> rs_amount r = rc_amount f))))"
proof -
  have "is_preauth E key w req p \<Longrightarrow> rc_amount p \<le> rq_budget req" for key p
    by (simp add: is_preauth_def reservation_le_budget)
  moreover have "counter_signable E w req p t f \<Longrightarrow> rc_amount f \<le> rq_budget req" for p t f
    by (auto simp: counter_signable_def)
  ultimately show ?thesis
    using client_signed_cases [of E rep cfg w req] by blast
qed

text \<open>The tuple a miner submits for a signed receipt.\<close>

definition submitted_as :: "json receipt \<Rightarrow> receipt_tuple \<Rightarrow> bool" where
  "submitted_as r t \<longleftrightarrow> (\<exists>tr. text_receipt r = Inr tr \<and> to_tuple tr = Inr t)"

lemma submitted_amount: "submitted_as r t \<Longrightarrow> tuple_amount t = rc_amount r"
  by (auto simp: submitted_as_def text_receipt_def to_tuple_def)

lemma sum_filter_key_le:
  assumes "distinct (map f xs)" and "\<And>x. x \<in> set xs \<Longrightarrow> f x = k \<Longrightarrow> g x \<le> (b :: int)"
  shows "sum_list (map g (filter (\<lambda>x. f x = k) xs)) \<le> max 0 b"
proof -
  have "length (filter (\<lambda>x. f x = k) xs) \<le> 1" by (rule distinct_map_one [OF assms(1)])
  then consider "filter (\<lambda>x. f x = k) xs = []" | x where "filter (\<lambda>x. f x = k) xs = [x]"
    by (cases "filter (\<lambda>x. f x = k) xs" rule: list.exhaust) (auto simp: le_Suc_eq)
  then show ?thesis
  proof cases
    case (2 x)
    then have "x \<in> set xs" "f x = k" by (auto dest: filter_eq_ConsD)
    with 2 assms(2) show ?thesis by fastforce
  qed simp
qed


section \<open>An honest exchange\<close>

text \<open>
  Documented behaviour of the libraries the exchange relies on: an address encodes by its value,
  whatever its letters; values in range have an encoding; the address of a key is checksummed.
\<close>

definition abi_address_value :: "ethlib \<Rightarrow> bool" where
  "abi_address_value E \<longleftrightarrow>
     (\<forall>a b vs ws. checksum E a = Inr b \<longrightarrow>
        abi_encode E (vs @ AAddress a # ws) = abi_encode E (vs @ AAddress b # ws))"

fun abi_in_range :: "ethlib \<Rightarrow> abi_val \<Rightarrow> bool" where
  "abi_in_range E (AUint k i) = (0 \<le> i \<and> i < 2 ^ k)"
| "abi_in_range E (AAddress a) = (\<exists>b. checksum E a = Inr b)"
| "abi_in_range E (ABytes32 bs) = (length bs = 32)"
| "abi_in_range E (AString s) = (\<exists>bs. utf8_encode s = Inr bs)"

definition abi_total :: "ethlib \<Rightarrow> bool" where
  "abi_total E \<longleftrightarrow> (\<forall>vs. list_all (abi_in_range E) vs \<longrightarrow> (\<exists>bs. abi_encode E vs = Inr bs))"

definition keys_checksummed :: "ethlib \<Rightarrow> bool" where
  "keys_checksummed E \<longleftrightarrow> (\<forall>key. checksum E (key_address E key) = Inr (key_address E key))"

definition libraries_ok :: "ethlib \<Rightarrow> bool" where
  "libraries_ok E \<longleftrightarrow> keccak_width E \<and> recovers_signer E \<and> abi_address_value E \<and> abi_total E \<and> keys_checksummed E"

text \<open>A client and a miner that talk about the same market, Brain and chain, with values in range.\<close>

definition same_deployment ::
    "ethlib \<Rightarrow> client_config \<Rightarrow> miner_config \<Rightarrow> client_world \<Rightarrow> client_request \<Rightarrow> pystr \<Rightarrow> bool" where
  "same_deployment E cfg mcfg w req addr \<longleftrightarrow>
     cc_market cfg = mc_market mcfg \<and> cc_chain_id cfg = mc_chain_id mcfg \<and> rq_brain_id req = mc_brain_id mcfg
     \<and> (\<exists>a. checksum E (mc_market mcfg) = Inr a)
     \<and> checksum E addr = Inr (miner_address E mcfg) \<and> lower addr = lower (miner_address E mcfg)
     \<and> 0 \<le> mc_chain_id mcfg \<and> mc_chain_id mcfg < 2 ^ 256
     \<and> 0 \<le> mc_brain_id mcfg \<and> mc_brain_id mcfg < 2 ^ 256
     \<and> 0 \<le> rq_budget req \<and> rq_budget req < 2 ^ 256 \<and> 0 \<le> w_nonce w \<and> w_nonce w < 2 ^ 64"

text \<open>The receipt as the miner reads it: with checksummed addresses.\<close>

definition as_read :: "ethlib \<Rightarrow> pystr \<Rightarrow> miner_config \<Rightarrow> json receipt \<Rightarrow> pystr receipt" where
  "as_read E key mcfg p =
     \<lparr>rc_user = key_address E key, rc_miner = miner_address E mcfg, rc_brain_id = rc_brain_id p,
      rc_prompt_hash = rc_prompt_hash p, rc_response_hash = rc_response_hash p,
      rc_amount = rc_amount p, rc_expiry = rc_expiry p, rc_nonce = rc_nonce p\<rparr>"

lemma read_serialized:
  assumes "rc_user p = JStr (key_address E key)" and "rc_miner p = JStr addr"
    and "checksum E addr = Inr (miner_address E mcfg)" and "keys_checksummed E"
  shows "read_receipt E (serialize_receipt p) = Inr (as_read E key mcfg p)"
  using assms by (simp add: read_receipt_def serialize_receipt_def as_read_def keys_checksummed_def checksum_def)

text \<open>The digest the client signs is the one the miner checks, whatever letters the address has.\<close>

lemma signed_digest:
  assumes "sign_receipt E cfg key p = Inr sig" and "rc_user p = JStr (key_address E key)" and "rc_miner p = JStr addr"
    and "checksum E addr = Inr (miner_address E mcfg)" and "abi_address_value E"
  shows "\<exists>digest. receipt_digest E (cc_market cfg) (cc_chain_id cfg) (as_read E key mcfg p) = Inr digest
    \<and> sig = sign_message E key digest"
proof -
  obtain tr digest where tr: "text_receipt p = Inr tr"
    and d: "receipt_digest E (cc_market cfg) (cc_chain_id cfg) tr = Inr digest" and sig: "sig = sign_message E key digest"
    using assms(1) by (auto simp: sign_receipt_def)
  have fields: "receipt_fields (cc_market cfg) (cc_chain_id cfg) tr ph rh =
      [AAddress (cc_market cfg), AUint 256 (cc_chain_id cfg), AAddress (key_address E key)] @ AAddress addr #
      [AUint 256 (rc_brain_id p), ABytes32 ph, ABytes32 rh, AUint 256 (rc_amount p), AUint 64 (rc_expiry p),
       AUint 256 (rc_nonce p)]" for ph rh
    using tr assms(2,3) by (auto simp: text_receipt_def receipt_fields_def)
  have "abi_encode E (receipt_fields (cc_market cfg) (cc_chain_id cfg) tr ph rh) =
      abi_encode E (receipt_fields (cc_market cfg) (cc_chain_id cfg) (as_read E key mcfg p) ph rh)" for ph rh
  proof -
    have "abi_encode E (vs @ AAddress addr # ws) = abi_encode E (vs @ AAddress (miner_address E mcfg) # ws)" for vs ws
      using assms(4,5) by (auto simp: abi_address_value_def)
    then show ?thesis by (simp only: fields) (simp add: receipt_fields_def as_read_def)
  qed
  moreover have "rc_prompt_hash tr = rc_prompt_hash p" "rc_response_hash tr = rc_response_hash p"
    using tr by (auto simp: text_receipt_def)
  ultimately have "receipt_digest E (cc_market cfg) (cc_chain_id cfg) (as_read E key mcfg p) = Inr digest"
    using d by (simp add: receipt_digest_def as_read_def)
  with sig show ?thesis by blast
qed

lemma signature_verifies:
  assumes "sign_receipt E cfg key p = Inr sig" and "rc_user p = JStr (key_address E key)" and "rc_miner p = JStr addr"
    and "checksum E addr = Inr (miner_address E mcfg)" and "abi_address_value E" and "recovers_signer E"
  shows "verify_user_signature E (cc_market cfg) (cc_chain_id cfg) (as_read E key mcfg p) (JStr sig) = Inr True"
    "verify_user_signature E (cc_market cfg) (cc_chain_id cfg) (as_read E key mcfg p) (JStr (with_0x sig)) = Inr True"
  using signed_digest [OF assms(1-5)] assms(6)
  by (auto simp: verify_user_signature_def recovers_signer_def as_read_def)

lemma sign_receipt_total:
  assumes "libraries_ok E" and "same_deployment E cfg mcfg w req addr"
    and "rc_user p = JStr (key_address E key)" and "rc_miner p = JStr addr'" and "checksum E addr' = Inr a"
    and "hash_bytes (rc_prompt_hash p) = Inr ph" and "hash_bytes (rc_response_hash p) = Inr rh"
    and "length ph = 32" and "length rh = 32" and "rc_brain_id p = rq_brain_id req" and "rc_nonce p = w_nonce w"
    and "0 \<le> rc_amount p" and "rc_amount p < 2 ^ 256" and "0 \<le> rc_expiry p" and "rc_expiry p < 2 ^ 64"
  shows "\<exists>sig. sign_receipt E cfg key p = Inr sig"
proof -
  have "\<exists>tr. text_receipt p = Inr tr" using assms(3,4) by (simp add: text_receipt_def)
  then obtain tr where t: "text_receipt p = Inr tr" ..
  then have tr: "rc_user tr = key_address E key" "rc_miner tr = addr'"
    "rc_brain_id tr = rc_brain_id p" "rc_prompt_hash tr = rc_prompt_hash p" "rc_response_hash tr = rc_response_hash p"
    "rc_amount tr = rc_amount p" "rc_expiry tr = rc_expiry p" "rc_nonce tr = rc_nonce p"
    using assms(3,4) by (auto simp: text_receipt_def)
  note tr = t tr
  have "list_all (abi_in_range E) (receipt_fields (cc_market cfg) (cc_chain_id cfg) tr ph rh)"
    using assms tr by (auto simp: receipt_fields_def same_deployment_def libraries_ok_def keys_checksummed_def)
  then obtain bs where "abi_encode E (receipt_fields (cc_market cfg) (cc_chain_id cfg) tr ph rh) = Inr bs"
    using assms(1) by (auto simp: libraries_ok_def abi_total_def)
  with assms(6,7) tr show ?thesis by (simp add: sign_receipt_def receipt_digest_def)
qed

text \<open>
  C31. A pre-authorization the client prepares is served: whatever case the gateway lists the
  miner's address in, the miner accepts the request body as the client sends it, with the client's
  budget, provided the payload and prompt are within its bounds, the receipt has not expired, its
  nonce is unused and the user's balance covers the budget.
\<close>
theorem honest_preauth_is_served:
  assumes "libraries_ok E" and "same_deployment E cfg mcfg w req addr"
    and "prepare E cfg key w req miner = Inr (JStr addr, p, sig)"
    and "loads payload = Inr (request_body req (JStr addr) p sig)" and "length payload \<le> MAX_PAYLOAD_BYTES"
    and "length (rq_prompt req) \<le> MAX_PROMPT_CHARS" and "clock mv < rc_expiry p"
    and "used_nonces mv (key_address E key) (w_nonce w) = Inr False"
    and "balances mv (key_address E key) = Inr bal" and "rq_budget req \<le> bal"
  shows "infer_check E mcfg loads mv payload = Inr (Accept
     \<lparr>sv_prompt = rq_prompt req, sv_receipt = as_read E key mcfg p, sv_sig = JStr sig, sv_budget = rq_budget req\<rparr>)"
proof -
  have lib: "keys_checksummed E" "abi_address_value E" "recovers_signer E"
    using assms(1) by (simp_all add: libraries_ok_def)
  have dep: "checksum E addr = Inr (miner_address E mcfg)" "cc_market cfg = mc_market mcfg"
    "cc_chain_id cfg = mc_chain_id mcfg" "rq_brain_id req = mc_brain_id mcfg"
    using assms(2) by (simp_all add: same_deployment_def)
  from prepare_Inr [OF assms(3)] obtain ph where p: "rc_user p = JStr (key_address E key)" "rc_miner p = JStr addr"
    "rc_brain_id p = rq_brain_id req" "rc_amount p = reservation_of req" "rc_nonce p = w_nonce w"
    "sign_receipt E cfg key p = Inr sig" "text_hash E (rq_prompt req) = Inr ph" "rc_prompt_hash p = JStr ph"
    by auto
  have "infer_check E mcfg loads mv payload = Inr (Accept
     \<lparr>sv_prompt = rq_prompt req, sv_receipt = as_read E key mcfg p, sv_sig = JStr sig,
      sv_budget = max (rq_budget req) (rc_amount (as_read E key mcfg p))\<rparr>)"
  proof (rule infer_check_complete [where payload = payload and loads = loads, OF assms(5,4)])
    show "read_receipt E (serialize_receipt p) = Inr (as_read E key mcfg p)"
      by (rule read_serialized [OF p(1,2) dep(1) lib(1)])
    show "verify_user_signature E (mc_market mcfg) (mc_chain_id mcfg) (as_read E key mcfg p) (JStr sig) = Inr True"
      using signature_verifies(1) [OF p(6,1,2) dep(1) lib(2,3)] dep by simp
    show "eligible E mcfg mv (as_read E key mcfg p) (max (rq_budget req) (rc_amount (as_read E key mcfg p)))"
      using assms(7-10) p lib(1) dep reservation_le_budget [of req]
      by (simp add: eligible_def as_read_def keys_checksummed_def)
    show "rc_prompt_hash (as_read E key mcfg p) = JStr ph" by (simp add: as_read_def p)
    show "text_hash E (rq_prompt req) = Inr ph" by (rule p)
  qed (use assms(6) in \<open>simp_all add: request_body_def dict_get_or_def\<close>)
  then show ?thesis
    using reservation_le_budget [of req] by (simp add: as_read_def p)
qed

text \<open>The final receipt the miner proposes, as the client reads it from the answer.\<close>

definition proposed_final :: "pystr receipt \<Rightarrow> inference_response \<Rightarrow> int \<Rightarrow> json receipt" where
  "proposed_final r response charge =
     \<lparr>rc_user = JStr (rc_user r), rc_miner = JStr (rc_miner r), rc_brain_id = rc_brain_id r,
      rc_prompt_hash = rc_prompt_hash r, rc_response_hash = JStr (ir_response_hash response),
      rc_amount = charge, rc_expiry = rc_expiry r, rc_nonce = rc_nonce r\<rparr>"

lemma read_proposed: "read_final (final_receipt_json r response charge) = Inr (proposed_final r response charge)"
  by (simp add: read_final_def final_receipt_json_def proposed_final_def)

lemma infer_reply_fields:
  "jkey (infer_reply r response charge ms) (lit ''text'') = Inr (JStr (ir_text response))"
  "jkey (infer_reply r response charge ms) (lit ''response_hash'') = Inr (JStr (ir_response_hash response))"
  "jget (infer_reply r response charge ms) (lit ''final_receipt'') d = Inr (final_receipt_json r response charge)"
  "miner_error (infer_reply r response charge ms) = Inr None"
  "py_true (final_receipt_json r response charge)"
  "make_response a (infer_reply r response charge ms) n = Inr
     \<lparr>rs_text = JStr (ir_text response), rs_miner = a, rs_prompt_hash = JStr (ir_prompt_hash response),
      rs_response_hash = JStr (ir_response_hash response), rs_tokens_in = JInt (ir_tokens_in response),
      rs_tokens_out = JInt (ir_tokens_out response), rs_amount = n, rs_miner_signature = JStr ms\<rparr>"
  by (simp_all add: infer_reply_def final_receipt_json_def dict_get_or_def make_response_def)

lemma answered_Inr:
  assumes "infer_finish E cfg mv engine elapsed sv q = (q', Inr reply)"
    and "price_per_byte mv = Inr ppt" and "price_per_request mv = Inr ppr"
  shows "\<exists>response charge ms pb tb. text_hash E (ir_text response) = Inr (ir_response_hash response)
    \<and> utf8_encode (sv_prompt sv) = Inr pb \<and> utf8_encode (ir_text response) = Inr tb
    \<and> ir_response_hash response = hex0x (keccak E tb) \<and> (0 < ppt \<or> 0 < ppr)
    \<and> charge = min (metered ppt ppr pb tb) (sv_budget sv) \<and> reply = infer_reply (sv_receipt sv) response charge ms"
proof -
  obtain response where g: "generate E engine elapsed (new_inference_request (sv_prompt sv)) = Inr response"
    using assms(1) by (auto simp: infer_finish_def split: sum.splits)
  from generate_Inr [OF g] assms g show ?thesis
    by (intro exI [of _ response]) (auto simp: infer_finish_def miner_quote_Inr Let_def new_inference_request_def)
qed

lemma signed_final_settles:
  assumes "libraries_ok E" and "same_deployment E cfg mcfg w req addr"
    and "sign_receipt E cfg key f = Inr fsig" and "rc_user f = JStr (key_address E key)"
    and "rc_miner f = JStr (miner_address E mcfg)" and "loads payload = Inr (settle_body f fsig)"
    and "rc_brain_id f = rq_brain_id req" and "clock mv < rc_expiry f"
    and "used_nonces mv (key_address E key) (rc_nonce f) = Inr False"
    and "balances mv (key_address E key) = Inr bal" and "rc_amount f \<le> bal"
    and "rc_response_hash f \<noteq> JStr (ox @ concat (replicate 32 (lit ''00'')))"
  shows "settle_check E mcfg loads mv payload = Inr (Accept (as_read E key mcfg f, JStr fsig))"
proof (rule settle_check_complete [where loads = loads and payload = payload, OF assms(6)])
  have lib: "keys_checksummed E" "abi_address_value E" "recovers_signer E"
    using assms(1) by (simp_all add: libraries_ok_def)
  have own: "checksum E (miner_address E mcfg) = Inr (miner_address E mcfg)"
    using lib(1) by (simp add: keys_checksummed_def miner_address_def)
  show "read_receipt E (serialize_receipt f) = Inr (as_read E key mcfg f)"
    by (rule read_serialized [OF assms(4,5) own lib(1)])
  show "verify_user_signature E (mc_market mcfg) (mc_chain_id mcfg) (as_read E key mcfg f) (JStr fsig) = Inr True"
    using signature_verifies(1) [OF assms(3-5) own lib(2,3)] assms(2) by (simp add: same_deployment_def)
  show "eligible E mcfg mv (as_read E key mcfg f) (rc_amount (as_read E key mcfg f))"
    using assms(2,7-11) lib(1) by (simp add: eligible_def as_read_def keys_checksummed_def same_deployment_def)
  show "rc_response_hash (as_read E key mcfg f) \<noteq> JStr (ox @ concat (replicate 32 (lit ''00'')))"
    using assms(12) by (simp add: as_read_def)
qed (simp_all add: settle_body_def)

lemma honest_final:
  assumes "libraries_ok E" and "same_deployment E cfg mcfg w req addr"
    and "prepare E cfg key w req miner = Inr (JStr addr, p, sig)"
    and "infer_finish E mcfg mv engine elapsed
           \<lparr>sv_prompt = rq_prompt req, sv_receipt = as_read E key mcfg p, sv_sig = JStr sig,
            sv_budget = rq_budget req\<rparr> q = (q', Inr reply)"
    and "price_per_byte mv = Inr ppt" and "price_per_request mv = Inr ppr"
    and "read_pricing w = (ppt, ppr)" and "0 \<le> ppt" and "0 \<le> ppr"
    and "0 \<le> rc_expiry p" and "rc_expiry p < 2 ^ 64"
  shows "\<exists>response charge ms fsig f. reply = infer_reply (as_read E key mcfg p) response charge ms
    \<and> f = proposed_final (as_read E key mcfg p) response charge \<and> rc_user f = JStr (key_address E key)
    \<and> rc_miner f = JStr (miner_address E mcfg) \<and> rc_brain_id f = rq_brain_id req \<and> rc_expiry f = rc_expiry p
    \<and> rc_nonce f = w_nonce w \<and> counter_signable E w req p (ir_text response) f
    \<and> delivered_text E rep reply = Inr (ir_text response, ir_response_hash response)
    \<and> check_final w req p (ir_text response) (ir_response_hash response) (final_receipt_json (as_read E key mcfg p) response charge) = Inr f
    \<and> sign_receipt E cfg key f = Inr fsig"
proof -
  let ?r = "as_read E key mcfg p"
  have lib: "keys_checksummed E" "abi_address_value E" "recovers_signer E" "keccak_width E"
    using assms(1) by (simp_all add: libraries_ok_def)
  have dep: "checksum E addr = Inr (miner_address E mcfg)" "cc_market cfg = mc_market mcfg"
    "cc_chain_id cfg = mc_chain_id mcfg" "rq_brain_id req = mc_brain_id mcfg" "lower addr = lower (miner_address E mcfg)"
    "0 \<le> rq_budget req" "rq_budget req < 2 ^ 256"
    using assms(2) by (simp_all add: same_deployment_def)
  have own: "checksum E (miner_address E mcfg) = Inr (miner_address E mcfg)"
    using lib(1) by (simp add: keys_checksummed_def miner_address_def)
  from prepare_Inr [OF assms(3)] obtain ph where p: "rc_user p = JStr (key_address E key)" "rc_miner p = JStr addr"
    "rc_brain_id p = rq_brain_id req" "rc_nonce p = w_nonce w"
    "text_hash E (rq_prompt req) = Inr ph" "rc_prompt_hash p = JStr ph"
    by auto
  obtain response charge ms pb tb where h: "text_hash E (ir_text response) = Inr (ir_response_hash response)"
    "utf8_encode (rq_prompt req) = Inr pb" "utf8_encode (ir_text response) = Inr tb"
    "ir_response_hash response = hex0x (keccak E tb)"
    and c: "0 < ppt \<or> 0 < ppr" "charge = min (metered ppt ppr pb tb) (rq_budget req)"
    "reply = infer_reply ?r response charge ms"
    using answered_Inr [OF assms(4-6)] by auto
  let ?f = "proposed_final ?r response charge"
  have f: "rc_user ?f = JStr (key_address E key)" "rc_miner ?f = JStr (miner_address E mcfg)" "rc_amount ?f = charge"
    "rc_brain_id ?f = rc_brain_id p" "rc_prompt_hash ?f = JStr ph" "rc_response_hash ?f = JStr (hex0x (keccak E tb))"
    "rc_expiry ?f = rc_expiry p" "rc_nonce ?f = w_nonce w" "as_read E key mcfg ?f = ?r\<lparr>rc_response_hash := rc_response_hash ?f, rc_amount := charge\<rparr>"
    using p h by (simp_all add: proposed_final_def as_read_def)
  have cs: "counter_signable E w req p (ir_text response) ?f"
    using p h c assms(7) f dep(5) unfolding counter_signable_def same_text_True by auto
  have dl: "delivered_text E rep reply = Inr (ir_text response, ir_response_hash response)"
    by (simp add: delivered_text_Inr c(3) infer_reply_fields h(1))
  have cf: "check_final w req p (ir_text response) (ir_response_hash response) (final_receipt_json ?r response charge) = Inr ?f"
    using cs unfolding check_final_Inr identity_Inr counter_signable_def metered_def
    by (auto simp: read_proposed h(1))
  have "0 \<le> charge" "charge \<le> rq_budget req"
    using c assms(8,9) dep(6) by (auto simp: metered_def)
  then obtain fsig where fs: "sign_receipt E cfg key ?f = Inr fsig"
    using sign_receipt_total [OF assms(1,2) f(1,2) own, of "projr (fromhex (drop 2 ph))" "keccak E tb"]
      f p dep lib(4) assms(10,11)
    by (auto simp: keccak_width_def text_hash_def keccak_text_def hex0x_def [symmetric])
  show ?thesis
    by (rule exI [of _ response], rule exI [of _ charge], rule exI [of _ ms], rule exI [of _ fsig], rule exI [of _ ?f])
      (use c(3) f(1,2,4,7,8) p(3) cs dl cf fs in simp)
qed

text \<open>
  C32. An honest answer is paid: the client accepts what the miner answers to a served
  pre-authorization when both read the same non-negative prices, returns the delivered text with the
  metered amount, and posts a settlement that the miner accepts and queues in place of the
  reservation, provided the receipt is still alive, the nonce unused and the balance sufficient.
\<close>
theorem honest_answer_is_settled:
  assumes "libraries_ok E" and "same_deployment E cfg mcfg w req addr"
    and "prepare E cfg key w req miner = Inr (JStr addr, p, sig)"
    and "infer_finish E mcfg mv engine elapsed
           \<lparr>sv_prompt = rq_prompt req, sv_receipt = as_read E key mcfg p, sv_sig = JStr sig,
            sv_budget = rq_budget req\<rparr> q = (q', Inr reply)"
    and "price_per_byte mv = Inr ppt" and "price_per_request mv = Inr ppr"
    and "read_pricing w = (ppt, ppr)" and "0 \<le> ppt" and "0 \<le> ppr"
    and "0 \<le> rc_expiry p" and "rc_expiry p < 2 ^ 64"
  shows "\<exists>f fsig t result. conclude E rep cfg key w req (JStr addr) p posted reply =
        \<lparr>oc_signed = [p, f], oc_posted = posted @ [settle_body f fsig], oc_result = Inr result\<rparr>
    \<and> counter_signable E w req p t f \<and> rs_text result = JStr t \<and> rs_amount result = rc_amount f
    \<and> (\<forall>loads payload mv' bal q. loads payload = Inr (settle_body f fsig) \<longrightarrow> clock mv' < rc_expiry p \<longrightarrow>
          used_nonces mv' (key_address E key) (w_nonce w) = Inr False \<longrightarrow>
          balances mv' (key_address E key) = Inr bal \<longrightarrow> rc_amount f \<le> bal \<longrightarrow>
          rc_response_hash f \<noteq> JStr (ox @ concat (replicate 32 (lit ''00''))) \<longrightarrow>
          handle_settle E mcfg loads mv' q payload =
            (add_or_replace q (as_read E key mcfg f) (JStr fsig), Inr (JObj [(lit ''ok'', JBool True)])))"
proof -
  obtain response charge ms fsig f where r: "reply = infer_reply (as_read E key mcfg p) response charge ms"
    and f: "rc_user f = JStr (key_address E key)" "rc_miner f = JStr (miner_address E mcfg)"
      "rc_brain_id f = rq_brain_id req" "rc_expiry f = rc_expiry p" "rc_nonce f = w_nonce w"
    and cs: "counter_signable E w req p (ir_text response) f"
    and dl: "delivered_text E rep reply = Inr (ir_text response, ir_response_hash response)"
    and cf: "check_final w req p (ir_text response) (ir_response_hash response)
        (final_receipt_json (as_read E key mcfg p) response charge) = Inr f"
    and fs: "sign_receipt E cfg key f = Inr fsig"
    using honest_final [OF assms, of rep] by metis
  have conc: "conclude E rep cfg key w req (JStr addr) p posted reply =
        \<lparr>oc_signed = [p, f], oc_posted = posted @ [settle_body f fsig],
         oc_result = make_response (JStr addr) reply (rc_amount f)\<rparr>"
    using dl cf fs by (simp add: conclude_def r infer_reply_fields)
  note settle = signed_final_settles [OF assms(1,2) fs f(1,2)]
  obtain result where res: "make_response (JStr addr) reply (rc_amount f) = Inr result"
    "rs_text result = JStr (ir_text response)" "rs_amount result = rc_amount f"
    by (simp add: r infer_reply_fields)
  show ?thesis
    by (rule exI [of _ f], rule exI [of _ fsig], rule exI [of _ "ir_text response"], rule exI [of _ result])
      (use conc res cs settle f(3-5) in \<open>auto simp: handle_settle_def\<close>)
qed

section \<open>A concrete exchange\<close>

lemma demo_abi_total:
  "abi_in_range demo_eth v \<Longrightarrow> \<exists>bs. demo_abi v = Inr bs"
  by (cases v) (auto simp: checksum_def demo_checksum_Inr)

lemma demo_abi_list: "list_all (abi_in_range demo_eth) vs \<Longrightarrow> \<exists>bss. map_res demo_abi vs = Inr bss"
  by (induction vs) (auto dest!: demo_abi_total)

lemma map_res_append: "map_res f (xs @ ys) = rbind (map_res f xs) (\<lambda>as. rbind (map_res f ys) (\<lambda>bs. Inr (as @ bs)))"
  by (induction xs) (auto simp: rbind_def split: sum.splits)

lemma demo_libraries: "libraries_ok demo_eth"
proof -
  have "checksum demo_eth a = Inr b \<Longrightarrow> demo_abi (AAddress a) = demo_abi (AAddress b)" for a b
    by (auto simp: checksum_def demo_checksum_Inr)
  then have "abi_address_value demo_eth"
    unfolding abi_address_value_def by (simp add: map_res_append del: demo_abi.simps)
  moreover have "abi_total demo_eth"
    using demo_abi_list by (fastforce simp: abi_total_def)
  moreover have "keys_checksummed demo_eth"
    by (simp add: keys_checksummed_def)
  ultimately show ?thesis
    by (simp add: libraries_ok_def demo_keccak_width demo_recovers)
qed

definition demo_client :: client_config where
  "demo_client = \<lparr>cc_chain_id = 1, cc_market = hex0x [9], cc_key = Some [7]\<rparr>"

definition demo_request :: client_request where
  "demo_request = \<lparr>rq_brain_id = 3, rq_prompt = lit ''hi'', rq_budget = 50, rq_max_tokens = 256,
     rq_temperature = 0, rq_expiry = Some 200, rq_reservation = 10\<rparr>"

definition demo_world :: "(json \<Rightarrow> (nat \<times> json res) res) \<Rightarrow> client_world" where
  "demo_world a = \<lparr>w_miners = (200, JList [JObj [(lit ''address'', JStr (hex0x [8]))]]), w_answer = a,
     w_price_per_byte = Inr 1, w_price_per_request = Inr 5, w_now = 100, w_nonce = 5\<rparr>"

lemma demo_same_deployment:
  "same_deployment demo_eth demo_client demo_miner_cfg (demo_world a) demo_request (hex0x [8])"
  by (simp add: same_deployment_def demo_client_def demo_miner_cfg_def demo_world_def demo_request_def
      miner_address_def demo_key_def)

definition demo_miner_entry :: json where
  "demo_miner_entry = JObj [(lit ''address'', JStr (hex0x [8]))]"

lemma demo_prepare:
  "\<exists>p sig. prepare demo_eth demo_client [7] (demo_world a) demo_request demo_miner_entry = Inr (JStr (hex0x [8]), p, sig)
     \<and> rc_expiry p = 200"
proof -
  let ?p = "\<lparr>rc_user = JStr (hex0x [7]), rc_miner = JStr (hex0x [8]), rc_brain_id = 3,
    rc_prompt_hash = JStr (hex0x (demo_hash 209)),
    rc_response_hash = JStr (hex0x (sentinel_hash demo_eth (demo_hash 209) 5)),
    rc_amount = 10, rc_expiry = 200, rc_nonce = 5\<rparr>"
  have "length (sentinel_hash demo_eth (demo_hash 209) 5) = 32" by (simp add: sentinel_hash_def)
  then obtain sig where "sign_receipt demo_eth demo_client [7] ?p = Inr sig"
    using sign_receipt_total [OF demo_libraries demo_same_deployment, of ?p "[7]" "hex0x [8]" "hex0x [8]"
        "demo_hash 209" "sentinel_hash demo_eth (demo_hash 209) 5" a]
    by (auto simp: demo_key_def demo_request_def demo_world_def)
  moreover have "sentinel_text demo_eth (hex0x (demo_hash 209)) 5 = Inr (hex0x (sentinel_hash demo_eth (demo_hash 209) 5))"
    by (rule sentinel_text_bytes) simp_all
  ultimately show ?thesis
    by (simp add: prepare_def demo_request_def demo_hi_hash demo_world_def demo_miner_entry_def demo_key_def
        reservation_of_def Let_def)
qed

theorem client_sentinel_is_the_contracts_witness:
  "\<exists>bs. sentinel_text demo_eth (hex0x (demo_hash 209)) 5 = Inr (hex0x (sentinel_hash demo_eth bs 5))
     \<and> hash_bytes (JStr (hex0x (demo_hash 209))) = Inr bs"
  using client_sentinel_is_the_contracts [OF demo_hi_hash, of 5] by auto

theorem client_signs_at_most_twice_witness:
  "length (oc_signed (client_infer demo_eth (\<lambda>_. []) demo_client (demo_world (\<lambda>_. Inl OtherError)) demo_request)) \<le> 2"
  using client_signs_at_most_twice [of demo_eth "\<lambda>_. []" demo_client "demo_world (\<lambda>_. Inl OtherError)" demo_request]
  by auto

lemma demo_client_signs:
  "\<exists>p t. oc_signed (client_infer demo_eth (\<lambda>_. []) demo_client (demo_world (\<lambda>_. Inl OtherError)) demo_request) = [p]
     \<and> submitted_as p t"
proof -
  obtain p sig where p: "prepare demo_eth demo_client [7] (demo_world (\<lambda>_. Inl OtherError)) demo_request demo_miner_entry
      = Inr (JStr (hex0x [8]), p, sig)"
    using demo_prepare by blast
  have "choose_miner (list_miners (demo_world (\<lambda>_. Inl OtherError))) = Inr demo_miner_entry"
    by (simp add: choose_miner_def list_miners_def demo_world_def demo_miner_entry_def score_key_def)
  moreover have "py_true (list_miners (demo_world (\<lambda>_. Inl OtherError)))"
    by (simp add: list_miners_def demo_world_def)
  moreover have "w_answer (demo_world (\<lambda>_. Inl OtherError)) = (\<lambda>_. Inl OtherError)"
    by (simp add: demo_world_def)
  ultimately have "oc_signed (client_infer demo_eth (\<lambda>_. []) demo_client (demo_world (\<lambda>_. Inl OtherError)) demo_request) = [p]"
    using p by (simp add: client_infer_def Let_def demo_client_def answer_json_def)
  moreover have "\<exists>t. submitted_as p t"
    using prepare_Inr [OF p] by (auto simp: submitted_as_def text_receipt_def to_tuple_def sign_receipt_def)
  ultimately show ?thesis by blast
qed


theorem honest_preauth_is_served_witness:
  "\<exists>p sig. infer_check demo_eth demo_miner_cfg
      (\<lambda>_. Inr (request_body demo_request (JStr (hex0x [8])) p sig)) demo_view [] = Inr (Accept
        \<lparr>sv_prompt = lit ''hi'', sv_receipt = as_read demo_eth [7] demo_miner_cfg p, sv_sig = JStr sig, sv_budget = 50\<rparr>)"
proof -
  obtain p sig where p: "prepare demo_eth demo_client [7] (demo_world (\<lambda>_. Inl OtherError)) demo_request demo_miner_entry
      = Inr (JStr (hex0x [8]), p, sig)" "rc_expiry p = 200"
    using demo_prepare by blast
  from honest_preauth_is_served [OF demo_libraries demo_same_deployment p(1),
      of "\<lambda>_. Inr (request_body demo_request (JStr (hex0x [8])) p sig)" "[]" demo_view 100] p(2)
  show ?thesis
    by (auto simp: demo_request_def demo_view_def lit_def MAX_PROMPT_CHARS_def)
qed

theorem honest_answer_is_settled_witness:
  "\<exists>p f fsig result reply. conclude demo_eth (\<lambda>_. []) demo_client [7] (demo_world (\<lambda>_. Inl OtherError)) demo_request
      (JStr (hex0x [8])) p [] reply =
        \<lparr>oc_signed = [p, f], oc_posted = [settle_body f fsig], oc_result = Inr result\<rparr>"
proof -
  obtain p sig where p: "prepare demo_eth demo_client [7] (demo_world (\<lambda>_. Inl OtherError)) demo_request demo_miner_entry
      = Inr (JStr (hex0x [8]), p, sig)" "rc_expiry p = 200"
    using demo_prepare by blast
  let ?sv = "\<lparr>sv_prompt = lit ''hi'', sv_receipt = as_read demo_eth [7] demo_miner_cfg p, sv_sig = JStr sig, sv_budget = 50\<rparr>"
  have "\<exists>q' reply. infer_finish demo_eth demo_miner_cfg demo_view demo_engine 0 ?sv (new_batcher 50) = (q', Inr reply)"
    by (simp add: infer_finish_def generate_def new_inference_request_def demo_hi_hash
        miner_quote_def demo_view_def demo_hi sign_response_def demo_miner_cfg_def Let_def)
  then obtain q' reply where fin: "infer_finish demo_eth demo_miner_cfg demo_view demo_engine 0
      \<lparr>sv_prompt = rq_prompt demo_request, sv_receipt = as_read demo_eth [7] demo_miner_cfg p, sv_sig = JStr sig,
       sv_budget = rq_budget demo_request\<rparr> (new_batcher 50) = (q', Inr reply)"
    by (auto simp: demo_request_def)
  have prices: "price_per_byte demo_view = Inr 1" "price_per_request demo_view = Inr 5"
    "read_pricing (demo_world (\<lambda>_. Inl OtherError)) = (1, 5)"
    by (simp_all add: demo_view_def read_pricing_def demo_world_def)
  from honest_answer_is_settled [where rep = "\<lambda>_. []" and posted = "[]", OF demo_libraries demo_same_deployment p(1) fin prices] p(2)
  show ?thesis by fastforce
qed

end
