(* ===== verification/Commitment.thy ===== *)
theory Commitment imports EthLib
begin

text \<open>
  \<open>validator/src/basedai_validator/commitment.py\<close> and \<open>_normalize_root\<close> of \<open>aggregator.py\<close>: the
  domain-separated digest of an epoch commitment, its signature and the recovery of its signer.
\<close>

definition ascii_bytes :: "string \<Rightarrow> bytes" where
  "ascii_bytes s = map of_nat (lit s)"

definition DOMAIN_TAG :: "ethlib \<Rightarrow> bytes" where
  "DOMAIN_TAG E = keccak E (ascii_bytes ''BasedAI:ScoringRegistry:v2'')"

text \<open>A Merkle root is passed around as \<open>bytes | str\<close>.\<close>

datatype root_arg = RStr pystr | RBytes bytes

definition check_root :: "bytes \<Rightarrow> bytes res" where
  "check_root bs = (if length bs \<noteq> 32 then Inl ValueError else Inr bs)"

fun as_root_bytes :: "root_arg \<Rightarrow> bytes res" where
  "as_root_bytes (RStr s) = rbind (fromhex (if startswith s ox then drop 2 s else s)) check_root"
| "as_root_bytes (RBytes bs) = check_root bs"

definition commitment_fields :: "ethlib \<Rightarrow> int \<Rightarrow> pystr \<Rightarrow> int \<Rightarrow> int \<Rightarrow> bytes \<Rightarrow> abi_val list" where
  "commitment_fields E chain_id registry epoch brain_id rb =
     [ABytes32 (DOMAIN_TAG E), AUint 256 chain_id, AAddress registry, AUint 64 epoch,
      AUint 256 brain_id, ABytes32 rb]"

definition commitment_digest ::
    "ethlib \<Rightarrow> int \<Rightarrow> pystr \<Rightarrow> int \<Rightarrow> int \<Rightarrow> root_arg \<Rightarrow> bytes res" where
  "commitment_digest E chain_id scoring_registry epoch brain_id r =
     rbind (checksum E scoring_registry) (\<lambda>registry.
     rbind (as_root_bytes r) (\<lambda>rb.
     rbind (abi_encode E (commitment_fields E chain_id registry epoch brain_id rb)) (\<lambda>enc.
       Inr (keccak E enc))))"

definition sign_commitment ::
    "ethlib \<Rightarrow> pystr \<Rightarrow> int \<Rightarrow> pystr \<Rightarrow> int \<Rightarrow> int \<Rightarrow> root_arg \<Rightarrow> pystr res" where
  "sign_commitment E key chain_id scoring_registry epoch brain_id r =
     rbind (commitment_digest E chain_id scoring_registry epoch brain_id r) (\<lambda>digest.
       Inr (sign_message E key digest))"

definition recover_commitment_signer ::
    "ethlib \<Rightarrow> int \<Rightarrow> pystr \<Rightarrow> int \<Rightarrow> int \<Rightarrow> root_arg \<Rightarrow> pystr \<Rightarrow> pystr res" where
  "recover_commitment_signer E chain_id scoring_registry epoch brain_id r signature =
     rbind (commitment_digest E chain_id scoring_registry epoch brain_id r) (\<lambda>digest.
       recover_message E digest (JStr signature))"

fun normalize_root :: "root_arg \<Rightarrow> pystr" where
  "normalize_root (RBytes bs) = lower (ox @ to_hex bs)"
| "normalize_root (RStr s) = lower s"

section \<open>Facts the aggregator uses\<close>

lemma check_root_Inr [simp]: "check_root bs = Inr rb \<longleftrightarrow> rb = bs \<and> length bs = 32"
  by (auto simp: check_root_def)

lemma check_root_Inl: "check_root bs = Inl e \<longleftrightarrow> e = ValueError \<and> length bs \<noteq> 32"
  by (auto simp: check_root_def)

text \<open>A prefixed root keeps its bytes through normalisation.\<close>

lemma normalized_root_bytes:
  assumes "as_root_bytes r = Inr rb" and "\<And>s. r = RStr s \<Longrightarrow> startswith s ox"
  shows "startswith (normalize_root r) ox \<and> fromhex (drop 2 (normalize_root r)) = Inr rb"
proof (cases r)
  case (RStr s)
  with assms obtain t where "s = ox @ t" and "fromhex t = Inr rb"
    by (auto elim!: startswithE)
  with RStr show ?thesis by simp
next
  case (RBytes bs)
  with assms show ?thesis by simp
qed

lemma as_root_bytes_length: "as_root_bytes r = Inr rb \<Longrightarrow> length rb = 32"
  by (cases r) auto

lemma as_root_bytes_error: "as_root_bytes r = Inl e \<Longrightarrow> e = ValueError"
  by (cases r) (auto simp: rbind_Inl_iff check_root_Inl dest: fromhex_error)

section \<open>Properties\<close>

lemma digest_bad_root:
  "checksum E reg = Inr a \<Longrightarrow> length rb \<noteq> 32 \<Longrightarrow>
   commitment_digest E c reg e b (RBytes rb) = Inl ValueError"
  by (simp add: commitment_digest_def check_root_def)

text \<open>
  A commitment signed by a validator's key recovers to that validator's address, with the
  signature as \<open>sign_commitment\<close> returns it and as the validator sends it (prefixed with \<open>0x\<close>).
\<close>
theorem signed_commitment_recovers:
  assumes "recovers_signer E"
    and "sign_commitment E key chain_id registry epoch brain_id r = Inr sig"
  shows "recover_commitment_signer E chain_id registry epoch brain_id r sig = Inr (key_address E key)
    \<and> recover_commitment_signer E chain_id registry epoch brain_id r (with_0x sig)
        = Inr (key_address E key)"
  using assms by (auto simp: sign_commitment_def recover_commitment_signer_def recovers_signer_def)

lemma demo_digest:
  "length rb = 32 \<Longrightarrow> commitment_digest demo_eth 57073 (hex0x [171]) 1 8 (RBytes rb) =
     Inr (demo_hash (sum_list (ascii_bytes ''BasedAI:ScoringRegistry:v2'') + 241 + 171 + 1 + 8 + sum_list rb))"
  by (simp add: commitment_digest_def commitment_fields_def DOMAIN_TAG_def)

theorem signed_commitment_recovers_witness:
  "\<exists>sig. sign_commitment demo_eth (lit ''k'') 57073 (hex0x [171]) 1 8 (RBytes (demo_hash 9)) = Inr sig
     \<and> recover_commitment_signer demo_eth 57073 (hex0x [171]) 1 8 (RBytes (demo_hash 9)) sig
         = Inr (key_address demo_eth (lit ''k''))
     \<and> recover_commitment_signer demo_eth 57073 (hex0x [171]) 1 8 (RBytes (demo_hash 9)) (with_0x sig)
         = Inr (key_address demo_eth (lit ''k''))"
proof -
  obtain sig where
    "sign_commitment demo_eth (lit ''k'') 57073 (hex0x [171]) 1 8 (RBytes (demo_hash 9)) = Inr sig"
    by (simp add: sign_commitment_def demo_digest)
  with signed_commitment_recovers [OF demo_recovers this] show ?thesis by blast
qed

text \<open>
  The two encodings differ whenever the argument lists do, and so do their digests: no collision
  of the encoder or of Keccak between these two argument lists.
\<close>

definition no_digest_collision :: "ethlib \<Rightarrow> abi_val list \<Rightarrow> abi_val list \<Rightarrow> bool" where
  "no_digest_collision E vs ws \<longleftrightarrow>
     (\<forall>x y. abi_encode E vs = Inr x \<and> abi_encode E ws = Inr y \<and> keccak E x = keccak E y \<longrightarrow> vs = ws)"

text \<open>
  The digest is domain separated: unless the encodings of the two argument lists collide, two
  commitments with one digest agree on the chain, the registry, the epoch, the Brain and the 32
  root bytes, so no signature can be replayed for another of them.
\<close>
theorem digest_separates_domains:
  assumes "commitment_digest E c1 reg1 e1 b1 r1 = Inr d"
    and "commitment_digest E c2 reg2 e2 b2 r2 = Inr d"
    and "checksum E reg1 = Inr a1" and "checksum E reg2 = Inr a2"
    and "as_root_bytes r1 = Inr rb1" and "as_root_bytes r2 = Inr rb2"
    and "no_digest_collision E (commitment_fields E c1 a1 e1 b1 rb1) (commitment_fields E c2 a2 e2 b2 rb2)"
  shows "c1 = c2 \<and> a1 = a2 \<and> e1 = e2 \<and> b1 = b2 \<and> rb1 = rb2"
proof -
  have "commitment_fields E c1 a1 e1 b1 rb1 = commitment_fields E c2 a2 e2 b2 rb2"
    using assms by (auto simp: commitment_digest_def no_digest_collision_def)
  then show ?thesis by (simp add: commitment_fields_def)
qed

theorem digest_separates_domains_witness:
  "(57073 :: int) = 57073 \<and> hex0x [171] = hex0x [171] \<and> (1 :: int) = 1 \<and> (8 :: int) = 8
     \<and> demo_hash 9 = demo_hash 9"
proof -
  let ?r1 = "RStr (hex0x (demo_hash 9))" and ?r2 = "RBytes (demo_hash 9)"
  obtain d where d: "commitment_digest demo_eth 57073 (hex0x [171]) 1 8 ?r2 = Inr d"
    by (simp add: demo_digest)
  then have "commitment_digest demo_eth 57073 (hex0x [171]) 1 8 ?r1 = Inr d"
    by (simp add: commitment_digest_def)
  from digest_separates_domains [OF this d] show ?thesis
    by (simp add: no_digest_collision_def)
qed

text \<open>
  Spelling does not reach the digest: the bytes and their hexadecimal text, in either case and
  with or without \<open>0x\<close>, give one commitment digest.
\<close>
theorem digest_ignores_root_spelling:
  "commitment_digest E c reg e b (RStr (hex0x rb)) = commitment_digest E c reg e b (RBytes rb)
   \<and> commitment_digest E c reg e b (RStr (to_hex rb)) = commitment_digest E c reg e b (RBytes rb)
   \<and> commitment_digest E c reg e b (RStr (ox @ lower t)) = commitment_digest E c reg e b (RStr (ox @ t))"
  by (simp add: commitment_digest_def)

end
