(* ===== verification/Merkle.thy ===== *)
theory Merkle imports EthLib
begin

unbundle bit_operations_syntax

text \<open>
  \<open>validator/src/basedai_validator/merkle.py\<close>: score leaves, the root of the sorted-pair tree and
  the inclusion proof of a leaf. The layer operations are parametric in the pair hash, so that
  the tree facts are proved once, in the locale \<open>pair_tree\<close>, for any commutative one; the code's
  pair hash is commutative because it orders its arguments.
\<close>

section \<open>The code\<close>

record score_leaf =
  leaf_brain_id :: int
  leaf_miner :: pystr
  leaf_score :: int

definition leaf_hash :: "ethlib \<Rightarrow> score_leaf \<Rightarrow> bytes res" where
  "leaf_hash E l =
     rbind (abi_encode E [AUint 256 (leaf_brain_id l), AAddress (leaf_miner l),
                          AUint 256 (leaf_score l)])
       (\<lambda>enc. let inner = keccak E enc in Inr (keccak E inner))"

text \<open>\<open>pair = (a + b) if a <= b else (b + a)\<close> and its digest.\<close>

definition pair_input :: "bytes \<Rightarrow> bytes \<Rightarrow> bytes" where
  "pair_input a b = (if a \<le> b then a @ b else b @ a)"

definition hash_pair :: "ethlib \<Rightarrow> bytes \<Rightarrow> bytes \<Rightarrow> bytes" where
  "hash_pair E a b = keccak E (pair_input a b)"

definition pad_layer :: "'h list \<Rightarrow> 'h list" where
  "pad_layer layer = (if length layer mod 2 = 1 then layer @ [last layer] else layer)"

fun next_layer :: "('h \<Rightarrow> 'h \<Rightarrow> 'h) \<Rightarrow> 'h list \<Rightarrow> 'h list" where
  "next_layer f (a # b # layer) = f a b # next_layer f layer"
| "next_layer f layer = []"

lemma length_pad_layer: "length (pad_layer layer) = 2 * ((length layer + 1) div 2)"
  by (auto simp: pad_layer_def) presburger+

lemma length_next_layer [simp]: "length (next_layer f layer) = length layer div 2"
  by (induction f layer rule: next_layer.induct) auto

text \<open>The \<open>while len(layer) > 1\<close> loop of \<open>build_merkle_root\<close>: the last layer.\<close>

function climb :: "('h \<Rightarrow> 'h \<Rightarrow> 'h) \<Rightarrow> 'h list \<Rightarrow> 'h list" where
  "climb f layer =
     (if 1 < length layer then climb f (next_layer f (pad_layer layer)) else layer)"
  by pat_completeness auto
termination
  by (relation "measure (\<lambda>(f, layer). length layer)") (auto simp: length_pad_layer)

declare climb.simps [simp del]

definition sorted_hashes :: "ethlib \<Rightarrow> score_leaf list \<Rightarrow> bytes list res" where
  "sorted_hashes E leaves = rbind (map_res (leaf_hash E) leaves) (\<lambda>hs. Inr (sort hs))"

definition build_merkle_root :: "ethlib \<Rightarrow> score_leaf list \<Rightarrow> (bytes \<times> bytes list) res" where
  "build_merkle_root E leaves =
     (if leaves = [] then Inr (replicate 32 0, [])
      else rbind (sorted_hashes E leaves)
        (\<lambda>hashed. Inr (climb (hash_pair E) hashed ! 0, hashed)))"

fun index_of :: "'a \<Rightarrow> 'a list \<Rightarrow> nat" where
  "index_of x [] = 0"
| "index_of x (y # ys) = (if x = y then 0 else Suc (index_of x ys))"

text \<open>The loop of \<open>build_proof\<close>, with its running index, layer and proof.\<close>

function proof_loop :: "('h \<Rightarrow> 'h \<Rightarrow> 'h) \<Rightarrow> nat \<Rightarrow> 'h list \<Rightarrow> 'h list \<Rightarrow> 'h list" where
  "proof_loop f idx layer pf =
     (if 1 < length layer then
        (let padded = pad_layer layer; sibling_idx = idx XOR 1
         in proof_loop f (idx div 2) (next_layer f padded) (pf @ [padded ! sibling_idx]))
      else pf)"
  by pat_completeness auto
termination
  by (relation "measure (\<lambda>(f, idx, layer, pf). length layer)") (auto simp: length_pad_layer)

declare proof_loop.simps [simp del]

definition build_proof :: "ethlib \<Rightarrow> score_leaf list \<Rightarrow> score_leaf \<Rightarrow> bytes list res" where
  "build_proof E leaves target =
     rbind (leaf_hash E target) (\<lambda>target_hash.
     rbind (sorted_hashes E leaves) (\<lambda>hashed.
       if target_hash \<notin> set hashed then Inl ValueError
       else Inr (proof_loop (hash_pair E) (index_of target_hash hashed) hashed [])))"

text \<open>
  The verifier the proofs are for: the sorted-pair fold of OpenZeppelin's \<open>MerkleProof\<close>, as the
  repository's test spells it out.
\<close>

definition process_proof :: "ethlib \<Rightarrow> bytes \<Rightarrow> bytes list \<Rightarrow> bytes" where
  "process_proof E leaf pf = foldl (hash_pair E) leaf pf"

section \<open>Trees over a commutative pair hash\<close>

fun depth :: "nat \<Rightarrow> nat" where
  "depth n = (if n \<le> 1 then 0 else Suc (depth ((n + 1) div 2)))"

declare depth.simps [simp del]

lemma set_pad_layer [simp]: "set (pad_layer layer) = set layer"
  by (cases layer rule: rev_cases) (auto simp: pad_layer_def)

lemma nth_pad_layer: "i < length layer \<Longrightarrow> pad_layer layer ! i = layer ! i"
  by (simp add: pad_layer_def nth_append)

lemma pad_layer_even: "even (length layer) \<Longrightarrow> pad_layer layer = layer"
  by (auto simp: pad_layer_def)

lemma length_next_pad: "length (next_layer f (pad_layer layer)) = (length layer + 1) div 2"
  by (simp add: length_pad_layer)

lemma nth_next_layer:
  "i < length layer div 2 \<Longrightarrow> next_layer f layer ! i = f (layer ! (2 * i)) (layer ! (2 * i + 1))"
proof (induction f layer arbitrary: i rule: next_layer.induct)
  case (1 f a b layer)
  then show ?case by (cases i) auto
qed auto

lemma next_pad_nonempty:
  assumes "layer \<noteq> []"
  shows "next_layer f (pad_layer layer) \<noteq> []"
proof -
  from assms have "0 < (length layer + 1) div 2" by (cases layer) auto
  then have "0 < length (next_layer f (pad_layer layer))" by (simp only: length_next_pad)
  then show ?thesis by (rule length_greater_0_conv [THEN iffD1])
qed

lemma climb_step: "1 < length layer \<Longrightarrow> climb f layer = climb f (next_layer f (pad_layer layer))"
  by (simp add: climb.simps [of f layer])

lemma climb_stop: "length layer \<le> 1 \<Longrightarrow> climb f layer = layer"
  by (simp add: climb.simps [of f layer])

lemma proof_loop_step:
  "1 < length layer \<Longrightarrow> proof_loop f idx layer pf =
     proof_loop f (idx div 2) (next_layer f (pad_layer layer)) (pf @ [pad_layer layer ! (idx XOR 1)])"
  by (simp add: proof_loop.simps [of f idx layer pf] Let_def)

lemma proof_loop_stop: "length layer \<le> 1 \<Longrightarrow> proof_loop f idx layer pf = pf"
  by (simp add: proof_loop.simps [of f idx layer pf])

text \<open>Induction along the layers of one tree.\<close>

lemma layer_induct [case_names top step]:
  assumes "\<And>layer. length layer \<le> 1 \<Longrightarrow> P layer"
    and "\<And>layer. 1 < length layer \<Longrightarrow> P (next_layer f (pad_layer layer)) \<Longrightarrow> P layer"
  shows "P layer"
  using assms
  by (induction f layer rule: climb.induct) (metis linorder_not_less)

lemma length_climb: "layer \<noteq> [] \<Longrightarrow> length (climb f layer) = 1"
proof (induction layer rule: layer_induct [where f = f])
  case (top layer)
  then show ?case by (cases layer) (auto simp: climb_stop)
next
  case (step layer)
  then show ?case by (simp add: climb_step next_pad_nonempty del: length_next_layer)
qed

lemma proof_loop_append: "proof_loop f idx layer (pf @ qs) = pf @ proof_loop f idx layer qs"
proof (induction layer arbitrary: idx qs rule: layer_induct [where f = f])
  case (top layer)
  then show ?case by (simp add: proof_loop_stop)
next
  case (step layer)
  then show ?case by (simp add: proof_loop_step)
qed

lemma proof_loop_Cons: "proof_loop f idx layer (s # pf) = s # proof_loop f idx layer pf"
  using proof_loop_append [of f idx layer "[s]" pf] by simp

lemma length_proof_loop: "length (proof_loop f idx layer []) = depth (length layer)"
proof (induction layer arbitrary: idx rule: layer_induct [where f = f])
  case (top layer)
  then show ?case by (simp add: proof_loop_stop depth.simps [of "length layer"])
next
  case (step layer)
  then show ?case
    by (simp add: proof_loop_step proof_loop_Cons depth.simps [of "length layer"] length_next_pad
        del: length_next_layer)
qed

lemma depth_step: "1 < n \<Longrightarrow> depth n = Suc (depth ((n + 1) div 2))"
  by (simp add: depth.simps [of n])

lemma depth_pos: "1 < n \<Longrightarrow> 0 < depth n"
  by (simp only: depth_step zero_less_Suc)

lemma depth_bounds:
  "n \<le> 2 ^ depth n" "1 < n \<Longrightarrow> 2 ^ (depth n - 1) < n"
proof (induction n rule: depth.induct)
  case (1 n)
  let ?m = "(n + 1) div 2"
  { case 1
    then show ?case
    proof (cases "n \<le> 1")
      case False
      with "1.IH" (1) have "?m \<le> 2 ^ depth ?m" by simp
      then have "n \<le> 2 * 2 ^ depth ?m" by linarith
      with False show ?thesis by (simp add: depth.simps [of n])
    qed (simp add: depth.simps [of n])
  next
    case 2
    have d: "depth n = Suc (depth ?m)" using 2 by (simp add: depth.simps [of n])
    show ?case
    proof (cases "1 < ?m")
      case True
      with "1.IH" (2) 2 have "2 ^ (depth ?m - 1) < ?m" by simp
      moreover have "(2::nat) ^ depth ?m = 2 * 2 ^ (depth ?m - 1)"
        using depth_pos [OF True] by (metis Suc_pred' power_Suc)
      ultimately show ?thesis using d by simp
    next
      case False
      then have "depth ?m = 0" by (subst depth.simps) simp
      with d 2 show ?thesis by simp
    qed }
qed

text \<open>
  The contract of the pair hash: it does not depend on the order of its arguments. Inclusion then
  verifies whichever side the sibling stands on.
\<close>

locale pair_tree =
  fixes f :: "'h \<Rightarrow> 'h \<Rightarrow> 'h"
  assumes commute: "f a b = f b a"
begin

lemma sibling_step:
  assumes "idx < length layer"
  shows "f (layer ! idx) (pad_layer layer ! (idx XOR 1)) = next_layer f (pad_layer layer) ! (idx div 2)"
proof -
  have half: "idx div 2 < length (pad_layer layer) div 2"
    using assms by (simp add: length_pad_layer)
  have node: "next_layer f (pad_layer layer) ! (idx div 2)
      = f (pad_layer layer ! (2 * (idx div 2))) (pad_layer layer ! (2 * (idx div 2) + 1))"
    by (rule nth_next_layer [OF half])
  have own: "pad_layer layer ! idx = layer ! idx" by (rule nth_pad_layer [OF assms])
  show ?thesis
  proof (cases "even idx")
    case True
    then have "idx XOR 1 = idx + 1" "2 * (idx div 2) = idx" by (simp_all add: xor_Suc_0_eq)
    with node own show ?thesis by simp
  next
    case False
    then have "idx XOR 1 = 2 * (idx div 2)" "2 * (idx div 2) + 1 = idx"
      by (auto simp: xor_Suc_0_eq elim: oddE)
    with node own show ?thesis by (metis commute)
  qed
qed

lemma proof_climbs:
  "idx < length layer \<Longrightarrow> foldl f (layer ! idx) (proof_loop f idx layer []) = climb f layer ! 0"
proof (induction layer arbitrary: idx rule: layer_induct [where f = f])
  case (top layer)
  then have "idx = 0" by simp
  with top show ?case by (simp add: proof_loop_stop climb_stop)
next
  case (step layer)
  have "idx div 2 < length (next_layer f (pad_layer layer))"
    unfolding length_next_pad using step.prems by linarith
  from step.IH [OF this] show ?case
    by (simp add: proof_loop_step [OF step.hyps] proof_loop_Cons climb_step [OF step.hyps]
        sibling_step [OF step.prems, simplified])
qed

end

text \<open>
  What binds a root: the pairs hashed while the tree is built, and those hashed along a proof. If
  no two different ones among them collide, a proof of the right length verifies only for a leaf.
\<close>

fun pairs_of :: "'h list \<Rightarrow> ('h \<times> 'h) set" where
  "pairs_of (a # b # layer) = insert (a, b) (pairs_of layer)"
| "pairs_of layer = {}"

function tree_pairs :: "('h \<Rightarrow> 'h \<Rightarrow> 'h) \<Rightarrow> 'h list \<Rightarrow> ('h \<times> 'h) set" where
  "tree_pairs f layer =
     (if 1 < length layer then
        pairs_of (pad_layer layer) \<union> tree_pairs f (next_layer f (pad_layer layer))
      else {})"
  by pat_completeness auto
termination
  by (relation "measure (\<lambda>(f, layer). length layer)") (auto simp: length_pad_layer)

declare tree_pairs.simps [simp del]

fun path_pairs :: "('h \<Rightarrow> 'h \<Rightarrow> 'h) \<Rightarrow> 'h \<Rightarrow> 'h list \<Rightarrow> ('h \<times> 'h) set" where
  "path_pairs f x [] = {}"
| "path_pairs f x (s # ss) = insert (x, s) (path_pairs f (f x s) ss)"

definition separates :: "('h \<Rightarrow> 'h \<Rightarrow> 'h) \<Rightarrow> ('h \<times> 'h) set \<Rightarrow> bool" where
  "separates f P \<longleftrightarrow> (\<forall>(a, b) \<in> P. \<forall>(c, d) \<in> P. f a b = f c d \<longrightarrow> {a, b} = {c, d})"

lemma separates_mono: "separates f P \<Longrightarrow> Q \<subseteq> P \<Longrightarrow> separates f Q"
  by (fastforce simp: separates_def)

lemma next_layer_pairs: "y \<in> set (next_layer f layer) \<Longrightarrow> \<exists>(a, b) \<in> pairs_of layer. y = f a b"
  by (induction f layer rule: next_layer.induct) auto

lemma pairs_of_subset: "(a, b) \<in> pairs_of layer \<Longrightarrow> a \<in> set layer \<and> b \<in> set layer"
  by (induction layer rule: pairs_of.induct) auto

lemma tree_binding:
  assumes "separates f (tree_pairs f layer \<union> path_pairs f x ss)" and "layer \<noteq> []"
    and "length ss = depth (length layer)" and "foldl f x ss = climb f layer ! 0"
  shows "x \<in> set layer"
  using assms
proof (induction layer arbitrary: x ss rule: layer_induct [where f = f])
  case (top layer)
  then obtain y where "layer = [y]" by (cases layer) auto
  with top show ?case by (simp add: climb_stop depth.simps [of "Suc 0"])
next
  case (step layer)
  let ?n = "next_layer f (pad_layer layer)"
  have "length ss = Suc (depth (length ?n))"
    using step.prems(3) step.hyps by (simp add: depth_step length_next_pad del: length_next_layer)
  then obtain s ss' where ss: "ss = s # ss'" and len: "length ss' = depth (length ?n)"
    by (cases ss) auto
  have P: "tree_pairs f layer = pairs_of (pad_layer layer) \<union> tree_pairs f ?n"
    using step.hyps by (simp add: tree_pairs.simps [of f layer])
  have "f x s \<in> set ?n"
  proof (rule step.IH)
    show "separates f (tree_pairs f ?n \<union> path_pairs f (f x s) ss')"
      using step.prems(1) P ss by (auto elim: separates_mono)
    show "?n \<noteq> []" using step.prems(2) by (rule next_pad_nonempty)
    show "foldl f (f x s) ss' = climb f ?n ! 0"
      using step.prems(4) ss climb_step [OF step.hyps, of f] by simp
  qed (rule len)
  then obtain a b where ab: "(a, b) \<in> pairs_of (pad_layer layer)" "f x s = f a b"
    using next_layer_pairs by fastforce
  have "{x, s} = {a, b}"
    using step.prems(1) P ss ab unfolding separates_def by fastforce
  with pairs_of_subset [OF ab(1)] show ?case by auto
qed

section \<open>Properties of the score tree\<close>

interpretation score_tree: pair_tree "hash_pair E" for E
  by unfold_locales (auto simp: hash_pair_def pair_input_def)

lemma index_of_nth: "x \<in> set xs \<Longrightarrow> index_of x xs < length xs \<and> xs ! index_of x xs = x"
  by (induction xs) auto

lemma sorted_hashes_InrD:
  assumes "sorted_hashes E leaves = Inr hashed"
  shows "length hashed = length leaves"
    and "set hashed = {h. \<exists>l \<in> set leaves. leaf_hash E l = Inr h}"
    and "sorted hashed"
  using assms by (auto simp: sorted_hashes_def map_res_set dest: map_res_length)

lemma sorted_hashes_total:
  assumes "\<forall>l \<in> set leaves. \<exists>h. leaf_hash E l = Inr h"
  shows "\<exists>hashed. sorted_hashes E leaves = Inr hashed"
proof -
  have "map_res (leaf_hash E) leaves = Inr (map (\<lambda>l. SOME h. leaf_hash E l = Inr h) leaves)"
    using assms by (intro map_res_total) (auto intro: someI)
  then show ?thesis by (simp add: sorted_hashes_def)
qed

lemma build_proof_foreign:
  assumes "leaf_hash E target = Inr h" and "sorted_hashes E leaves = Inr hashed"
    and "\<forall>l \<in> set leaves. leaf_hash E l \<noteq> Inr h"
  shows "build_proof E leaves target = Inl ValueError"
  using assms sorted_hashes_InrD(2) [OF assms(2)] by (auto simp: build_proof_def)

lemma leaf_proof_verifies:
  assumes "build_merkle_root E leaves = Inr (mroot, hashed)" and "target \<in> set leaves"
  shows "\<exists>pf h. build_proof E leaves target = Inr pf \<and> leaf_hash E target = Inr h
           \<and> process_proof E h pf = mroot \<and> length pf = depth (length leaves)"
proof -
  have hs: "sorted_hashes E leaves = Inr hashed" and rt: "mroot = climb (hash_pair E) hashed ! 0"
    using assms by (cases leaves; force simp: build_merkle_root_def)+
  obtain h where h: "leaf_hash E target = Inr h"
    using assms(2) hs by (auto simp: sorted_hashes_def dest!: map_res_map(2))
  then have mem: "h \<in> set hashed" using assms(2) sorted_hashes_InrD(2) [OF hs] by auto
  let ?pf = "proof_loop (hash_pair E) (index_of h hashed) hashed []"
  have "foldl (hash_pair E) h ?pf = mroot"
    using score_tree.proof_climbs index_of_nth [OF mem] rt by metis
  moreover have "build_proof E leaves target = Inr ?pf"
    using h hs mem by (simp add: build_proof_def)
  moreover have "length ?pf = depth (length leaves)"
    by (simp add: length_proof_loop sorted_hashes_InrD(1) [OF hs])
  ultimately show ?thesis using h by (auto simp: process_proof_def)
qed

text \<open>
  C3. Every leaf of the tree has a proof, and the proof verifies: when the leaves can be encoded,
  \<open>build_proof\<close> returns for each of them, the sorted-pair verifier folds the leaf's hash and the
  proof to exactly the root \<open>build_merkle_root\<close> returns for the same leaves, and the proof has
  one sibling per layer.
\<close>
theorem every_leaf_has_a_verifying_proof:
  assumes "\<forall>l \<in> set leaves. \<exists>h. leaf_hash E l = Inr h" and "target \<in> set leaves"
  shows "\<exists>pf h mroot hashed. build_proof E leaves target = Inr pf
           \<and> leaf_hash E target = Inr h
           \<and> build_merkle_root E leaves = Inr (mroot, hashed)
           \<and> process_proof E h pf = mroot
           \<and> length pf = depth (length leaves)"
proof -
  obtain hashed where hs: "sorted_hashes E leaves = Inr hashed"
    using sorted_hashes_total [OF assms(1)] by blast
  then obtain mroot where mroot: "build_merkle_root E leaves = Inr (mroot, hashed)"
    using assms(2) by (cases leaves) (auto simp: build_merkle_root_def)
  from leaf_proof_verifies [OF this assms(2)] mroot show ?thesis by blast
qed

abbreviation demo_leaves :: "score_leaf list" where
  "demo_leaves \<equiv> [\<lparr>leaf_brain_id = 8, leaf_miner = lit ''0x11'', leaf_score = 500000\<rparr>,
                  \<lparr>leaf_brain_id = 8, leaf_miner = lit ''0x22'', leaf_score = 750000\<rparr>,
                  \<lparr>leaf_brain_id = 8, leaf_miner = lit ''0x33'', leaf_score = 250000\<rparr>]"

lemma demo_leaves_hashable: "\<forall>l \<in> set demo_leaves. \<exists>h. leaf_hash demo_eth l = Inr h"
  by (simp add: leaf_hash_def lit_def of_char_def hex_digit_def is_ascii_space_def)

theorem every_leaf_has_a_verifying_proof_witness:
  "\<exists>pf h mroot hashed. build_proof demo_eth demo_leaves (demo_leaves ! 2) = Inr pf
     \<and> leaf_hash demo_eth (demo_leaves ! 2) = Inr h
     \<and> build_merkle_root demo_eth demo_leaves = Inr (mroot, hashed)
     \<and> process_proof demo_eth h pf = mroot \<and> length pf = depth (length demo_leaves)"
  by (rule every_leaf_has_a_verifying_proof [OF demo_leaves_hashable]) simp

lemma pair_input_inject:
  assumes "length a = w" "length b = w" "length c = w" "length d = w"
    and "pair_input a b = pair_input c d"
  shows "{a, b} = {c, d}"
  using assms by (auto simp: pair_input_def split: if_splits)

lemma hash_pair_separates:
  assumes "inj_on (keccak E) {pair_input a b | a b. (a, b) \<in> P}"
    and "\<And>a b. (a, b) \<in> P \<Longrightarrow> length a = w \<and> length b = w"
  shows "separates (hash_pair E) P"
proof -
  have "{a, b} = {c, d}"
    if ab: "(a, b) \<in> P" and cd: "(c, d) \<in> P" and eq: "hash_pair E a b = hash_pair E c d" for a b c d
  proof -
    have "pair_input a b = pair_input c d"
      using assms(1) ab cd eq unfolding inj_on_def hash_pair_def by blast
    with assms(2) [OF ab] assms(2) [OF cd] show ?thesis by (intro pair_input_inject) auto
  qed
  then show ?thesis unfolding separates_def by fastforce
qed

lemma tree_pairs_width:
  assumes "keccak_width E" and "\<forall>h \<in> set layer. length h = 32"
    and "(a, b) \<in> tree_pairs (hash_pair E) layer"
  shows "length a = 32 \<and> length b = 32"
  using assms(2,3)
proof (induction layer rule: layer_induct [where f = "hash_pair E"])
  case (top layer)
  then show ?case by (simp add: tree_pairs.simps [of _ layer])
next
  case (step layer)
  have "\<forall>h \<in> set (next_layer (hash_pair E) (pad_layer layer)). length h = 32"
    using assms(1) next_layer_pairs by (fastforce simp: hash_pair_def keccak_width_def)
  with step show ?case
    by (auto simp: tree_pairs.simps [of _ layer] dest!: pairs_of_subset)
qed

lemma path_pairs_width:
  assumes "keccak_width E" and "length x = 32" and "\<forall>s \<in> set ss. length s = 32"
    and "(a, b) \<in> path_pairs (hash_pair E) x ss"
  shows "length a = 32 \<and> length b = 32"
  using assms(2-)
proof (induction ss arbitrary: x)
  case (Cons s ss)
  moreover have "length (hash_pair E x s) = 32"
    using assms(1) by (simp add: hash_pair_def keccak_width_def)
  ultimately show ?case by auto
qed simp


abbreviation demo_pair :: "score_leaf list" where
  "demo_pair \<equiv> [\<lparr>leaf_brain_id = 8, leaf_miner = lit ''0x11'', leaf_score = 1\<rparr>,
                \<lparr>leaf_brain_id = 8, leaf_miner = lit ''0x22'', leaf_score = 2\<rparr>]"

lemma demo_pair_hashes: "map_res (leaf_hash demo_eth) demo_pair = Inr [demo_hash 26, demo_hash 44]"
  by (simp add: leaf_hash_def lit_def of_char_def hex_digit_def is_ascii_space_def)

lemma demo_pair_sorted: "sorted_hashes demo_eth demo_pair = Inr [demo_hash 26, demo_hash 44]"
  unfolding sorted_hashes_def demo_pair_hashes by simp

lemma demo_pair_climb: "climb (hash_pair demo_eth) [demo_hash 26, demo_hash 44] = [demo_hash 70]"
  by (simp add: climb_step climb_stop pad_layer_def hash_pair_def pair_input_def)

lemma demo_pair_root: "build_merkle_root demo_eth demo_pair = Inr (demo_hash 70, [demo_hash 26, demo_hash 44])"
  by (simp add: build_merkle_root_def demo_pair_sorted demo_pair_climb)

lemma demo_pair_proof: "build_proof demo_eth demo_pair (demo_pair ! 0) = Inr [demo_hash 44]"
proof -
  have "leaf_hash demo_eth (demo_pair ! 0) = Inr (demo_hash 26)"
    using demo_pair_hashes by simp
  then show ?thesis
    by (simp add: build_proof_def demo_pair_sorted proof_loop_step proof_loop_stop pad_layer_def
        xor_Suc_0_eq)
qed


text \<open>
  The root does not depend on the order in which the leaves are listed: the validators of a
  Brain that hold the same scores compute the same root and the same sorted hashes.
\<close>
theorem root_ignores_leaf_order:
  assumes "build_merkle_root E leaves = Inr r" and "mset leaves = mset leaves'"
  shows "build_merkle_root E leaves' = Inr r"
proof (cases "leaves = []")
  case True
  with assms show ?thesis by simp
next
  case False
  then obtain hs where hs: "map_res (leaf_hash E) leaves = Inr hs"
    using assms(1) by (auto simp: build_merkle_root_def sorted_hashes_def)
  have set_eq: "set leaves' = set leaves" using assms(2) by (rule mset_eq_setD [symmetric])
  have val: "leaf_hash E l = Inr (projr (leaf_hash E l))" if "l \<in> set leaves" for l
    using hs that by (auto simp: map_res_Inr_iff in_set_conv_nth list_all2_conv_all_nth)
  have "map_res (leaf_hash E) leaves = Inr (map (projr \<circ> leaf_hash E) leaves)"
    and "map_res (leaf_hash E) leaves' = Inr (map (projr \<circ> leaf_hash E) leaves')"
    using val set_eq by (auto intro!: map_res_total)
  moreover have "sort (map (projr \<circ> leaf_hash E) leaves) = sort (map (projr \<circ> leaf_hash E) leaves')"
    using assms(2) by (intro properties_for_sort) simp_all
  ultimately have "sorted_hashes E leaves' = sorted_hashes E leaves"
    by (simp add: sorted_hashes_def)
  moreover have "leaves' \<noteq> []" using False assms(2) by auto
  ultimately show ?thesis using assms(1) False by (simp add: build_merkle_root_def)
qed

theorem root_ignores_leaf_order_witness:
  "build_merkle_root demo_eth (rev demo_pair) = Inr (demo_hash 70, [demo_hash 26, demo_hash 44])"
  by (rule root_ignores_leaf_order [OF demo_pair_root]) (simp add: add_mset_commute)

text \<open>
  Proofs are logarithmic: a proof for a tree of \<open>n\<close> leaves has \<open>d\<close> siblings with
  \<open>n \<le> 2\<^sup>d\<close>, and, when there are at least two leaves, \<open>2\<^sup>d < 2 n\<close>.
\<close>
theorem proof_is_logarithmic:
  assumes "build_proof E leaves target = Inr pf"
  shows "length leaves \<le> 2 ^ length pf \<and> (1 < length leaves \<longrightarrow> 2 ^ length pf < 2 * length leaves)"
proof -
  obtain hashed where hs: "sorted_hashes E leaves = Inr hashed" and "length pf = depth (length hashed)"
    using assms by (auto simp: build_proof_def length_proof_loop split: if_splits)
  then have len: "length pf = depth (length leaves)" by (simp add: sorted_hashes_InrD(1))
  show ?thesis
  proof (cases "1 < length leaves")
    case True
    have "(2::nat) ^ depth (length leaves) = 2 * 2 ^ (depth (length leaves) - 1)"
      using depth_pos [OF True] by (metis Suc_pred' power_Suc)
    with depth_bounds(1) [of "length leaves"] depth_bounds(2) [OF True] len show ?thesis by simp
  qed (use depth_bounds(1) [of "length leaves"] len in auto)
qed

theorem proof_is_logarithmic_witness:
  "length demo_pair \<le> 2 ^ length [demo_hash 44] \<and> 2 ^ length [demo_hash 44] < 2 * length demo_pair"
  using proof_is_logarithmic [OF demo_pair_proof] by simp

lemma sorted_le_last: "sorted ys \<Longrightarrow> x \<in> set ys \<Longrightarrow> x \<le> last ys"
  by (cases ys rule: rev_cases) (auto simp: sorted_append)

lemma sort_insert_max:
  assumes "xs \<noteq> []" and "m = last (sort xs)"
  shows "sort (m # xs) = sort xs @ [m]"
proof -
  have "sorted (sort xs @ [m])"
    using assms(2) sorted_le_last [of "sort xs"] by (auto simp: sorted_append)
  then show ?thesis by (intro properties_for_sort) simp_all
qed

text \<open>
  The root does not commit to the number of leaves: an odd layer is padded with a copy of its
  last hash, so listing the leaf with the largest hash once more leaves the root as it was.
\<close>
theorem padding_leaf_keeps_root:
  assumes "build_merkle_root E leaves = Inr (mroot, hashed)" and "odd (length leaves)"
    and "1 < length leaves" and "leaf_hash E l = Inr (last hashed)"
  shows "build_merkle_root E (l # leaves) = Inr (mroot, hashed @ [last hashed])"
proof -
  have "leaves \<noteq> []" using assms(3) by auto
  then obtain hs where hs: "map_res (leaf_hash E) leaves = Inr hs" and srt: "hashed = sort hs"
    and mroot: "mroot = climb (hash_pair E) hashed ! 0"
    using assms(1) by (auto simp: build_merkle_root_def sorted_hashes_def)
  have len: "length hs = length leaves" using hs by (rule map_res_length)
  with \<open>leaves \<noteq> []\<close> have "hs \<noteq> []" by auto
  then have sorted: "sort (last hashed # hs) = hashed @ [last hashed]"
    unfolding srt by (rule sort_insert_max) simp
  have pad: "pad_layer hashed = hashed @ [last hashed]"
    using assms(2) len srt by (simp add: pad_layer_def odd_iff_mod_2_eq_one)
  have pad': "pad_layer (hashed @ [last hashed]) = hashed @ [last hashed]"
    using assms(2) len srt by (intro pad_layer_even) simp
  have "1 < length hashed" and "1 < length (hashed @ [last hashed])"
    using assms(3) len srt \<open>leaves \<noteq> []\<close> by simp_all
  then have "climb (hash_pair E) (hashed @ [last hashed]) = climb (hash_pair E) hashed"
    by (metis climb_step pad pad')
  with hs assms(4) sorted mroot show ?thesis
    by (simp add: build_merkle_root_def sorted_hashes_def)
qed

lemma demo_leaves_hashes:
  "map_res (leaf_hash demo_eth) demo_leaves = Inr [demo_hash 57, demo_hash 218, demo_hash 203]"
  by (simp add: leaf_hash_def lit_def of_char_def hex_digit_def is_ascii_space_def)

lemma demo_leaves_sorted:
  "sorted_hashes demo_eth demo_leaves = Inr [demo_hash 57, demo_hash 203, demo_hash 218]"
  unfolding sorted_hashes_def demo_leaves_hashes by simp

lemma demo_leaves_climb:
  "climb (hash_pair demo_eth) [demo_hash 57, demo_hash 203, demo_hash 218] = [demo_hash 184]"
  by (simp add: climb_step climb_stop pad_layer_def hash_pair_def pair_input_def)

lemma demo_leaves_root:
  "build_merkle_root demo_eth demo_leaves =
     Inr (demo_hash 184, [demo_hash 57, demo_hash 203, demo_hash 218])"
  by (simp add: build_merkle_root_def demo_leaves_sorted demo_leaves_climb)

theorem padding_leaf_keeps_root_witness:
  "build_merkle_root demo_eth (demo_leaves ! 1 # demo_leaves) =
     Inr (demo_hash 184, [demo_hash 57, demo_hash 203, demo_hash 218] @ [demo_hash 218])"
proof -
  have "leaf_hash demo_eth (demo_leaves ! 1) = Inr (last [demo_hash 57, demo_hash 203, demo_hash 218])"
    using demo_leaves_hashes by simp
  then show ?thesis
    using padding_leaf_keeps_root [OF demo_leaves_root, of "demo_leaves ! 1"] by simp
qed

end
