(* ===== verification/Aggregator.thy ===== *)
theory Aggregator imports Commitment Merkle
begin

text \<open>
  \<open>CommitmentAggregator\<close> of \<open>validator/src/basedai_validator/aggregator.py\<close>: validators' signatures
  grouped by epoch, Brain and root, the stake that backs a root, the quorum, and the submission to
  \<open>proposeEpoch\<close>. The chain is the record \<open>chain_view\<close> of injected callables; as stakes and the
  outcome of a transaction change between calls, every operation takes the view of its moment.
\<close>

section \<open>The code\<close>

record agg_config =
  chain_id :: int
  scoring_registry :: pystr
  min_quorum_bps :: int

definition MIN_QUORUM_BPS :: int where "MIN_QUORUM_BPS = 5001"

type_synonym proposal = "int \<times> int \<times> bytes \<times> pystr list \<times> pystr list"

record chain_view =
  stake_of :: "int \<Rightarrow> pystr \<Rightarrow> int"
  total_stake :: "int \<Rightarrow> int"
  propose_fn :: "proposal \<Rightarrow> pystr res"

text \<open>
  \<open>_pending\<close>: (epoch, Brain, normalised root) to the signatures by signer; \<open>_proposed\<close>: the epochs
  already submitted.
\<close>

record agg_state =
  pending :: "(int \<times> int \<times> pystr, (pystr, pystr) dict) dict"
  proposed :: "(int \<times> int) set"

definition new_aggregator :: agg_state where
  "new_aggregator = \<lparr>pending = [], proposed = {}\<rparr>"

definition setdefault :: "'k \<Rightarrow> 'v \<Rightarrow> ('k, 'v) dict \<Rightarrow> ('k, 'v) dict" where
  "setdefault k v d = (case dict_get d k of None \<Rightarrow> dict_set k v d | Some _ \<Rightarrow> d)"

definition add_commitment ::
    "ethlib \<Rightarrow> agg_config \<Rightarrow> agg_state \<Rightarrow> int \<Rightarrow> int \<Rightarrow> root_arg \<Rightarrow> pystr \<Rightarrow> pystr \<Rightarrow> agg_state \<times> bool res"
where
  "add_commitment E cfg s epoch brain_id r signer signature =
     (case recover_commitment_signer E (chain_id cfg) (scoring_registry cfg) epoch brain_id r signature of
        Inl e \<Rightarrow> (s, Inl e)
      | Inr recovered \<Rightarrow>
          if lower recovered \<noteq> lower signer then (s, Inr False)
          else
            (let key = (epoch, brain_id, normalize_root r);
                 pend = setdefault key [] (pending s)
             in case checksum E recovered of
                  Inl e \<Rightarrow> (s\<lparr>pending := pend\<rparr>, Inl e)
                | Inr a \<Rightarrow>
                    (s\<lparr>pending := dict_set key (dict_set a (with_0x signature) (dict_get_or pend key [])) pend\<rparr>,
                     Inr True)))"

definition signers_for :: "agg_state \<Rightarrow> int \<Rightarrow> int \<Rightarrow> root_arg \<Rightarrow> (pystr, pystr) dict" where
  "signers_for s epoch brain_id r = dict_get_or (pending s) (epoch, brain_id, normalize_root r) []"

definition backing_stake :: "chain_view \<Rightarrow> agg_state \<Rightarrow> int \<Rightarrow> int \<Rightarrow> root_arg \<Rightarrow> int" where
  "backing_stake cv s epoch brain_id r =
     (\<Sum>a \<leftarrow> dict_keys (signers_for s epoch brain_id r). stake_of cv brain_id a)"

definition quorum_need :: "int \<Rightarrow> int \<Rightarrow> int" where
  "quorum_need tot bps = (tot * bps + 9999) div 10000"

definition quorum_met :: "agg_config \<Rightarrow> chain_view \<Rightarrow> agg_state \<Rightarrow> int \<Rightarrow> int \<Rightarrow> root_arg \<Rightarrow> bool" where
  "quorum_met cfg cv s epoch brain_id r =
     (let tot = total_stake cv brain_id
      in if tot = 0 then False
         else quorum_need tot (min_quorum_bps cfg) \<le> backing_stake cv s epoch brain_id r)"

definition assemble :: "agg_state \<Rightarrow> int \<Rightarrow> int \<Rightarrow> root_arg \<Rightarrow> (pystr list \<times> pystr list) res" where
  "assemble s epoch brain_id r =
     (let signers = signers_for s epoch brain_id r
      in rbind (map_res (\<lambda>a. rbind (py_int_text 16 a) (\<lambda>n. Inr (n, a))) (dict_keys signers))
           (\<lambda>keyed. let ordered = map snd (sort_key fst keyed)
                    in Inr (ordered, map (\<lambda>a. the (dict_get signers a)) ordered)))"

definition epoch_roots :: "agg_state \<Rightarrow> int \<Rightarrow> int \<Rightarrow> pystr list" where
  "epoch_roots s epoch brain_id =
     [k. (e, b, k) \<leftarrow> dict_keys (pending s), e = epoch \<and> b = brain_id]"

definition best_root :: "chain_view \<Rightarrow> agg_state \<Rightarrow> int \<Rightarrow> int \<Rightarrow> pystr option" where
  "best_root cv s epoch brain_id =
     (case epoch_roots s epoch brain_id of
        [] \<Rightarrow> None
      | k # ks \<Rightarrow> Some (max_by (\<lambda>x. backing_stake cv s epoch brain_id (RStr x)) k ks))"

text \<open>
  \<open>try_propose\<close>: the new state, the call made to \<open>propose_fn\<close> if any, and the result. A submission
  that raises leaves the epoch open, so it can be tried again.
\<close>

definition try_propose ::
    "agg_config \<Rightarrow> chain_view \<Rightarrow> agg_state \<Rightarrow> int \<Rightarrow> int \<Rightarrow> agg_state \<times> proposal option \<times> pystr option res"
where
  "try_propose cfg cv s epoch brain_id =
     (if (epoch, brain_id) \<in> proposed s then (s, None, Inr None)
      else case best_root cv s epoch brain_id of
        None \<Rightarrow> (s, None, Inr None)
      | Some k \<Rightarrow>
          if \<not> quorum_met cfg cv s epoch brain_id (RStr k) then (s, None, Inr None)
          else case assemble s epoch brain_id (RStr k) of
            Inl e \<Rightarrow> (s, None, Inl e)
          | Inr (signers, sigs) \<Rightarrow>
              (case fromhex (drop 2 k) of
                 Inl e \<Rightarrow> (s, None, Inl e)
               | Inr root_bytes \<Rightarrow>
                   (let call = (epoch, brain_id, root_bytes, signers, sigs)
                    in case propose_fn cv call of
                         Inl e \<Rightarrow> (s, Some call, Inl e)
                       | Inr tx \<Rightarrow>
                           (s\<lparr>proposed := insert (epoch, brain_id) (proposed s)\<rparr>, Some call,
                            Inr (Some tx)))))"

text \<open>The submission \<open>from_chain\<close> wires in: the signatures become bytes before the transaction.\<close>

definition chain_propose ::
    "(int \<Rightarrow> int \<Rightarrow> bytes \<Rightarrow> pystr list \<Rightarrow> bytes list \<Rightarrow> pystr res) \<Rightarrow> proposal \<Rightarrow> pystr res" where
  "chain_propose send c =
     (case c of (epoch, brain_id, root_bytes, signers, sigs) \<Rightarrow>
        rbind (map_res (\<lambda>x. fromhex (if startswith x ox then drop 2 x else x)) sigs)
          (\<lambda>sig_bytes. send epoch brain_id root_bytes signers sig_bytes))"

definition chain_stake_of :: "ethlib \<Rightarrow> (int \<Rightarrow> pystr \<Rightarrow> int res) \<Rightarrow> int \<Rightarrow> pystr \<Rightarrow> int res" where
  "chain_stake_of E validator_stake brain_id addr =
     rbind (checksum E addr) (\<lambda>a. validator_stake brain_id a)"

section \<open>Arithmetic of the quorum\<close>

lemma quorum_need_le: "quorum_need tot bps \<le> x \<longleftrightarrow> tot * bps \<le> 10000 * x"
proof -
  let ?y = "tot * bps + 9999"
  have "?y = 10000 * (?y div 10000) + ?y mod 10000" and "0 \<le> ?y mod 10000" and "?y mod 10000 < 10000"
    by simp_all
  then show ?thesis unfolding quorum_need_def by linarith
qed

lemma quorum_need_pos: "0 < tot \<Longrightarrow> 0 < bps \<Longrightarrow> 0 < quorum_need tot bps"
  using quorum_need_le [of tot bps 0] by (auto simp: not_le mult_le_0_iff)

lemma quorum_met_iff:
  "quorum_met cfg cv s e b r \<longleftrightarrow> total_stake cv b \<noteq> 0
     \<and> total_stake cv b * min_quorum_bps cfg \<le> 10000 * backing_stake cv s e b r"
  by (simp add: quorum_met_def Let_def quorum_need_le)

text \<open>
  The contract between stake and agreement: any two quorums share a member. The consequences are
  stated once here and drawn below for the stake-weighted quorums of the code.
\<close>

locale quorum_system =
  fixes quorum :: "'a set \<Rightarrow> bool"
  assumes intersect: "quorum P \<Longrightarrow> quorum Q \<Longrightarrow> P \<inter> Q \<noteq> {}"
begin

lemma nonempty: "quorum Q \<Longrightarrow> Q \<noteq> {}"
  using intersect by blast

lemma agreement:
  assumes "quorum {a. vote a x}" and "quorum {a. vote a y}"
    and "\<And>a u v. a \<in> honest \<Longrightarrow> vote a u \<Longrightarrow> vote a v \<Longrightarrow> u = v"
    and "{a. vote a x} \<inter> {a. vote a y} \<subseteq> honest"
  shows "x = y"
  using intersect [OF assms(1,2)] assms(3,4) by blast

end

definition ledger :: "(pystr \<Rightarrow> int) \<Rightarrow> int \<Rightarrow> bool" where
  "ledger stake tot \<longleftrightarrow> (\<forall>a. 0 \<le> stake a) \<and> (\<forall>S. finite S \<longrightarrow> sum stake S \<le> tot)"

definition stake_quorum :: "(pystr \<Rightarrow> int) \<Rightarrow> int \<Rightarrow> int \<Rightarrow> pystr set \<Rightarrow> bool" where
  "stake_quorum stake tot bps S \<longleftrightarrow>
     ledger stake tot \<and> tot \<noteq> 0 \<and> 5000 < bps \<and> finite S \<and> quorum_need tot bps \<le> sum stake S"

lemma stake_quorum_majority:
  assumes "stake_quorum stake tot bps S"
  shows "tot < 2 * sum stake S"
proof -
  have "0 \<le> tot" using assms by (force simp: stake_quorum_def ledger_def)
  with assms have "0 < tot" by (simp add: stake_quorum_def)
  then have "tot * 5000 < tot * bps" using assms by (simp add: stake_quorum_def)
  with assms show ?thesis by (simp add: stake_quorum_def quorum_need_le)
qed

interpretation majority: quorum_system "stake_quorum stake tot bps" for stake tot bps
proof
  fix P Q
  assume P: "stake_quorum stake tot bps P" and Q: "stake_quorum stake tot bps Q"
  have "finite P" "finite Q" "sum stake (P \<union> Q) \<le> tot"
    using P Q by (auto simp: stake_quorum_def ledger_def)
  with stake_quorum_majority [OF P] stake_quorum_majority [OF Q] show "P \<inter> Q \<noteq> {}"
    using sum.union_disjoint [of P Q stake] by auto
qed

section \<open>Invariants of the aggregator\<close>

text \<open>
  Every stored signature was verified: some spelling \<open>r\<close> of the root normalises to the key, and the
  signature recovers, over exactly this chain, registry, epoch, Brain and root, to the signer it
  is stored under.
\<close>

definition signed_entry ::
    "ethlib \<Rightarrow> agg_config \<Rightarrow> int \<Rightarrow> int \<Rightarrow> pystr \<Rightarrow> pystr \<Rightarrow> pystr \<Rightarrow> bool" where
  "signed_entry E cfg e b k a sig \<longleftrightarrow>
     (\<exists>r sig0 recovered. normalize_root r = k \<and> sig = with_0x sig0
        \<and> recover_commitment_signer E (chain_id cfg) (scoring_registry cfg) e b r sig0 = Inr recovered
        \<and> checksum E recovered = Inr a)"

definition agg_ok :: "ethlib \<Rightarrow> agg_config \<Rightarrow> agg_state \<Rightarrow> bool" where
  "agg_ok E cfg s \<longleftrightarrow> dict_ok (pending s)
     \<and> (\<forall>e b k sg. dict_get (pending s) (e, b, k) = Some sg \<longrightarrow>
          lower k = k \<and> dict_ok sg
          \<and> (\<forall>a sig. dict_get sg a = Some sig \<longrightarrow> signed_entry E cfg e b k a sig))"

lemma lower_normalize_root [simp]: "lower (normalize_root r) = normalize_root r"
  by (cases r) auto

lemma agg_ok_new: "agg_ok E cfg new_aggregator"
  by (simp add: agg_ok_def new_aggregator_def)

lemma agg_ok_entry:
  assumes "agg_ok E cfg s" and "dict_get (pending s) (e, b, k) = Some sg"
  shows "lower k = k" "dict_ok sg" "dict_get sg a = Some sig \<Longrightarrow> signed_entry E cfg e b k a sig"
  using assms by (auto simp: agg_ok_def)

lemma setdefault_get:
  "dict_get (setdefault k v d) = (if dict_get d k = None then (dict_get d)(k \<mapsto> v) else dict_get d)"
  by (auto simp: setdefault_def dict_simps split: option.splits)

lemma setdefault_ok: "dict_ok d \<Longrightarrow> dict_ok (setdefault k v d)"
  by (auto simp: setdefault_def alist_dict.ok_put split: option.splits)

lemma agg_ok_setdefault:
  assumes "agg_ok E cfg s" and "lower k = k"
  shows "agg_ok E cfg (s\<lparr>pending := setdefault (e, b, k) [] (pending s)\<rparr>)"
  using assms by (auto simp: agg_ok_def setdefault_get setdefault_ok)

lemma agg_ok_put:
  assumes "agg_ok E cfg s" and "lower k = k" and "signed_entry E cfg e b k a sig"
  shows "agg_ok E cfg (s\<lparr>pending :=
    dict_set (e, b, k) (dict_set a sig (dict_get_or (pending s) (e, b, k) [])) (pending s)\<rparr>)"
proof -
  let ?old = "dict_get_or (pending s) (e, b, k) []"
  have old: "dict_ok ?old" "\<And>a sig. dict_get ?old a = Some sig \<Longrightarrow> signed_entry E cfg e b k a sig"
    using assms(1) by (auto simp: agg_ok_def dict_get_or_def split: option.splits)
  have "dict_ok (dict_set (e, b, k) (dict_set a sig ?old) (pending s))"
    using assms(1) by (simp add: agg_ok_def alist_dict.ok_put)
  with assms old show ?thesis
    by (auto simp: agg_ok_def alist_dict.look_put alist_dict.ok_put split: if_splits)
qed

lemma add_commitment_ok:
  assumes "agg_ok E cfg s"
  shows "agg_ok E cfg (fst (add_commitment E cfg s e b r signer sig))"
proof -
  let ?k = "normalize_root r" and ?pend = "setdefault (e, b, normalize_root r) [] (pending s)"
  have dflt: "agg_ok E cfg (s\<lparr>pending := ?pend\<rparr>)"
    using assms by (rule agg_ok_setdefault) simp
  have "agg_ok E cfg (s\<lparr>pending := dict_set (e, b, ?k)
      (dict_set a (with_0x sig) (dict_get_or ?pend (e, b, ?k) [])) ?pend\<rparr>)"
    if "recover_commitment_signer E (chain_id cfg) (scoring_registry cfg) e b r sig = Inr recovered"
      and "checksum E recovered = Inr a" for recovered a
  proof -
    have "signed_entry E cfg e b ?k a (with_0x sig)"
      using that unfolding signed_entry_def by blast
    from agg_ok_put [OF dflt _ this] show ?thesis by simp
  qed
  with assms dflt show ?thesis
    by (auto simp: add_commitment_def Let_def split: sum.splits)
qed

lemma try_propose_pending: "pending (fst (try_propose cfg cv s e b)) = pending s"
  by (auto simp: try_propose_def Let_def split: option.splits sum.splits prod.splits)

lemma try_propose_ok: "agg_ok E cfg s \<Longrightarrow> agg_ok E cfg (fst (try_propose cfg cv s e b))"
  by (simp add: agg_ok_def try_propose_pending)

text \<open>The aggregator as an event machine, with the calls of its submissions and their outcomes.\<close>

datatype agg_event =
    AddCommitment int int root_arg pystr pystr
  | TryPropose chain_view int int

type_synonym agg_log = "(proposal \<times> pystr res) list"

fun agg_step :: "ethlib \<Rightarrow> agg_config \<Rightarrow> agg_state \<times> agg_log \<Rightarrow> agg_event \<Rightarrow> agg_state \<times> agg_log" where
  "agg_step E cfg (s, calls) (AddCommitment e b r signer sig) =
     (fst (add_commitment E cfg s e b r signer sig), calls)"
| "agg_step E cfg (s, calls) (TryPropose cv e b) =
     (case try_propose cfg cv s e b of (s', call, _) \<Rightarrow>
        (s', calls @ (case call of None \<Rightarrow> [] | Some c \<Rightarrow> [(c, propose_fn cv c)])))"

definition proposal_key :: "proposal \<times> pystr res \<Rightarrow> int \<times> int" where
  "proposal_key x = (fst (fst x), fst (snd (fst x)))"

definition accepted :: "agg_log \<Rightarrow> agg_log" where
  "accepted calls = filter (\<lambda>x. \<exists>tx. snd x = Inr tx) calls"

definition log_ok :: "agg_state \<Rightarrow> agg_log \<Rightarrow> bool" where
  "log_ok s calls \<longleftrightarrow> proposed s = proposal_key ` set (accepted calls)
     \<and> distinct (map proposal_key (accepted calls))"

lemma add_commitment_proposed [simp]:
  "proposed (fst (add_commitment E cfg s e b r signer sig)) = proposed s"
  by (auto simp: add_commitment_def Let_def split: sum.splits)

lemma try_propose_cases:
  obtains (quiet) r where "try_propose cfg cv s e b = (s, None, r)"
  | (refused) c err where "try_propose cfg cv s e b = (s, Some c, Inl err)" and "propose_fn cv c = Inl err"
      and "(e, b) \<notin> proposed s" and "fst c = e" and "fst (snd c) = b"
  | (sent) c tx where "try_propose cfg cv s e b =
        (s\<lparr>proposed := insert (e, b) (proposed s)\<rparr>, Some c, Inr (Some tx))" and "propose_fn cv c = Inr tx"
      and "(e, b) \<notin> proposed s" and "fst c = e" and "fst (snd c) = b"
  by (cases "try_propose cfg cv s e b")
    (auto simp: try_propose_def Let_def split: if_splits option.splits sum.splits prod.splits)

lemma log_ok_refused: "log_ok s calls \<Longrightarrow> log_ok s (calls @ [(c, Inl e)])"
  by (simp add: log_ok_def accepted_def)

lemma log_ok_sent:
  assumes "log_ok s calls" and "(e, b) \<notin> proposed s" and "fst c = e" and "fst (snd c) = b"
  shows "log_ok (s\<lparr>proposed := insert (e, b) (proposed s)\<rparr>) (calls @ [(c, Inr tx)])"
proof -
  have "proposal_key (c, Inr tx) = (e, b)" using assms(3,4) by (simp add: proposal_key_def)
  moreover have "accepted (calls @ [(c, Inr tx)]) = accepted calls @ [(c, Inr tx)]"
    by (simp add: accepted_def)
  ultimately show ?thesis using assms(1,2) by (simp add: log_ok_def)
qed

lemma agg_step_log_ok:
  assumes "log_ok s calls" and "agg_step E cfg (s, calls) ev = (s', calls')"
  shows "log_ok s' calls'"
proof (cases ev)
  case (AddCommitment e b r signer sig)
  with assms show ?thesis by (auto simp: log_ok_def)
next
  case (TryPropose cv e b)
  show ?thesis
    using assms TryPropose
    by (cases rule: try_propose_cases [of cfg cv s e b]) (auto simp: log_ok_refused log_ok_sent)
qed

lemma agg_step_ok:
  assumes "agg_ok E cfg s" and "agg_step E cfg (s, calls) ev = (s', calls')"
  shows "agg_ok E cfg s'"
proof (cases ev)
  case (AddCommitment e b r signer sig)
  with assms(2) have "s' = fst (add_commitment E cfg s e b r signer sig)" by simp
  with add_commitment_ok [OF assms(1)] show ?thesis by simp
next
  case (TryPropose cv e b)
  with assms(2) have "s' = fst (try_propose cfg cv s e b)" by (auto split: prod.splits)
  with try_propose_ok [OF assms(1)] show ?thesis by simp
qed

interpretation agg_machine: event_machine "agg_step E cfg" "\<lambda>x. x = (new_aggregator, [])"
    "\<lambda>(s, calls). agg_ok E cfg s \<and> log_ok s calls" for E cfg
proof
  fix x :: "agg_state \<times> agg_log"
  assume "x = (new_aggregator, [])"
  then show "case x of (s, calls) \<Rightarrow> agg_ok E cfg s \<and> log_ok s calls"
    by (simp add: agg_ok_new) (simp add: log_ok_def accepted_def new_aggregator_def)
next
  fix x :: "agg_state \<times> agg_log" and ev
  assume ok: "case x of (s, calls) \<Rightarrow> agg_ok E cfg s \<and> log_ok s calls"
  obtain s calls where x: "x = (s, calls)" by (cases x)
  obtain s' calls' where x': "agg_step E cfg (s, calls) ev = (s', calls')" by (cases "agg_step E cfg (s, calls) ev")
  from ok x have "agg_ok E cfg s" and "log_ok s calls" by simp_all
  with agg_step_ok [OF _ x'] agg_step_log_ok [OF _ x'] x x'
  show "case agg_step E cfg x ev of (s, calls) \<Rightarrow> agg_ok E cfg s \<and> log_ok s calls" by simp
qed

text \<open>
  A signer counts for good: whatever is stored or submitted afterwards, who once stands behind a root
  keeps standing behind it. With non-negative stakes the backing of a root is at least the stake of
  any set of its signers.
\<close>

definition stands_behind :: "agg_state \<Rightarrow> int \<Rightarrow> int \<Rightarrow> root_arg \<Rightarrow> pystr \<Rightarrow> bool" where
  "stands_behind s e b r a \<longleftrightarrow> dict_get (signers_for s e b r) a \<noteq> None"

lemma add_commitment_keeps_signers:
  assumes "stands_behind s e b r a"
  shows "stands_behind (fst (add_commitment E cfg s e' b' r' signer sig)) e b r a"
  using assms
  by (auto simp: stands_behind_def add_commitment_def Let_def signers_for_def dict_get_or_def setdefault_get
      alist_dict.look_put split: sum.splits if_splits option.splits)

lemma agg_step_keeps_signers:
  assumes "stands_behind (fst x) e b r a"
  shows "stands_behind (fst (agg_step E cfg x ev)) e b r a"
proof -
  obtain s calls where x: "x = (s, calls)" by (cases x)
  show ?thesis
  proof (cases ev)
    case (AddCommitment e' b' r' signer sig)
    with assms x show ?thesis by (simp add: add_commitment_keeps_signers)
  next
    case (TryPropose cv e' b')
    have "stands_behind (fst (try_propose cfg cv s e' b')) e b r a"
      using assms x by (simp add: stands_behind_def signers_for_def try_propose_pending)
    with TryPropose x show ?thesis by (auto split: prod.splits)
  qed
qed

lemma run_keeps_signers:
  "stands_behind (fst x) e b r a \<Longrightarrow> stands_behind (fst (foldl (agg_step E cfg) x evs)) e b r a"
  by (induction evs arbitrary: x) (simp_all add: agg_step_keeps_signers)

lemma committed_stands_behind:
  assumes "AddCommitment e b r signer sig \<in> set evs"
    and "\<And>s. stands_behind (fst (add_commitment E cfg s e b r signer sig)) e b r a"
  shows "stands_behind (fst (foldl (agg_step E cfg) x evs)) e b r a"
proof -
  obtain before after where evs: "evs = before @ AddCommitment e b r signer sig # after"
    using assms(1) by (auto simp: in_set_conv_decomp)
  obtain s calls where "foldl (agg_step E cfg) x before = (s, calls)" by fastforce
  with evs show ?thesis by (simp add: run_keeps_signers assms(2))
qed

lemma signers_for_ok: "agg_ok E cfg s \<Longrightarrow> dict_ok (signers_for s e b r)"
  using agg_ok_entry(2) [of E cfg s e b] by (auto simp: signers_for_def dict_get_or_def split: option.splits)

lemma finite_signers: "finite {a. stands_behind s e b r a}"
  unfolding stands_behind_def alist_dict.keys_look [symmetric] by simp

lemma backing_stake_set:
  "agg_ok E cfg s \<Longrightarrow> backing_stake cv s e b r = sum (stake_of cv b) {a. stands_behind s e b r a}"
  unfolding backing_stake_def stands_behind_def alist_dict.keys_look [symmetric] Collect_mem_eq
  by (rule sum_list_distinct_conv_sum_set) (rule alist_dict.ok_distinct [OF signers_for_ok])

lemma backing_stake_at_least:
  assumes "agg_ok E cfg s" and "\<forall>a. 0 \<le> stake_of cv b a" and "\<forall>a \<in> A. stands_behind s e b r a"
  shows "sum (stake_of cv b) A \<le> backing_stake cv s e b r"
proof -
  have "sum (stake_of cv b) A \<le> sum (stake_of cv b) {a. stands_behind s e b r a}"
    using assms(2,3) by (intro sum_mono2) (auto simp: finite_signers)
  then show ?thesis by (simp add: backing_stake_set [OF assms(1)])
qed

section \<open>What the submission owes the contract\<close>

definition addr_num :: "pystr \<Rightarrow> int" where
  "addr_num a = projr (py_int_text 16 a)"

text \<open>
  The checks of \<open>ScoringRegistry.proposeEpoch\<close> on the arguments of a submission: equal lengths, at
  least one signer, strictly ascending addresses, every signature recovering to its signer over
  the submitted root, a non-zero total stake and the rounded-up quorum.
\<close>

definition contract_accepts :: "ethlib \<Rightarrow> agg_config \<Rightarrow> chain_view \<Rightarrow> proposal \<Rightarrow> bool" where
  "contract_accepts E cfg cv c =
     (case c of (e, b, rb, signers, sigs) \<Rightarrow>
        length signers = length sigs \<and> signers \<noteq> []
        \<and> sorted_wrt (\<lambda>x y. addr_num x < addr_num y) signers
        \<and> (\<forall>(a, sig) \<in> set (zip signers sigs).
             rbind (recover_commitment_signer E (chain_id cfg) (scoring_registry cfg) e b (RBytes rb) sig)
               (checksum E) = Inr a)
        \<and> total_stake cv b \<noteq> 0
        \<and> quorum_need (total_stake cv b) (min_quorum_bps cfg) \<le> (\<Sum>a \<leftarrow> signers. stake_of cv b a))"

lemma assemble_sorted:
  assumes "assemble s e b r = Inr (signers, sigs)"
  defines "sg \<equiv> signers_for s e b r"
  shows "mset signers = mset (dict_keys sg)" "sigs = map (\<lambda>a. the (dict_get sg a)) signers"
    "sorted (map addr_num signers)" "\<forall>a \<in> set signers. py_int_text 16 a = Inr (addr_num a)"
proof -
  let ?f = "\<lambda>a. rbind (py_int_text 16 a) (\<lambda>n. Inr (n, a))"
  obtain keyed where keyed: "map_res ?f (dict_keys sg) = Inr keyed"
    and signers: "signers = map snd (sort_key fst keyed)"
    and sigs: "sigs = map (\<lambda>a. the (dict_get sg a)) signers"
    using assms(1) by (auto simp: assemble_def sg_def Let_def)
  have each: "?f a = Inr (addr_num a, a)" "py_int_text 16 a = Inr (addr_num a)"
    if "a \<in> set (dict_keys sg)" for a
    using map_res_map(2) [OF keyed] that by (auto simp: addr_num_def)
  have k: "keyed = map (\<lambda>a. (addr_num a, a)) (dict_keys sg)"
    using map_res_map(1) [OF keyed] each by auto
  have "fst p = addr_num (snd p)" if "p \<in> set (sort_key fst keyed)" for p
    using that k by auto
  then have "map addr_num signers = map fst (sort_key fst keyed)"
    unfolding signers by simp
  then show "sorted (map addr_num signers)" by simp
  show "mset signers = mset (dict_keys sg)"
    unfolding signers k by (simp add: image_mset.compositionality comp_def)
  then have "set signers = set (dict_keys sg)" by (rule mset_eq_setD)
  with each(2) show "\<forall>a \<in> set signers. py_int_text 16 a = Inr (addr_num a)" by blast
  show "sigs = map (\<lambda>a. the (dict_get sg a)) signers" by (rule sigs)
qed

lemma set_epoch_roots: "set (epoch_roots s e b) = {k. (e, b, k) \<in> set (dict_keys (pending s))}"
  by (force simp: epoch_roots_def)

lemma best_root_Some:
  assumes "best_root cv s e b = Some k"
  shows "(e, b, k) \<in> set (dict_keys (pending s))"
    "\<And>k'. (e, b, k') \<in> set (dict_keys (pending s)) \<Longrightarrow>
       backing_stake cv s e b (RStr k') \<le> backing_stake cv s e b (RStr k)"
proof -
  obtain k0 ks where roots: "epoch_roots s e b = k0 # ks"
    and k: "k = max_by (\<lambda>x. backing_stake cv s e b (RStr x)) k0 ks"
    using assms by (auto simp: best_root_def split: list.splits)
  have mem: "x \<in> insert k0 (set ks) \<longleftrightarrow> (e, b, x) \<in> set (dict_keys (pending s))" for x
    using set_epoch_roots [of s e b] roots by auto
  show "(e, b, k) \<in> set (dict_keys (pending s))"
    unfolding mem [symmetric] k by (rule max_by_in)
  show "backing_stake cv s e b (RStr k') \<le> backing_stake cv s e b (RStr k)"
    if "(e, b, k') \<in> set (dict_keys (pending s))" for k'
  proof -
    from that have "k' \<in> insert k0 (set ks)" using mem by simp
    then show ?thesis unfolding k by (rule max_by_ge)
  qed
qed

lemma best_root_exists:
  "(e, b, k) \<in> set (dict_keys (pending s)) \<Longrightarrow> \<exists>k'. best_root cv s e b = Some k'"
  using set_epoch_roots [of s e b] by (auto simp: best_root_def split: list.splits)

lemma checksums_distinct_nums:
  assumes "checksum_canonical E" and "checksum E x = Inr a" and "checksum E y = Inr a'"
    and "addr_num a = addr_num a'"
  shows "a = a'"
proof -
  have "\<exists>n. py_int_text 16 a = Inr n" "\<exists>n. py_int_text 16 a' = Inr n"
    using assms(1-3) by (auto simp: checksum_canonical_def checksum_def)
  with assms(4) have "py_int_text 16 a = py_int_text 16 a'" by (auto simp: addr_num_def)
  with assms(1-3) show ?thesis unfolding checksum_canonical_def checksum_def by blast
qed

text \<open>A key spelled with \<open>0x\<close> determines the root bytes its signatures were verified over.\<close>

lemma signed_entry_root:
  assumes "signed_entry E cfg e b k a sig" and "startswith k ox"
    and "recover_ignores_prefix E"
  obtains rb where "fromhex (drop 2 k) = Inr rb"
    and "rbind (recover_commitment_signer E (chain_id cfg) (scoring_registry cfg) e b (RBytes rb) sig)
           (checksum E) = Inr a"
proof -
  obtain r sig0 recovered where r: "normalize_root r = k" and sig: "sig = with_0x sig0"
    and rec: "recover_commitment_signer E (chain_id cfg) (scoring_registry cfg) e b r sig0 = Inr recovered"
    and a: "checksum E recovered = Inr a"
    using assms(1) by (auto simp: signed_entry_def)
  obtain rb where rb: "as_root_bytes r = Inr rb"
    using rec by (auto simp: recover_commitment_signer_def commitment_digest_def)
  have "startswith t ox" if "r = RStr t" for t
    using assms(2) r rb that fromhex_upper_prefix [of t] by (cases "startswith t ox") auto
  with normalized_root_bytes [OF rb] r have hex: "fromhex (drop 2 k) = Inr rb" by blast
  have "as_root_bytes (RBytes rb) = Inr rb" using as_root_bytes_length [OF rb] by simp
  with rb have "commitment_digest E c reg e b (RBytes rb) = commitment_digest E c reg e b r" for c reg
    by (simp add: commitment_digest_def del: as_root_bytes.simps)
  with rec a sig assms(3)
  have "rbind (recover_commitment_signer E (chain_id cfg) (scoring_registry cfg) e b (RBytes rb) sig)
      (checksum E) = Inr a"
    by (auto simp: recover_commitment_signer_def recover_ignores_prefix_def)
  with hex that show ?thesis by blast
qed

section \<open>Properties\<close>

text \<open>
  What \<open>add_commitment\<close> does: a signature that recovers to another address is refused and
  changes nothing; an accepted one is stored, prefixed, under the recovered signer for exactly the
  given epoch, Brain and normalised root, replaces that signer's earlier signature instead of
  counting twice, and touches no other entry.
\<close>
theorem add_commitment_effect:
  assumes "add_commitment E cfg s e b r signer sig = (s', Inr ok)"
  shows "\<exists>recovered. recover_commitment_signer E (chain_id cfg) (scoring_registry cfg) e b r sig = Inr recovered
    \<and> (if lower recovered = lower signer then
         ok \<and> proposed s' = proposed s
         \<and> (\<exists>a. checksum E recovered = Inr a
              \<and> (\<forall>e' b' r'. signers_for s' e' b' r' =
                   (if (e', b', normalize_root r') = (e, b, normalize_root r)
                    then dict_set a (with_0x sig) (signers_for s e b r) else signers_for s e' b' r')))
       else \<not> ok \<and> s' = s)"
proof -
  have get: "dict_get_or (setdefault k [] d) k' [] = dict_get_or d k' []"
    for k k' :: "int \<times> int \<times> pystr" and d :: "(_, (pystr, pystr) dict) dict"
    by (auto simp: dict_get_or_def setdefault_get)
  show ?thesis
    using assms
    by (auto simp: add_commitment_def Let_def signers_for_def get split: sum.splits if_splits)
qed

text \<open>
  In every reachable state each stored signature was verified: it recovers, over this chain,
  registry, epoch and Brain and some spelling of the root it is stored for, to the signer it is
  stored under, whatever commitments and submissions were interleaved.
\<close>
theorem pending_signatures_verified:
  assumes "foldl (agg_step E cfg) (new_aggregator, []) evs = (s, calls)"
    and "dict_get (pending s) (e, b, k) = Some sg" and "dict_get sg a = Some sig"
  shows "\<exists>r sig0 recovered. normalize_root r = k \<and> sig = with_0x sig0
    \<and> recover_commitment_signer E (chain_id cfg) (scoring_registry cfg) e b r sig0 = Inr recovered
    \<and> checksum E recovered = Inr a"
proof -
  have "agg_ok E cfg s"
    using agg_machine.reachable_inv [of "(new_aggregator, [])" E cfg evs] assms(1) by simp
  from agg_ok_entry(3) [OF this assms(2,3)] show ?thesis by (simp add: signed_entry_def)
qed

text \<open>
  C5. No double submission: over any interleaving of commitments and submission attempts, with
  stakes and chain answers changing between them, at most one submission per epoch and Brain is
  accepted, and the recorded epochs are exactly the accepted ones (a refused one stays open).
\<close>
theorem one_accepted_proposal_per_epoch:
  assumes "foldl (agg_step E cfg) (new_aggregator, []) evs = (s, calls)"
  shows "distinct (map proposal_key (accepted calls))
    \<and> proposed s = proposal_key ` set (accepted calls)"
  using agg_machine.reachable_inv [of "(new_aggregator, [])" E cfg evs] assms
  by (simp add: log_ok_def)

text \<open>
  The quorum is the contract's: rounding up makes \<open>quorum_met\<close> true exactly when there is stake
  and the backing stake reaches the fraction \<open>min_quorum_bps / 10000\<close> of it in exact arithmetic; with
  the default 5001 a met quorum is strictly more than half of a positive total.
\<close>
theorem quorum_met_exact:
  "(quorum_met cfg cv s e b r = (total_stake cv b \<noteq> 0
      \<and> total_stake cv b * min_quorum_bps cfg \<le> 10000 * backing_stake cv s e b r))
   \<and> (quorum_met (cfg\<lparr>min_quorum_bps := MIN_QUORUM_BPS\<rparr>) cv s e b r \<and> 0 < total_stake cv b
      \<longrightarrow> total_stake cv b < 2 * backing_stake cv s e b r)"
proof -
  have "tot * 5001 \<le> 10000 * x \<Longrightarrow> 0 < tot \<Longrightarrow> tot < 2 * x" for tot x :: int by linarith
  then show ?thesis by (auto simp: quorum_met_iff MIN_QUORUM_BPS_def)
qed

abbreviation demo_cfg :: agg_config where
  "demo_cfg \<equiv> \<lparr>chain_id = 57073, scoring_registry = hex0x [171], min_quorum_bps = MIN_QUORUM_BPS\<rparr>"

abbreviation demo_view :: chain_view where
  "demo_view \<equiv> \<lparr>stake_of = (\<lambda>_ a. if a = hex0x [1] \<or> a = hex0x [2] then 3000 else 0),
     total_stake = (\<lambda>_. 10000), propose_fn = (\<lambda>_. Inr (lit ''0xtx''))\<rparr>"

abbreviation demo_agg :: agg_state where
  "demo_agg \<equiv> \<lparr>pending = [((5, 8, hex0x (demo_hash 9)),
     [(hex0x [2], ox @ lit ''s2''), (hex0x [1], ox @ lit ''s1'')])], proposed = {}\<rparr>"

theorem quorum_met_exact_witness:
  "quorum_met (demo_cfg\<lparr>min_quorum_bps := MIN_QUORUM_BPS\<rparr>) demo_view demo_agg 5 8 (RBytes (demo_hash 9))
   \<and> (10000 :: int) < 2 * backing_stake demo_view demo_agg 5 8 (RBytes (demo_hash 9))"
proof -
  have q: "quorum_met (demo_cfg\<lparr>min_quorum_bps := MIN_QUORUM_BPS\<rparr>) demo_view demo_agg 5 8 (RBytes (demo_hash 9))"
    by (simp add: quorum_met_iff backing_stake_def signers_for_def dict_get_or_def MIN_QUORUM_BPS_def
        flip: hex0x_def)
  then show ?thesis
    using quorum_met_exact [of demo_cfg demo_view demo_agg 5 8 "RBytes (demo_hash 9)"] by simp
qed

lemma sum_list_mset_cong: "mset xs = mset ys \<Longrightarrow> sum_list (map f xs) = sum_list (map f ys)"
  for f :: "'a \<Rightarrow> 'b::comm_monoid_add"
  by (metis mset_map sum_mset_sum_list)

text \<open>What a submission attempt that reaches the chain has done before.\<close>

lemma try_propose_call:
  assumes "try_propose cfg cv s e b = (s', Some c, res)"
  obtains k rb signers sigs where "c = (e, b, rb, signers, sigs)" and "best_root cv s e b = Some k"
    and "quorum_met cfg cv s e b (RStr k)" and "assemble s e b (RStr k) = Inr (signers, sigs)"
    and "fromhex (drop 2 k) = Inr rb"
  using assms
  by (auto simp: try_propose_def Let_def split: if_splits option.splits sum.splits prod.splits)

lemma pending_signers:
  assumes "agg_ok E cfg s" and "(e, b, k) \<in> set (dict_keys (pending s))"
  obtains sg where "dict_get (pending s) (e, b, k) = Some sg" and "normalize_root (RStr k) = k"
    and "signers_for s e b (RStr k) = sg" and "dict_ok sg"
proof -
  obtain sg where sg: "dict_get (pending s) (e, b, k) = Some sg"
    using alist_dict.keys_look [of "(e, b, k)" "pending s"] assms(2) by auto
  from agg_ok_entry [OF assms(1) sg] have "lower k = k" "dict_ok sg" by blast+
  with sg that show ?thesis by (simp add: signers_for_def)
qed

lemma assembled_acceptable:
  assumes ok: "agg_ok E cfg s" and mem: "(e, b, k) \<in> set (dict_keys (pending s))" and pre: "startswith k ox"
    and q: "quorum_met cfg cv s e b (RStr k)" and asm: "assemble s e b (RStr k) = Inr (signers, sigs)"
    and rb: "fromhex (drop 2 k) = Inr rb"
    and lib: "checksum_canonical E" "recover_ignores_prefix E"
    and pos: "0 \<le> total_stake cv b" "0 < min_quorum_bps cfg"
  shows "contract_accepts E cfg cv (e, b, rb, signers, sigs) \<and> length rb = 32"
proof -
  obtain sg where sg: "dict_get (pending s) (e, b, k) = Some sg" "signers_for s e b (RStr k) = sg" "dict_ok sg"
    using pending_signers [OF ok mem] by metis
  note srt = assemble_sorted [OF asm, unfolded sg(2)]
  have set_eq: "set signers = set (dict_keys sg)" using srt(1) by (rule mset_eq_setD)
  have entry: "signed_entry E cfg e b k a (the (dict_get sg a))" if "a \<in> set signers" for a
    using that set_eq alist_dict.keys_look [of a sg] agg_ok_entry(3) [OF ok sg(1)] by auto
  have stake: "backing_stake cv s e b (RStr k) = (\<Sum>a \<leftarrow> signers. stake_of cv b a)"
    unfolding backing_stake_def sg(2) by (rule sum_list_mset_cong) (rule srt(1) [symmetric])
  have tot: "total_stake cv b \<noteq> 0"
    and need: "quorum_need (total_stake cv b) (min_quorum_bps cfg) \<le> (\<Sum>a \<leftarrow> signers. stake_of cv b a)"
    using q stake by (auto simp: quorum_met_def Let_def split: if_splits)
  have "0 < quorum_need (total_stake cv b) (min_quorum_bps cfg)"
    using tot pos by (intro quorum_need_pos) simp_all
  with need have ne: "signers \<noteq> []" by auto
  have rec: "rbind (recover_commitment_signer E (chain_id cfg) (scoring_registry cfg) e b (RBytes rb)
      (the (dict_get sg a))) (checksum E) = Inr a" if "a \<in> set signers" for a
    using signed_entry_root [OF entry [OF that] pre lib(2)] rb by (metis sum.inject(2))
  have "distinct signers" using sg(3) srt(1) by (metis mset_eq_imp_distinct_iff)
  moreover have "inj_on addr_num (set signers)"
    using entry checksums_distinct_nums [OF lib(1)] unfolding inj_on_def signed_entry_def by metis
  ultimately have "sorted_wrt (<) (map addr_num signers)"
    using srt(3) by (simp add: strict_sorted_iff distinct_map)
  then have ascending: "sorted_wrt (\<lambda>x y. addr_num x < addr_num y) signers" by (simp add: sorted_wrt_map)
  have "\<forall>(a, sig) \<in> set (zip signers sigs).
      rbind (recover_commitment_signer E (chain_id cfg) (scoring_registry cfg) e b (RBytes rb) sig) (checksum E) = Inr a"
    using rec by (auto simp: srt(2) zip_map2 set_zip)
  moreover have "length rb = 32"
  proof -
    obtain a where "a \<in> set signers" using ne by (cases signers) auto
    from rec [OF this] show ?thesis
      by (auto simp: recover_commitment_signer_def commitment_digest_def)
  qed
  ultimately show ?thesis
    using ne ascending tot need by (simp add: contract_accepts_def srt(2))
qed

lemma quorum_calls:
  assumes ok: "agg_ok E cfg s" and k: "best_root cv s e b = Some k" and pre: "startswith k ox"
    and q: "quorum_met cfg cv s e b (RStr k)" and free: "(e, b) \<notin> proposed s"
    and lib: "checksum_canonical E" "recover_ignores_prefix E"
    and pos: "0 \<le> total_stake cv b" "0 < min_quorum_bps cfg"
  shows "\<exists>c s'. try_propose cfg cv s e b = (s', Some c, rbind (propose_fn cv c) (\<lambda>tx. Inr (Some tx)))
    \<and> ((e, b) \<in> proposed s' \<longleftrightarrow> (\<exists>tx. propose_fn cv c = Inr tx))"
proof -
  obtain sg where sg: "dict_get (pending s) (e, b, k) = Some sg" "signers_for s e b (RStr k) = sg"
    using pending_signers [OF ok best_root_Some(1) [OF k]] by metis
  have entry: "signed_entry E cfg e b k a (the (dict_get sg a))" if "a \<in> set (dict_keys sg)" for a
    using that alist_dict.keys_look [of a sg] agg_ok_entry(3) [OF ok sg(1)] by auto
  have "sum_list (map (stake_of cv b) (dict_keys sg)) > 0"
    using q quorum_need_pos [of "total_stake cv b" "min_quorum_bps cfg"] pos sg(2)
    by (auto simp: quorum_met_def Let_def backing_stake_def split: if_splits)
  then obtain a where a: "a \<in> set (dict_keys sg)" by (cases sg) auto
  obtain rb where rb: "fromhex (drop 2 k) = Inr rb"
    using signed_entry_root [OF entry [OF a] pre lib(2)] by metis
  have "\<exists>n. py_int_text 16 a = Inr n" if "a \<in> set (dict_keys sg)" for a
    using entry [OF that] lib(1) by (auto simp: signed_entry_def checksum_canonical_def checksum_def)
  then have "map_res (\<lambda>a. rbind (py_int_text 16 a) (\<lambda>n. Inr (n, a))) (dict_keys sg)
      = Inr (map (\<lambda>a. (projr (py_int_text 16 a), a)) (dict_keys sg))"
    by (intro map_res_total) force
  then obtain signers sigs where asm: "assemble s e b (RStr k) = Inr (signers, sigs)"
    by (simp add: assemble_def sg(2) Let_def)
  let ?c = "(e, b, rb, signers, sigs)"
  show ?thesis
    using free k q asm rb by (cases "propose_fn cv ?c") (auto simp: try_propose_def Let_def)
qed

text \<open>
  A quorum that stands behind one root only makes it the best root: another root as strong would
  have a quorum too and share a signer with it.
\<close>

lemma quorum_root_is_best:
  assumes ok: "agg_ok E cfg s" and book: "ledger (stake_of cv b) (total_stake cv b)"
    and tot: "total_stake cv b \<noteq> 0" and bps: "5000 < min_quorum_bps cfg"
    and need: "quorum_need (total_stake cv b) (min_quorum_bps cfg) \<le> sum (stake_of cv b) A"
    and behind: "finite A" "\<forall>a \<in> A. stands_behind s e b (RStr k) a"
    and only: "\<forall>a \<in> A. \<forall>x. stands_behind s e b (RStr x) a \<longrightarrow> lower x = k"
  shows "quorum_met cfg cv s e b (RStr k)" and "best_root cv s e b = Some k"
proof -
  let ?support = "\<lambda>x. backing_stake cv s e b (RStr x)"
  have A: "stake_quorum (stake_of cv b) (total_stake cv b) (min_quorum_bps cfg) A"
    using book tot bps need behind by (simp add: stake_quorum_def)
  have le: "sum (stake_of cv b) A \<le> ?support k"
    using book behind(2) by (intro backing_stake_at_least [OF ok]) (auto simp: ledger_def)
  with tot need show q: "quorum_met cfg cv s e b (RStr k)" by (simp add: quorum_met_def Let_def)
  obtain a where a: "a \<in> A" using majority.nonempty [OF A] by blast
  with behind(2) only have "lower k = k" "stands_behind s e b (RStr k) a" by blast+
  then have "(e, b, k) \<in> set (dict_keys (pending s))"
    using alist_dict.keys_look [of "(e, b, k)" "pending s"]
    by (auto simp: stands_behind_def signers_for_def dict_get_or_def split: option.splits)
  then obtain k' where k': "best_root cv s e b = Some k'" and ge: "?support k \<le> ?support k'"
    using best_root_exists best_root_Some(2) by metis
  have key: "lower k' = k'"
    by (rule pending_signers [OF ok best_root_Some(1) [OF k']]) simp
  have "stake_quorum (stake_of cv b) (total_stake cv b) (min_quorum_bps cfg) {x. stands_behind s e b (RStr k') x}"
    using A le ge by (simp add: stake_quorum_def finite_signers backing_stake_set [OF ok])
  from majority.intersect [OF A this] only key have "k' = k" by auto
  with k' show "best_root cv s e b = Some k" by simp
qed


text \<open>
  A root with quorum is submitted: when the epoch is open and some root of it has the quorum,
  and the epoch's roots are spelled with \<open>0x\<close>, \<open>try_propose\<close> calls the contract, for a root with at
  least that backing, and returns exactly what the chain answers.
\<close>
theorem quorum_is_submitted:
  assumes "foldl (agg_step E cfg) (new_aggregator, []) evs = (s, calls)"
    and "(e, b) \<notin> proposed s" and "(e, b, k) \<in> set (dict_keys (pending s))"
    and "quorum_met cfg cv s e b (RStr k)"
    and "\<forall>x. (e, b, x) \<in> set (dict_keys (pending s)) \<longrightarrow> startswith x ox"
    and "checksum_canonical E" and "recover_ignores_prefix E"
    and "0 \<le> total_stake cv b" and "0 < min_quorum_bps cfg"
  shows "\<exists>c s' k'. try_propose cfg cv s e b =
      (s', Some c, rbind (propose_fn cv c) (\<lambda>tx. Inr (Some tx)))
    \<and> best_root cv s e b = Some k'
    \<and> backing_stake cv s e b (RStr k) \<le> backing_stake cv s e b (RStr k')
    \<and> ((e, b) \<in> proposed s' \<longleftrightarrow> (\<exists>tx. propose_fn cv c = Inr tx))"
proof -
  have ok: "agg_ok E cfg s"
    using agg_machine.reachable_inv [of "(new_aggregator, [])" E cfg evs] assms(1) by simp
  obtain k' where k': "best_root cv s e b = Some k'" using best_root_exists [OF assms(3)] by blast
  note best = best_root_Some [OF k']
  have le: "backing_stake cv s e b (RStr k) \<le> backing_stake cv s e b (RStr k')"
    using best(2) assms(3) by blast
  with assms(4) have q: "quorum_met cfg cv s e b (RStr k')" by (auto simp: quorum_met_iff)
  from quorum_calls [OF ok k' _ q assms(2,6-9)] assms(5) best(1) k' le show ?thesis by blast
qed

text \<open>
  No two roots of one epoch and Brain reach quorum without a common signer: with a ledger of
  non-negative stakes that sums to at most the total, and a threshold above one half, the signer
  sets of two quorum roots intersect, so two such roots expose a validator that signed both.
\<close>
theorem two_quorum_roots_share_a_signer:
  assumes "foldl (agg_step E cfg) (new_aggregator, []) evs = (s, calls)"
    and "quorum_met cfg cv s e b r1" and "quorum_met cfg cv s e b r2"
    and "ledger (stake_of cv b) (total_stake cv b)" and "5000 < min_quorum_bps cfg"
  shows "\<exists>a. a \<in> set (dict_keys (signers_for s e b r1)) \<and> a \<in> set (dict_keys (signers_for s e b r2))"
proof -
  have ok: "agg_ok E cfg s"
    using agg_machine.reachable_inv [of "(new_aggregator, [])" E cfg evs] assms(1) by simp
  have "backing_stake cv s e b r = sum (stake_of cv b) (set (dict_keys (signers_for s e b r)))" for r
    unfolding backing_stake_set [OF ok] stands_behind_def alist_dict.keys_look [symmetric] by simp
  then have "stake_quorum (stake_of cv b) (total_stake cv b) (min_quorum_bps cfg)
      (set (dict_keys (signers_for s e b r)))" if "quorum_met cfg cv s e b r" for r
    using that assms(4,5) by (auto simp: stake_quorum_def quorum_met_def Let_def split: if_splits)
  from majority.intersect [OF this [OF assms(2)] this [OF assms(3)]] show ?thesis by blast
qed

lemma drop2_to_hex: "drop 2 (to_hex (x # xs)) = to_hex xs"
  by (simp add: to_hex.simps)

text \<open>
  A root spelled without \<open>0x\<close> is a different root to the aggregator but not to the signature
  check: its digest is the one of the 32 bytes, while its key differs from theirs, so its backing
  is counted apart; and when it is the best-supported root, the submission drops its first byte
  and no contract check passes.
\<close>
theorem unprefixed_root_splits_and_truncates:
  assumes "length rb = 32" and "best_root cv s e b = Some (to_hex rb)"
    and "try_propose cfg cv s e b = (s', Some c, res)"
  shows "commitment_digest E ch reg e b (RStr (to_hex rb)) = commitment_digest E ch reg e b (RBytes rb)
    \<and> normalize_root (RStr (to_hex rb)) \<noteq> normalize_root (RBytes rb)
    \<and> fst (snd (snd c)) = tl rb
    \<and> \<not> contract_accepts E cfg cv c"
proof -
  obtain x xs where rb: "rb = x # xs" "length xs = 31" using assms(1) by (cases rb) auto
  obtain signers sigs where c: "c = (e, b, xs, signers, sigs)"
    using try_propose_call [OF assms(3)] assms(2) drop2_to_hex [of x xs] rb(1)
    by (metis fromhex_to_hex option.inject sum.inject(2))
  have bad: "rbind (recover_commitment_signer E (chain_id cfg) (scoring_registry cfg) e b (RBytes xs) sig)
      (checksum E) \<noteq> Inr a" for sig a
    using rb(2) by (auto simp: recover_commitment_signer_def commitment_digest_def)
  have "\<not> contract_accepts E cfg cv c"
  proof (cases "signers = [] \<or> sigs = []")
    case True
    then show ?thesis by (auto simp: contract_accepts_def c)
  next
    case False
    then obtain a sig as sigs' where "signers = a # as" "sigs = sig # sigs'" by (metis list.exhaust)
    then show ?thesis using bad by (auto simp: contract_accepts_def c)
  qed
  moreover have "commitment_digest E ch reg e b (RStr (to_hex rb)) = commitment_digest E ch reg e b (RBytes rb)"
    by (simp add: commitment_digest_def)
  moreover have "to_hex rb \<noteq> ox @ to_hex rb" by (metis append_self_conv2 length_0_conv length_ox zero_neq_numeral)
  ultimately show ?thesis using rb c by simp
qed

section \<open>Concrete runs\<close>

abbreviation demo_root :: root_arg where
  "demo_root \<equiv> RStr (hex0x (demo_hash 9))"

definition demo_commit :: bytes where
  "demo_commit = demo_hash (sum_list (ascii_bytes ''BasedAI:ScoringRegistry:v2'') + 241 + 171 + 1 + 8 + 9)"

definition demo_sig :: "byte \<Rightarrow> pystr" where
  "demo_sig x = to_hex (x # demo_commit)"

lemma demo_root_digest:
  "commitment_digest demo_eth 57073 (hex0x [171]) 1 8 demo_root = Inr demo_commit"
  using demo_digest [of "demo_hash 9"]
  by (simp add: commitment_digest_def demo_commit_def)

lemma demo_sig_prefix [simp]: "with_0x (demo_sig x) = ox @ demo_sig x"
  by (simp add: with_0x_def demo_sig_def)

lemma demo_signer [simp]:
  "recover_commitment_signer demo_eth 57073 (hex0x [171]) 1 8 demo_root (demo_sig x) = Inr (hex0x [x])"
  by (simp add: recover_commitment_signer_def demo_root_digest demo_recover_def demo_sig_def strip_0x_def
      del: as_root_bytes.simps)

abbreviation demo_run :: "agg_event list" where
  "demo_run \<equiv> [AddCommitment 1 8 demo_root (hex0x [2]) (demo_sig 2),
                AddCommitment 1 8 demo_root (hex0x [1]) (demo_sig 1)]"

abbreviation demo_reached :: agg_state where
  "demo_reached \<equiv> \<lparr>pending = [((1, 8, hex0x (demo_hash 9)),
     [(hex0x [2], ox @ demo_sig 2), (hex0x [1], ox @ demo_sig 1)])], proposed = {}\<rparr>"

lemma demo_first_commitment:
  "add_commitment demo_eth demo_cfg new_aggregator 1 8 demo_root (hex0x [2]) (demo_sig 2) =
     (\<lparr>pending = [((1, 8, hex0x (demo_hash 9)), [(hex0x [2], ox @ demo_sig 2)])], proposed = {}\<rparr>, Inr True)"
  by (simp add: add_commitment_def new_aggregator_def Let_def setdefault_def)

lemma demo_run_reached: "foldl (agg_step demo_eth demo_cfg) (new_aggregator, []) demo_run = (demo_reached, [])"
  by (simp add: demo_first_commitment) (simp add: add_commitment_def Let_def setdefault_def)

lemma demo_quorum: "quorum_met demo_cfg demo_view demo_reached 1 8 demo_root"
  by (simp add: quorum_met_iff backing_stake_def signers_for_def MIN_QUORUM_BPS_def)

lemma demo_best: "best_root demo_view demo_reached 1 8 = Some (hex0x (demo_hash 9))"
  by (simp add: best_root_def epoch_roots_def)

lemma demo_assemble:
  "assemble demo_reached 1 8 demo_root = Inr ([hex0x [1], hex0x [2]], [ox @ demo_sig 1, ox @ demo_sig 2])"
  by (simp add: assemble_def signers_for_def py_int_text_byte)

lemma demo_proposal:
  "try_propose demo_cfg demo_view demo_reached 1 8 =
     (demo_reached\<lparr>proposed := {(1, 8)}\<rparr>,
      Some (1, 8, demo_hash 9, [hex0x [1], hex0x [2]], [ox @ demo_sig 1, ox @ demo_sig 2]),
      Inr (Some (lit ''0xtx'')))"
  unfolding try_propose_def demo_best by (simp add: demo_quorum demo_assemble)

theorem add_commitment_effect_witness:
  "\<exists>recovered. recover_commitment_signer demo_eth 57073 (hex0x [171]) 1 8 demo_root (demo_sig 2) = Inr recovered
    \<and> lower recovered = lower (hex0x [2])"
  using add_commitment_effect [OF demo_first_commitment] by (auto split: if_splits)

theorem pending_signatures_verified_witness:
  "\<exists>r sig0 recovered. normalize_root r = hex0x (demo_hash 9) \<and> ox @ demo_sig 1 = with_0x sig0
    \<and> recover_commitment_signer demo_eth 57073 (hex0x [171]) 1 8 r sig0 = Inr recovered
    \<and> checksum demo_eth recovered = Inr (hex0x [1])"
  using pending_signatures_verified [OF demo_run_reached,
      of 1 8 "hex0x (demo_hash 9)" "[(hex0x [2], ox @ demo_sig 2), (hex0x [1], ox @ demo_sig 1)]"
        "hex0x [1]" "ox @ demo_sig 1"]
  by simp

lemma demo_run_proposed:
  "foldl (agg_step demo_eth demo_cfg) (new_aggregator, []) (demo_run @ [TryPropose demo_view 1 8, TryPropose demo_view 1 8])
    = (demo_reached\<lparr>proposed := {(1, 8)}\<rparr>,
       [((1, 8, demo_hash 9, [hex0x [1], hex0x [2]], [ox @ demo_sig 1, ox @ demo_sig 2]), Inr (lit ''0xtx''))])"
  by (simp only: foldl_append demo_run_reached) (simp add: demo_proposal, simp add: try_propose_def)

theorem one_accepted_proposal_per_epoch_witness:
  "distinct (map proposal_key (accepted
      [((1, 8, demo_hash 9, [hex0x [1], hex0x [2]], [ox @ demo_sig 1, ox @ demo_sig 2]), Inr (lit ''0xtx''))]))
   \<and> {(1, 8)} = proposal_key ` set (accepted
      [((1, 8, demo_hash 9, [hex0x [1], hex0x [2]], [ox @ demo_sig 1, ox @ demo_sig 2]), Inr (lit ''0xtx''))])"
  using one_accepted_proposal_per_epoch [OF demo_run_proposed] by simp


theorem quorum_is_submitted_witness:
  "\<exists>c s' k'. try_propose demo_cfg demo_view demo_reached 1 8 =
      (s', Some c, rbind (propose_fn demo_view c) (\<lambda>tx. Inr (Some tx)))
    \<and> best_root demo_view demo_reached 1 8 = Some k'
    \<and> backing_stake demo_view demo_reached 1 8 (RStr (hex0x (demo_hash 9)))
        \<le> backing_stake demo_view demo_reached 1 8 (RStr k')
    \<and> ((1, 8) \<in> proposed s' \<longleftrightarrow> (\<exists>tx. propose_fn demo_view c = Inr tx))"
proof (rule quorum_is_submitted [OF demo_run_reached])
  show "quorum_met demo_cfg demo_view demo_reached 1 8 (RStr (hex0x (demo_hash 9)))"
    by (rule demo_quorum)
qed (auto simp: demo_checksum_canonical demo_recover_prefix MIN_QUORUM_BPS_def)

lemma demo_ledger: "ledger (stake_of demo_view 8) (total_stake demo_view 8)"
proof -
  have "sum (stake_of demo_view 8) S \<le> 10000" if "finite S" for S
  proof -
    have "sum (stake_of demo_view 8) S = sum (stake_of demo_view 8) (S \<inter> {hex0x [1], hex0x [2]})"
      using that by (intro sum.mono_neutral_right) auto
    also have "\<dots> \<le> sum (stake_of demo_view 8) {hex0x [1], hex0x [2]}"
      by (intro sum_mono2) auto
    finally show ?thesis by simp
  qed
  then show ?thesis by (simp add: ledger_def)
qed

theorem two_quorum_roots_share_a_signer_witness:
  "\<exists>a. a \<in> set (dict_keys (signers_for demo_reached 1 8 demo_root))
     \<and> a \<in> set (dict_keys (signers_for demo_reached 1 8 (RBytes (demo_hash 9))))"
proof (rule two_quorum_roots_share_a_signer [OF demo_run_reached demo_quorum])
  show "quorum_met demo_cfg demo_view demo_reached 1 8 (RBytes (demo_hash 9))"
    by (simp add: quorum_met_iff backing_stake_def signers_for_def MIN_QUORUM_BPS_def flip: hex0x_def)
qed (rule demo_ledger, simp add: MIN_QUORUM_BPS_def)

abbreviation demo_unprefixed :: agg_state where
  "demo_unprefixed \<equiv> \<lparr>pending = [((1, 8, to_hex (demo_hash 9)),
     [(hex0x [2], ox @ demo_sig 2), (hex0x [1], ox @ demo_sig 1)])], proposed = {}\<rparr>"

lemma lower_to_hex_key: "normalize_root (RStr (to_hex bs)) = to_hex bs"
  by simp

lemma demo_unprefixed_proposal:
  "try_propose demo_cfg demo_view demo_unprefixed 1 8 =
     (demo_unprefixed\<lparr>proposed := {(1, 8)}\<rparr>,
      Some (1, 8, tl (demo_hash 9), [hex0x [1], hex0x [2]], [ox @ demo_sig 1, ox @ demo_sig 2]),
      Inr (Some (lit ''0xtx'')))"
proof -
  have "demo_hash 9 = 0 # tl (demo_hash 9)" by (simp add: demo_hash_def numeral_eq_Suc)
  then have "fromhex (drop 2 (to_hex (demo_hash 9))) = Inr (tl (demo_hash 9))"
    by (metis drop2_to_hex fromhex_to_hex)
  then show ?thesis
    by (simp add: try_propose_def best_root_def epoch_roots_def quorum_met_iff backing_stake_def
        signers_for_def MIN_QUORUM_BPS_def assemble_def py_int_text_byte)
qed

theorem unprefixed_root_splits_and_truncates_witness:
  "normalize_root (RStr (to_hex (demo_hash 9))) \<noteq> normalize_root (RBytes (demo_hash 9))
   \<and> \<not> contract_accepts demo_eth demo_cfg demo_view
        (1, 8, tl (demo_hash 9), [hex0x [1], hex0x [2]], [ox @ demo_sig 1, ox @ demo_sig 2])"
proof -
  have "best_root demo_view demo_unprefixed 1 8 = Some (to_hex (demo_hash 9))"
    by (simp add: best_root_def epoch_roots_def)
  from unprefixed_root_splits_and_truncates [OF length_demo_hash this demo_unprefixed_proposal,
      of demo_eth 57073 "hex0x [171]"]
  show ?thesis by simp
qed

end
