(* ===== verification/Candidates.thy ===== *)
theory Candidates imports Aggregator Json "HOL-Library.Product_Lexorder"
begin

text \<open>
  \<open>CanonicalCandidatePool\<close> of \<open>validator/src/basedai_validator/aggregator.py\<close>: the score maps the
  validators of a Brain submit for an epoch, their combination by stake-weighted median once the
  contributors hold a quorum of the stake, and the frozen root every validator then signs.
\<close>

section \<open>The code\<close>

type_synonym score_map = "(pystr, int) dict"
type_synonym canonical = "pystr \<times> (pystr \<times> int) list"

record pool_state =
  contributions :: "(int \<times> int, (pystr, score_map) dict) dict"
  frozen :: "(int \<times> int, canonical) dict"

definition new_pool :: pool_state where
  "new_pool = \<lparr>contributions = [], frozen = []\<rparr>"

fun normalize_rows :: "ethlib \<Rightarrow> score_map \<Rightarrow> json list \<Rightarrow> score_map res" where
  "normalize_rows E acc [] = Inr acc"
| "normalize_rows E acc (row # rows) =
     rbind (rbind (jkey row (lit ''miner'')) (to_checksum_address E)) (\<lambda>miner.
     rbind (rbind (jkey row (lit ''score'')) py_int) (\<lambda>score.
       if score < 0 \<or> score > 1000000 then Inl ValueError
       else normalize_rows E (dict_set miner score acc) rows))"

definition contributed_stake :: "chain_view \<Rightarrow> int \<Rightarrow> (pystr, score_map) dict \<Rightarrow> int" where
  "contributed_stake cv brain_id contributors =
     (\<Sum>a \<leftarrow> dict_keys contributors. stake_of cv brain_id a)"

definition pool_need :: "chain_view \<Rightarrow> int \<Rightarrow> int \<Rightarrow> int" where
  "pool_need cv bps brain_id =
     (let tot = total_stake cv brain_id in if tot \<noteq> 0 then quorum_need tot bps else 1)"

definition scored_miners :: "(pystr, score_map) dict \<Rightarrow> pystr list" where
  "scored_miners contributors = sort (remdups (concat (map (\<lambda>(_, c). dict_keys c) contributors)))"

text \<open>The pairs (score, stake) of the contributors with stake that scored the miner, sorted.\<close>

definition votes_of :: "chain_view \<Rightarrow> int \<Rightarrow> pystr \<Rightarrow> pystr \<times> score_map \<Rightarrow> (int \<times> int) list" where
  "votes_of cv brain_id miner p =
     (case p of (signer, candidate) \<Rightarrow>
        case dict_get candidate miner of
          None \<Rightarrow> []
        | Some score \<Rightarrow>
            if 0 < stake_of cv brain_id signer then [(score, stake_of cv brain_id signer)] else [])"

definition weighted_votes ::
    "chain_view \<Rightarrow> int \<Rightarrow> (pystr, score_map) dict \<Rightarrow> pystr \<Rightarrow> (int \<times> int) list" where
  "weighted_votes cv brain_id contributors miner =
     sort (concat (map (votes_of cv brain_id miner) contributors))"

text \<open>The scan for the median; \<open>d\<close> is its initial value \<open>weighted[-1][0]\<close>.\<close>

fun median_scan :: "int \<Rightarrow> int \<Rightarrow> int \<Rightarrow> (int \<times> int) list \<Rightarrow> int" where
  "median_scan weight d acc [] = d"
| "median_scan weight d acc ((score, w) # votes) =
     (if weight \<le> (acc + w) * 2 then score else median_scan weight d (acc + w) votes)"

definition median_row ::
    "chain_view \<Rightarrow> int \<Rightarrow> int \<Rightarrow> (pystr, score_map) dict \<Rightarrow> pystr \<Rightarrow> (pystr \<times> int) option" where
  "median_row cv brain_id need contributors miner =
     (let votes = weighted_votes cv brain_id contributors miner;
          weight = sum_list (map snd votes)
      in if votes = [] \<or> weight < need then None
         else Some (miner, median_scan weight (fst (last votes)) 0 votes))"

definition canonical_rows ::
    "chain_view \<Rightarrow> int \<Rightarrow> int \<Rightarrow> (pystr, score_map) dict \<Rightarrow> (pystr \<times> int) list" where
  "canonical_rows cv brain_id need contributors =
     List.map_filter (median_row cv brain_id need contributors) (scored_miners contributors)"

definition row_leaf :: "int \<Rightarrow> pystr \<times> int \<Rightarrow> score_leaf" where
  "row_leaf brain_id r = \<lparr>leaf_brain_id = brain_id, leaf_miner = fst r, leaf_score = snd r\<rparr>"

definition freeze ::
    "ethlib \<Rightarrow> pool_state \<Rightarrow> int \<times> int \<Rightarrow> (pystr \<times> int) list \<Rightarrow> pool_state \<times> canonical option res" where
  "freeze E s key rows =
     (if rows = [] then (s, Inl ValueError)
      else case build_merkle_root E (map (row_leaf (snd key)) rows) of
        Inl e \<Rightarrow> (s, Inl e)
      | Inr (mroot, _) \<Rightarrow>
          let fz = (ox @ to_hex mroot, rows)
          in (s\<lparr>frozen := dict_set key fz (frozen s)\<rparr>, Inr (Some fz)))"

text \<open>
  \<open>add\<close>. The candidate is recorded before the quorum is examined, so a call that raises afterwards
  (no row has coverage, a leaf cannot be encoded) has still recorded it.
\<close>

definition pool_add ::
    "ethlib \<Rightarrow> int \<Rightarrow> chain_view \<Rightarrow> pool_state \<Rightarrow> int \<Rightarrow> int \<Rightarrow> pystr \<Rightarrow> json list
       \<Rightarrow> pool_state \<times> canonical option res" where
  "pool_add E bps cv s epoch brain_id signer scores =
     (let key = (epoch, brain_id)
      in case dict_get (frozen s) key of
        Some fz \<Rightarrow> (s, Inr (Some fz))
      | None \<Rightarrow>
          if stake_of cv brain_id signer \<le> 0 then (s, Inl ValueError)
          else case normalize_rows E [] scores of
            Inl e \<Rightarrow> (s, Inl e)
          | Inr normalized \<Rightarrow>
              if normalized = [] then (s, Inl ValueError)
              else
                (let cands = setdefault key [] (contributions s)
                 in case checksum E signer of
                      Inl e \<Rightarrow> (s\<lparr>contributions := cands\<rparr>, Inl e)
                    | Inr a \<Rightarrow>
                        (let contributors = dict_set a normalized (dict_get_or cands key []);
                             s' = s\<lparr>contributions := dict_set key contributors cands\<rparr>;
                             need = pool_need cv bps brain_id
                         in if contributed_stake cv brain_id contributors < need then (s', Inr None)
                            else freeze E s' key (canonical_rows cv brain_id need contributors))))"

definition pool_get :: "pool_state \<Rightarrow> int \<Rightarrow> int \<Rightarrow> canonical option" where
  "pool_get s epoch brain_id = dict_get (frozen s) (epoch, brain_id)"

section \<open>The weighted median\<close>

definition weight_of :: "(int \<Rightarrow> bool) \<Rightarrow> (int \<times> int) list \<Rightarrow> int" where
  "weight_of P votes = (\<Sum>v \<leftarrow> votes. if P (fst v) then snd v else 0)"

lemma weight_of_simps [simp]:
  "weight_of P [] = 0"
  "weight_of P (v # vs) = (if P (fst v) then snd v else 0) + weight_of P vs"
  "weight_of P (us @ vs) = weight_of P us + weight_of P vs"
  by (simp_all add: weight_of_def)

lemma weight_of_all: "weight_of (\<lambda>_. True) votes = sum_list (map snd votes)"
  by (simp add: weight_of_def)

lemma weight_of_mset: "mset us = mset vs \<Longrightarrow> weight_of P us = weight_of P vs"
  unfolding weight_of_def by (rule sum_list_mset_cong)

lemma weight_of_mono:
  assumes "\<forall>v \<in> set votes. 0 \<le> snd v" and "\<And>v. v \<in> set votes \<Longrightarrow> P (fst v) \<Longrightarrow> Q (fst v)"
  shows "weight_of P votes \<le> weight_of Q votes"
  using assms unfolding weight_of_def by (intro sum_list_mono) auto

lemma weight_of_none: "(\<And>v. v \<in> set votes \<Longrightarrow> \<not> P (fst v)) \<Longrightarrow> weight_of P votes = 0"
  by (induction votes) auto

lemma weight_of_le_total: "\<forall>v \<in> set votes. 0 \<le> snd v \<Longrightarrow> weight_of P votes \<le> sum_list (map snd votes)"
  using weight_of_mono [of votes P "\<lambda>_. True"] by (simp add: weight_of_all)

lemma weight_of_every: "(\<And>v. v \<in> set votes \<Longrightarrow> P (fst v)) \<Longrightarrow> weight_of P votes = sum_list (map snd votes)"
  by (induction votes) auto

lemma weight_of_disjoint:
  assumes "\<forall>v \<in> set votes. 0 \<le> snd v" and "\<And>x. \<not> (P x \<and> Q x)"
  shows "weight_of P votes + weight_of Q votes \<le> sum_list (map snd votes)"
  using assms(1) by (induction votes) (auto dest: assms(2) [THEN notE, OF conjI])

lemma median_scan_split:
  assumes "2 * acc < weight" and "weight \<le> 2 * (acc + sum_list (map snd votes))"
  shows "\<exists>us s w vs. votes = us @ (s, w) # vs \<and> median_scan weight d acc votes = s
    \<and> 2 * (acc + sum_list (map snd us)) < weight \<and> weight \<le> 2 * (acc + sum_list (map snd us) + w)"
  using assms
proof (induction weight d acc votes rule: median_scan.induct)
  case (2 weight d acc score w votes)
  show ?case
  proof (cases "weight \<le> (acc + w) * 2")
    case True
    with "2.prems" show ?thesis by (intro exI [of _ "[]"]) simp
  next
    case False
    then obtain us s w' vs where "votes = us @ (s, w') # vs" "median_scan weight d (acc + w) votes = s"
      "2 * (acc + w + sum_list (map snd us)) < weight" "weight \<le> 2 * (acc + w + sum_list (map snd us) + w')"
      using "2.IH" "2.prems" by (auto simp: algebra_simps)
    with False show ?thesis
      by (intro exI [of _ "(score, w) # us"]) (simp add: algebra_simps)
  qed
qed simp

text \<open>The scan finds the lower weighted median of the sorted votes.\<close>

lemma median_scan_median:
  fixes d :: int
  assumes "sorted votes" and pos: "\<forall>v \<in> set votes. 0 < snd v" and "votes \<noteq> []"
  defines "weight \<equiv> sum_list (map snd votes)"
  defines "m \<equiv> median_scan weight d 0 votes"
  shows "m \<in> fst ` set votes" "weight \<le> 2 * weight_of (\<lambda>x. x \<le> m) votes"
    "2 * weight_of (\<lambda>x. x < m) votes < weight"
proof -
  have "0 < weight" using pos \<open>votes \<noteq> []\<close> unfolding weight_def
    by (cases votes) (fastforce intro!: add_pos_nonneg sum_list_nonneg dest: less_imp_le)+
  then obtain us w vs where split: "votes = us @ (m, w) # vs"
    and less: "2 * sum_list (map snd us) < weight" and le: "weight \<le> 2 * (sum_list (map snd us) + w)"
    using median_scan_split [of 0 weight votes d] unfolding m_def weight_def by auto
  have nn: "\<forall>v \<in> set us. 0 \<le> snd v" "\<forall>v \<in> set vs. 0 \<le> snd v"
    using pos split by (fastforce intro: less_imp_le)+
  show "m \<in> fst ` set votes" using split by force
  have ge: "m \<le> fst v" if "v \<in> set vs" for v
    using assms(1) that split by (auto simp: sorted_append less_eq_prod_def)
  have lt: "fst v \<le> m" if "v \<in> set us" for v
    using assms(1) that split by (auto simp: sorted_append less_eq_prod_def)
  have "weight_of (\<lambda>x. x < m) vs = 0" using ge by (intro weight_of_none) force
  then have "weight_of (\<lambda>x. x < m) votes \<le> sum_list (map snd us)"
    using weight_of_le_total [OF nn(1)] split by simp
  with less show "2 * weight_of (\<lambda>x. x < m) votes < weight" by simp
  have "weight_of (\<lambda>x. x \<le> m) us = sum_list (map snd us)" using lt by (intro weight_of_every) auto
  moreover have "0 \<le> weight_of (\<lambda>x. x \<le> m) vs"
    using nn(2) by (auto simp: weight_of_def intro!: sum_list_nonneg)
  ultimately show "weight \<le> 2 * weight_of (\<lambda>x. x \<le> m) votes" using le split by simp
qed

text \<open>Votes of the contributors: the stake behind the scores of a miner that satisfy \<open>P\<close>.\<close>

definition support ::
    "chain_view \<Rightarrow> int \<Rightarrow> (pystr, score_map) dict \<Rightarrow> pystr \<Rightarrow> (int \<Rightarrow> bool) \<Rightarrow> int" where
  "support cv brain_id contributors miner P =
     (\<Sum>(signer, candidate) \<leftarrow> contributors.
        case dict_get candidate miner of
          None \<Rightarrow> 0
        | Some score \<Rightarrow> if P score then max 0 (stake_of cv brain_id signer) else 0)"

lemma weighted_votes_sorted: "sorted (weighted_votes cv b cs miner)"
  by (simp add: weighted_votes_def)

lemma votes_of_pos: "v \<in> set (votes_of cv b miner p) \<Longrightarrow> 0 < snd v"
  by (auto simp: votes_of_def split: prod.splits option.splits if_splits)

lemma weighted_votes_pos: "\<forall>v \<in> set (weighted_votes cv b cs miner). 0 < snd v"
  using votes_of_pos by (force simp: weighted_votes_def)

lemma weighted_votes_score:
  "x \<in> fst ` set (weighted_votes cv b cs miner) \<Longrightarrow> \<exists>(a, c) \<in> set cs. dict_get c miner = Some x"
  by (force simp: weighted_votes_def votes_of_def split: prod.splits option.splits if_splits)

lemma weight_of_support: "weight_of P (weighted_votes cv b cs miner) = support cv b cs miner P"
proof -
  have "weight_of P (concat (map (votes_of cv b miner) cs)) = support cv b cs miner P"
    unfolding support_def
    by (induction cs) (auto simp: votes_of_def max_def split: option.splits)
  moreover have "weight_of P (weighted_votes cv b cs miner) = weight_of P (concat (map (votes_of cv b miner) cs))"
    by (rule weight_of_mset) (simp add: weighted_votes_def)
  ultimately show ?thesis by simp
qed

lemma weighted_votes_weight:
  "sum_list (map snd (weighted_votes cv b cs miner)) = support cv b cs miner (\<lambda>_. True)"
  by (simp add: weight_of_support flip: weight_of_all)

lemma median_row_Some:
  assumes "median_row cv b need cs miner = Some (m, x)"
  shows "m = miner" "\<exists>(a, c) \<in> set cs. dict_get c miner = Some x"
    "need \<le> support cv b cs miner (\<lambda>_. True)"
    "support cv b cs miner (\<lambda>_. True) \<le> 2 * support cv b cs miner (\<lambda>s. s \<le> x)"
    "2 * support cv b cs miner (\<lambda>s. s < x) < support cv b cs miner (\<lambda>_. True)"
proof -
  let ?v = "weighted_votes cv b cs miner"
  have ne: "?v \<noteq> []" and x: "x = median_scan (sum_list (map snd ?v)) (fst (last ?v)) 0 ?v"
    and "m = miner" "need \<le> sum_list (map snd ?v)"
    using assms by (auto simp: median_row_def Let_def split: if_splits)
  then show "m = miner" "need \<le> support cv b cs miner (\<lambda>_. True)"
    by (simp_all add: weighted_votes_weight)
  note med = median_scan_median [OF weighted_votes_sorted [of cv b cs miner] weighted_votes_pos ne,
      of "fst (last ?v)", folded x]
  show "\<exists>(a, c) \<in> set cs. dict_get c miner = Some x" by (rule weighted_votes_score [OF med(1)])
  show "support cv b cs miner (\<lambda>_. True) \<le> 2 * support cv b cs miner (\<lambda>s. s \<le> x)"
    "2 * support cv b cs miner (\<lambda>s. s < x) < support cv b cs miner (\<lambda>_. True)"
    using med(2,3) by (simp_all add: weight_of_support weighted_votes_weight)
qed

lemma support_disjoint:
  assumes "\<And>x. \<not> (P x \<and> Q x)"
  shows "support cv b cs miner P + support cv b cs miner Q \<le> support cv b cs miner (\<lambda>_. True)"
  using weight_of_disjoint [of "weighted_votes cv b cs miner" P Q] weighted_votes_pos [of cv b cs miner] assms
  by (auto simp: weight_of_support weighted_votes_weight less_imp_le)

lemma support_mono:
  assumes "\<And>x. P x \<Longrightarrow> Q x"
  shows "support cv b cs miner P \<le> support cv b cs miner Q"
  using weight_of_mono [of "weighted_votes cv b cs miner" P Q] weighted_votes_pos [of cv b cs miner] assms
  by (auto simp: weight_of_support less_imp_le)

lemma fst_canonical_rows:
  "map fst (canonical_rows cv b need cs) =
     filter (\<lambda>m. median_row cv b need cs m \<noteq> None) (scored_miners cs)"
proof -
  have "map fst (List.map_filter (median_row cv b need cs) ms) =
      filter (\<lambda>m. median_row cv b need cs m \<noteq> None) ms" for ms
    by (induction ms) (auto simp: List.map_filter_simps median_row_Some(1) split: option.splits)
  then show ?thesis by (simp add: canonical_rows_def)
qed

lemma set_canonical_rows:
  "(m, x) \<in> set (canonical_rows cv b need cs) \<longleftrightarrow>
     m \<in> set (scored_miners cs) \<and> median_row cv b need cs m = Some (m, x)"
proof -
  have "(m, x) \<in> set (List.map_filter f ms) \<longleftrightarrow> (\<exists>n \<in> set ms. f n = Some (m, x))" for f ms
    by (induction ms) (auto simp: List.map_filter_simps split: option.splits)
  then show ?thesis by (auto simp: canonical_rows_def dest: median_row_Some(1))
qed

lemma set_scored_miners: "m \<in> set (scored_miners cs) \<longleftrightarrow> (\<exists>(a, c) \<in> set cs. m \<in> set (dict_keys c))"
  by (auto simp: scored_miners_def)

lemma canonical_rows_sorted: "sorted_wrt (<) (map fst (canonical_rows cv b need cs))"
proof -
  have "sorted (scored_miners cs)" "distinct (scored_miners cs)"
    by (simp_all add: scored_miners_def)
  then have "sorted_wrt (<) (scored_miners cs)" by (simp add: strict_sorted_iff)
  then show ?thesis by (simp add: fst_canonical_rows sorted_wrt_filter)
qed

lemma canonical_row_exists:
  assumes "1 \<le> need" and "need \<le> support cv b cs miner (\<lambda>_. True)"
  shows "\<exists>x. (miner, x) \<in> set (canonical_rows cv b need cs)"
proof -
  let ?v = "weighted_votes cv b cs miner"
  have "?v \<noteq> []" using assms weighted_votes_weight [of cv b cs miner] by auto
  then obtain x where row: "median_row cv b need cs miner = Some (miner, x)"
    using assms by (simp add: median_row_def Let_def weighted_votes_weight)
  then obtain a c where "(a, c) \<in> set cs" "dict_get c miner = Some x"
    using median_row_Some(2) by blast
  then have "miner \<in> set (scored_miners cs)"
    using dict_get_in_keys by (force simp: set_scored_miners)
  with row show ?thesis by (auto simp: set_canonical_rows)
qed

section \<open>The pool as an event machine\<close>

definition scores_ok :: "score_map \<Rightarrow> bool" where
  "scores_ok c \<longleftrightarrow> (\<forall>m x. dict_get c m = Some x \<longrightarrow> 0 \<le> x \<and> x \<le> 1000000)"

definition canonical_ok :: "ethlib \<Rightarrow> int \<Rightarrow> canonical \<Rightarrow> bool" where
  "canonical_ok E brain_id fz \<longleftrightarrow> (case fz of (mroot, rows) \<Rightarrow>
     rows \<noteq> [] \<and> sorted_wrt (<) (map fst rows) \<and> (\<forall>r \<in> set rows. 0 \<le> snd r \<and> snd r \<le> 1000000)
     \<and> (\<exists>rb hashed. build_merkle_root E (map (row_leaf brain_id) rows) = Inr (rb, hashed) \<and> mroot = hex0x rb))"

definition pool_ok :: "ethlib \<Rightarrow> pool_state \<Rightarrow> bool" where
  "pool_ok E s \<longleftrightarrow>
     (\<forall>k cs a c. dict_get (contributions s) k = Some cs \<longrightarrow> (a, c) \<in> set cs \<longrightarrow> scores_ok c)
   \<and> (\<forall>k fz. dict_get (frozen s) k = Some fz \<longrightarrow> canonical_ok E (snd k) fz)"

lemma normalize_rows_ok:
  "normalize_rows E acc rows = Inr c \<Longrightarrow> scores_ok acc \<Longrightarrow> scores_ok c"
proof (induction rows arbitrary: acc)
  case (Cons row rows)
  obtain miner score where rec: "normalize_rows E (dict_set miner score acc) rows = Inr c"
    and "0 \<le> score" "score \<le> 1000000"
    using Cons.prems(1) by (auto split: if_splits)
  then have "scores_ok (dict_set miner score acc)"
    using Cons.prems(2) by (auto simp: scores_ok_def alist_dict.look_put)
  with rec show ?case by (rule Cons.IH)
qed simp

lemma set_dict_set: "p \<in> set (dict_set k v d) \<Longrightarrow> p = (k, v) \<or> p \<in> set d"
  by (induction d) (auto split: if_splits)

lemma canonical_rows_range:
  assumes "\<forall>(a, c) \<in> set cs. scores_ok c" and "r \<in> set (canonical_rows cv b need cs)"
  shows "0 \<le> snd r \<and> snd r \<le> 1000000"
proof -
  obtain m x where r: "r = (m, x)" by (cases r)
  with assms(2) have "median_row cv b need cs m = Some (m, x)" by (simp add: set_canonical_rows)
  from median_row_Some(2) [OF this] assms(1) r show ?thesis by (auto simp: scores_ok_def)
qed

text \<open>What an \<open>add\<close> that gets past validation does, and the only other outcomes.\<close>

lemma pool_add_cases:
  obtains (final) fz where "dict_get (frozen s) (e, b) = Some fz"
      "pool_add E bps cv s e b signer scores = (s, Inr (Some fz))"
  | (rejected) err where "dict_get (frozen s) (e, b) = None"
      "stake_of cv b signer \<le> 0 \<or> normalize_rows E [] scores = Inr [] \<or> (\<exists>er. normalize_rows E [] scores = Inl er)"
      "pool_add E bps cv s e b signer scores = (s, Inl err)"
  | (bad_signer) err c where "dict_get (frozen s) (e, b) = None" "checksum E signer = Inl err"
      "0 < stake_of cv b signer" "normalize_rows E [] scores = Inr c" "c \<noteq> []"
      "pool_add E bps cv s e b signer scores =
         (s\<lparr>contributions := setdefault (e, b) [] (contributions s)\<rparr>, Inl err)"
  | (recorded) a c cs s1 where "dict_get (frozen s) (e, b) = None"
      "0 < stake_of cv b signer" "normalize_rows E [] scores = Inr c" "c \<noteq> []" "checksum E signer = Inr a"
      "cs = dict_set a c (dict_get_or (contributions s) (e, b) [])"
      "s1 = s\<lparr>contributions := dict_set (e, b) cs (setdefault (e, b) [] (contributions s))\<rparr>"
      "pool_add E bps cv s e b signer scores =
         (if contributed_stake cv b cs < pool_need cv bps b then (s1, Inr None)
          else freeze E s1 (e, b) (canonical_rows cv b (pool_need cv bps b) cs))"
proof (cases "dict_get (frozen s) (e, b)")
  case (Some fz)
  then show ?thesis by (rule final) (simp add: pool_add_def Some)
next
  case None
  note open_epoch = this
  show ?thesis
  proof (cases "stake_of cv b signer \<le> 0 \<or> normalize_rows E [] scores = Inr []
      \<or> (\<exists>err. normalize_rows E [] scores = Inl err)")
    case True
    then have "\<exists>err. pool_add E bps cv s e b signer scores = (s, Inl err)"
      using open_epoch by (cases "stake_of cv b signer \<le> 0") (auto simp: pool_add_def)
    with open_epoch True show ?thesis by (blast intro: rejected)
  next
    case False
    then obtain c where c: "normalize_rows E [] scores = Inr c" "c \<noteq> []" and st: "0 < stake_of cv b signer"
      by (cases "normalize_rows E [] scores") auto
    have old: "dict_get_or (setdefault (e, b) [] (contributions s)) (e, b) [] = dict_get_or (contributions s) (e, b) []"
      by (auto simp: dict_get_or_def setdefault_get)
    show ?thesis
    proof (cases "checksum E signer")
      case (Inl err)
      with open_epoch c st show ?thesis by (intro bad_signer [OF open_epoch Inl st c]) (simp add: pool_add_def Let_def)
    next
      case (Inr a)
      with open_epoch c st old show ?thesis
        by (intro recorded [OF open_epoch st c Inr refl refl]) (simp add: pool_add_def Let_def)
    qed
  qed
qed

lemma freeze_cases:
  obtains (failed) err where "freeze E s k rows = (s, Inl err)"
  | (done_) rb hashed where "rows \<noteq> []" "build_merkle_root E (map (row_leaf (snd k)) rows) = Inr (rb, hashed)"
      "freeze E s k rows =
         (s\<lparr>frozen := dict_set k (hex0x rb, rows) (frozen s)\<rparr>, Inr (Some (hex0x rb, rows)))"
  by (cases "freeze E s k rows")
    (auto simp: freeze_def hex0x_def Let_def split: if_splits sum.splits prod.splits)

lemma pool_ok_setdefault:
  "pool_ok E s \<Longrightarrow> pool_ok E (s\<lparr>contributions := setdefault k [] (contributions s)\<rparr>)"
  by (auto simp: pool_ok_def setdefault_get split: if_splits)

lemma pool_ok_record:
  assumes "pool_ok E s" and "scores_ok c"
  shows "pool_ok E (s\<lparr>contributions := dict_set k (dict_set a c (dict_get_or (contributions s) k []))
            (setdefault k [] (contributions s))\<rparr>)"
    "\<forall>(a', c') \<in> set (dict_set a c (dict_get_or (contributions s) k [])). scores_ok c'"
proof -
  show new: "\<forall>(a', c') \<in> set (dict_set a c (dict_get_or (contributions s) k [])). scores_ok c'"
    using assms by (cases k) (auto simp: pool_ok_def dict_get_or_def dest!: set_dict_set split: option.splits)
  then show "pool_ok E (s\<lparr>contributions := dict_set k (dict_set a c (dict_get_or (contributions s) k []))
      (setdefault k [] (contributions s))\<rparr>)"
    using assms(1) by (auto simp: pool_ok_def alist_dict.look_put setdefault_get split: if_splits)
qed

lemma pool_ok_freeze:
  assumes "pool_ok E s" and "rows = canonical_rows cv (snd k) need cs" and "\<forall>(a, c) \<in> set cs. scores_ok c"
  shows "pool_ok E (fst (freeze E s k rows))"
proof (cases rule: freeze_cases [of E s k rows])
  case (done_ rb hashed)
  have "canonical_ok E (snd k) (hex0x rb, rows)"
    using done_(1,2) assms(2) canonical_rows_sorted canonical_rows_range [OF assms(3)]
    by (auto simp: canonical_ok_def)
  with assms(1) done_(3) show ?thesis
    by (auto simp: pool_ok_def alist_dict.look_put)
qed (simp add: assms)

lemma pool_add_ok:
  assumes "pool_ok E s"
  shows "pool_ok E (fst (pool_add E bps cv s e b signer scores))"
proof (cases rule: pool_add_cases [of s e b E bps cv signer scores])
  case (recorded a c cs s1)
  have "scores_ok c" by (rule normalize_rows_ok [OF recorded(3)]) (simp add: scores_ok_def)
  note new = pool_ok_record [OF assms this, where k = "(e, b)" and a = a, folded recorded(6), folded recorded(7)]
  show ?thesis
    using new(1) pool_ok_freeze [OF new(1) _ new(2), of _ cv "(e, b)"] by (simp add: recorded(8))
qed (simp_all add: assms pool_ok_setdefault)

lemma map_le_Some: "m \<subseteq>\<^sub>m m' \<Longrightarrow> m k = Some v \<Longrightarrow> m' k = Some v"
  by (metis domI map_le_def)

lemma pool_add_frozen_le:
  "dict_get (frozen s) \<subseteq>\<^sub>m dict_get (frozen (fst (pool_add E bps cv s e b signer scores)))"
proof (cases rule: pool_add_cases [of s e b E bps cv signer scores])
  case (recorded a c cs s1)
  then have "dict_get (frozen s1) = dict_get (frozen s)" and "dict_get (frozen s1) (e, b) = None" by simp_all
  then show ?thesis
    unfolding recorded(8)
    by (cases rule: freeze_cases [of E s1 "(e, b)" "canonical_rows cv b (pool_need cv bps b) cs"])
      (auto simp: map_le_def alist_dict.look_put)
qed simp_all

datatype pool_event = PoolAdd chain_view int int pystr "json list"

fun pool_step :: "ethlib \<Rightarrow> int \<Rightarrow> pool_state \<Rightarrow> pool_event \<Rightarrow> pool_state" where
  "pool_step E bps s (PoolAdd cv e b signer scores) = fst (pool_add E bps cv s e b signer scores)"

lemma pool_ok_new: "pool_ok E new_pool"
  by (simp add: pool_ok_def new_pool_def)

interpretation pool_machine: event_machine "pool_step E bps" "\<lambda>s. s = new_pool" "pool_ok E" for E bps
proof
  fix s ev
  assume "pool_ok E s"
  then show "pool_ok E (pool_step E bps s ev)" by (cases ev) (simp add: pool_add_ok)
qed (simp add: pool_ok_new)

section \<open>Properties\<close>

text \<open>
  Whatever candidates were submitted with whatever stakes, every frozen canonical pair is
  consistent: there is at least one row, the miners are strictly ascending (one score each), every score
  is within 0 and 1000000, and the root is the Merkle root of exactly these rows for the Brain.
\<close>
theorem frozen_root_commits_to_rows:
  assumes "pool_get (foldl (pool_step E bps) new_pool evs) e b = Some (mroot, rows)"
  shows "rows \<noteq> [] \<and> sorted_wrt (<) (map fst rows) \<and> (\<forall>r \<in> set rows. 0 \<le> snd r \<and> snd r \<le> 1000000)
    \<and> (\<exists>rb hashed. build_merkle_root E (map (row_leaf b) rows) = Inr (rb, hashed) \<and> mroot = hex0x rb)"
proof -
  have "pool_ok E (foldl (pool_step E bps) new_pool evs)" by (rule pool_machine.reachable_inv) simp
  with assms have "canonical_ok E b (mroot, rows)" unfolding pool_ok_def pool_get_def by fastforce
  then show ?thesis by (simp add: canonical_ok_def)
qed

text \<open>
  A canonical root is final: once frozen, every later submission returns the same root and rows and
  no run of submissions, with whatever stakes, changes them.
\<close>
theorem canonical_root_is_final:
  assumes "pool_get (foldl (pool_step E bps) new_pool evs) e b = Some fz"
  shows "pool_get (foldl (pool_step E bps) new_pool (evs @ evs')) e b = Some fz
    \<and> snd (pool_add E bps cv (foldl (pool_step E bps) new_pool (evs @ evs')) e b signer scores) = Inr (Some fz)"
proof -
  let ?s = "foldl (pool_step E bps) new_pool evs" and ?R = "\<lambda>s t. dict_get (frozen s) \<subseteq>\<^sub>m dict_get (frozen t)"
  have step: "?R s (pool_step E bps s ev)" for s ev
    by (cases ev) (simp add: pool_add_frozen_le)
  have "?R ?s (foldl (pool_step E bps) ?s evs')"
    by (rule pool_machine.mono_run [of E])
      (auto simp: step reflp_def transp_def pool_machine.reachable_inv intro: map_le_trans)
  with assms have "pool_get (foldl (pool_step E bps) new_pool (evs @ evs')) e b = Some fz"
    by (simp add: pool_get_def map_le_Some)
  then show ?thesis by (simp add: pool_get_def pool_add_def)
qed

text \<open>
  C7. What a freezing submission computes: the recorded contributors hold the quorum; exactly the miners
  scored by contributors whose stake reaches the quorum get a row; and each row's score is the lower
  stake-weighted median of their scores for that miner.
\<close>
theorem freeze_takes_weighted_medians:
  assumes "pool_add E bps cv s e b signer scores = (s', Inr (Some (mroot, rows)))"
    and "pool_get s e b = None" and "0 \<le> total_stake cv b" and "0 < bps"
  shows "\<exists>cs. dict_get (contributions s') (e, b) = Some cs
    \<and> pool_need cv bps b \<le> contributed_stake cv b cs
    \<and> (\<forall>m. (\<exists>x. (m, x) \<in> set rows) = (pool_need cv bps b \<le> support cv b cs m (\<lambda>_. True)))
    \<and> (\<forall>(m, x) \<in> set rows. support cv b cs m (\<lambda>_. True) \<le> 2 * support cv b cs m (\<lambda>s. s \<le> x)
          \<and> 2 * support cv b cs m (\<lambda>s. s < x) < support cv b cs m (\<lambda>_. True))"
proof (cases rule: pool_add_cases [of s e b E bps cv signer scores])
  case (recorded a c cs s1)
  let ?need = "pool_need cv bps b"
  have q: "?need \<le> contributed_stake cv b cs" and fz: "freeze E s1 (e, b) (canonical_rows cv b ?need cs) = (s', Inr (Some (mroot, rows)))"
    using recorded(8) assms(1) by (auto split: if_splits)
  have rows: "rows = canonical_rows cv b ?need cs" and s': "contributions s' = contributions s1"
    using fz by (cases rule: freeze_cases [of E s1 "(e, b)" "canonical_rows cv b ?need cs"]; auto)+
  have need: "1 \<le> ?need"
    using quorum_need_pos [of "total_stake cv b" bps] assms(3,4) by (auto simp: pool_need_def Let_def)
  have "dict_get (contributions s') (e, b) = Some cs"
    by (simp add: s' recorded(7) alist_dict.look_put)
  moreover have "(\<exists>x. (m, x) \<in> set rows) = (?need \<le> support cv b cs m (\<lambda>_. True))" for m
    using canonical_row_exists [OF need] median_row_Some(3) by (auto simp: rows set_canonical_rows)
  moreover have "support cv b cs m (\<lambda>_. True) \<le> 2 * support cv b cs m (\<lambda>s. s \<le> x)
      \<and> 2 * support cv b cs m (\<lambda>s. s < x) < support cv b cs m (\<lambda>_. True)" if "(m, x) \<in> set rows" for m x
    using that median_row_Some(4,5) by (auto simp: rows set_canonical_rows)
  ultimately show ?thesis using q by (intro exI [of _ cs]) auto
qed (use assms in \<open>auto simp: pool_get_def\<close>)

text \<open>
  A minority cannot move a score out of the honest range: when contributors holding more than half of
  the stake that scored a miner put it within some interval, its canonical score lies in that interval,
  whatever the others report.
\<close>
theorem median_resists_minority:
  assumes "(m, x) \<in> set (canonical_rows cv b need cs)"
    and "support cv b cs m (\<lambda>_. True) < 2 * support cv b cs m (\<lambda>s. lo \<le> s \<and> s \<le> hi)"
  shows "lo \<le> x \<and> x \<le> hi"
proof -
  have row: "median_row cv b need cs m = Some (m, x)" using assms(1) by (simp add: set_canonical_rows)
  note med = median_row_Some(4,5) [OF row]
  have "False" if "x < lo"
  proof -
    have "support cv b cs m (\<lambda>s. s \<le> x) + support cv b cs m (\<lambda>s. lo \<le> s \<and> s \<le> hi)
        \<le> support cv b cs m (\<lambda>_. True)"
      using that by (intro support_disjoint) auto
    with med assms(2) show False by linarith
  qed
  moreover have "False" if "hi < x"
  proof -
    have "support cv b cs m (\<lambda>s. lo \<le> s \<and> s \<le> hi) \<le> support cv b cs m (\<lambda>s. s < x)"
      using that by (intro support_mono) auto
    with med assms(2) show False by linarith
  qed
  ultimately show ?thesis by force
qed

text \<open>
  The canonical rows do not depend on the order in which the validators submitted: permuting the
  contributors leaves the rows, and so the root all validators sign, as they were.
\<close>
theorem rows_ignore_submission_order:
  assumes "mset cs = mset cs'"
  shows "canonical_rows cv b need cs = canonical_rows cv b need cs'
    \<and> contributed_stake cv b cs = contributed_stake cv b cs'"
proof -
  have "weighted_votes cv b cs m = weighted_votes cv b cs' m" for m
  proof -
    have "mset (concat (map (votes_of cv b m) cs)) = mset (concat (map (votes_of cv b m) cs'))"
      using assms by (metis mset_concat mset_map sum_mset_sum_list)
    then show ?thesis
      unfolding weighted_votes_def by (intro properties_for_sort) simp_all
  qed
  then have "median_row cv b need cs = median_row cv b need cs'"
    by (simp add: median_row_def fun_eq_iff)
  moreover have "scored_miners cs = scored_miners cs'"
  proof -
    have "set (concat (map (\<lambda>(_, c). dict_keys c) cs)) = set (concat (map (\<lambda>(_, c). dict_keys c) cs'))"
      using mset_eq_setD [OF assms] by auto
    then show ?thesis
      unfolding scored_miners_def
      by (metis set_remdups sorted_list_of_set_sort_remdups)
  qed
  ultimately have "canonical_rows cv b need cs = canonical_rows cv b need cs'"
    by (simp add: canonical_rows_def)
  moreover have "contributed_stake cv b cs = contributed_stake cv b cs'"
    unfolding contributed_stake_def using assms by (intro sum_list_mset_cong) simp
  ultimately show ?thesis by simp
qed

text \<open>
  A refused candidate is dropped or kept depending on where it fails: without stake, with a malformed
  or out-of-range row or with no rows the pool is unchanged; once it is recorded, a submission that
  still raises has left its scores among the contributors although the caller sees an error.
\<close>
theorem refused_candidate_may_be_recorded:
  assumes "pool_add E bps cv s e b signer scores = (s', Inl err)"
  shows "(stake_of cv b signer \<le> 0 \<or> (\<exists>er. normalize_rows E [] scores = Inl er)
            \<or> normalize_rows E [] scores = Inr [] \<longrightarrow> s' = s)
    \<and> (0 < stake_of cv b signer \<and> normalize_rows E [] scores = Inr c \<and> c \<noteq> [] \<and> checksum E signer = Inr a
       \<longrightarrow> frozen s' = frozen s
         \<and> dict_get (contributions s') (e, b) = Some (dict_set a c (dict_get_or (contributions s) (e, b) [])))"
proof (cases rule: pool_add_cases [of s e b E bps cv signer scores])
  case (rejected er)
  then show ?thesis using assms by auto
next
  case (bad_signer er c')
  then show ?thesis using assms by auto
next
  case (recorded a' c' cs s1)
  let ?rows = "canonical_rows cv b (pool_need cv bps b) cs"
  have "s' = s1"
    using recorded(8) assms by (cases rule: freeze_cases [of E s1 "(e, b)" ?rows]) (auto split: if_splits)
  with recorded show ?thesis by (auto simp: alist_dict.look_put)
qed (use assms in simp)

section \<open>Concrete runs\<close>

definition demo_row :: "byte \<Rightarrow> int \<Rightarrow> json" where
  "demo_row m x = JObj [(lit ''miner'', JStr (hex0x [m])), (lit ''score'', JInt x)]"

lemma demo_row_keys [simp]:
  "jkey (demo_row m x) (lit ''miner'') = Inr (JStr (hex0x [m]))"
  "jkey (demo_row m x) (lit ''score'') = Inr (JInt x)"
  by (simp_all add: demo_row_def)

abbreviation demo_pool_run :: "pool_event list" where
  "demo_pool_run \<equiv> [PoolAdd demo_view 1 8 (hex0x [1]) [demo_row 7 700000],
                     PoolAdd demo_view 1 8 (hex0x [2]) [demo_row 7 500000]]"

abbreviation demo_contributors :: "(pystr, score_map) dict" where
  "demo_contributors \<equiv> [(hex0x [1], [(hex0x [7], 700000)]), (hex0x [2], [(hex0x [7], 500000)])]"

abbreviation demo_fz :: canonical where
  "demo_fz \<equiv> (hex0x (demo_hash 47), [(hex0x [7], 500000)])"

lemma demo_first_candidate:
  "pool_add demo_eth 5001 demo_view new_pool 1 8 (hex0x [1]) [demo_row 7 700000] =
     (\<lparr>contributions = [((1, 8), [(hex0x [1], [(hex0x [7], 700000)])])], frozen = []\<rparr>, Inr None)"
  by (simp add: pool_add_def new_pool_def Let_def setdefault_def contributed_stake_def pool_need_def
      quorum_need_def)

lemma demo_rows: "canonical_rows demo_view 8 5001 demo_contributors = [(hex0x [7], 500000)]"
proof -
  have "sort [(700000 :: int, 3000 :: int), (500000, 3000)] = [(500000, 3000), (700000, 3000)]"
    by (simp add: less_eq_prod_def)
  then have "weighted_votes demo_view 8 demo_contributors (hex0x [7]) = [(500000, 3000), (700000, 3000)]"
    by (simp add: weighted_votes_def votes_of_def)
  then show ?thesis
    by (simp add: canonical_rows_def scored_miners_def median_row_def List.map_filter_simps)
qed

lemma demo_row_root:
  "build_merkle_root demo_eth (map (row_leaf 8) [(hex0x [7], 500000)]) = Inr (demo_hash 47, [demo_hash 47])"
  by (simp add: build_merkle_root_def sorted_hashes_def leaf_hash_def row_leaf_def climb_stop)

lemma demo_second_candidate:
  "pool_add demo_eth 5001 demo_view
     \<lparr>contributions = [((1, 8), [(hex0x [1], [(hex0x [7], 700000)])])], frozen = []\<rparr>
     1 8 (hex0x [2]) [demo_row 7 500000] =
     (\<lparr>contributions = [((1, 8), demo_contributors)], frozen = [((1, 8), demo_fz)]\<rparr>, Inr (Some demo_fz))"
  using demo_row_root
  by (simp add: pool_add_def Let_def setdefault_def contributed_stake_def pool_need_def
      quorum_need_def demo_rows freeze_def flip: hex0x_def)

lemma demo_pool_reached:
  "foldl (pool_step demo_eth 5001) new_pool demo_pool_run =
     \<lparr>contributions = [((1, 8), demo_contributors)], frozen = [((1, 8), demo_fz)]\<rparr>"
  by (simp add: demo_first_candidate demo_second_candidate)

lemma demo_pool_get: "pool_get (foldl (pool_step demo_eth 5001) new_pool demo_pool_run) 1 8 = Some demo_fz"
  by (simp only: demo_pool_reached) (simp add: pool_get_def)

theorem frozen_root_commits_to_rows_witness:
  "\<exists>rb hashed. build_merkle_root demo_eth (map (row_leaf 8) [(hex0x [7], 500000)]) = Inr (rb, hashed)
     \<and> hex0x (demo_hash 47) = hex0x rb"
  using frozen_root_commits_to_rows [OF demo_pool_get] by blast

theorem canonical_root_is_final_witness:
  "pool_get (foldl (pool_step demo_eth 5001) new_pool
     (demo_pool_run @ [PoolAdd demo_view 1 8 (hex0x [1]) [demo_row 7 1]])) 1 8 = Some demo_fz"
  using canonical_root_is_final [OF demo_pool_get] by blast

theorem freeze_takes_weighted_medians_witness:
  "\<exists>cs. dict_get [((1 :: int, 8 :: int), demo_contributors)] (1, 8) = Some cs
    \<and> pool_need demo_view 5001 8 \<le> contributed_stake demo_view 8 cs
    \<and> (\<forall>m. (\<exists>x. (m, x) \<in> set [(hex0x [7], 500000)])
            = (pool_need demo_view 5001 8 \<le> support demo_view 8 cs m (\<lambda>_. True)))"
proof -
  let ?s = "\<lparr>contributions = [((1 :: int, 8 :: int), [(hex0x [1], [(hex0x [7], 700000)])])], frozen = []\<rparr> :: pool_state"
  have "pool_get ?s 1 8 = None" by (simp add: pool_get_def)
  from freeze_takes_weighted_medians [OF demo_second_candidate this] show ?thesis by auto
qed

abbreviation demo_three :: "(pystr, score_map) dict" where
  "demo_three \<equiv> (hex0x [3], [(hex0x [7], 0)]) # demo_contributors"

abbreviation demo_even_view :: chain_view where
  "demo_even_view \<equiv> demo_view\<lparr>stake_of := \<lambda>_ _. 3000\<rparr>"

theorem median_resists_minority_witness:
  "(500000 :: int) \<le> 500000 \<and> (500000 :: int) \<le> 700000 \<and>
   support demo_even_view 8 demo_three (hex0x [7]) (\<lambda>_. True) = 9000"
proof -
  have "sort [(0 :: int, 3000 :: int), (700000, 3000), (500000, 3000)] = [(0, 3000), (500000, 3000), (700000, 3000)]"
    by (simp add: less_eq_prod_def)
  then have "weighted_votes demo_even_view 8 demo_three (hex0x [7]) = [(0, 3000), (500000, 3000), (700000, 3000)]"
    by (simp add: weighted_votes_def votes_of_def)
  then have "(hex0x [7], 500000) \<in> set (canonical_rows demo_even_view 8 5001 demo_three)"
    by (simp add: canonical_rows_def scored_miners_def median_row_def List.map_filter_simps)
  from median_resists_minority [OF this, of 500000 700000] show ?thesis
    by (simp add: support_def)
qed

theorem rows_ignore_submission_order_witness:
  "canonical_rows demo_view 8 5001 (rev demo_contributors) = [(hex0x [7], 500000)]"
  using rows_ignore_submission_order [of demo_contributors "rev demo_contributors" demo_view 8 5001] demo_rows
  by (simp add: add_mset_commute)

lemma demo_no_coverage:
  "pool_add demo_eth 5001 demo_view
     \<lparr>contributions = [((1, 8), [(hex0x [1], [(hex0x [7], 700000)])])], frozen = []\<rparr>
     1 8 (hex0x [2]) [demo_row 9 500000] =
     (\<lparr>contributions = [((1, 8), [(hex0x [1], [(hex0x [7], 700000)]), (hex0x [2], [(hex0x [9], 500000)])])],
       frozen = []\<rparr>, Inl ValueError)"
proof -
  let ?cs = "[(hex0x [1], [(hex0x [7], 700000)]), (hex0x [2], [(hex0x [9], 500000)])]"
  have "median_row demo_view 8 5001 ?cs m = None" for m
    by (simp add: median_row_def weighted_votes_def votes_of_def)
  then have "canonical_rows demo_view 8 5001 ?cs = []"
    by (simp add: canonical_rows_def List.map_filter_def)
  then show ?thesis
    by (simp add: pool_add_def Let_def setdefault_def contributed_stake_def pool_need_def
        quorum_need_def freeze_def)
qed

theorem refused_candidate_may_be_recorded_witness:
  "dict_get [((1 :: int, 8 :: int), [(hex0x [1], [(hex0x [7], 700000 :: int)]), (hex0x [2], [(hex0x [9], 500000)])])] (1, 8)
     = Some [(hex0x [1], [(hex0x [7], 700000)]), (hex0x [2], [(hex0x [9], 500000)])]"
  using refused_candidate_may_be_recorded [OF demo_no_coverage, of "[(hex0x [9], 500000)]" "hex0x [2]"]
  by simp

end
