(* ===== verification/Service.thy ===== *)
theory Service imports Candidates
begin

text \<open>
  \<open>make_aggregator_app\<close> of \<open>validator/src/basedai_validator/service.py\<close>: the HTTP handlers around the
  aggregator and the candidate pool. A handler takes the decoded body (\<open>None\<close> when it is not JSON)
  and returns the new state with a status and a JSON body, or the exception that escapes it and that
  the framework answers with status 500. The chain view and the current epoch are those of the
  moment of the request.
\<close>

section \<open>The code\<close>

type_synonym response = "nat \<times> json"

definition error_response :: "nat \<Rightarrow> string \<Rightarrow> response" where
  "error_response status msg = (status, JObj [(lit ''error'', JStr (lit msg))])"

record service_config =
  agg_cfg :: agg_config
  pool_bps :: int
  text_of :: "json \<Rightarrow> pystr"

record service_state =
  agg :: agg_state
  pool :: "pool_state option"

definition request_json :: "json option \<Rightarrow> json res" where
  "request_json body = (case body of None \<Rightarrow> Inl ValueError | Some j \<Rightarrow> Inr j)"

definition field_int :: "json \<Rightarrow> string \<Rightarrow> int res" where
  "field_int j k = rbind (jkey j (lit k)) py_int"

definition field_str :: "(json \<Rightarrow> pystr) \<Rightarrow> json \<Rightarrow> string \<Rightarrow> pystr res" where
  "field_str rep j k = rbind (jkey j (lit k)) (\<lambda>v. Inr (py_str rep v))"

definition submitted_leaf :: "(json \<Rightarrow> pystr) \<Rightarrow> int \<Rightarrow> json \<Rightarrow> score_leaf res" where
  "submitted_leaf rep brain_id r =
     rbind (field_str rep r ''miner'') (\<lambda>m.
     rbind (field_int r ''score'') (\<lambda>x.
       Inr \<lparr>leaf_brain_id = brain_id, leaf_miner = m, leaf_score = x\<rparr>))"

text \<open>The part of \<open>submit_candidate\<close> before \<open>candidates.add\<close>: the fields and the recovered signer.\<close>

definition read_candidate ::
    "ethlib \<Rightarrow> service_config \<Rightarrow> json option \<Rightarrow> (int \<times> int \<times> pystr \<times> json list \<times> pystr) res" where
  "read_candidate E cfg request =
     rbind (request_json request) (\<lambda>body.
     rbind (field_int body ''epoch'') (\<lambda>epoch.
     rbind (field_int body ''brain_id'') (\<lambda>brain_id.
     rbind (field_str (text_of cfg) body ''signer'') (\<lambda>signer.
     rbind (rbind (jkey body (lit ''scores'')) py_list) (\<lambda>scores.
     rbind (field_str (text_of cfg) body ''signature'') (\<lambda>signature.
     rbind (map_res (submitted_leaf (text_of cfg) brain_id) scores) (\<lambda>leaves.
     rbind (build_merkle_root E leaves) (\<lambda>(own_root, _).
     rbind (recover_commitment_signer E (chain_id (agg_cfg cfg)) (scoring_registry (agg_cfg cfg))
              epoch brain_id (RBytes own_root) signature) (\<lambda>recovered.
       Inr (epoch, brain_id, signer, scores, recovered))))))))))"

definition rows_json :: "(pystr \<times> int) list \<Rightarrow> json" where
  "rows_json rows =
     JList (map (\<lambda>(m, x). JObj [(lit ''miner'', JStr m), (lit ''score'', JInt x)]) rows)"

definition candidate_response :: "canonical option \<Rightarrow> response" where
  "candidate_response fz =
     (200, JObj ([(lit ''ok'', JBool True), (lit ''canonical'', JBool (fz \<noteq> None))]
        @ (case fz of None \<Rightarrow> []
           | Some (mroot, rows) \<Rightarrow> [(lit ''root'', JStr mroot), (lit ''scores'', rows_json rows)])))"

definition submit_candidate ::
    "ethlib \<Rightarrow> service_config \<Rightarrow> chain_view \<Rightarrow> service_state \<Rightarrow> json option \<Rightarrow> service_state \<times> response res"
where
  "submit_candidate E cfg cv s request =
     (case pool s of
        None \<Rightarrow> (s, Inr (error_response 503 ''candidate aggregation not configured''))
      | Some p \<Rightarrow>
          (case read_candidate E cfg request of
             Inl e \<Rightarrow> (s, if is_malformed e then Inr (error_response 400 ''malformed candidate'') else Inl e)
           | Inr (epoch, brain_id, signer, scores, recovered) \<Rightarrow>
               if lower recovered \<noteq> lower signer
               then (s, Inr (error_response 401 ''candidate signature mismatch''))
               else
                 (case pool_add E (pool_bps cfg) cv p epoch brain_id signer scores of
                    (p', Inl e) \<Rightarrow>
                      (s\<lparr>pool := Some p'\<rparr>,
                       if is_malformed e then Inr (error_response 400 ''malformed candidate'') else Inl e)
                  | (p', Inr fz) \<Rightarrow> (s\<lparr>pool := Some p'\<rparr>, Inr (candidate_response fz)))))"

definition get_candidate :: "service_state \<Rightarrow> pystr \<Rightarrow> pystr \<Rightarrow> response res" where
  "get_candidate s epoch_text brain_text =
     (case pool s of
        None \<Rightarrow> Inr (error_response 503 ''candidate aggregation not configured'')
      | Some p \<Rightarrow>
          rbind (py_int_text 10 epoch_text) (\<lambda>epoch.
          rbind (py_int_text 10 brain_text) (\<lambda>brain_id.
            Inr (case pool_get p epoch brain_id of
                   None \<Rightarrow> (202, JObj [(lit ''canonical'', JBool False)])
                 | Some (mroot, rows) \<Rightarrow>
                     (200, JObj [(lit ''canonical'', JBool True), (lit ''root'', JStr mroot),
                                 (lit ''scores'', rows_json rows)])))))"

definition read_commitment ::
    "service_config \<Rightarrow> json option \<Rightarrow> (int \<times> int \<times> pystr \<times> pystr \<times> pystr) res" where
  "read_commitment cfg request =
     rbind (request_json request) (\<lambda>body.
     rbind (field_int body ''epoch'') (\<lambda>epoch.
     rbind (field_int body ''brain_id'') (\<lambda>brain_id.
     rbind (field_str (text_of cfg) body ''root'') (\<lambda>r.
     rbind (field_str (text_of cfg) body ''signer'') (\<lambda>signer.
     rbind (field_str (text_of cfg) body ''signature'') (\<lambda>signature.
       Inr (epoch, brain_id, r, signer, signature)))))))"

definition commitment_response :: "bool \<Rightarrow> pystr option \<Rightarrow> response" where
  "commitment_response quorum tx =
     (200, JObj ([(lit ''ok'', JBool True), (lit ''quorum_met'', JBool quorum)]
        @ (case tx of None \<Rightarrow> [] | Some t \<Rightarrow> if t \<noteq> [] then [(lit ''proposed_tx'', JStr t)] else [])))"

text \<open>
  \<open>commitments\<close>. The current epoch is \<open>None\<close> when no \<open>current_epoch_fn\<close> is configured, and may
  itself fail. The second component is the call made to \<open>propose_fn\<close>, if any.
\<close>

definition commitments ::
    "ethlib \<Rightarrow> service_config \<Rightarrow> chain_view \<Rightarrow> int res option \<Rightarrow> service_state \<Rightarrow> json option
       \<Rightarrow> service_state \<times> proposal option \<times> response res" where
  "commitments E cfg cv current_epoch s request =
     (case read_commitment cfg request of
        Inl e \<Rightarrow> (s, None, if is_malformed e then Inr (error_response 400 ''malformed commitment'') else Inl e)
      | Inr (epoch, brain_id, r, signer, signature) \<Rightarrow>
          (case add_commitment E (agg_cfg cfg) (agg s) epoch brain_id (RStr r) signer signature of
             (a, Inl e) \<Rightarrow> (s\<lparr>agg := a\<rparr>, None, Inl e)
           | (a, Inr False) \<Rightarrow>
               (s\<lparr>agg := a\<rparr>, None, Inr (error_response 401 ''signature does not match signer''))
           | (a, Inr True) \<Rightarrow>
               (let completed = (case current_epoch of None \<Rightarrow> Inr True | Some c \<Rightarrow> rbind c (\<lambda>n. Inr (epoch < n)))
                in case completed of
                     Inl e \<Rightarrow> (s\<lparr>agg := a\<rparr>, None, Inl e)
                   | Inr go \<Rightarrow>
                       (let (a', call, tx) = (if go then try_propose (agg_cfg cfg) cv a epoch brain_id else (a, None, Inr None));
                            proposed_tx = (case tx of Inl _ \<Rightarrow> None | Inr t \<Rightarrow> t)
                        in (s\<lparr>agg := a'\<rparr>, call,
                            Inr (commitment_response (quorum_met (agg_cfg cfg) cv a' epoch brain_id (RStr r))
                                   proposed_tx))))))"

definition health :: response where
  "health = (200, JObj [(lit ''ok'', JBool True)])"

section \<open>The service as an event machine\<close>

datatype service_event =
    PostCandidate chain_view "json option"
  | PostCommitment chain_view "int res option" "json option"
  | GetCandidate pystr pystr
  | GetHealth

fun service_step ::
    "ethlib \<Rightarrow> service_config \<Rightarrow> service_state \<times> agg_log \<Rightarrow> service_event \<Rightarrow> service_state \<times> agg_log" where
  "service_step E cfg (s, calls) (PostCandidate cv request) =
     (fst (submit_candidate E cfg cv s request), calls)"
| "service_step E cfg (s, calls) (PostCommitment cv current_epoch request) =
     (case commitments E cfg cv current_epoch s request of (s', call, _) \<Rightarrow>
        (s', calls @ (case call of None \<Rightarrow> [] | Some c \<Rightarrow> [(c, propose_fn cv c)])))"
| "service_step E cfg (s, calls) (GetCandidate e b) = (s, calls)"
| "service_step E cfg (s, calls) GetHealth = (s, calls)"

definition service_ok :: "ethlib \<Rightarrow> service_config \<Rightarrow> service_state \<times> agg_log \<Rightarrow> bool" where
  "service_ok E cfg x \<longleftrightarrow> (case x of (s, calls) \<Rightarrow>
     agg_ok E (agg_cfg cfg) (agg s) \<and> log_ok (agg s) calls
     \<and> (case pool s of None \<Rightarrow> True | Some p \<Rightarrow> pool_ok E p))"

text \<open>A request changes the two parts only through the operations of their own machines.\<close>

lemma submit_candidate_cases:
  obtains (same) r where "submit_candidate E cfg cv s request = (s, r)"
  | (added) p e b signer scores recovered where "pool s = Some p"
      "read_candidate E cfg request = Inr (e, b, signer, scores, recovered)" "lower recovered = lower signer"
      "fst (submit_candidate E cfg cv s request) =
         s\<lparr>pool := Some (fst (pool_add E (pool_bps cfg) cv p e b signer scores))\<rparr>"
      "snd (submit_candidate E cfg cv s request) =
         (case snd (pool_add E (pool_bps cfg) cv p e b signer scores) of
            Inl er \<Rightarrow> if is_malformed er then Inr (error_response 400 ''malformed candidate'') else Inl er
          | Inr fz \<Rightarrow> Inr (candidate_response fz))"
proof (cases "pool s")
  case (Some p)
  show ?thesis
  proof (cases "read_candidate E cfg request")
    case (Inr x)
    obtain e b signer scores recovered where x: "x = (e, b, signer, scores, recovered)" by (cases x)
    show ?thesis
    proof (cases "lower recovered = lower signer")
      case True
      with Some Inr x show ?thesis
        by (intro added [OF Some _ True])
          (auto simp: submit_candidate_def split: prod.splits sum.splits)
    qed (use Some Inr x in \<open>intro same; simp add: submit_candidate_def\<close>)
  qed (use Some in \<open>intro same; simp add: submit_candidate_def\<close>)
qed (intro same, simp add: submit_candidate_def)

lemma commitments_cases:
  obtains (silent) r where "commitments E cfg cv ce s request = (s, None, r)"
  | (stored) e b k signer sig r where "read_commitment cfg request = Inr (e, b, k, signer, sig)"
      "commitments E cfg cv ce s request =
         (s\<lparr>agg := fst (add_commitment E (agg_cfg cfg) (agg s) e b (RStr k) signer sig)\<rparr>, None, r)"
  | (tried) e b k signer sig a a' call tx where "read_commitment cfg request = Inr (e, b, k, signer, sig)"
      "add_commitment E (agg_cfg cfg) (agg s) e b (RStr k) signer sig = (a, Inr True)"
      "try_propose (agg_cfg cfg) cv a e b = (a', call, tx)"
      "ce = None \<or> (\<exists>n. ce = Some (Inr n) \<and> e < n)"
      "commitments E cfg cv ce s request = (s\<lparr>agg := a'\<rparr>, call,
         Inr (commitment_response (quorum_met (agg_cfg cfg) cv a' e b (RStr k))
           (case tx of Inl _ \<Rightarrow> None | Inr t \<Rightarrow> t)))"
proof (cases "read_commitment cfg request")
  case (Inr x)
  obtain e b k signer sig where x: "x = (e, b, k, signer, sig)" by (cases x)
  obtain a ok where add: "add_commitment E (agg_cfg cfg) (agg s) e b (RStr k) signer sig = (a, ok)"
    by (cases "add_commitment E (agg_cfg cfg) (agg s) e b (RStr k) signer sig")
  obtain a' call tx where tp: "try_propose (agg_cfg cfg) cv a e b = (a', call, tx)"
    by (cases "try_propose (agg_cfg cfg) cv a e b")
  show ?thesis
  proof (cases "ok = Inr True \<and> (ce = None \<or> (\<exists>n. ce = Some (Inr n) \<and> e < n))")
    case True
    with Inr x add tp show ?thesis
      by (intro tried [of e b k signer sig a a' call tx]) (auto simp: commitments_def)
  next
    case False
    have "\<exists>r. commitments E cfg cv ce s request = (s\<lparr>agg := a\<rparr>, None, r)"
    proof (cases "ok = Inr True")
      case True
      with False obtain c where "ce = Some c" and "\<And>n. c = Inr n \<Longrightarrow> \<not> e < n" by (cases ce) auto
      with True Inr x add show ?thesis by (cases c) (auto simp: commitments_def)
    qed (use Inr x add in \<open>auto simp: commitments_def split: sum.splits bool.splits\<close>)
    then show ?thesis using Inr x add by (auto intro: stored)
  qed
qed (intro silent, simp add: commitments_def)

lemma agg_log_step:
  assumes "agg_ok E cfg s" and "log_ok s calls"
  shows "agg_ok E cfg (fst (agg_step E cfg (s, calls) ev))"
    "log_ok (fst (agg_step E cfg (s, calls) ev)) (snd (agg_step E cfg (s, calls) ev))"
proof -
  obtain s' calls' where step: "agg_step E cfg (s, calls) ev = (s', calls')" by (cases "agg_step E cfg (s, calls) ev")
  from agg_step_ok [OF assms(1) step] agg_step_log_ok [OF assms(2) step] step
  show "agg_ok E cfg (fst (agg_step E cfg (s, calls) ev))"
    "log_ok (fst (agg_step E cfg (s, calls) ev)) (snd (agg_step E cfg (s, calls) ev))"
    by simp_all
qed

lemma service_ok_step:
  assumes "service_ok E cfg x"
  shows "service_ok E cfg (service_step E cfg x ev)"
proof -
  obtain s calls where x: "x = (s, calls)" by (cases x)
  have ok: "agg_ok E (agg_cfg cfg) (agg s)" "log_ok (agg s) calls"
    and pool: "\<And>p. pool s = Some p \<Longrightarrow> pool_ok E p"
    using assms x by (auto simp: service_ok_def)
  note step = agg_log_step [OF ok]
  show ?thesis
  proof (cases ev)
    case (PostCandidate cv request)
    show ?thesis
    proof (cases rule: submit_candidate_cases [where E = E and cfg = cfg and cv = cv and s = s and request = request])
      case (added p e b signer scores recovered)
      with ok PostCandidate x show ?thesis
        by (simp add: service_ok_def pool_add_ok pool)
    qed (use assms x PostCandidate in simp)
  next
    case (PostCommitment cv ce request)
    show ?thesis
    proof (cases rule: commitments_cases [where E = E and cfg = cfg and cv = cv and ce = ce and s = s and request = request])
      case (stored e b k signer sig r)
      with step [of "AddCommitment e b (RStr k) signer sig"] pool PostCommitment x show ?thesis
        by (auto simp: service_ok_def split: option.splits)
    next
      case (tried e b k signer sig a a' call tx)
      have a: "agg_ok E (agg_cfg cfg) a" "log_ok a calls"
        using step [of "AddCommitment e b (RStr k) signer sig"] tried(2) by simp_all
      from agg_log_step [OF a, of "TryPropose cv e b"] tried pool PostCommitment x show ?thesis
        by (auto simp: service_ok_def split: option.splits)
    qed (use assms x PostCommitment in simp)
  qed (use assms x in simp_all)
qed

definition new_service :: "bool \<Rightarrow> service_state" where
  "new_service with_pool = \<lparr>agg = new_aggregator, pool = if with_pool then Some new_pool else None\<rparr>"

interpretation service_machine: event_machine "service_step E cfg" "\<lambda>x. \<exists>p. x = (new_service p, [])"
    "service_ok E cfg" for E cfg
proof
  fix x ev
  assume "service_ok E cfg x"
  then show "service_ok E cfg (service_step E cfg x ev)" by (rule service_ok_step)
next
  fix x :: "service_state \<times> agg_log"
  assume "\<exists>p. x = (new_service p, [])"
  moreover have "log_ok new_aggregator []" by (simp add: log_ok_def accepted_def new_aggregator_def)
  ultimately show "service_ok E cfg x"
    by (auto simp: service_ok_def new_service_def agg_ok_new pool_ok_new)
qed

section \<open>Properties\<close>

lemma submit_candidate_agg: "agg (fst (submit_candidate E cfg cv s request)) = agg s"
  by (cases rule: submit_candidate_cases [where E = E and cfg = cfg and cv = cv and s = s and request = request]) simp_all

text \<open>
  Only authenticated scores reach the pool: a request changes the state only when its signature
  recovers, over the Merkle root of exactly the scores it carries and its own epoch and Brain, to the
  claimed signer; and then it changes nothing but that epoch and Brain's entries in the pool.
\<close>
theorem candidate_needs_matching_signature:
  assumes "submit_candidate E cfg cv s request = (s', r)" and "s' \<noteq> s"
  shows "\<exists>body p epoch b signer scores sig leaves rb hashed recovered.
      request = Some body \<and> pool s = Some p
    \<and> field_int body ''epoch'' = Inr epoch \<and> field_int body ''brain_id'' = Inr b
    \<and> field_str (text_of cfg) body ''signer'' = Inr signer \<and> field_str (text_of cfg) body ''signature'' = Inr sig
    \<and> rbind (jkey body (lit ''scores'')) py_list = Inr scores
    \<and> map_res (submitted_leaf (text_of cfg) b) scores = Inr leaves
    \<and> build_merkle_root E leaves = Inr (rb, hashed)
    \<and> recover_commitment_signer E (chain_id (agg_cfg cfg)) (scoring_registry (agg_cfg cfg)) epoch b (RBytes rb) sig
        = Inr recovered
    \<and> lower recovered = lower signer
    \<and> s' = s\<lparr>pool := Some (fst (pool_add E (pool_bps cfg) cv p epoch b signer scores))\<rparr>"
proof (cases rule: submit_candidate_cases [where E = E and cfg = cfg and cv = cv and s = s and request = request])
  case (added p epoch b signer scores recovered)
  obtain body where "request = Some body" "request_json request = Inr body"
    using added(2) by (cases request) (auto simp: read_candidate_def request_json_def)
  with added assms(1) show ?thesis
    unfolding read_candidate_def by (auto split: prod.splits)
qed (use assms in simp)

text \<open>The body of a commitment to the root \<open>rb\<close>, as a third party can assemble it.\<close>

definition commitment_body :: "int \<Rightarrow> int \<Rightarrow> bytes \<Rightarrow> pystr \<Rightarrow> pystr \<Rightarrow> json" where
  "commitment_body epoch b rb signer sig =
     JObj [(lit ''epoch'', JInt epoch), (lit ''brain_id'', JInt b), (lit ''root'', JStr (hex0x rb)),
           (lit ''signer'', JStr signer), (lit ''signature'', JStr sig)]"

lemma read_commitment_body [simp]:
  "read_commitment cfg (Some (commitment_body epoch b rb signer sig)) =
     Inr (epoch, b, hex0x rb, signer, sig)"
  by (simp add: read_commitment_def request_json_def commitment_body_def field_int_def field_str_def)

lemma recover_hex_root:
  "recover_commitment_signer E c reg e b (RStr (hex0x rb)) sig =
   recover_commitment_signer E c reg e b (RBytes rb) sig"
  by (simp add: recover_commitment_signer_def commitment_digest_def)

text \<open>
  A candidate's signature is a commitment: the digest signed to authenticate a candidate is the one an
  epoch commitment to the validator's own root signs, so whoever sees an authenticated candidate can
  post that signature to the commitments route, where it is accepted (status 200) and counted as that
  validator's commitment to the uncombined root.
\<close>
theorem candidate_signature_is_a_commitment:
  assumes "recover_commitment_signer E (chain_id (agg_cfg cfg)) (scoring_registry (agg_cfg cfg)) epoch b
             (RBytes own_root) sig = Inr recovered"
    and "lower recovered = lower signer" and "checksum E recovered = Inr a"
  shows "\<exists>s' call j. commitments E cfg cv None s (Some (commitment_body epoch b own_root signer sig))
            = (s', call, Inr (200, j))
          \<and> dict_get (signers_for (agg s') epoch b (RBytes own_root)) a = Some (with_0x sig)"
proof -
  let ?body = "Some (commitment_body epoch b own_root signer sig)"
  obtain st where add: "add_commitment E (agg_cfg cfg) (agg s) epoch b (RStr (hex0x own_root)) signer sig = (st, Inr True)"
    and st: "dict_get (signers_for st epoch b (RBytes own_root)) a = Some (with_0x sig)"
    using assms
    by (simp add: add_commitment_def recover_hex_root Let_def signers_for_def alist_dict.look_put
        hex0x_def [symmetric])
  obtain st' call tx where tp: "try_propose (agg_cfg cfg) cv st epoch b = (st', call, tx)"
    by (cases "try_propose (agg_cfg cfg) cv st epoch b")
  have "pending st' = pending st" using try_propose_pending [of "agg_cfg cfg" cv st epoch b] tp by simp
  with st have "dict_get (signers_for st' epoch b (RBytes own_root)) a = Some (with_0x sig)"
    by (simp add: signers_for_def)
  with add tp show ?thesis
    by (simp add: commitments_def commitment_response_def)
qed

text \<open>
  The candidate route answers 200, 400, 401 or 503; 400 exactly for the three exceptions of malformed
  input, and what escapes as a server error is never one of them.
\<close>
theorem candidate_statuses:
  "case snd (submit_candidate E cfg cv s request) of
     Inl e \<Rightarrow> \<not> is_malformed e
   | Inr (status, j) \<Rightarrow> status \<in> {200, 400, 401, 503}
       \<and> (status = 503 \<longleftrightarrow> pool s = None)
       \<and> (status = 401 \<longrightarrow> (\<exists>e b signer scores recovered.
            read_candidate E cfg request = Inr (e, b, signer, scores, recovered) \<and> lower recovered \<noteq> lower signer))"
  by (auto simp: submit_candidate_def error_response_def candidate_response_def
      split: option.splits sum.splits prod.splits)

text \<open>
  Only completed epochs are submitted, and a submission that fails does not fail the request: a call
  reaches the chain only for an epoch below the current one (or when no epoch source is configured) and
  only after the request's signature was verified and stored; the answer is then 200 whatever the
  chain did, without \<open>proposed_tx\<close> when it refused.
\<close>
theorem commitments_submit_completed_epochs:
  assumes "commitments E cfg cv current_epoch s request = (s', Some c, r)"
  shows "\<exists>epoch b k signer sig a. read_commitment cfg request = Inr (epoch, b, k, signer, sig)
    \<and> add_commitment E (agg_cfg cfg) (agg s) epoch b (RStr k) signer sig = (a, Inr True)
    \<and> (current_epoch = None \<or> (\<exists>n. current_epoch = Some (Inr n) \<and> epoch < n))
    \<and> fst c = epoch \<and> fst (snd c) = b
    \<and> r = Inr (commitment_response (quorum_met (agg_cfg cfg) cv (agg s') epoch b (RStr k))
                (case propose_fn cv c of Inl _ \<Rightarrow> None | Inr tx \<Rightarrow> Some tx))"
proof (cases rule: commitments_cases [where E = E and cfg = cfg and cv = cv and ce = current_epoch and s = s and request = request])
  case (tried epoch b k signer sig a a' call tx)
  with assms have "call = Some c" "s' = s\<lparr>agg := a'\<rparr>"
    and r: "r = Inr (commitment_response (quorum_met (agg_cfg cfg) cv a' epoch b (RStr k)) (case tx of Inl _ \<Rightarrow> None | Inr t \<Rightarrow> t))"
    by simp_all
  then have "fst c = epoch \<and> fst (snd c) = b \<and> tx = rbind (propose_fn cv c) (\<lambda>t. Inr (Some t))"
    using tried(3) by (cases rule: try_propose_cases [of "agg_cfg cfg" cv a epoch b]) auto
  with tried r \<open>s' = _\<close> show ?thesis
    by (cases "propose_fn cv c") auto
qed (use assms in simp_all)

text \<open>
  C8. Over any sequence of requests, malformed and forged ones included, with stakes, epochs and chain
  answers changing in between: at most one submission per epoch and Brain is accepted, every stored
  signature was verified for the signer it counts for, and every frozen canonical pair is a root
  over its own rows.
\<close>
theorem service_run_safe:
  assumes "foldl (service_step E cfg) (new_service wp, []) evs = (s, calls)"
  shows "distinct (map proposal_key (accepted calls))
    \<and> (\<forall>e b k sg a sig. dict_get (pending (agg s)) (e, b, k) = Some sg \<and> dict_get sg a = Some sig
         \<longrightarrow> signed_entry E (agg_cfg cfg) e b k a sig)
    \<and> (\<forall>p e b fz. pool s = Some p \<and> pool_get p e b = Some fz \<longrightarrow> canonical_ok E b fz)"
proof -
  have "service_ok E cfg (s, calls)"
    using service_machine.reachable_inv [of "(new_service wp, [])" E cfg evs] assms by auto
  then have ok: "agg_ok E (agg_cfg cfg) (agg s)" "log_ok (agg s) calls" "\<And>p. pool s = Some p \<Longrightarrow> pool_ok E p"
    by (auto simp: service_ok_def)
  have "canonical_ok E b fz" if "pool s = Some p" "pool_get p e b = Some fz" for p e b fz
    using ok(3) [OF that(1)] that(2) unfolding pool_ok_def pool_get_def by fastforce
  with ok(2) agg_ok_entry(3) [OF ok(1)] show ?thesis by (auto simp: log_ok_def)
qed

section \<open>Concrete runs\<close>

abbreviation demo_scfg :: service_config where
  "demo_scfg \<equiv> \<lparr>agg_cfg = demo_cfg, pool_bps = 5001, text_of = \<lambda>_. []\<rparr>"

definition demo_sig_for :: "bytes \<Rightarrow> byte \<Rightarrow> pystr" where
  "demo_sig_for rb x = to_hex (x #
     demo_hash (sum_list (ascii_bytes ''BasedAI:ScoringRegistry:v2'') + 241 + 171 + 1 + 8 + sum_list rb))"

lemma demo_signer_for [simp]:
  "length rb = 32 \<Longrightarrow>
   recover_commitment_signer demo_eth 57073 (hex0x [171]) 1 8 (RBytes rb) (demo_sig_for rb x) = Inr (hex0x [x])"
  by (simp add: recover_commitment_signer_def demo_digest demo_recover_def demo_sig_for_def strip_0x_def
      del: as_root_bytes.simps)

definition demo_candidate :: "byte \<Rightarrow> json" where
  "demo_candidate claimed =
     JObj [(lit ''epoch'', JInt 1), (lit ''brain_id'', JInt 8), (lit ''signer'', JStr (hex0x [claimed])),
           (lit ''scores'', JList [demo_row 7 700000]),
           (lit ''signature'', JStr (demo_sig_for (demo_hash 111) 1))]"

lemma demo_own_root:
  "build_merkle_root demo_eth [\<lparr>leaf_brain_id = 8, leaf_miner = hex0x [7], leaf_score = 700000\<rparr>]
     = Inr (demo_hash 111, [demo_hash 111])"
  by (simp add: build_merkle_root_def sorted_hashes_def leaf_hash_def climb_stop)

lemma demo_read_candidate:
  "read_candidate demo_eth demo_scfg (Some (demo_candidate claimed)) =
     Inr (1, 8, hex0x [claimed], [demo_row 7 700000], hex0x [1])"
  by (simp add: read_candidate_def request_json_def demo_candidate_def field_int_def field_str_def
      submitted_leaf_def demo_own_root)

abbreviation demo_after_candidate :: service_state where
  "demo_after_candidate \<equiv> \<lparr>agg = new_aggregator, pool = Some
     \<lparr>contributions = [((1, 8), [(hex0x [1], [(hex0x [7], 700000)])])], frozen = []\<rparr>\<rparr>"

lemma demo_submit:
  "submit_candidate demo_eth demo_scfg demo_view (new_service True) (Some (demo_candidate 1)) =
     (demo_after_candidate, Inr (candidate_response None))"
  by (simp add: submit_candidate_def demo_read_candidate new_service_def demo_first_candidate)

theorem candidate_needs_matching_signature_witness:
  "\<exists>rb sig recovered. recover_commitment_signer demo_eth 57073 (hex0x [171]) 1 8 (RBytes rb) sig = Inr recovered
     \<and> lower recovered = lower (hex0x [1])"
proof -
  have "demo_after_candidate \<noteq> new_service True" by (simp add: new_service_def new_pool_def)
  from candidate_needs_matching_signature [OF demo_submit this] show ?thesis
    by (auto simp: demo_candidate_def field_int_def field_str_def)
qed

theorem candidate_signature_is_a_commitment_witness:
  "\<exists>s' call j. commitments demo_eth demo_scfg demo_view None demo_after_candidate
        (Some (commitment_body 1 8 (demo_hash 111) (hex0x [1]) (demo_sig_for (demo_hash 111) 1)))
      = (s', call, Inr (200, j))
    \<and> dict_get (signers_for (agg s') 1 8 (RBytes (demo_hash 111))) (hex0x [1])
        = Some (with_0x (demo_sig_for (demo_hash 111) 1))"
  by (rule candidate_signature_is_a_commitment [where recovered = "hex0x [1]"]) simp_all

lemma demo_forged:
  "snd (submit_candidate demo_eth demo_scfg demo_view (new_service True) (Some (demo_candidate 2))) =
     Inr (error_response 401 ''candidate signature mismatch'')"
  by (simp add: submit_candidate_def demo_read_candidate new_service_def)

theorem candidate_statuses_witness:
  "\<exists>e b signer scores recovered.
     read_candidate demo_eth demo_scfg (Some (demo_candidate 2)) = Inr (e, b, signer, scores, recovered)
     \<and> lower recovered \<noteq> lower signer"
  using candidate_statuses [where E = demo_eth and cfg = demo_scfg and cv = demo_view
      and s = "new_service True" and request = "Some (demo_candidate 2)"]
  unfolding demo_forged by (simp add: error_response_def)

abbreviation demo_half :: agg_state where
  "demo_half \<equiv> \<lparr>pending = [((1, 8, hex0x (demo_hash 9)), [(hex0x [2], ox @ demo_sig 2)])], proposed = {}\<rparr>"

lemma demo_second_commitment:
  "add_commitment demo_eth demo_cfg demo_half 1 8 demo_root (hex0x [1]) (demo_sig 1) = (demo_reached, Inr True)"
  by (simp add: add_commitment_def Let_def setdefault_def)

abbreviation demo_post :: "byte \<Rightarrow> json option" where
  "demo_post x \<equiv> Some (commitment_body 1 8 (demo_hash 9) (hex0x [x]) (demo_sig x))"

abbreviation demo_call :: proposal where
  "demo_call \<equiv> (1, 8, demo_hash 9, [hex0x [1], hex0x [2]], [ox @ demo_sig 1, ox @ demo_sig 2])"

lemma demo_commitments:
  "commitments demo_eth demo_scfg demo_view (Some (Inr 2)) \<lparr>agg = demo_half, pool = None\<rparr> (demo_post 1) =
     (\<lparr>agg = demo_reached\<lparr>proposed := {(1, 8)}\<rparr>, pool = None\<rparr>, Some demo_call,
      Inr (commitment_response True (Some (lit ''0xtx''))))"
proof -
  have "quorum_met demo_cfg demo_view (demo_reached\<lparr>proposed := {(1, 8)}\<rparr>) 1 8 demo_root"
    by (simp add: quorum_met_iff backing_stake_def signers_for_def MIN_QUORUM_BPS_def)
  then show ?thesis
    by (simp add: commitments_def demo_second_commitment demo_proposal)
qed

theorem commitments_submit_completed_epochs_witness:
  "\<exists>epoch b k signer sig. read_commitment demo_scfg (demo_post 1) = Inr (epoch, b, k, signer, sig)
     \<and> epoch < 2 \<and> fst demo_call = epoch"
  using commitments_submit_completed_epochs [OF demo_commitments] by auto

lemma demo_service_run:
  "foldl (service_step demo_eth demo_scfg) (new_service False, [])
     [PostCommitment demo_view None (demo_post 2), PostCommitment demo_view (Some (Inr 2)) (demo_post 1)]
   = (\<lparr>agg = demo_reached\<lparr>proposed := {(1, 8)}\<rparr>, pool = None\<rparr>, [(demo_call, Inr (lit ''0xtx''))])"
proof -
  have "try_propose demo_cfg demo_view demo_half 1 8 = (demo_half, None, Inr None)"
    by (simp add: try_propose_def best_root_def epoch_roots_def quorum_met_iff backing_stake_def
        signers_for_def MIN_QUORUM_BPS_def)
  then have "service_step demo_eth demo_scfg (new_service False, []) (PostCommitment demo_view None (demo_post 2)) =
      (\<lparr>agg = demo_half, pool = None\<rparr>, [])"
    by (simp add: commitments_def demo_first_commitment new_service_def)
  then show ?thesis by (simp only: foldl.simps) (simp add: demo_commitments)
qed

theorem service_run_safe_witness:
  "distinct (map proposal_key (accepted [(demo_call, Inr (lit ''0xtx''))]))
   \<and> signed_entry demo_eth demo_cfg 1 8 (hex0x (demo_hash 9)) (hex0x [2]) (ox @ demo_sig 2)"
proof -
  note safe = service_run_safe [OF demo_service_run]
  from safe [THEN conjunct2, THEN conjunct1, rule_format, of 1 8 "hex0x (demo_hash 9)"
      "[(hex0x [2], ox @ demo_sig 2), (hex0x [1], ox @ demo_sig 1)]" "hex0x [2]" "ox @ demo_sig 2"]
  have "signed_entry demo_eth demo_cfg 1 8 (hex0x (demo_hash 9)) (hex0x [2]) (ox @ demo_sig 2)"
    by simp
  with safe show ?thesis by simp
qed

end
