(* ===== verification/Doubles.thy ===== *)
theory Doubles imports Complex_Main
begin

text \<open>
  Python's floats where the code computes with them (scores and their components): real numbers
  rounded after every operation to 53 significant bits, ties to even. The exponent is not bounded:
  every intermediate value of the scoring code is zero or lies between \<open>2\<^sup>-\<^sup>1\<^sup>0\<^sup>0\<close> and \<open>2\<^sup>1\<^sup>0\<^sup>0\<close>, far inside
  the range of a double.
\<close>

definition half_even :: "real \<Rightarrow> int" where
  "half_even x =
     (let n = \<lfloor>x\<rfloor>; f = x - of_int n
      in if f < 1 / 2 then n else if 1 / 2 < f then n + 1 else if even n then n else n + 1)"

definition binade :: "real \<Rightarrow> int" where
  "binade x = \<lfloor>log 2 x\<rfloor>"

definition ulp :: "real \<Rightarrow> real" where
  "ulp x = 2 powr of_int (binade \<bar>x\<bar> - 52)"

definition double :: "real \<Rightarrow> real" where
  "double x = (if x = 0 then 0 else of_int (half_even (x / ulp x)) * ulp x)"

text \<open>
  What the proofs about computed scores rely on: an order-preserving rounding of the non-negative
  numbers that keeps the integers a score can be.
\<close>

locale rounding =
  fixes r :: "real \<Rightarrow> real"
  assumes mono: "0 \<le> x \<Longrightarrow> x \<le> y \<Longrightarrow> r x \<le> r y"
    and exact_nat: "n < 2 ^ 53 \<Longrightarrow> r (of_nat n) = of_nat n"
begin

lemma zero: "r 0 = 0"
  using exact_nat [of 0] by simp

lemma nonneg: "0 \<le> x \<Longrightarrow> 0 \<le> r x"
  using mono [of 0 x] zero by simp

lemma between_nats: "of_nat m \<le> x \<Longrightarrow> x \<le> of_nat n \<Longrightarrow> n < 2 ^ 53 \<Longrightarrow> of_nat m \<le> r x \<and> r x \<le> of_nat n"
  using mono [of "of_nat m" x] mono [of x "of_nat n"] exact_nat [of m] exact_nat [of n]
  by (metis of_nat_0_le_iff of_nat_le_iff order.trans order.strict_trans1)

lemma unit: "0 \<le> x \<Longrightarrow> x \<le> 1 \<Longrightarrow> 0 \<le> r x \<and> r x \<le> 1"
  using between_nats [of 0 x 1] by simp

lemma floor_bounds:
  assumes "of_nat m \<le> x" and "x \<le> of_nat n" and "n < 2 ^ 53"
  shows "int m \<le> \<lfloor>r x\<rfloor> \<and> \<lfloor>r x\<rfloor> \<le> int n"
  using between_nats [OF assms] by (simp add: le_floor_iff floor_le_iff)

end

lemma half_even_int: "half_even (of_int n) = n"
  by (simp add: half_even_def)

lemma half_even_floor: "\<lfloor>x\<rfloor> \<le> half_even x \<and> half_even x \<le> \<lfloor>x\<rfloor> + 1"
  by (auto simp: half_even_def Let_def)

lemma half_even_mono:
  assumes "x \<le> y"
  shows "half_even x \<le> half_even y"
proof (cases "\<lfloor>x\<rfloor> = \<lfloor>y\<rfloor>")
  case True
  with assms show ?thesis by (auto simp: half_even_def Let_def)
next
  case False
  with assms have "\<lfloor>x\<rfloor> + 1 \<le> \<lfloor>y\<rfloor>" using floor_mono [OF assms] by linarith
  then show ?thesis using half_even_floor [of x] half_even_floor [of y] by linarith
qed

lemma binade_bounds:
  assumes "0 < x"
  shows "2 powr of_int (binade x) \<le> x" "x < 2 powr (of_int (binade x) + 1)"
  using floor_log_eq_powr_iff [of x 2 "binade x"] assms by (simp_all add: binade_def)

lemma binade_eqI: "2 powr of_int e \<le> x \<Longrightarrow> x < 2 powr (of_int e + 1) \<Longrightarrow> binade x = e"
  using floor_log_eq_powr_iff [of x 2 e] less_le_trans [OF powr_gt_zero [of 2 "of_int e :: real", THEN iffD2]]
  by (simp add: binade_def)

lemma binade_mono: "0 < x \<Longrightarrow> x \<le> y \<Longrightarrow> binade x \<le> binade y"
  unfolding binade_def by (intro floor_mono) simp

lemma double_pos: "0 < x \<Longrightarrow> double x = of_int (half_even (x / 2 powr (of_int (binade x) - 52))) * 2 powr (of_int (binade x) - 52)"
  by (simp add: double_def ulp_def)

text \<open>Rounding stays within the binade, its upper end included.\<close>

lemma double_binade:
  assumes "0 < x"
  shows "2 powr of_int (binade x) \<le> double x" "double x \<le> 2 powr (of_int (binade x) + 1)"
proof -
  let ?u = "2 powr (of_int (binade x) - 52) :: real"
  have lo: "2 powr of_int (binade x) = of_int (2 ^ 52) * ?u" and hi: "2 powr (of_int (binade x) + 1) = of_int (2 ^ 53) * ?u"
    by (simp_all add: powr_diff powr_add powr_realpow)
  have "of_int (2 ^ 52) \<le> x / ?u" "x / ?u \<le> of_int (2 ^ 53)"
    using binade_bounds [OF assms] unfolding lo hi by (simp_all add: field_simps)
  then have "2 ^ 52 \<le> half_even (x / ?u)" "half_even (x / ?u) \<le> 2 ^ 53"
    using half_even_mono half_even_int by metis+
  then have "of_int (2 ^ 52) * ?u \<le> of_int (half_even (x / ?u)) * ?u"
    "of_int (half_even (x / ?u)) * ?u \<le> of_int (2 ^ 53) * ?u"
    by (intro mult_right_mono; simp only: of_int_le_iff powr_ge_zero)+
  then show "2 powr of_int (binade x) \<le> double x" "double x \<le> 2 powr (of_int (binade x) + 1)"
    unfolding lo hi double_pos [OF assms] by simp_all
qed

lemma double_mono:
  assumes "0 \<le> x" and "x \<le> y"
  shows "double x \<le> double y"
proof (cases "x = 0")
  case True
  with assms show ?thesis
    using double_binade(1) [of y] powr_ge_zero [of 2 "of_int (binade y) :: real"]
    by (cases "y = 0") (auto simp: double_def [of 0] elim: order.trans [rotated])
next
  case False
  with assms have "0 < x" "0 < y" by simp_all
  show ?thesis
  proof (cases "binade x = binade y")
    case True
    have "half_even (x / 2 powr (of_int (binade x) - 52)) \<le> half_even (y / 2 powr (of_int (binade x) - 52))"
      using assms by (intro half_even_mono divide_right_mono) simp_all
    then show ?thesis
      unfolding double_pos [OF \<open>0 < x\<close>] double_pos [OF \<open>0 < y\<close>] True [symmetric]
      by (intro mult_right_mono) simp_all
  next
    case False
    then have "binade x + 1 \<le> binade y" using binade_mono [OF \<open>0 < x\<close> assms(2)] by simp
    then have "2 powr (of_int (binade x) + 1 :: real) \<le> 2 powr of_int (binade y)"
      by (intro powr_mono) linarith+
    with double_binade(2) [OF \<open>0 < x\<close>] double_binade(1) [OF \<open>0 < y\<close>] show ?thesis by linarith
  qed
qed

text \<open>A number whose quotient by the unit of its binade is an integer is a double.\<close>

lemma double_exact:
  assumes "2 powr of_int e \<le> x" and "x < 2 powr (of_int e + 1)" and "x = of_int n * 2 powr (of_int e - 52)"
  shows "double x = x"
proof -
  have "0 < x" using assms(1) powr_gt_zero [of 2 "of_int e :: real"] by linarith
  moreover have "binade x = e" using assms(1,2) by (rule binade_eqI)
  moreover have "x / 2 powr (of_int e - 52) = of_int n" using assms(3) by simp
  ultimately show ?thesis using assms(3) by (simp add: double_pos half_even_int)
qed

lemma double_nat:
  assumes "n < 2 ^ 53"
  shows "double (of_nat n) = of_nat n"
proof (cases "n = 0")
  case False
  let ?x = "of_nat n :: real" and ?e = "binade (of_nat n)"
  have pos: "0 < ?x" using False by simp
  have "?x < 2 ^ 53" using assms by (metis of_nat_less_iff of_nat_numeral of_nat_power)
  then have "2 powr of_int ?e < 2 powr (53 :: real)"
    using binade_bounds(1) [OF pos] powr_realpow [of 2 53] by simp
  then have "real_of_int ?e < 53" by (simp only: powr_less_cancel_iff)
  then have "?e \<le> 52" by simp
  then have k: "of_int (52 - ?e) = real (nat (52 - ?e))" by simp
  have "?x = of_int (int n * 2 ^ nat (52 - ?e)) * 2 powr (of_int ?e - 52)"
  proof -
    have "(2 :: real) ^ nat (52 - ?e) = 2 powr of_int (52 - ?e)" unfolding k by (simp add: powr_realpow)
    then have "(2 :: real) ^ nat (52 - ?e) * 2 powr (of_int ?e - 52) = 1"
      by (simp add: powr_add [symmetric])
    then show ?thesis by simp
  qed
  with binade_bounds [OF pos] show ?thesis by (intro double_exact)
qed (simp add: double_def)

interpretation doubles: rounding double
  by unfold_locales (simp_all add: double_mono double_nat)

text \<open>Rounding a given number: its binade and the rounded quotient by its unit.\<close>

lemma double_value:
  assumes "2 powr of_int e \<le> x" and "x < 2 powr (of_int e + 1)" and "half_even (x / 2 powr of_int (e - 52)) = n"
  shows "double x = of_int n * 2 powr of_int (e - 52)"
proof -
  have "0 < x" using assms(1) powr_gt_zero [of 2 "of_int e :: real"] by linarith
  moreover have "binade x = e" using assms(1,2) by (rule binade_eqI)
  ultimately show ?thesis using assms(3) by (simp add: double_pos)
qed

lemma powr_minus_nat: "2 powr of_int (- int n) = (1 / 2 ^ n :: real)"
  by (simp add: powr_minus powr_realpow divide_inverse)

lemma half_even_eqI:
  "of_int n - 1 / 2 < x \<Longrightarrow> x < of_int n + 1 / 2 \<Longrightarrow> half_even x = n"
proof -
  assume "of_int n - 1 / 2 < x" "x < of_int n + 1 / 2"
  then have "\<lfloor>x\<rfloor> = n \<or> \<lfloor>x\<rfloor> = n - 1" by linarith
  then show ?thesis
    using \<open>of_int n - 1 / 2 < x\<close> \<open>x < of_int n + 1 / 2\<close> by (auto simp: half_even_def Let_def)
qed

lemma powr_unit:
  "2 powr of_int (- 3 - 52) = (1 / 2 ^ 55 :: real)" "2 powr of_int (- 2 - 52) = (1 / 2 ^ 54 :: real)"
  using powr_minus_nat [of 55] powr_minus_nat [of 54] by simp_all

lemma double_fifth: "double (1 / 5) = 7205759403792794 / 2 ^ 55"
proof -
  have "half_even (1 / 5 / 2 powr of_int (- 3 - 52)) = 7205759403792794"
    unfolding powr_unit(1) by (intro half_even_eqI) simp_all
  then have "double (1 / 5) = of_int 7205759403792794 * 2 powr of_int (- 3 - 52)"
    using powr_minus_nat [of 3] powr_minus_nat [of 2] by (intro double_value) simp_all
  then show ?thesis using powr_minus_nat [of 55] by simp
qed

lemma double_three_tenths: "double (3 / 10) = 5404319552844595 / 2 ^ 54"
proof -
  have "half_even (3 / 10 / 2 powr of_int (- 2 - 52)) = 5404319552844595"
    unfolding powr_unit(2) by (intro half_even_eqI) simp_all
  then have "double (3 / 10) = of_int 5404319552844595 * 2 powr of_int (- 2 - 52)"
    using powr_minus_nat [of 2] powr_minus_nat [of 1] by (intro double_value) simp_all
  then show ?thesis using powr_minus_nat [of 54] by simp
qed

lemma double_half: "double (1 / 2) = 1 / 2"
  using powr_minus_nat [of 1] powr_minus_nat [of 53]
  by (intro double_exact [of "- 1" _ "2 ^ 52"]) simp_all

lemma double_idem_fifth: "double (7205759403792794 / 2 ^ 55) = 7205759403792794 / 2 ^ 55"
  using powr_minus_nat [of 3] powr_minus_nat [of 2] powr_minus_nat [of 55]
  by (intro double_exact [of "- 3" _ 7205759403792794]) simp_all

lemma double_idem_three_tenths: "double (5404319552844595 / 2 ^ 54) = 5404319552844595 / 2 ^ 54"
  using powr_minus_nat [of 2] powr_minus_nat [of 1] powr_minus_nat [of 54]
  by (intro double_exact [of "- 2" _ 5404319552844595]) simp_all

end
