(* ===== verification/Scoring.thy ===== *)
theory Scoring imports Json Doubles
begin

text \<open>
  \<open>validator/src/basedai_validator/scoring.py\<close>: grouping of the observations, the modal answers, the
  three component scores and the fixed-point score. Float arithmetic is that of the theory of
  doubles; \<open>np.percentile(xs, 50)\<close> and \<open>np.mean(xs)\<close> of the numpy package are parameters, of which
  \<open>numpy_ok\<close> names what the proofs use. \<open>math.log\<close> is the rounded logarithm.
\<close>

section \<open>The code\<close>

record numpy =
  percentile50 :: "int list \<Rightarrow> real"
  np_mean :: "real list \<Rightarrow> real"

record observation =
  miner :: pystr
  prompt_id :: pystr
  response_hash :: pystr
  response_text :: pystr
  latency_ms :: int
  is_challenge :: bool
  reference_text :: "pystr option"

record miner_score =
  scored_miner :: pystr
  score_fp :: int
  samples :: nat
  latency_part :: real
  quality_part :: real
  consistency_part :: real

definition by_miner :: "observation list \<Rightarrow> (pystr, observation list) dict" where
  "by_miner obs = group_pairs (map (\<lambda>ob. (miner ob, ob)) obs)"

definition challenge_groups :: "observation list \<Rightarrow> (pystr, pystr list) dict" where
  "challenge_groups obs =
     group_pairs (map (\<lambda>ob. (prompt_id ob, response_hash ob)) (filter is_challenge obs))"

text \<open>\<open>Counter(hashes).most_common(1)[0][0]\<close>: the first of the most frequent, in order of insertion.\<close>

definition counter :: "'a list \<Rightarrow> ('a, nat) dict" where
  "counter xs = foldl (\<lambda>d x. dict_set x (dict_get_or d x 0 + 1) d) [] xs"

definition most_common :: "'a list \<Rightarrow> 'a" where
  "most_common xs = (case counter xs of c # cs \<Rightarrow> fst (max_by snd c cs))"

definition modal_response :: "observation list \<Rightarrow> (pystr, pystr) dict" where
  "modal_response obs = map (\<lambda>(pid, hashes). (pid, most_common hashes)) (challenge_groups obs)"

definition py_log :: "real \<Rightarrow> real res" where
  "py_log x = (if x \<le> 0 then Inl ValueError else Inr (double (ln x)))"

definition latency_score :: "numpy \<Rightarrow> observation list \<Rightarrow> real \<Rightarrow> real res" where
  "latency_score N obs p50 =
     (if obs = [] then Inr 0
      else (let miner_p50 = percentile50 N (map latency_ms obs)
            in if miner_p50 \<le> 0 then Inr 1
               else (let ratio = double (p50 / miner_p50)
                     in rbind (py_log (double (1 + ratio))) (\<lambda>a.
                        rbind (py_log 2) (\<lambda>b.
                          Inr (min 1 (max 0 (double (a / b)))))))))"

definition has_reference :: "observation \<Rightarrow> bool" where
  "has_reference ob = (case reference_text ob of None \<Rightarrow> False | Some t \<Rightarrow> t \<noteq> [])"

definition token_set :: "pystr \<Rightarrow> pystr set" where
  "token_set t = set (split_ws (lower t))"

definition jaccard :: "observation \<Rightarrow> real" where
  "jaccard ob =
     (let a = token_set (response_text ob); b = token_set (the (reference_text ob))
      in if a = {} \<and> b = {} then 0 else double (real (card (a \<inter> b)) / real (card (a \<union> b))))"

definition quality_score :: "numpy \<Rightarrow> observation list \<Rightarrow> real" where
  "quality_score N obs =
     (let smp = filter has_reference obs
      in if smp = [] then double (1 / 2) else np_mean N (map jaccard smp))"

definition consistency_score :: "observation list \<Rightarrow> (pystr, pystr) dict \<Rightarrow> real" where
  "consistency_score obs modal =
     (let challenges = filter is_challenge obs
      in if challenges = [] then double (1 / 2)
         else double (real (length (filter (\<lambda>ob. dict_get modal (prompt_id ob) = Some (response_hash ob))
                       challenges)) / real (length challenges)))"

definition composite :: "real \<Rightarrow> real \<Rightarrow> real \<Rightarrow> real" where
  "composite l q c =
     max 0 (min 1 (double (double (double (double (1 / 5) * l) + double (double (1 / 2) * q))
                          + double (double (3 / 10) * c))))"

definition score_miner ::
    "numpy \<Rightarrow> real \<Rightarrow> (pystr, pystr) dict \<Rightarrow> pystr \<times> observation list \<Rightarrow> miner_score res" where
  "score_miner N p50 modal p =
     (case p of (m, obs) \<Rightarrow>
        rbind (latency_score N obs p50) (\<lambda>l.
          let q = quality_score N obs; c = consistency_score obs modal
          in Inr \<lparr>scored_miner = m, score_fp = \<lfloor>double (composite l q c * 1000000)\<rfloor>,
                  samples = length obs, latency_part = l, quality_part = q, consistency_part = c\<rparr>))"

definition score_miners :: "numpy \<Rightarrow> observation list \<Rightarrow> miner_score list res" where
  "score_miners N obs =
     (let all_latencies = map latency_ms obs
      in if all_latencies = [] then Inr []
         else rbind (map_res (score_miner N (percentile50 N all_latencies) (modal_response obs)) (by_miner obs))
                (\<lambda>scores. Inr (sort_desc score_fp scores)))"

section \<open>Grouping\<close>

lemma by_miner_group:
  assumes "(m, os) \<in> set (by_miner obs)"
  shows "os = filter (\<lambda>ob. miner ob = m) obs" "os \<noteq> []"
  using group_pairs_mem [OF assms [unfolded by_miner_def]]
  by (simp_all add: filter_map comp_def)

lemma by_miner_keys: "set (dict_keys (by_miner obs)) = miner ` set obs" "dict_ok (by_miner obs)"
  by (simp_all add: by_miner_def set_keys_group_pairs group_pairs_ok image_image)

section \<open>The modal answer\<close>

lemma counter_snoc: "counter (xs @ [x]) = dict_set x (dict_get_or (counter xs) x 0 + 1) (counter xs)"
  by (simp add: counter_def)

lemma counter_counts: "dict_get_or (counter xs) x 0 = count_list xs x"
  by (induction xs rule: rev_induct) (auto simp: counter_snoc, simp add: counter_def)

lemma counter_keys: "set (dict_keys (counter xs)) = set xs" "dict_ok (counter xs)"
proof -
  show "set (dict_keys (counter xs)) = set xs"
    by (induction xs rule: rev_induct)
      (simp_all only: counter_snoc alist_dict.keys_put, simp_all add: counter_def)
  show "dict_ok (counter xs)"
    by (induction xs rule: rev_induct) (simp_all add: counter_snoc alist_dict.ok_put, simp add: counter_def)
qed

lemma counter_mem: "(x, n) \<in> set (counter xs) \<Longrightarrow> n = count_list xs x \<and> x \<in> set xs"
  using counter_counts [of xs x] counter_keys [of xs] by (force dest: map_of_is_SomeI)

lemma most_common_max:
  assumes "xs \<noteq> []"
  shows "most_common xs \<in> set xs" "count_list xs y \<le> count_list xs (most_common xs)"
proof -
  obtain c cs where cc: "counter xs = c # cs"
    using assms counter_keys(1) [of xs] by (cases "counter xs") auto
  let ?m = "max_by snd c cs"
  have m: "most_common xs = fst ?m" by (simp add: most_common_def cc)
  have "?m \<in> set (counter xs)" using max_by_in [of snd c cs] cc by simp
  then have cm: "snd ?m = count_list xs (fst ?m)" "fst ?m \<in> set xs"
    using counter_mem [of "fst ?m" "snd ?m" xs] by simp_all
  with m show "most_common xs \<in> set xs" by simp
  show "count_list xs y \<le> count_list xs (most_common xs)"
  proof (cases "y \<in> set xs")
    case True
    then obtain n where n: "(y, n) \<in> set (counter xs)" using counter_keys(1) [of xs] by force
    then have "n \<le> snd ?m" using max_by_ge [of "(y, n)" c cs snd] cc by simp
    with n cm m show ?thesis using counter_mem by metis
  qed (simp add: count_notin)
qed

lemma sum_count_le: "x \<noteq> y \<Longrightarrow> count_list xs x + count_list xs y \<le> length xs"
  by (induction xs) auto

lemma most_common_majority:
  assumes "length xs < 2 * count_list xs x"
  shows "most_common xs = x"
proof (rule ccontr)
  assume "most_common xs \<noteq> x"
  then have "count_list xs x + count_list xs (most_common xs) \<le> length xs"
    by (intro sum_count_le) simp
  moreover have "xs \<noteq> []" using assms by auto
  ultimately show False using most_common_max(2) [of xs x] assms by linarith
qed

definition answers :: "observation list \<Rightarrow> pystr \<Rightarrow> pystr list" where
  "answers obs pid = map response_hash (filter (\<lambda>ob. prompt_id ob = pid) (filter is_challenge obs))"

lemma modal_response_get:
  assumes "ob \<in> set obs" and "is_challenge ob"
  shows "dict_get (modal_response obs) (prompt_id ob) = Some (most_common (answers obs (prompt_id ob)))"
proof -
  let ?ps = "map (\<lambda>ob. (prompt_id ob, response_hash ob)) (filter is_challenge obs)"
  have "prompt_id ob \<in> fst ` set ?ps" using assms by force
  then have "prompt_id ob \<in> fst ` set (group_pairs ?ps)" by (simp only: set_keys_group_pairs)
  then obtain hs where hs: "(prompt_id ob, hs) \<in> set (group_pairs ?ps)" by (elim imageE) (metis prod.collapse)
  from group_pairs_mem(1) [OF hs] have "hs = answers obs (prompt_id ob)"
    by (simp add: answers_def filter_map comp_def)
  moreover have "dict_get (group_pairs ?ps) (prompt_id ob) = Some hs"
    using hs group_pairs_ok [of ?ps] by (intro map_of_is_SomeI)
  moreover have "dict_get (map (\<lambda>(pid, hashes). (pid, most_common hashes)) d) k = map_option most_common (dict_get d k)"
    for d :: "(pystr, pystr list) dict" and k
    by (induction d) auto
  ultimately show ?thesis by (simp add: modal_response_def challenge_groups_def)
qed

section \<open>The components of a score\<close>

text \<open>The documented behaviour of \<open>numpy\<close> the proofs use.\<close>

definition numpy_ok :: "numpy \<Rightarrow> bool" where
  "numpy_ok N \<longleftrightarrow>
     (\<forall>xs. xs \<noteq> [] \<longrightarrow> (\<forall>x \<in> set xs. 0 \<le> x) \<longrightarrow> 0 \<le> percentile50 N xs)
   \<and> (\<forall>xs. xs \<noteq> [] \<longrightarrow> (\<forall>x \<in> set xs. x = 0) \<longrightarrow> percentile50 N xs = 0)
   \<and> (\<forall>xs. xs \<noteq> [] \<longrightarrow> (\<forall>x \<in> set xs. 0 \<le> x \<and> x \<le> 1) \<longrightarrow> 0 \<le> np_mean N xs \<and> np_mean N xs \<le> 1)
   \<and> (\<forall>xs. xs \<noteq> [] \<longrightarrow> (\<forall>x \<in> set xs. x = 0) \<longrightarrow> np_mean N xs = 0)"

lemma numpy_zeros:
  assumes "numpy_ok N"
  shows "xs \<noteq> [] \<Longrightarrow> \<forall>x \<in> set xs. x = 0 \<Longrightarrow> percentile50 N xs = 0"
    "ys \<noteq> [] \<Longrightarrow> \<forall>y \<in> set ys. y = 0 \<Longrightarrow> np_mean N ys = 0"
  using assms by (simp_all add: numpy_ok_def)

lemma finite_token_set [simp]: "finite (token_set t)"
  by (simp add: token_set_def)

lemma double_fraction: "m \<le> n \<Longrightarrow> 0 \<le> double (real m / real n) \<and> double (real m / real n) \<le> 1"
  by (rule doubles.unit) (cases "n = 0"; simp)+

lemma jaccard_unit: "0 \<le> jaccard ob \<and> jaccard ob \<le> 1"
proof -
  have "card (A \<inter> B) \<le> card (A \<union> B)" if "finite A" "finite B" for A B :: "pystr set"
    using that by (intro card_mono) auto
  then show ?thesis
    using double_fraction by (simp add: jaccard_def Let_def)
qed

lemma quality_unit: "numpy_ok N \<Longrightarrow> 0 \<le> quality_score N obs \<and> quality_score N obs \<le> 1"
  using doubles.unit [of "1 / 2"] jaccard_unit by (simp add: quality_score_def Let_def numpy_ok_def)

lemma consistency_unit: "0 \<le> consistency_score obs modal \<and> consistency_score obs modal \<le> 1"
  using doubles.unit [of "1 / 2"]
  by (simp add: consistency_score_def Let_def double_fraction [OF length_filter_le] del: filter_filter)

lemma latency_unit: "latency_score N obs p50 = Inr l \<Longrightarrow> 0 \<le> l \<and> l \<le> 1"
  by (auto simp: latency_score_def Let_def split: if_splits)

lemma latency_total:
  assumes "numpy_ok N" and "0 \<le> p50"
  shows "\<exists>l. latency_score N obs p50 = Inr l"
proof -
  have pos: "\<not> double (1 + double (p50 / q)) \<le> 0" if "0 < q" for q
  proof -
    have "1 \<le> 1 + double (p50 / q)" using that assms(2) doubles.nonneg [of "p50 / q"] by simp
    then have "double 1 \<le> double (1 + double (p50 / q))" by (intro double_mono) simp_all
    then show ?thesis using double_nat [of 1] by simp
  qed
  then show ?thesis by (auto simp: latency_score_def Let_def py_log_def dest: pos)
qed

lemma composite_unit: "0 \<le> composite l q c \<and> composite l q c \<le> 1"
  by (simp add: composite_def)

lemma score_fp_range: "0 \<le> \<lfloor>double (composite l q c * 1000000)\<rfloor> \<and> \<lfloor>double (composite l q c * 1000000)\<rfloor> \<le> 1000000"
  using doubles.floor_bounds [of 0 "composite l q c * 1000000" 1000000] composite_unit [of l q c] by simp

lemma score_miner_Inr:
  assumes "score_miner N p50 modal (m, obs) = Inr s"
  shows "scored_miner s = m" "samples s = length obs" "0 \<le> score_fp s \<and> score_fp s \<le> 1000000"
    "latency_score N obs p50 = Inr (latency_part s)" "quality_part s = quality_score N obs"
    "consistency_part s = consistency_score obs modal"
    "score_fp s = \<lfloor>double (composite (latency_part s) (quality_part s) (consistency_part s) * 1000000)\<rfloor>"
  using assms score_fp_range by (auto simp: score_miner_def Let_def)

text \<open>The scores are a permutation of one score per group.\<close>

lemma score_miners_groups:
  assumes "score_miners N obs = Inr scores"
  obtains unsorted where "scores = sort_desc score_fp unsorted"
    "list_all2 (\<lambda>p s. score_miner N (percentile50 N (map latency_ms obs)) (modal_response obs) p = Inr s)
       (by_miner obs) unsorted"
proof (cases "obs = []")
  case True
  then show ?thesis
    using assms that [of "[]"] by (simp add: score_miners_def by_miner_def sort_desc_def)
next
  case False
  then show ?thesis using assms that by (auto simp: score_miners_def map_res_Inr_iff)
qed

lemma list_all2_right: "list_all2 P xs ys \<Longrightarrow> y \<in> set ys \<Longrightarrow> \<exists>x \<in> set xs. P x y"
  by (induction rule: list_all2_induct) auto

lemma list_all2_keys:
  "list_all2 (\<lambda>p s. score_miner N p50 modal p = Inr s) ps ss \<Longrightarrow> map scored_miner ss = dict_keys ps"
proof (induction rule: list_all2_induct)
  case (Cons p ps s ss)
  then show ?case by (cases p) (simp add: score_miner_Inr(1))
qed simp

lemma score_member:
  assumes "score_miners N obs = Inr scores" and "s \<in> set scores"
  shows "score_miner N (percentile50 N (map latency_ms obs)) (modal_response obs)
      (scored_miner s, filter (\<lambda>ob. miner ob = scored_miner s) obs) = Inr s"
    "scored_miner s \<in> miner ` set obs"
proof -
  obtain unsorted where "scores = sort_desc score_fp unsorted"
    and all: "list_all2 (\<lambda>p s. score_miner N (percentile50 N (map latency_ms obs)) (modal_response obs) p = Inr s)
       (by_miner obs) unsorted"
    using score_miners_groups [OF assms(1)] .
  with assms(2) have "s \<in> set unsorted" by simp
  then obtain m os where mem: "(m, os) \<in> set (by_miner obs)"
    and s: "score_miner N (percentile50 N (map latency_ms obs)) (modal_response obs) (m, os) = Inr s"
    using all list_all2_right [OF all] by fastforce
  then show "score_miner N (percentile50 N (map latency_ms obs)) (modal_response obs)
      (scored_miner s, filter (\<lambda>ob. miner ob = scored_miner s) obs) = Inr s"
    using by_miner_group(1) [OF mem] score_miner_Inr(1) [OF s] by simp
  show "scored_miner s \<in> miner ` set obs"
    using mem score_miner_Inr(1) [OF s] by_miner_keys(1) [of obs] by force
qed

section \<open>Properties\<close>

text \<open>
  C33. The scores of an epoch: one per observed miner and no other, in descending order, each an integer
  between 0 and 1000000 that counts exactly the miner's observations, whatever the observations are.
\<close>
theorem scores_bounded_one_per_miner:
  assumes "score_miners N obs = Inr scores"
  shows "distinct (map scored_miner scores) \<and> set (map scored_miner scores) = miner ` set obs
    \<and> sorted_wrt (\<lambda>s t. score_fp t \<le> score_fp s) scores
    \<and> (\<forall>s \<in> set scores. 0 \<le> score_fp s \<and> score_fp s \<le> 1000000
         \<and> samples s = length (filter (\<lambda>ob. miner ob = scored_miner s) obs))"
proof -
  obtain unsorted where scores: "scores = sort_desc score_fp unsorted"
    and all: "list_all2 (\<lambda>p s. score_miner N (percentile50 N (map latency_ms obs)) (modal_response obs) p = Inr s)
       (by_miner obs) unsorted"
    using score_miners_groups [OF assms] .
  have keys: "map scored_miner unsorted = dict_keys (by_miner obs)" by (rule list_all2_keys [OF all])
  have "mset (map scored_miner scores) = mset (map scored_miner unsorted)"
    by (simp add: scores image_mset.compositionality)
  then have "distinct (map scored_miner scores) = distinct (map scored_miner unsorted)"
    "set (map scored_miner scores) = set (map scored_miner unsorted)"
    by (rule mset_eq_imp_distinct_iff, rule mset_eq_setD)
  then have "distinct (map scored_miner scores) \<and> set (map scored_miner scores) = miner ` set obs"
    using keys by_miner_keys [of obs] by simp
  moreover have "0 \<le> score_fp s \<and> score_fp s \<le> 1000000
      \<and> samples s = length (filter (\<lambda>ob. miner ob = scored_miner s) obs)" if "s \<in> set scores" for s
    using score_miner_Inr(2,3) [OF score_member(1) [OF assms that]] by simp
  moreover have "sorted_wrt (\<lambda>s t. score_fp t \<le> score_fp s) scores"
    unfolding scores by (rule sort_desc_sorted)
  ultimately show ?thesis by blast
qed


text \<open>
  Agreement with the majority is rewarded in full: a miner whose answer to each of its challenges is
  that of more than half of all answers to the prompt has consistency 1; the modal answer of a prompt is
  always one of its answers and none occurs more often.
\<close>
theorem majority_answers_are_consistent:
  assumes "score_miners N obs = Inr scores" and "s \<in> set scores"
  shows "(\<forall>ob \<in> set obs. is_challenge ob \<longrightarrow>
            (\<exists>h. dict_get (modal_response obs) (prompt_id ob) = Some h \<and> h \<in> set (answers obs (prompt_id ob))
              \<and> (\<forall>h'. count_list (answers obs (prompt_id ob)) h' \<le> count_list (answers obs (prompt_id ob)) h)))
    \<and> ((\<exists>ob \<in> set obs. miner ob = scored_miner s \<and> is_challenge ob)
       \<and> (\<forall>ob \<in> set obs. miner ob = scored_miner s \<and> is_challenge ob \<longrightarrow>
            length (answers obs (prompt_id ob)) < 2 * count_list (answers obs (prompt_id ob)) (response_hash ob))
       \<longrightarrow> consistency_part s = 1)"
proof (intro conjI ballI impI)
  fix ob
  assume "ob \<in> set obs" "is_challenge ob"
  then have "answers obs (prompt_id ob) \<noteq> []" by (auto simp: answers_def filter_empty_conv)
  from most_common_max [OF this] modal_response_get [OF \<open>ob \<in> set obs\<close> \<open>is_challenge ob\<close>]
  show "\<exists>h. dict_get (modal_response obs) (prompt_id ob) = Some h \<and> h \<in> set (answers obs (prompt_id ob))
      \<and> (\<forall>h'. count_list (answers obs (prompt_id ob)) h' \<le> count_list (answers obs (prompt_id ob)) h)"
    by blast
next
  assume maj: "(\<exists>ob \<in> set obs. miner ob = scored_miner s \<and> is_challenge ob)
    \<and> (\<forall>ob \<in> set obs. miner ob = scored_miner s \<and> is_challenge ob \<longrightarrow>
         length (answers obs (prompt_id ob)) < 2 * count_list (answers obs (prompt_id ob)) (response_hash ob))"
  let ?ch = "filter is_challenge (filter (\<lambda>ob. miner ob = scored_miner s) obs)"
  have "dict_get (modal_response obs) (prompt_id ob) = Some (response_hash ob)" if "ob \<in> set ?ch" for ob
  proof -
    from that have ob: "ob \<in> set obs" "is_challenge ob" and mine: "miner ob = scored_miner s" by auto
    with maj have "length (answers obs (prompt_id ob)) < 2 * count_list (answers obs (prompt_id ob)) (response_hash ob)"
      by blast
    from most_common_majority [OF this] modal_response_get [OF ob] show ?thesis by simp
  qed
  then have "filter (\<lambda>ob. dict_get (modal_response obs) (prompt_id ob) = Some (response_hash ob)) ?ch = ?ch"
    by (intro filter_True) blast
  moreover have "?ch \<noteq> []" using maj by (auto simp: filter_empty_conv)
  ultimately have "consistency_score (filter (\<lambda>ob. miner ob = scored_miner s) obs) (modal_response obs) = 1"
    using double_nat [of 1] by (simp add: consistency_score_def)
  then show "consistency_part s = 1"
    using score_miner_Inr(6) [OF score_member(1) [OF assms]] by simp
qed

lemma composite_without_quality: "\<lfloor>double (composite 1 0 1 * 1000000)\<rfloor> = 500000"
proof -
  have half: "7205759403792794 / 2 ^ 55 + 5404319552844595 / 2 ^ 54 = (1 / 2 :: real)" by simp
  have "composite 1 0 1 = 1 / 2"
    unfolding composite_def double_fifth double_three_tenths mult_zero_right mult_1_right doubles.zero
      add_0_right double_idem_fifth double_idem_three_tenths half double_half
    by simp
  then show ?thesis unfolding \<open>composite 1 0 1 = 1 / 2\<close> using double_nat [of 500000] by simp
qed

text \<open>
  A miner that never answers keeps half of the score: when all its observations are what a failed
  challenge records (empty text, latency 0) and the recorded hash is that of most answers to the prompt,
  as when nobody else was asked it, it gets the full latency and consistency components and the score
  500000.
\<close>
theorem unresponsive_miner_scores_half:
  assumes "numpy_ok N" and "score_miners N obs = Inr scores" and "s \<in> set scores"
    and "\<forall>ob \<in> set obs. miner ob = scored_miner s \<longrightarrow> is_challenge ob \<and> response_text ob = []
           \<and> latency_ms ob = 0 \<and> has_reference ob
           \<and> length (answers obs (prompt_id ob)) < 2 * count_list (answers obs (prompt_id ob)) (response_hash ob)"
  shows "latency_part s = 1 \<and> quality_part s = 0 \<and> consistency_part s = 1 \<and> score_fp s = 500000"
proof -
  let ?os = "filter (\<lambda>ob. miner ob = scored_miner s) obs"
  note sc = score_miner_Inr [OF score_member(1) [OF assms(2,3)]]
  have ne: "?os \<noteq> []" using score_member(2) [OF assms(2,3)] by (auto simp: filter_empty_conv)
  have all: "is_challenge ob \<and> response_text ob = [] \<and> latency_ms ob = 0 \<and> has_reference ob
      \<and> length (answers obs (prompt_id ob)) < 2 * count_list (answers obs (prompt_id ob)) (response_hash ob)
      \<and> ob \<in> set obs" if "ob \<in> set ?os" for ob
  proof -
    from that have "ob \<in> set obs" "miner ob = scored_miner s" by auto
    with assms(4) show ?thesis by blast
  qed
  have "\<forall>x \<in> set (map latency_ms ?os). x = 0" using assms(4) by auto
  then have "percentile50 N (map latency_ms ?os) = 0"
    using ne by (intro numpy_zeros(1) [OF assms(1)]) simp_all
  with sc(4) ne have "latency_part s = 1" by (simp add: latency_score_def del: filter_empty_conv)
  moreover have "quality_part s = 0"
  proof -
    have "filter has_reference ?os = ?os" using all by (intro filter_True) blast
    moreover have "jaccard ob = 0" if "ob \<in> set ?os" for ob
      using all [OF that] by (simp add: jaccard_def token_set_def split_ws_def doubles.zero Let_def)
    then have "\<forall>x \<in> set (map jaccard ?os). x = 0" by simp
    then have "np_mean N (map jaccard ?os) = 0"
      using ne by (intro numpy_zeros(2) [OF assms(1)]) simp_all
    ultimately show ?thesis using ne sc(5) by (simp add: quality_score_def)
  qed
  moreover have "consistency_part s = 1"
  proof -
    have "dict_get (modal_response obs) (prompt_id ob) = Some (response_hash ob)" if "ob \<in> set ?os" for ob
    proof -
      note ob = all [OF that]
      from ob have "most_common (answers obs (prompt_id ob)) = response_hash ob"
        by (intro most_common_majority) simp
      with ob modal_response_get [of ob obs] show ?thesis by simp
    qed
    then have "filter (\<lambda>ob. dict_get (modal_response obs) (prompt_id ob) = Some (response_hash ob)) ?os = ?os"
      by (intro filter_True) blast
    moreover have "filter is_challenge ?os = ?os" using all by (intro filter_True) blast
    ultimately show ?thesis
      using ne sc(6) double_nat [of 1] by (simp add: consistency_score_def)
  qed
  ultimately show ?thesis using sc(7) composite_without_quality by simp
qed

section \<open>Concrete runs\<close>

definition demo_numpy :: numpy where
  "demo_numpy = \<lparr>percentile50 = (\<lambda>xs. of_int (sort xs ! (length xs div 2))),
     np_mean = (\<lambda>xs. sum_list xs / real (length xs))\<rparr>"

lemma sum_list_unit: "\<forall>x \<in> set xs. 0 \<le> x \<and> x \<le> 1 \<Longrightarrow> 0 \<le> sum_list xs \<and> sum_list xs \<le> real (length xs)"
  for xs :: "real list"
  by (induction xs) auto

lemma demo_numpy_ok: "numpy_ok demo_numpy"
proof -
  have mid: "sort xs ! (length xs div 2) \<in> set xs" if "xs \<noteq> []" for xs :: "int list"
    using that nth_mem [of "length xs div 2" "sort xs"] by simp
  have "sum_list xs = 0" if "\<forall>x \<in> set xs. x = 0" for xs :: "real list"
    using that by (induction xs) auto
  with mid sum_list_unit show ?thesis
    by (auto simp: numpy_ok_def demo_numpy_def divide_le_eq_1)
qed

abbreviation demo_dead :: observation where
  "demo_dead \<equiv> \<lparr>miner = lit ''0x07'', prompt_id = lit ''p'', response_hash = lit ''0x00'', response_text = [],
     latency_ms = 0, is_challenge = True, reference_text = Some (lit ''PING'')\<rparr>"

abbreviation demo_alive :: observation where
  "demo_alive \<equiv> \<lparr>miner = lit ''0x08'', prompt_id = lit ''q'', response_hash = lit ''0x01'', response_text = lit ''PING'',
     latency_ms = 20, is_challenge = True, reference_text = Some (lit ''PING'')\<rparr>"

lemma demo_nonneg: "\<forall>ob \<in> set [demo_dead, demo_alive]. 0 \<le> latency_ms ob"
  by simp


lemma demo_score_member:
  obtains s scores where "score_miners demo_numpy [demo_dead, demo_alive] = Inr scores" and "s \<in> set scores"
    and "scored_miner s = lit ''0x07''"
proof -
  let ?p = "percentile50 demo_numpy [0, 20]" and ?modal = "modal_response [demo_dead, demo_alive]"
  have "0 \<le> ?p" by (simp add: demo_numpy_def)
  then have tot: "\<exists>s. score_miner demo_numpy ?p ?modal (m, os) = Inr s" for m os
    using latency_total [OF demo_numpy_ok, of ?p os] by (auto simp: score_miner_def Let_def)
  obtain s t where st: "score_miner demo_numpy ?p ?modal (lit ''0x07'', [demo_dead]) = Inr s"
    "score_miner demo_numpy ?p ?modal (lit ''0x08'', [demo_alive]) = Inr t"
    using tot by metis
  have "by_miner [demo_dead, demo_alive] = [(lit ''0x07'', [demo_dead]), (lit ''0x08'', [demo_alive])]"
    by (simp add: by_miner_def group_pairs_def append_to_def dict_get_or_def)
  with st have "score_miners demo_numpy [demo_dead, demo_alive] = Inr (sort_desc score_fp [s, t])"
    by (simp add: score_miners_def)
  then show ?thesis
    using that [of "sort_desc score_fp [s, t]" s] score_miner_Inr(1) [OF st(1)] by simp
qed

theorem scores_bounded_one_per_miner_witness:
  "\<exists>scores. score_miners demo_numpy [demo_dead, demo_alive] = Inr scores
     \<and> distinct (map scored_miner scores) \<and> set (map scored_miner scores) = {lit ''0x07'', lit ''0x08''}"
proof -
  obtain s scores where sc: "score_miners demo_numpy [demo_dead, demo_alive] = Inr scores" by (rule demo_score_member)
  from scores_bounded_one_per_miner [OF this] show ?thesis using sc by auto
qed

theorem majority_answers_are_consistent_witness:
  "\<exists>scores s. score_miners demo_numpy [demo_dead, demo_alive] = Inr scores \<and> s \<in> set scores
     \<and> scored_miner s = lit ''0x07'' \<and> consistency_part s = 1"
proof -
  obtain s scores where sc: "score_miners demo_numpy [demo_dead, demo_alive] = Inr scores" "s \<in> set scores"
    "scored_miner s = lit ''0x07''" by (rule demo_score_member)
  from majority_answers_are_consistent [OF sc(1,2)] sc show ?thesis by (simp add: answers_def) blast
qed

theorem unresponsive_miner_scores_half_witness:
  "\<exists>scores s. score_miners demo_numpy [demo_dead, demo_alive] = Inr scores \<and> s \<in> set scores
     \<and> scored_miner s = lit ''0x07'' \<and> score_fp s = 500000"
proof -
  obtain s scores where sc: "score_miners demo_numpy [demo_dead, demo_alive] = Inr scores" "s \<in> set scores"
    "scored_miner s = lit ''0x07''" by (rule demo_score_member)
  from unresponsive_miner_scores_half [OF demo_numpy_ok sc(1,2)] sc show ?thesis
    by (auto simp: answers_def has_reference_def)
qed

end
