(* ===== verification/Validator.thy ===== *)
theory Validator imports Scoring Service MinerRun
begin

text \<open>
  \<open>validator/src/basedai_validator/runtime.py\<close>: registration, discovery, challenges, and the epoch
  commitment with its two exchanges with the aggregator. Answers of the network, random choices and
  measured times are arguments. What a miner answers is JSON that the validator stores as it comes,
  so observations carry JSON here; the scoring of theory Scoring, which is about texts, is applied
  after \<open>hash_key\<close> has represented the hashes.
\<close>

section \<open>Configuration and registration\<close>

record validator_config =
  vc_brain_id :: int
  vc_key :: pystr
  vc_chain_id :: int
  vc_scoring_registry :: pystr
  vc_max_fee :: int
  vc_gateway_url :: "pystr option"
  vc_aggregator_url :: "pystr option"

definition validator_address :: "ethlib \<Rightarrow> validator_config \<Rightarrow> pystr" where
  "validator_address E cfg = key_address E (vc_key cfg)"

text \<open>\<open>if not url\<close>.\<close>

definition configured :: "pystr option \<Rightarrow> pystr option" where
  "configured url = (case url of Some u \<Rightarrow> if u = [] then None else Some u | None \<Rightarrow> None)"

text \<open>
  \<open>_verify_registration\<close>: the registration sent, if any. Every failure is logged and swallowed, and
  unlike the miner's the transaction is not awaited.
\<close>

definition validator_registration ::
    "ethlib \<Rightarrow> validator_config \<Rightarrow> bool res \<Rightarrow> (int \<Rightarrow> int \<Rightarrow> unit res) \<Rightarrow> (int \<times> int) option" where
  "validator_registration E cfg is_v send_register =
     (case is_v of
        Inr False \<Rightarrow>
          (let max_fee = (if vc_max_fee cfg \<noteq> 0 then vc_max_fee cfg else 2 ^ 255)
           in case send_register (vc_brain_id cfg) max_fee of
                Inr _ \<Rightarrow> Some (vc_brain_id cfg, max_fee) | Inl _ \<Rightarrow> None)
      | _ \<Rightarrow> None)"

section \<open>Challenges\<close>

type_synonym http_answer = "(nat \<times> json res) res"

text \<open>The body of an answer after \<open>raise_for_status\<close>.\<close>

definition checked_json :: "http_answer \<Rightarrow> json res" where
  "checked_json a = rbind a (\<lambda>(status, body). if raises_for_status status then Inl OtherError else body)"

text \<open>\<open>[m for m in miners if m.get("url") and m.get("address")]\<close>.\<close>

fun keep_reachable :: "json list \<Rightarrow> json list res" where
  "keep_reachable [] = Inr []"
| "keep_reachable (m # ms) =
     rbind (jget m (lit ''url'') JNull) (\<lambda>u.
     rbind (if py_true u then rbind (jget m (lit ''address'') JNull) (\<lambda>a. Inr (py_true a)) else Inr False)
       (\<lambda>keep. rbind (keep_reachable ms) (\<lambda>rest. Inr (if keep then m # rest else rest))))"

definition discover_miners :: "validator_config \<Rightarrow> http_answer \<Rightarrow> json list" where
  "discover_miners cfg listing =
     (case configured (vc_gateway_url cfg) of
        None \<Rightarrow> []
      | Some url \<Rightarrow>
          (case rbind (rbind (checked_json listing) py_iter) keep_reachable of
             Inl e \<Rightarrow> [] | Inr ms \<Rightarrow> ms))"

definition build_challenge_payload :: "ethlib \<Rightarrow> validator_config \<Rightarrow> pystr \<Rightarrow> int \<Rightarrow> json res" where
  "build_challenge_payload E cfg prompt seed =
     rbind (keccak_text E prompt) (\<lambda>ph.
     rbind (abi_encode E [AUint 256 (vc_brain_id cfg), ABytes32 ph, AUint 256 seed]) (\<lambda>enc.
       Inr (JObj [(lit ''prompt'', JStr prompt), (lit ''seed'', JInt seed),
                  (lit ''validator'', JStr (validator_address E cfg)),
                  (lit ''validator_signature'', JStr (sign_message E (vc_key cfg) (keccak E enc)))])))"

definition zero_hash_text :: pystr where
  "zero_hash_text = ox @ replicate 64 48"

text \<open>
  \<open>_call_miner_challenge\<close>: text, hash and latency. Whatever goes wrong after the payload is built gives
  the non-responsive triple; so does an answer that is not an object, on which \<open>"error" in data\<close> or
  one of the following subscriptions raises inside the \<open>try\<close>.
\<close>

definition call_miner_challenge ::
    "ethlib \<Rightarrow> validator_config \<Rightarrow> json \<Rightarrow> pystr \<Rightarrow> int \<Rightarrow> (json \<Rightarrow> http_answer) \<Rightarrow> int
       \<Rightarrow> (json \<times> json \<times> int) res" where
  "call_miner_challenge E cfg miner_url prompt seed post elapsed =
     (if \<not> py_true miner_url then Inr (JStr [], JStr zero_hash_text, 0)
      else
        rbind (build_challenge_payload E cfg prompt seed) (\<lambda>payload.
          Inr (case checked_json (post payload) of
                 Inr (JObj d) \<Rightarrow>
                   (if dict_get d (lit ''error'') \<noteq> None then (JStr [], JStr zero_hash_text, elapsed)
                    else (dict_get_or d (lit ''text'') (JStr []),
                          dict_get_or d (lit ''response_hash'') (JStr zero_hash_text), elapsed))
               | _ \<Rightarrow> (JStr [], JStr zero_hash_text, elapsed))))"

record eval_item =
  ei_prompt :: pystr
  ei_reference :: "pystr option"

text \<open>An observation as the runtime stores it; every one is a challenge.\<close>

record raw_observation =
  ro_miner :: json
  ro_prompt_id :: pystr
  ro_hash :: json
  ro_text :: json
  ro_latency :: int
  ro_reference :: "pystr option"

definition pick_eval :: "eval_item list \<Rightarrow> nat \<Rightarrow> pystr \<times> pystr option" where
  "pick_eval eval_set j =
     (if eval_set \<noteq> [] then (ei_prompt (eval_set ! j), ei_reference (eval_set ! j))
      else (lit ''Reply with the single word: PING'', Some (lit ''PING'')))"

text \<open>\<open>_issue_challenge\<close>: \<open>i\<close> and \<open>j\<close> are the random indices, \<open>seed\<close> the random seed.\<close>

definition issue_challenge ::
    "ethlib \<Rightarrow> validator_config \<Rightarrow> eval_item list \<Rightarrow> http_answer \<Rightarrow> nat \<Rightarrow> nat \<Rightarrow> int
       \<Rightarrow> (json \<Rightarrow> http_answer) \<Rightarrow> int \<Rightarrow> raw_observation option res" where
  "issue_challenge E cfg eval_set listing i j seed post elapsed =
     (let miners = discover_miners cfg listing
      in if miners = [] then Inr None
         else
           let chosen = miners ! i in
           rbind (jkey chosen (lit ''address'')) (\<lambda>address.
           rbind (jget chosen (lit ''url'') JNull) (\<lambda>miner_url.
           (case pick_eval eval_set j of (prompt, reference) \<Rightarrow>
              rbind (text_hash E prompt) (\<lambda>prompt_id.
              rbind (call_miner_challenge E cfg miner_url prompt seed post elapsed) (\<lambda>(t, h, ms).
                Inr (Some \<lparr>ro_miner = address, ro_prompt_id = prompt_id, ro_hash = h, ro_text = t,
                           ro_latency = ms, ro_reference = reference\<rparr>)))))))"

section \<open>Scoring the observations\<close>

text \<open>
  Counting the hashes needs them hashable and compares them with Python's equality. Atoms that are
  not texts are represented by texts that no message contains (they start beyond the last code
  point), equal exactly when Python finds the values equal; \<open>NaN\<close> is taken as one value.
\<close>

fun hash_key :: "json \<Rightarrow> pystr res" where
  "hash_key (JStr s) = Inr s"
| "hash_key JNull = Inr [1114113]"
| "hash_key (JBool b) = Inr (1114112 # int_text (if b then 1 else 0))"
| "hash_key (JInt i) = Inr (1114112 # int_text i)"
| "hash_key (JFloat (Finite q)) =
     (case quotient_of q of (n, d) \<Rightarrow>
        Inr (1114112 # int_text n @ (if d = 1 then [] else 47 # int_text d)))"
| "hash_key (JFloat PosInf) = Inr [1114114]"
| "hash_key (JFloat NegInf) = Inr [1114115]"
| "hash_key (JFloat NaN) = Inr [1114116]"
| "hash_key (JList xs) = Inl TypeError"
| "hash_key (JObj d) = Inl TypeError"

text \<open>\<open>response_text.lower()\<close> is reached for the observations with a reference.\<close>

definition text_usable :: "raw_observation \<Rightarrow> bool" where
  "text_usable ro \<longleftrightarrow> (case ro_reference ro of None \<Rightarrow> True | Some t \<Rightarrow> t = [])
     \<or> (\<exists>s. ro_text ro = JStr s)"

definition typed_observation :: "raw_observation \<Rightarrow> observation res" where
  "typed_observation ro =
     rbind (hash_key (ro_miner ro)) (\<lambda>m.
     rbind (hash_key (ro_hash ro)) (\<lambda>h.
       Inr \<lparr>miner = m, prompt_id = ro_prompt_id ro, response_hash = h,
            response_text = jtext (ro_text ro), latency_ms = ro_latency ro, is_challenge = True,
            reference_text = ro_reference ro\<rparr>))"

definition score_observations :: "numpy \<Rightarrow> raw_observation list \<Rightarrow> miner_score list res" where
  "score_observations N raws =
     rbind (map_res typed_observation raws) (\<lambda>obs.
       if list_all text_usable raws then score_miners N obs else Inl AttributeError)"

section \<open>The epoch commitment\<close>

definition signature_text :: "pystr \<Rightarrow> json" where
  "signature_text s = JStr (if startswith s ox then s else ox @ s)"

definition epoch_leaf :: "ethlib \<Rightarrow> validator_config \<Rightarrow> miner_score \<Rightarrow> score_leaf res" where
  "epoch_leaf E cfg s =
     rbind (checksum E (scored_miner s)) (\<lambda>m.
       Inr \<lparr>leaf_brain_id = vc_brain_id cfg, leaf_miner = m, leaf_score = score_fp s\<rparr>)"

definition epoch_signature :: "ethlib \<Rightarrow> validator_config \<Rightarrow> int \<Rightarrow> root_arg \<Rightarrow> pystr res" where
  "epoch_signature E cfg epoch r =
     sign_commitment E (vc_key cfg) (vc_chain_id cfg) (vc_scoring_registry cfg) epoch (vc_brain_id cfg) r"

definition score_row :: "miner_score \<Rightarrow> json" where
  "score_row s = JObj [(lit ''miner'', JStr (scored_miner s)), (lit ''score'', JInt (score_fp s))]"

definition candidate_payload :: "ethlib \<Rightarrow> validator_config \<Rightarrow> int \<Rightarrow> miner_score list \<Rightarrow> pystr \<Rightarrow> json" where
  "candidate_payload E cfg epoch scores signature =
     JObj [(lit ''epoch'', JInt epoch), (lit ''brain_id'', JInt (vc_brain_id cfg)),
           (lit ''signer'', JStr (validator_address E cfg)), (lit ''scores'', JList (map score_row scores)),
           (lit ''signature'', signature_text signature)]"

definition build_candidate :: "ethlib \<Rightarrow> validator_config \<Rightarrow> int \<Rightarrow> miner_score list \<Rightarrow> json res" where
  "build_candidate E cfg epoch scores =
     rbind (map_res (epoch_leaf E cfg) scores) (\<lambda>leaves.
     rbind (build_merkle_root E leaves) (\<lambda>(own_root, _).
     rbind (epoch_signature E cfg epoch (RBytes own_root)) (\<lambda>sig.
       Inr (candidate_payload E cfg epoch scores sig))))"

text \<open>Polling for the canonical root: at most \<open>n\<close> more answers, the first that has it decides.\<close>

fun poll_canonical :: "(json \<Rightarrow> pystr) \<Rightarrow> (nat \<Rightarrow> http_answer) \<Rightarrow> nat \<Rightarrow> nat \<Rightarrow> pystr option res" where
  "poll_canonical rep gets i 0 = Inr None"
| "poll_canonical rep gets i (Suc n) =
     rbind (gets i) (\<lambda>(status, body).
     rbind (if status = 200 then rbind body (\<lambda>j. jget j (lit ''canonical'') JNull) else Inr JNull) (\<lambda>c.
       if py_true c then rbind (rbind body (\<lambda>j. jkey j (lit ''root''))) (\<lambda>r. Inr (Some (py_str rep r)))
       else poll_canonical rep gets (Suc i) n))"

definition submit_candidate_to ::
    "(json \<Rightarrow> pystr) \<Rightarrow> validator_config \<Rightarrow> (json \<Rightarrow> http_answer) \<Rightarrow> (nat \<Rightarrow> http_answer) \<Rightarrow> json
       \<Rightarrow> pystr option res" where
  "submit_candidate_to rep cfg post gets payload =
     (case configured (vc_aggregator_url cfg) of
        None \<Rightarrow> Inr None
      | Some url \<Rightarrow>
          rbind (checked_json (post payload)) (\<lambda>data.
          rbind (jget data (lit ''canonical'') JNull) (\<lambda>c.
            if py_true c then rbind (jkey data (lit ''root'')) (\<lambda>r. Inr (Some (py_str rep r)))
            else poll_canonical rep gets 0 60)))"

definition commitment_payload :: "ethlib \<Rightarrow> validator_config \<Rightarrow> int \<Rightarrow> pystr \<Rightarrow> pystr \<Rightarrow> json" where
  "commitment_payload E cfg epoch root_hex signature =
     JObj [(lit ''epoch'', JInt epoch), (lit ''brain_id'', JInt (vc_brain_id cfg)),
           (lit ''root'', JStr root_hex), (lit ''signer'', JStr (validator_address E cfg)),
           (lit ''signature'', signature_text signature)]"

text \<open>
  \<open>_post_epoch_commitment\<close>: the commitment posted at the end (its failure is swallowed), or \<open>None\<close>
  when there are no scores, no canonical root or no aggregator.
\<close>

definition post_epoch_commitment ::
    "ethlib \<Rightarrow> numpy \<Rightarrow> (json \<Rightarrow> pystr) \<Rightarrow> validator_config \<Rightarrow> (json \<Rightarrow> http_answer) \<Rightarrow> (nat \<Rightarrow> http_answer)
       \<Rightarrow> int \<Rightarrow> raw_observation list \<Rightarrow> json option res" where
  "post_epoch_commitment E N rep cfg post gets epoch observations =
     rbind (score_observations N observations) (\<lambda>scores.
       if scores = [] then Inr None
       else
         rbind (build_candidate E cfg epoch scores) (\<lambda>payload.
         rbind (submit_candidate_to rep cfg post gets payload) (\<lambda>canonical.
           case canonical of
             None \<Rightarrow> Inr None
           | Some root_hex \<Rightarrow>
               rbind (epoch_signature E cfg epoch (RStr root_hex)) (\<lambda>sig.
                 Inr (case configured (vc_aggregator_url cfg) of
                        None \<Rightarrow> None
                      | Some url \<Rightarrow> Some (commitment_payload E cfg epoch root_hex sig))))))"

text \<open>\<open>_read_current_epoch\<close>: the contract's epoch, else the hour of the clock.\<close>

definition read_current_epoch :: "int res \<Rightarrow> int \<Rightarrow> int" where
  "read_current_epoch epoch_call now_s = (case epoch_call of Inr e \<Rightarrow> e | Inl _ \<Rightarrow> now_s div 3600)"

section \<open>The two loops\<close>

text \<open>
  \<open>_challenge_loop\<close> and \<open>_epoch_loop\<close> share \<open>_observations\<close>. Posting an epoch reads the list at its start,
  awaits the aggregator, and the loop then clears the list; challenges may complete in between. The
  second component records the lists that were scored.
\<close>

datatype validator_event = Observed raw_observation | EpochPosting | EpochDone

type_synonym validator_state = "raw_observation list \<times> raw_observation list list"

fun validator_step :: "validator_state \<Rightarrow> validator_event \<Rightarrow> validator_state" where
  "validator_step (obs, scored) (Observed ro) = (obs @ [ro], scored)"
| "validator_step (obs, scored) EpochPosting = (obs, scored @ [obs])"
| "validator_step (obs, scored) EpochDone = ([], scored)"

section \<open>Properties\<close>

lemma map_res_Inl: "x \<in> set xs \<Longrightarrow> f x = Inl e \<Longrightarrow> (\<And>y e'. y \<in> set xs \<Longrightarrow> f y = Inl e' \<Longrightarrow> e' = e) \<Longrightarrow>
    map_res f xs = Inl e"
proof (induction xs)
  case (Cons y ys)
  show ?case
  proof (cases "f y")
    case (Inl e')
    with Cons.prems(3) [of y e'] show ?thesis by simp
  next
    case (Inr z)
    with Cons.prems(1,2) have "x \<in> set ys" by auto
    from Cons.IH [OF this Cons.prems(2)] have "map_res f ys = Inl e"
      using Cons.prems(3) by (metis list.set_intros(2))
    with Inr show ?thesis by simp
  qed
qed simp

lemma hash_key_Inl: "hash_key j = Inl e \<longleftrightarrow> e = TypeError \<and> ((\<exists>xs. j = JList xs) \<or> (\<exists>d. j = JObj d))"
proof (cases j)
  case (JFloat f)
  then show ?thesis by (cases f) (auto split: prod.splits)
qed auto

lemma typed_observation_error: "typed_observation ro = Inl e \<Longrightarrow> e = TypeError"
  by (auto simp: typed_observation_def rbind_Inl_iff hash_key_Inl)

text \<open>The representation keeps apart what Python keeps apart, as far as texts are concerned.\<close>

lemma hash_key_text: "hash_key (JStr s) = Inr s" by simp

text \<open>
  One answer can cost the epoch: the hash a miner answers is stored as it is, and a single
  observation whose hash is a JSON list or object makes the whole epoch's posting raise, whatever
  all other miners answered, so nothing is submitted.
\<close>
theorem unhashable_answer_blocks_epoch:
  assumes "post payload = Inr (200, Inr (JObj d))" and "dict_get d (lit ''error'') = None"
    and "dict_get d (lit ''response_hash'') = Some (JList xs)"
    and "build_challenge_payload E cfg prompt seed = Inr payload" and "py_true url"
  shows "\<exists>t. call_miner_challenge E cfg url prompt seed post elapsed = Inr (t, JList xs, elapsed)
    \<and> (\<forall>before after a pid ms ref N rep cfg' post' gets epoch.
         post_epoch_commitment E N rep cfg' post' gets epoch
           (before @ \<lparr>ro_miner = a, ro_prompt_id = pid, ro_hash = JList xs, ro_text = t, ro_latency = ms,
                      ro_reference = ref\<rparr> # after) = Inl TypeError)"
proof -
  have "call_miner_challenge E cfg url prompt seed post elapsed =
      Inr (dict_get_or d (lit ''text'') (JStr []), JList xs, elapsed)"
    using assms by (simp add: call_miner_challenge_def checked_json_def)
  moreover have "score_observations N (before @ ro # after) = Inl TypeError"
    if "ro_hash ro = JList xs" for N before after ro
  proof -
    have "typed_observation ro = Inl TypeError"
      using that by (cases "hash_key (ro_miner ro)") (auto simp: typed_observation_def hash_key_Inl)
    then have "map_res typed_observation (before @ ro # after) = Inl TypeError"
      by (rule map_res_Inl [rotated]) (auto dest: typed_observation_error)
    then show ?thesis by (simp add: score_observations_def)
  qed
  ultimately show ?thesis by (simp add: post_epoch_commitment_def)
qed

text \<open>
  What is observed while an epoch is being posted is lost: the state after the posting does not
  depend on the observations that arrived during it, and none of them is in a list that was scored.
\<close>
theorem observations_during_posting_are_lost:
  "foldl validator_step st (EpochPosting # map Observed during @ [EpochDone]) = ([], snd st @ [fst st])"
proof -
  have "foldl validator_step (obs, scored) (map Observed during) = (obs @ during, scored)" for obs scored
    by (induction during arbitrary: obs) auto
  then show ?thesis by (cases st) simp
qed

text \<open>The canonical root reaches the validator only from the aggregator.\<close>

lemma poll_canonical_Some:
  "poll_canonical rep gets i n = Inr (Some r) \<Longrightarrow>
     \<exists>k body v. i \<le> k \<and> k < i + n \<and> gets k = Inr (200, Inr body) \<and> jkey body (lit ''root'') = Inr v \<and> r = py_str rep v"
proof (induction n arbitrary: i)
  case (Suc n)
  then obtain status body where g: "gets i = Inr (status, body)" by fastforce
  show ?case
  proof (cases "poll_canonical rep gets (Suc i) n = Inr (Some r)")
    case True
    from Suc.IH [OF this] obtain k body v where "Suc i \<le> k" "k < Suc i + n" "gets k = Inr (200, Inr body)"
      "jkey body (lit ''root'') = Inr v" "r = py_str rep v" by blast
    then show ?thesis by (intro exI [of _ k] exI [of _ body] exI [of _ v]) simp
  next
    case False
    with Suc.prems g obtain j v where "status = 200" "body = Inr j" "jkey j (lit ''root'') = Inr v" "r = py_str rep v"
      by (auto split: if_splits)
    with g show ?thesis by (intro exI [of _ i]) auto
  qed
qed simp

definition aggregator_answered ::
    "(json \<Rightarrow> pystr) \<Rightarrow> (json \<Rightarrow> http_answer) \<Rightarrow> (nat \<Rightarrow> http_answer) \<Rightarrow> json \<Rightarrow> pystr \<Rightarrow> bool" where
  "aggregator_answered rep post gets payload r \<longleftrightarrow>
     (\<exists>body v. (checked_json (post payload) = Inr body \<or> (\<exists>k < 60. gets k = Inr (200, Inr body)))
        \<and> jkey body (lit ''root'') = Inr v \<and> r = py_str rep v)"

lemma submit_candidate_to_Some:
  assumes "submit_candidate_to rep cfg post gets payload = Inr (Some r)"
  shows "aggregator_answered rep post gets payload r"
proof -
  obtain data c where d: "checked_json (post payload) = Inr data" "jget data (lit ''canonical'') JNull = Inr c"
    using assms by (auto simp: submit_candidate_to_def split: option.splits)
  show ?thesis
  proof (cases "py_true c")
    case True
    with d assms show ?thesis
      by (auto simp: submit_candidate_to_def aggregator_answered_def split: option.splits)
  next
    case False
    with d assms have "poll_canonical rep gets 0 60 = Inr (Some r)"
      by (simp add: submit_candidate_to_def split: option.splits)
    from poll_canonical_Some [OF this] show ?thesis
      by (auto simp: aggregator_answered_def)
  qed
qed

text \<open>
  What an epoch makes a validator sign: its candidate over the root of its own rows, and, if it
  posts a commitment, the commitment to the root text the aggregator answered, as that text stands;
  it is signed for the validator's own epoch, Brain, chain and registry, but nothing relates it to
  the validator's scores.
\<close>
theorem epoch_commitment_signs_answered_root:
  assumes "post_epoch_commitment E N rep cfg post gets epoch obs = Inr (Some body)"
  shows "\<exists>scores leaves own_root hashed csig r sig. score_observations N obs = Inr scores \<and> scores \<noteq> []
    \<and> map_res (epoch_leaf E cfg) scores = Inr leaves \<and> build_merkle_root E leaves = Inr (own_root, hashed)
    \<and> epoch_signature E cfg epoch (RBytes own_root) = Inr csig
    \<and> aggregator_answered rep post gets (candidate_payload E cfg epoch scores csig) r
    \<and> epoch_signature E cfg epoch (RStr r) = Inr sig \<and> body = commitment_payload E cfg epoch r sig"
proof -
  obtain scores payload canonical where s: "score_observations N obs = Inr scores" "scores \<noteq> []"
    "build_candidate E cfg epoch scores = Inr payload"
    "submit_candidate_to rep cfg post gets payload = Inr canonical"
    and rest: "(case canonical of None \<Rightarrow> Inr None | Some root_hex \<Rightarrow>
               rbind (epoch_signature E cfg epoch (RStr root_hex)) (\<lambda>sig.
                 Inr (case configured (vc_aggregator_url cfg) of None \<Rightarrow> None
                      | Some url \<Rightarrow> Some (commitment_payload E cfg epoch root_hex sig)))) = Inr (Some body)"
    using assms by (auto simp: post_epoch_commitment_def split: if_splits)
  obtain r where r: "canonical = Some r" using rest by (cases canonical) auto
  with rest obtain sig where sig: "epoch_signature E cfg epoch (RStr r) = Inr sig"
    "body = commitment_payload E cfg epoch r sig"
    by (auto split: option.splits)
  have "aggregator_answered rep post gets payload r"
    using submit_candidate_to_Some s(4) r by simp
  moreover obtain leaves own_root hashed csig where "map_res (epoch_leaf E cfg) scores = Inr leaves"
    "build_merkle_root E leaves = Inr (own_root, hashed)" "epoch_signature E cfg epoch (RBytes own_root) = Inr csig"
    "payload = candidate_payload E cfg epoch scores csig"
    using s(3) by (auto simp: build_candidate_def)
  ultimately show ?thesis using s(1,2) sig by blast
qed

text \<open>
  A challenge never fails on the miner's side: once the payload is built the call returns, and
  unless the miner answers a JSON object without \<open>error\<close> and with a success status the miner is recorded
  with the empty text and the zero hash.
\<close>
theorem challenge_call_returns:
  assumes "build_challenge_payload E cfg prompt seed = Inr payload"
  shows "\<exists>t h ms. call_miner_challenge E cfg url prompt seed post elapsed = Inr (t, h, ms)
    \<and> ((\<exists>d. py_true url \<and> checked_json (post payload) = Inr (JObj d) \<and> dict_get d (lit ''error'') = None
            \<and> t = dict_get_or d (lit ''text'') (JStr []) \<and> h = dict_get_or d (lit ''response_hash'') (JStr zero_hash_text)
            \<and> ms = elapsed)
       \<or> (t = JStr [] \<and> h = JStr zero_hash_text \<and> ms = (if py_true url then elapsed else 0)))"
  using assms by (auto simp: call_miner_challenge_def split: sum.splits json.splits)

lemma poll_canonical_cong:
  "(\<And>k. k < i + n \<Longrightarrow> gets k = gets' k) \<Longrightarrow> poll_canonical rep gets i n = poll_canonical rep gets' i n"
proof (induction n arbitrary: i)
  case (Suc n)
  then have "poll_canonical rep gets (Suc i) n = poll_canonical rep gets' (Suc i) n" by simp
  with Suc.prems [of i] show ?case by (simp cong: if_cong)
qed simp

text \<open>
  Waiting for the canonical root ends: the exchange looks at no more than sixty polls, and if one
  of them is the first to have the root, after polls that answered without it, that root is returned.
\<close>
theorem canonical_root_is_awaited:
  assumes "configured (vc_aggregator_url cfg) = Some url"
    and "checked_json (post payload) = Inr (JObj d)" and "\<not> py_true (dict_get_or d (lit ''canonical'') JNull)"
    and "k < 60" and "gets k = Inr (200, Inr (JObj a))" and "py_true (dict_get_or a (lit ''canonical'') JNull)"
    and "dict_get a (lit ''root'') = Some v"
    and "\<forall>j < k. \<exists>status body. gets j = Inr (status, body) \<and> status \<noteq> 200"
  shows "submit_candidate_to rep cfg post gets payload = Inr (Some (py_str rep v))
    \<and> (\<forall>gets'. (\<forall>j < 60. gets' j = gets j) \<longrightarrow>
         submit_candidate_to rep cfg post gets' payload = submit_candidate_to rep cfg post gets payload)"
proof -
  have "k - i < n \<Longrightarrow> i \<le> k \<Longrightarrow> poll_canonical rep gets i n = Inr (Some (py_str rep v))" for i n
  proof (induction n arbitrary: i)
    case (Suc n)
    show ?case
    proof (cases "i = k")
      case True
      with assms(5-7) show ?thesis by simp
    next
      case False
      then have "i < k" using Suc.prems by simp
      with assms(8) obtain status body where "gets i = Inr (status, body)" "status \<noteq> 200" by blast
      moreover have "poll_canonical rep gets (Suc i) n = Inr (Some (py_str rep v))"
        using Suc.IH [of "Suc i"] Suc.prems False by simp
      ultimately show ?thesis by simp
    qed
  qed simp
  from this [of 0 60] assms(4) have found: "poll_canonical rep gets 0 60 = Inr (Some (py_str rep v))" by simp
  have same: "poll_canonical rep gets' 0 60 = poll_canonical rep gets 0 60" if "\<forall>j < 60. gets' j = gets j" for gets'
    by (rule poll_canonical_cong) (metis add_0 that)
  have poll: "submit_candidate_to rep cfg post gets' payload = poll_canonical rep gets' 0 60" for gets'
    using assms(1-3) unfolding submit_candidate_to_def by (simp del: poll_canonical.simps)
  show ?thesis
    unfolding poll by (intro conjI allI impI found) (rule same)
qed

section \<open>A concrete validator\<close>

definition demo_vcfg :: validator_config where
  "demo_vcfg = \<lparr>vc_brain_id = 3, vc_key = [6], vc_chain_id = 1, vc_scoring_registry = hex0x [171],
     vc_max_fee = 0, vc_gateway_url = Some (lit ''g''), vc_aggregator_url = Some (lit ''a'')\<rparr>"

lemma demo_payload: "\<exists>payload. build_challenge_payload demo_eth demo_vcfg (lit ''hi'') 1 = Inr payload"
  by (simp add: build_challenge_payload_def keccak_text_def demo_hi demo_vcfg_def)

theorem unhashable_answer_blocks_epoch_witness:
  "post_epoch_commitment demo_eth demo_numpy (\<lambda>_. []) demo_vcfg (\<lambda>_. Inl OtherError) (\<lambda>_. Inl OtherError) 5
     [\<lparr>ro_miner = JStr (hex0x [7]), ro_prompt_id = [], ro_hash = JList [], ro_text = JStr [], ro_latency = 3,
       ro_reference = None\<rparr>] = Inl TypeError"
proof -
  obtain payload where "build_challenge_payload demo_eth demo_vcfg (lit ''hi'') 1 = Inr payload"
    using demo_payload by blast
  from unhashable_answer_blocks_epoch [OF _ _ _ this, where post = "\<lambda>_. Inr (200, Inr (JObj
      [(lit ''text'', JStr []), (lit ''response_hash'', JList [])]))"
      and d = "[(lit ''text'', JStr []), (lit ''response_hash'', JList [])]" and xs = "[]" and url = "JStr (lit ''u'')" and elapsed = 3]
  obtain t where t: "call_miner_challenge demo_eth demo_vcfg (JStr (lit ''u'')) (lit ''hi'') 1 (\<lambda>_. Inr (200, Inr (JObj
      [(lit ''text'', JStr []), (lit ''response_hash'', JList [])]))) 3 = Inr (t, JList [], 3)"
    and blocked: "\<And>before after a pid ms ref N rep cfg' post' gets epoch.
         post_epoch_commitment demo_eth N rep cfg' post' gets epoch
           (before @ \<lparr>ro_miner = a, ro_prompt_id = pid, ro_hash = JList [], ro_text = t, ro_latency = ms,
                      ro_reference = ref\<rparr> # after) = Inl TypeError"
    by auto
  have "t = JStr []"
    using t \<open>build_challenge_payload _ _ _ _ = _\<close>
    by (simp add: call_miner_challenge_def checked_json_def dict_get_or_def)
  with blocked [where before = "[]" and after = "[]"] show ?thesis by simp
qed

theorem challenge_call_returns_witness:
  "\<exists>t h ms. call_miner_challenge demo_eth demo_vcfg (JStr (lit ''u'')) (lit ''hi'') 1 (\<lambda>_. Inl OtherError) 9 = Inr (t, h, ms)
     \<and> t = JStr [] \<and> h = JStr zero_hash_text \<and> ms = 9"
proof -
  obtain payload where "build_challenge_payload demo_eth demo_vcfg (lit ''hi'') 1 = Inr payload"
    using demo_payload by blast
  from challenge_call_returns [OF this, of "JStr (lit ''u'')" "\<lambda>_. Inl OtherError" 9] show ?thesis
    by (auto simp: checked_json_def)
qed

theorem canonical_root_is_awaited_witness:
  "submit_candidate_to (\<lambda>_. []) demo_vcfg (\<lambda>_. Inr (200, Inr (JObj [(lit ''canonical'', JBool False)])))
     (\<lambda>i. if i = 2 then Inr (200, Inr (JObj [(lit ''canonical'', JBool True), (lit ''root'', JStr (lit ''r''))]))
          else Inr (202, Inr (JObj [(lit ''canonical'', JBool False)]))) JNull = Inr (Some (lit ''r''))"
proof -
  let ?gets = "\<lambda>i :: nat. if i = 2 then Inr (200, Inr (JObj [(lit ''canonical'', JBool True), (lit ''root'', JStr (lit ''r''))]))
          else (Inr (202, Inr (JObj [(lit ''canonical'', JBool False)])) :: http_answer)"
  have "configured (vc_aggregator_url demo_vcfg) = Some (lit ''a'')" by (simp add: demo_vcfg_def configured_def)
  moreover have "checked_json (Inr (200, Inr (JObj [(lit ''canonical'', JBool False)]))) = Inr (JObj [(lit ''canonical'', JBool False)])"
    by (simp add: checked_json_def)
  moreover have "?gets 2 = Inr (200, Inr (JObj [(lit ''canonical'', JBool True), (lit ''root'', JStr (lit ''r''))]))"
    by simp
  moreover have "\<forall>j < 2. \<exists>status body. ?gets j = Inr (status, body) \<and> status \<noteq> 200" by simp
  ultimately show ?thesis
    using canonical_root_is_awaited [of demo_vcfg "lit ''a''" "\<lambda>_. Inr (200, Inr (JObj [(lit ''canonical'', JBool False)]))"
        JNull "[(lit ''canonical'', JBool False)]" 2 ?gets
        "[(lit ''canonical'', JBool True), (lit ''root'', JStr (lit ''r''))]" "JStr (lit ''r'')" "\<lambda>_. []"]
    by (simp add: dict_get_or_def)
qed

definition demo_raw :: raw_observation where
  "demo_raw = \<lparr>ro_miner = JStr (hex0x [7]), ro_prompt_id = [], ro_hash = JStr [], ro_text = JStr [], ro_latency = 3,
     ro_reference = None\<rparr>"

lemma demo_epoch_scores:
  obtains s where "score_observations demo_numpy [demo_raw] = Inr [s]" and "scored_miner s = hex0x [7]"
    and "0 \<le> score_fp s" and "score_fp s \<le> 1000000"
proof -
  let ?ob = "\<lparr>miner = hex0x [7], prompt_id = [], response_hash = [], response_text = [], latency_ms = 3,
    is_challenge = True, reference_text = None\<rparr>"
  let ?p = "percentile50 demo_numpy [3]" and ?modal = "modal_response [?ob]"
  have "0 \<le> ?p" by (simp add: demo_numpy_def)
  then have "\<exists>s. score_miner demo_numpy ?p ?modal (hex0x [7], [?ob]) = Inr s"
    using latency_total [OF demo_numpy_ok, of ?p "[?ob]"] by (auto simp: score_miner_def Let_def)
  then obtain s where s: "score_miner demo_numpy ?p ?modal (hex0x [7], [?ob]) = Inr s" ..
  have "by_miner [?ob] = [(hex0x [7], [?ob])]"
    by (simp add: by_miner_def group_pairs_def append_to_def)
  with s have "score_miners demo_numpy [?ob] = Inr [s]"
    by (simp add: score_miners_def sort_desc_def)
  then have "score_observations demo_numpy [demo_raw] = Inr [s]"
    by (simp add: score_observations_def typed_observation_def demo_raw_def text_usable_def)
  then show ?thesis using that score_miner_Inr(1,3) [OF s] by blast
qed

abbreviation demo_root_answer :: json where
  "demo_root_answer \<equiv> JObj [(lit ''canonical'', JBool True), (lit ''root'', JStr (hex0x (demo_hash 9)))]"

lemma demo_epoch_signature:
  "as_root_bytes r = Inr rb \<Longrightarrow> \<exists>sig. epoch_signature demo_eth demo_vcfg 5 r = Inr sig"
  by (simp add: epoch_signature_def sign_commitment_def commitment_digest_def commitment_fields_def
      DOMAIN_TAG_def demo_vcfg_def)

lemma demo_build_candidate:
  obtains s csig where "score_observations demo_numpy [demo_raw] = Inr [s]"
    and "build_candidate demo_eth demo_vcfg 5 [s] = Inr (candidate_payload demo_eth demo_vcfg 5 [s] csig)"
proof -
  obtain s where s: "score_observations demo_numpy [demo_raw] = Inr [s]" "scored_miner s = hex0x [7]"
    "0 \<le> score_fp s" "score_fp s \<le> 1000000" by (rule demo_epoch_scores)
  then obtain h where "leaf_hash demo_eth \<lparr>leaf_brain_id = 3, leaf_miner = hex0x [7], leaf_score = score_fp s\<rparr> = Inr h"
      and "length h = 32"
    by (simp add: leaf_hash_def)
  then have tree: "map_res (epoch_leaf demo_eth demo_vcfg) [s] = Inr [\<lparr>leaf_brain_id = 3, leaf_miner = hex0x [7], leaf_score = score_fp s\<rparr>]"
    "build_merkle_root demo_eth [\<lparr>leaf_brain_id = 3, leaf_miner = hex0x [7], leaf_score = score_fp s\<rparr>] = Inr (h, [h])"
    using s by (simp_all add: epoch_leaf_def demo_vcfg_def build_merkle_root_def sorted_hashes_def climb.simps)
  obtain csig where csig: "epoch_signature demo_eth demo_vcfg 5 (RBytes h) = Inr csig"
    using demo_epoch_signature [of "RBytes h" h] \<open>length h = 32\<close> by auto
  have "build_candidate demo_eth demo_vcfg 5 [s] = Inr (candidate_payload demo_eth demo_vcfg 5 [s] csig)"
    unfolding build_candidate_def tree by (simp add: tree(2) csig)
  with s(1) show ?thesis by (rule that)
qed

lemma demo_root_signature:
  "\<exists>sig. epoch_signature demo_eth demo_vcfg 5 (RStr (hex0x (demo_hash 9))) = Inr sig"
  using demo_epoch_signature [of "RStr (hex0x (demo_hash 9))" "demo_hash 9"] by auto

lemma demo_post_epoch:
  "\<exists>body. post_epoch_commitment demo_eth demo_numpy (\<lambda>_. []) demo_vcfg (\<lambda>_. Inr (200, Inr demo_root_answer))
     (\<lambda>_. Inl OtherError) 5 [demo_raw] = Inr (Some body)"
proof -
  obtain s csig where "score_observations demo_numpy [demo_raw] = Inr [s]"
    "build_candidate demo_eth demo_vcfg 5 [s] = Inr (candidate_payload demo_eth demo_vcfg 5 [s] csig)"
    by (rule demo_build_candidate)
  with demo_root_signature show ?thesis
    by (auto simp: post_epoch_commitment_def submit_candidate_to_def checked_json_def demo_vcfg_def
        configured_def dict_get_or_def)
qed

theorem epoch_commitment_signs_answered_root_witness:
  "\<exists>r sig. epoch_signature demo_eth demo_vcfg 5 (RStr r) = Inr sig \<and> r = hex0x (demo_hash 9)"
proof -
  obtain body where "post_epoch_commitment demo_eth demo_numpy (\<lambda>_. []) demo_vcfg (\<lambda>_. Inr (200, Inr demo_root_answer))
     (\<lambda>_. Inl OtherError) 5 [demo_raw] = Inr (Some body)" using demo_post_epoch by blast
  from epoch_commitment_signs_answered_root [OF this] show ?thesis
    by (auto simp: aggregator_answered_def checked_json_def)
qed

end
