(* ===== verification/Vault.thy ===== *)
theory Vault imports PyText
begin

text \<open>
  \<open>contracts/src/staking/StakingVault.sol\<close>: the stake behind validators as shares of a pool per Brain and
  validator, with the cooldown, slashing and rewards. Addresses are values in the contract and stand
  here as their checksummed texts. A reverted call is a \<open>vault_error\<close>; arithmetic is checked as in
  Solidity 0.8. Whether a token transfer succeeds and whether the caller has a role are arguments.
  The checkpoints for governance are not modelled.
\<close>

section \<open>The contract\<close>

datatype vault_error =
    VaultInvalidAmount | PoolInsolvent | ZeroShares | PendingUnstakeExists | InsufficientStake
  | NoPendingUnstake | UnstakeNotReady | NoStakeToReward | MissingRole | VaultTransferFailed
  | VaultPanic | VaultBadCalldata

type_synonym 'a vault_call = "vault_error + 'a"

definition UNSTAKE_COOLDOWN :: int where "UNSTAKE_COOLDOWN = 1209600"

definition CENTRALIZATION_CAP_BPS :: int where "CENTRALIZATION_CAP_BPS = 50"

definition zero_address :: pystr where
  "zero_address = ox @ replicate 40 48"

text \<open>A pool is the stake on one validator of one Brain; a pending unstake is its shares and unlock time.\<close>

type_synonym pool_key = "int \<times> pystr"

record vault =
  vt_assets :: "pool_key \<Rightarrow> int"
  vt_shares :: "pool_key \<Rightarrow> int"
  vt_staker :: "pool_key \<Rightarrow> pystr \<Rightarrow> int"
  vt_pending :: "pool_key \<Rightarrow> pystr \<Rightarrow> int \<times> int"
  vt_total :: int
  vt_brain :: "int \<Rightarrow> int"

definition new_vault :: vault where
  "new_vault = \<lparr>vt_assets = (\<lambda>_. 0), vt_shares = (\<lambda>_. 0), vt_staker = (\<lambda>_ _. 0), vt_pending = (\<lambda>_ _. (0, 0)),
     vt_total = 0, vt_brain = (\<lambda>_. 0)\<rparr>"

definition is_uint256 :: "int \<Rightarrow> bool" where
  "is_uint256 x \<longleftrightarrow> 0 \<le> x \<and> x < 2 ^ 256"

definition checked :: "int \<Rightarrow> int vault_call" where
  "checked x = (if is_uint256 x then Inr x else Inl VaultPanic)"

definition assets_to_shares :: "vault \<Rightarrow> pool_key \<Rightarrow> int \<Rightarrow> int vault_call" where
  "assets_to_shares v p amount =
     (if vt_shares v p = 0 \<or> vt_assets v p = 0 then Inr amount
      else rbind (checked (amount * vt_shares v p)) (\<lambda>x. Inr (x div vt_assets v p)))"

definition assets_to_shares_up :: "vault \<Rightarrow> pool_key \<Rightarrow> int \<Rightarrow> int vault_call" where
  "assets_to_shares_up v p amount =
     (if vt_shares v p = 0 \<or> vt_assets v p = 0 then Inr amount
      else rbind (checked (amount * vt_shares v p)) (\<lambda>x.
           rbind (checked (x + vt_assets v p)) (\<lambda>y.
           rbind (checked (y - 1)) (\<lambda>z. Inr (z div vt_assets v p)))))"

definition shares_to_assets :: "vault \<Rightarrow> pool_key \<Rightarrow> int \<Rightarrow> int vault_call" where
  "shares_to_assets v p shares =
     (if vt_shares v p = 0 then Inr 0
      else rbind (checked (shares * vt_assets v p)) (\<lambda>x. Inr (x div vt_shares v p)))"

text \<open>The three asset counters move together.\<close>

definition add_assets :: "vault \<Rightarrow> pool_key \<Rightarrow> int \<Rightarrow> vault vault_call" where
  "add_assets v p d =
     rbind (checked (vt_assets v p + d)) (\<lambda>a.
     rbind (checked (vt_brain v (fst p) + d)) (\<lambda>b.
     rbind (checked (vt_total v + d)) (\<lambda>t.
       Inr (v\<lparr>vt_assets := (vt_assets v)(p := a), vt_brain := (vt_brain v)(fst p := b), vt_total := t\<rparr>))))"

definition stake :: "bool \<Rightarrow> vault \<Rightarrow> int \<Rightarrow> pystr \<Rightarrow> pystr \<Rightarrow> int \<Rightarrow> vault vault_call" where
  "stake transfers v brain_id validator sender amount =
     (let p = (brain_id, validator)
      in if \<not> is_uint256 amount then Inl VaultBadCalldata
         else if amount = 0 \<or> validator = zero_address then Inl VaultInvalidAmount
         else if vt_shares v p \<noteq> 0 \<and> vt_assets v p = 0 then Inl PoolInsolvent
         else if \<not> transfers then Inl VaultTransferFailed
         else rbind (assets_to_shares v p amount) (\<lambda>shares.
           if shares = 0 then Inl ZeroShares
           else rbind (checked (vt_staker v p sender + shares)) (\<lambda>own.
                rbind (checked (vt_shares v p + shares)) (\<lambda>all_shares.
                  add_assets (v\<lparr>vt_staker := (vt_staker v)(p := (vt_staker v p)(sender := own)),
                                vt_shares := (vt_shares v)(p := all_shares)\<rparr>) p amount))))"

definition request_unstake :: "int \<Rightarrow> vault \<Rightarrow> int \<Rightarrow> pystr \<Rightarrow> pystr \<Rightarrow> int \<Rightarrow> vault vault_call" where
  "request_unstake timestamp v brain_id validator sender amount =
     (let p = (brain_id, validator); owned = vt_staker v p sender; unlock_at = timestamp mod 2 ^ 64 + UNSTAKE_COOLDOWN
      in if \<not> is_uint256 amount then Inl VaultBadCalldata
         else if amount = 0 then Inl VaultInvalidAmount
         else if fst (vt_pending v p sender) \<noteq> 0 then Inl PendingUnstakeExists
         else rbind (assets_to_shares_up v p amount) (\<lambda>wanted.
           let shares = (if owned < wanted then owned else wanted)
           in if shares = 0 then Inl InsufficientStake
              else if 2 ^ 64 \<le> unlock_at then Inl VaultPanic
              else rbind (checked (owned - shares)) (\<lambda>rest.
                   rbind (shares_to_assets v p shares) (\<lambda>_.
                     Inr (v\<lparr>vt_staker := (vt_staker v)(p := (vt_staker v p)(sender := rest)),
                            vt_pending := (vt_pending v)(p := (vt_pending v p)(sender := (shares, unlock_at)))\<rparr>)))))"

text \<open>\<open>claimUnstake\<close>, with the amount it pays out.\<close>

definition claim_unstake :: "bool \<Rightarrow> int \<Rightarrow> vault \<Rightarrow> int \<Rightarrow> pystr \<Rightarrow> pystr \<Rightarrow> (vault \<times> int) vault_call" where
  "claim_unstake transfers timestamp v brain_id validator sender =
     (let p = (brain_id, validator); shares = fst (vt_pending v p sender)
      in if shares = 0 then Inl NoPendingUnstake
         else if timestamp < snd (vt_pending v p sender) then Inl UnstakeNotReady
         else rbind (shares_to_assets v p shares) (\<lambda>amount.
              rbind (checked (vt_shares v p - shares)) (\<lambda>all_shares.
              rbind (add_assets (v\<lparr>vt_pending := (vt_pending v)(p := (vt_pending v p)(sender := (0, 0))),
                                   vt_shares := (vt_shares v)(p := all_shares)\<rparr>) p (- amount)) (\<lambda>v'.
                if transfers then Inr (v', amount) else Inl VaultTransferFailed))))"

text \<open>\<open>slash\<close>, with the amount it burns.\<close>

definition slash :: "bool \<Rightarrow> bool \<Rightarrow> vault \<Rightarrow> int \<Rightarrow> pystr \<Rightarrow> int \<Rightarrow> (vault \<times> int) vault_call" where
  "slash is_slasher transfers v brain_id validator amount =
     (let p = (brain_id, validator); cut = (if vt_assets v p < amount then vt_assets v p else amount)
      in if \<not> is_uint256 amount then Inl VaultBadCalldata
         else if \<not> is_slasher then Inl MissingRole
         else if cut = 0 then Inr (v, 0)
         else rbind (add_assets v p (- cut)) (\<lambda>v'. if transfers then Inr (v', cut) else Inl VaultTransferFailed))"

definition notify_reward :: "bool \<Rightarrow> bool \<Rightarrow> vault \<Rightarrow> int \<Rightarrow> pystr \<Rightarrow> int \<Rightarrow> vault vault_call" where
  "notify_reward is_rewarder transfers v brain_id validator amount =
     (let p = (brain_id, validator)
      in if \<not> is_uint256 amount then Inl VaultBadCalldata
         else if \<not> is_rewarder then Inl MissingRole
         else if amount = 0 \<or> validator = zero_address then Inl VaultInvalidAmount
         else if vt_shares v p = 0 then Inl NoStakeToReward
         else if \<not> transfers then Inl VaultTransferFailed
         else add_assets v p amount)"

definition brain_stake :: "vault \<Rightarrow> int \<Rightarrow> int" where
  "brain_stake v brain_id = vt_brain v brain_id"

definition validator_stake :: "vault \<Rightarrow> int \<Rightarrow> pystr \<Rightarrow> int" where
  "validator_stake v brain_id validator = vt_assets v (brain_id, validator)"

definition staker_balance :: "vault \<Rightarrow> int \<Rightarrow> pystr \<Rightarrow> pystr \<Rightarrow> int vault_call" where
  "staker_balance v brain_id validator staker =
     shares_to_assets v (brain_id, validator) (vt_staker v (brain_id, validator) staker)"

definition pending_balance :: "vault \<Rightarrow> int \<Rightarrow> pystr \<Rightarrow> pystr \<Rightarrow> int vault_call" where
  "pending_balance v brain_id validator staker =
     shares_to_assets v (brain_id, validator) (fst (vt_pending v (brain_id, validator) staker))"

definition effective_brain_stake :: "vault \<Rightarrow> int \<Rightarrow> int vault_call" where
  "effective_brain_stake v brain_id =
     rbind (checked (vt_total v * CENTRALIZATION_CAP_BPS)) (\<lambda>x.
       let cap = x div 10000; raw = vt_brain v brain_id in Inr (if cap < raw then cap else raw))"

section \<open>The contract as an event machine\<close>

text \<open>The calls with their senders; the second component counts the tokens the vault has received and paid.\<close>

datatype vault_event =
    Stake bool int pystr pystr int
  | RequestUnstake int int pystr pystr int
  | ClaimUnstake bool int int pystr pystr
  | Slash bool bool int pystr int
  | NotifyReward bool bool int pystr int

fun vault_step :: "vault \<times> int \<Rightarrow> vault_event \<Rightarrow> vault \<times> int" where
  "vault_step (v, held) (Stake tr b a s amount) =
     (case stake tr v b a s amount of Inl e \<Rightarrow> (v, held) | Inr v' \<Rightarrow> (v', held + amount))"
| "vault_step (v, held) (RequestUnstake t b a s amount) =
     (case request_unstake t v b a s amount of Inl e \<Rightarrow> (v, held) | Inr v' \<Rightarrow> (v', held))"
| "vault_step (v, held) (ClaimUnstake tr t b a s) =
     (case claim_unstake tr t v b a s of Inl e \<Rightarrow> (v, held) | Inr (v', paid) \<Rightarrow> (v', held - paid))"
| "vault_step (v, held) (Slash role tr b a amount) =
     (case slash role tr v b a amount of Inl e \<Rightarrow> (v, held) | Inr (v', burned) \<Rightarrow> (v', held - burned))"
| "vault_step (v, held) (NotifyReward role tr b a amount) =
     (case notify_reward role tr v b a amount of Inl e \<Rightarrow> (v, held) | Inr v' \<Rightarrow> (v', held + amount))"

section \<open>Sums over an account mapping\<close>

text \<open>A mapping with finitely many entries other than zero, and its sum.\<close>

definition finite_map :: "('a \<Rightarrow> int) \<Rightarrow> bool" where
  "finite_map f \<longleftrightarrow> finite {x. f x \<noteq> 0}"

definition sum_map :: "('a \<Rightarrow> int) \<Rightarrow> int" where
  "sum_map f = sum f {x. f x \<noteq> 0}"

lemma sum_map_over: "finite S \<Longrightarrow> {x. f x \<noteq> 0} \<subseteq> S \<Longrightarrow> sum_map f = sum f S"
  unfolding sum_map_def by (rule sum.mono_neutral_left) auto

lemma finite_map_upd: "finite_map f \<Longrightarrow> finite_map (f(x := y))"
  unfolding finite_map_def by (rule finite_subset [of _ "insert x {x. f x \<noteq> 0}"]) auto

lemma sum_map_upd:
  assumes "finite_map f"
  shows "sum_map (f(x := y)) = sum_map f - f x + y"
proof -
  let ?S = "insert x {x. f x \<noteq> 0}"
  have fin: "finite ?S" using assms by (simp add: finite_map_def)
  have "sum_map (f(x := y)) = sum (f(x := y)) ?S" by (rule sum_map_over [OF fin]) auto
  also have "\<dots> = y + sum f (?S - {x})" using fin by (subst sum.remove [of _ x]) auto
  also have "sum f (?S - {x}) = sum f ?S - f x" using fin by (subst sum_diff1) auto
  also have "sum f ?S = sum_map f" by (rule sum_map_over [OF fin, symmetric]) auto
  finally show ?thesis by (simp add: fun_upd_def)
qed

lemma sum_map_ge:
  assumes "finite_map f" and "\<And>x. 0 \<le> f x" and "finite S"
  shows "sum f S \<le> sum_map f"
proof -
  have "sum f S \<le> sum f (S \<union> {x. f x \<noteq> 0})"
    using assms by (intro sum_mono2) (auto simp: finite_map_def)
  also have "\<dots> = sum_map f"
    using assms by (intro sum_map_over [symmetric]) (auto simp: finite_map_def)
  finally show ?thesis .
qed

lemma sum_map_zero [simp]: "sum_map (\<lambda>_. 0) = 0" "finite_map (\<lambda>_. 0)"
  by (simp_all add: sum_map_def finite_map_def)

section \<open>Invariants\<close>

text \<open>What a staker has in a pool, exiting shares included.\<close>

definition held_shares :: "vault \<Rightarrow> pool_key \<Rightarrow> pystr \<Rightarrow> int" where
  "held_shares v p a = vt_staker v p a + fst (vt_pending v p a)"

definition vault_ok :: "vault \<Rightarrow> bool" where
  "vault_ok v \<longleftrightarrow>
     (\<forall>p. 0 \<le> vt_assets v p) \<and> (\<forall>p a. 0 \<le> vt_staker v p a \<and> 0 \<le> fst (vt_pending v p a))
     \<and> finite_map (vt_assets v) \<and> vt_total v = sum_map (vt_assets v)
     \<and> (\<forall>b. finite_map (\<lambda>a. vt_assets v (b, a)) \<and> vt_brain v b = sum_map (\<lambda>a. vt_assets v (b, a)))
     \<and> (\<forall>p. finite_map (held_shares v p) \<and> vt_shares v p = sum_map (held_shares v p))
     \<and> (\<forall>p. vt_shares v p = 0 \<longrightarrow> vt_assets v p = 0)"

lemma vault_ok_new: "vault_ok new_vault"
  by (simp add: vault_ok_def new_vault_def held_shares_def [abs_def])

lemma checked_Inr [simp]: "checked x = Inr y \<longleftrightarrow> y = x \<and> is_uint256 x"
  by (auto simp: checked_def)

lemma add_assets_Inr:
  "add_assets v p d = Inr v' \<longleftrightarrow>
     v' = v\<lparr>vt_assets := (vt_assets v)(p := vt_assets v p + d), vt_brain := (vt_brain v)(fst p := vt_brain v (fst p) + d),
            vt_total := vt_total v + d\<rparr>
     \<and> is_uint256 (vt_assets v p + d) \<and> is_uint256 (vt_brain v (fst p) + d) \<and> is_uint256 (vt_total v + d)"
  by (auto simp: add_assets_def)

text \<open>The part of the invariant about assets, and the part about the shares of the pools.\<close>

definition assets_ok :: "vault \<Rightarrow> bool" where
  "assets_ok v \<longleftrightarrow> (\<forall>p. 0 \<le> vt_assets v p) \<and> finite_map (vt_assets v) \<and> vt_total v = sum_map (vt_assets v)
     \<and> (\<forall>b. finite_map (\<lambda>a. vt_assets v (b, a)) \<and> vt_brain v b = sum_map (\<lambda>a. vt_assets v (b, a)))"

definition shares_ok :: "vault \<Rightarrow> bool" where
  "shares_ok v \<longleftrightarrow> (\<forall>p a. 0 \<le> vt_staker v p a \<and> 0 \<le> fst (vt_pending v p a))
     \<and> (\<forall>p. finite_map (held_shares v p) \<and> vt_shares v p = sum_map (held_shares v p))"

lemma vault_ok_iff:
  "vault_ok v \<longleftrightarrow> assets_ok v \<and> shares_ok v \<and> (\<forall>p. vt_shares v p = 0 \<longrightarrow> vt_assets v p = 0)"
  by (auto simp: vault_ok_def assets_ok_def shares_ok_def)

lemma pool_upd:
  "(\<lambda>a. (f(p := x)) (b, a)) = (if fst p = b then (\<lambda>a. f (b, a))(snd p := x) else (\<lambda>a. f (b, a)))"
  by (cases p) (auto simp: fun_eq_iff)

lemma assets_ok_add:
  assumes "assets_ok v" and "add_assets v p d = Inr v'"
  shows "assets_ok v'"
proof -
  note [simp] = sum_map_upd finite_map_upd
  have "0 \<le> vt_assets v p + d" using assms(2) by (simp add: add_assets_Inr is_uint256_def)
  moreover have "finite_map (\<lambda>a. ((vt_assets v)(p := x)) (b, a))" for x b
    using assms(1) unfolding pool_upd by (simp add: assets_ok_def)
  moreover have "sum_map (\<lambda>a. ((vt_assets v)(p := vt_assets v p + d)) (b, a)) = ((vt_brain v)(fst p := vt_brain v (fst p) + d)) b" for b
    using assms(1) unfolding pool_upd by (cases p) (simp add: assets_ok_def)
  ultimately show ?thesis
    using assms by (simp add: assets_ok_def add_assets_Inr)
qed

lemma shares_okD:
  assumes "shares_ok v"
  shows "0 \<le> vt_staker v p a" "0 \<le> fst (vt_pending v p a)" "0 \<le> held_shares v p a"
    "finite_map (held_shares v p)" "vt_shares v p = sum_map (held_shares v p)"
proof -
  note d = assms [unfolded shares_ok_def]
  show nonneg: "0 \<le> vt_staker v p a" "0 \<le> fst (vt_pending v p a)" using d by blast+
  then show "0 \<le> held_shares v p a" by (simp add: held_shares_def)
  show "finite_map (held_shares v p)" "vt_shares v p = sum_map (held_shares v p)" using d by blast+
qed

lemma shares_ok_cong:
  "vt_staker v' = vt_staker v \<Longrightarrow> vt_pending v' = vt_pending v \<Longrightarrow> vt_shares v' = vt_shares v \<Longrightarrow> shares_ok v' = shares_ok v"
  by (simp add: shares_ok_def held_shares_def [abs_def])

lemma assets_ok_cong:
  "vt_assets v' = vt_assets v \<Longrightarrow> vt_brain v' = vt_brain v \<Longrightarrow> vt_total v' = vt_total v \<Longrightarrow> assets_ok v' = assets_ok v"
  by (simp add: assets_ok_def)

lemma add_assets_shares:
  assumes "add_assets v p d = Inr v'"
  shows "vt_shares v' = vt_shares v" "vt_staker v' = vt_staker v" "vt_pending v' = vt_pending v" "shares_ok v' = shares_ok v"
proof -
  show "vt_shares v' = vt_shares v" "vt_staker v' = vt_staker v" "vt_pending v' = vt_pending v"
    using assms by (simp_all add: add_assets_Inr)
  then show "shares_ok v' = shares_ok v" by (intro shares_ok_cong)
qed

text \<open>One staker's shares of one pool change, and the pool's shares with them.\<close>

lemma shares_ok_upd:
  assumes "shares_ok v" and "0 \<le> vt_staker v' p a" and "0 \<le> fst (vt_pending v' p a)"
    and "\<And>q c. (q, c) \<noteq> (p, a) \<Longrightarrow> vt_staker v' q c = vt_staker v q c \<and> vt_pending v' q c = vt_pending v q c"
    and "vt_shares v' = (vt_shares v)(p := vt_shares v p - held_shares v p a + held_shares v' p a)"
  shows "shares_ok v'"
proof -
  define n where "n = held_shares v' p a"
  have upd: "held_shares v' q = (if q = p then (held_shares v p)(a := n) else held_shares v q)" for q
    using assms(4) by (auto simp: fun_eq_iff held_shares_def n_def)
  have "finite_map (held_shares v' q)" for q
    unfolding upd by (simp add: shares_okD [OF assms(1)] finite_map_upd)
  moreover have "vt_shares v' q = sum_map (held_shares v' q)" for q
    unfolding upd assms(5) n_def [symmetric] by (simp add: shares_okD [OF assms(1)] sum_map_upd)
  moreover have "0 \<le> vt_staker v' q c \<and> 0 \<le> fst (vt_pending v' q c)" for q c
    using assms(2-4) shares_okD [OF assms(1)] by (cases "(q, c) = (p, a)") auto
  ultimately show ?thesis by (simp add: shares_ok_def)
qed

lemma held_le_shares:
  assumes "shares_ok v"
  shows "held_shares v p a \<le> vt_shares v p"
  using sum_map_ge [of "held_shares v p" "{a}"] shares_okD [OF assms] by simp

lemma assets_le:
  assumes "assets_ok v"
  shows "0 \<le> vt_assets v (b, a)" "vt_assets v (b, a) \<le> vt_brain v b" "vt_brain v b \<le> vt_total v"
proof -
  note d = assms [unfolded assets_ok_def]
  have nonneg: "0 \<le> vt_assets v q" for q using d by blast
  have f: "finite_map (vt_assets v)" "finite_map (\<lambda>a. vt_assets v (b, a))"
    and eq: "vt_brain v b = sum_map (\<lambda>a. vt_assets v (b, a))" "vt_total v = sum_map (vt_assets v)"
    using d by blast+
  show "0 \<le> vt_assets v (b, a)" by (rule nonneg)
  show "vt_assets v (b, a) \<le> vt_brain v b"
    using sum_map_ge [OF f(2) nonneg, of "{a}"] by (simp add: eq)
  let ?S = "{a. vt_assets v (b, a) \<noteq> 0}"
  have "vt_brain v b = sum (vt_assets v) (Pair b ` ?S)"
    unfolding eq sum_map_def by (subst sum.reindex) (auto intro: inj_onI)
  also have "\<dots> \<le> vt_total v"
    unfolding eq using f(2) by (intro sum_map_ge [OF f(1) nonneg]) (simp add: finite_map_def)
  finally show "vt_brain v b \<le> vt_total v" .
qed

lemma checked_div_nonneg: "0 \<le> x \<Longrightarrow> 0 \<le> y \<Longrightarrow> 0 \<le> x div y" for x y :: int
  by (cases "y = 0") (simp_all add: pos_imp_zdiv_nonneg_iff)

lemma assets_to_shares_nonneg:
  "assets_ok v \<Longrightarrow> 0 \<le> amount \<Longrightarrow> assets_to_shares v p amount = Inr s \<Longrightarrow> 0 \<le> s"
  "assets_ok v \<Longrightarrow> 0 \<le> amount \<Longrightarrow> assets_to_shares_up v p amount = Inr s \<Longrightarrow> 0 \<le> s"
  by (cases p; auto simp: assets_to_shares_def assets_to_shares_up_def is_uint256_def assets_le(1) checked_div_nonneg split: if_splits)+

lemma stake_Inr:
  assumes "stake tr v b a s amount = Inr v'"
  obtains n where "is_uint256 amount" and "amount \<noteq> 0" and "a \<noteq> zero_address"
    and "vt_shares v (b, a) = 0 \<or> vt_assets v (b, a) \<noteq> 0"
    and "assets_to_shares v (b, a) amount = Inr n" and "n \<noteq> 0" and "is_uint256 (vt_shares v (b, a) + n)"
    and "add_assets (v\<lparr>vt_staker := (vt_staker v)((b, a) := (vt_staker v (b, a))(s := vt_staker v (b, a) s + n)),
                   vt_shares := (vt_shares v)((b, a) := vt_shares v (b, a) + n)\<rparr>) (b, a) amount = Inr v'"
  using assms by (auto simp: stake_def Let_def split: if_splits)

lemma stake_ok:
  assumes ok: "vault_ok v" and st: "stake tr v b a s amount = Inr v'"
  shows "vault_ok v' \<and> vt_total v' = vt_total v + amount"
proof -
  let ?p = "(b, a)"
  obtain n where guards: "is_uint256 amount" "assets_to_shares v ?p amount = Inr n" "n \<noteq> 0"
    and v': "add_assets (v\<lparr>vt_staker := (vt_staker v)(?p := (vt_staker v ?p)(s := vt_staker v ?p s + n)),
                   vt_shares := (vt_shares v)(?p := vt_shares v ?p + n)\<rparr>) ?p amount = Inr v'"
    using st by (rule stake_Inr)
  let ?w = "v\<lparr>vt_staker := (vt_staker v)(?p := (vt_staker v ?p)(s := vt_staker v ?p s + n)),
               vt_shares := (vt_shares v)(?p := vt_shares v ?p + n)\<rparr>"
  have ok': "assets_ok v" "shares_ok v" using ok by (simp_all add: vault_ok_iff)
  have n: "0 < n" using assets_to_shares_nonneg(1) [OF ok'(1) _ guards(2)] guards(1,3) by (simp add: is_uint256_def)
  have "shares_ok ?w"
    by (rule shares_ok_upd [OF ok'(2), of _ ?p s])
      (use shares_okD(1,2) [OF ok'(2), of ?p s] n in \<open>auto simp: held_shares_def split: if_splits\<close>)
  moreover have "assets_ok ?w" using ok'(1) by (simp cong: assets_ok_cong)
  ultimately have "shares_ok v'" "assets_ok v'"
    using assets_ok_add [OF _ v'] add_assets_shares(4) [OF v'] by simp_all
  moreover have "vt_shares v' q = 0 \<longrightarrow> vt_assets v' q = 0" for q
  proof -
    have "0 \<le> vt_shares v ?p" using held_le_shares [OF ok'(2), of ?p s] shares_okD(3) [OF ok'(2), of ?p s] by simp
    then show ?thesis using ok n v' by (cases q) (auto simp: vault_ok_iff add_assets_Inr)
  qed
  ultimately show ?thesis using v' by (simp add: vault_ok_iff add_assets_Inr)
qed

lemma request_unstake_ok:
  assumes ok: "vault_ok v" and rq: "request_unstake t v b a s amount = Inr v'"
  shows "vault_ok v' \<and> vt_total v' = vt_total v"
proof -
  let ?p = "(b, a)" and ?own = "vt_staker v (b, a) s"
  have ok': "assets_ok v" "shares_ok v" using ok by (simp_all add: vault_ok_iff)
  obtain wanted where w: "assets_to_shares_up v ?p amount = Inr wanted" "0 \<le> amount" "fst (vt_pending v ?p s) = 0"
    and v': "v' = v\<lparr>vt_staker := (vt_staker v)(?p := (vt_staker v ?p)(s := ?own - min ?own wanted)),
                    vt_pending := (vt_pending v)(?p := (vt_pending v ?p)(s := (min ?own wanted, t mod 2 ^ 64 + UNSTAKE_COOLDOWN)))\<rparr>"
    using rq by (auto simp: request_unstake_def Let_def is_uint256_def min_def split: if_splits)
  have "0 \<le> wanted" using assets_to_shares_nonneg(2) [OF ok'(1) w(2,1)] .
  then have "shares_ok v'"
    by (intro shares_ok_upd [OF ok'(2), of _ ?p s])
      (use shares_okD(1) [OF ok'(2), of ?p s] w(3) in \<open>auto simp: v' held_shares_def split: if_splits\<close>)
  moreover have "assets_ok v' = assets_ok v" by (rule assets_ok_cong) (simp_all add: v')
  ultimately show ?thesis using ok ok' by (simp add: vault_ok_iff v')
qed

text \<open>What a claim takes and pays: the exiting shares at the pool's current price.\<close>

lemma claim_unstake_Inr:
  assumes "claim_unstake tr t v b a s = Inr (v', paid)"
  obtains k where "fst (vt_pending v (b, a) s) = k" and "k \<noteq> 0" and "shares_to_assets v (b, a) k = Inr paid"
    and "add_assets (v\<lparr>vt_pending := (vt_pending v)((b, a) := (vt_pending v (b, a))(s := (0, 0))),
                      vt_shares := (vt_shares v)((b, a) := vt_shares v (b, a) - k)\<rparr>) (b, a) (- paid) = Inr v'"
  using assms by (auto simp: claim_unstake_def Let_def split: if_splits)

lemma claim_unstake_ok:
  assumes ok: "vault_ok v" and cl: "claim_unstake tr t v b a s = Inr (v', paid)"
  shows "vault_ok v' \<and> vt_total v' = vt_total v - paid"
proof -
  let ?p = "(b, a)"
  obtain k where k: "fst (vt_pending v ?p s) = k" "k \<noteq> 0" and paid: "shares_to_assets v ?p k = Inr paid"
    and v': "add_assets (v\<lparr>vt_pending := (vt_pending v)(?p := (vt_pending v ?p)(s := (0, 0))),
                      vt_shares := (vt_shares v)(?p := vt_shares v ?p - k)\<rparr>) ?p (- paid) = Inr v'"
    using cl by (rule claim_unstake_Inr)
  let ?w = "v\<lparr>vt_pending := (vt_pending v)(?p := (vt_pending v ?p)(s := (0, 0))),
              vt_shares := (vt_shares v)(?p := vt_shares v ?p - k)\<rparr>"
  have ok': "assets_ok v" "shares_ok v" using ok by (simp_all add: vault_ok_iff)
  have "shares_ok ?w"
    by (rule shares_ok_upd [OF ok'(2), of _ ?p s])
      (use shares_okD(1,2) [OF ok'(2), of ?p s] k in \<open>auto simp: held_shares_def split: if_splits\<close>)
  moreover have "assets_ok ?w" using ok'(1) by (simp cong: assets_ok_cong)
  ultimately have both: "shares_ok v'" "assets_ok v'"
    using assets_ok_add [OF _ v'] add_assets_shares(4) [OF v'] by simp_all
  have "vt_assets v' ?p = 0" if "vt_shares v ?p = k"
    using that paid v' k by (auto simp: shares_to_assets_def add_assets_Inr split: if_splits)
  moreover have "vt_shares v' = (vt_shares v)(?p := vt_shares v ?p - k)" "vt_total v' = vt_total v - paid"
    "vt_assets v' = (vt_assets v)(?p := vt_assets v ?p - paid)"
    using v' by (simp_all add: add_assets_Inr)
  ultimately show ?thesis using both ok by (auto simp: vault_ok_iff)
qed

lemma asset_change_ok:
  assumes "vault_ok v" and "add_assets v p d = Inr v'" and "vt_shares v p = 0 \<longrightarrow> d = 0"
  shows "vault_ok v' \<and> vt_total v' = vt_total v + d"
proof -
  have "vt_shares v' q = 0 \<longrightarrow> vt_assets v' q = 0" for q
    using assms by (cases p; cases q) (auto simp: vault_ok_iff add_assets_Inr)
  with assms assets_ok_add [OF _ assms(2)] add_assets_shares [OF assms(2)] show ?thesis
    by (simp add: vault_ok_iff add_assets_Inr)
qed

lemma slash_ok:
  assumes ok: "vault_ok v" and sl: "slash role tr v b a amount = Inr (v', burned)"
  shows "vault_ok v' \<and> vt_total v' = vt_total v - burned"
proof -
  consider "v' = v" "burned = 0" | "add_assets v (b, a) (- burned) = Inr v'" "burned \<le> vt_assets v (b, a)" "0 \<le> amount" "burned = min (vt_assets v (b, a)) amount"
    using sl by (auto simp: slash_def Let_def is_uint256_def split: if_splits)
  then show ?thesis
  proof cases
    case 2
    have "0 \<le> vt_assets v (b, a)" using ok assets_le(1) by (simp add: vault_ok_iff)
    then have "vt_shares v (b, a) = 0 \<longrightarrow> - burned = 0" using ok 2 by (auto simp: vault_ok_iff)
    from asset_change_ok [OF ok 2(1) this] show ?thesis by simp
  qed (use ok in simp)
qed

lemma notify_reward_ok:
  assumes "vault_ok v" and "notify_reward role tr v b a amount = Inr v'"
  shows "vault_ok v' \<and> vt_total v' = vt_total v + amount"
  using assms by (intro asset_change_ok [of v "(b, a)"]) (auto simp: notify_reward_def Let_def split: if_splits)

text \<open>The counters fit their words.\<close>

definition words_ok :: "vault \<Rightarrow> bool" where
  "words_ok v \<longleftrightarrow> vt_total v < 2 ^ 256 \<and> (\<forall>p. vt_shares v p < 2 ^ 256)"

lemma words_ok_add:
  "add_assets v p d = Inr v' \<Longrightarrow> (\<And>q. vt_shares v q < 2 ^ 256) \<Longrightarrow> words_ok v'"
  by (simp add: words_ok_def add_assets_Inr is_uint256_def)

lemma words_ok_step:
  assumes w: "words_ok v" and ok: "vault_ok v"
  shows "words_ok (fst (vault_step (v, held) ev))"
proof (cases ev)
  case (Stake tr b a s amount)
  have "words_ok v'" if st: "stake tr v b a s amount = Inr v'" for v'
    using w by (rule_tac stake_Inr [OF st]) (rule words_ok_add, assumption, auto simp: words_ok_def is_uint256_def)
  with w Stake show ?thesis by (auto split: sum.splits)
next
  case (ClaimUnstake tr t b a s)
  have "words_ok v'" if cl: "claim_unstake tr t v b a s = Inr (v', paid)" for v' paid
  proof (rule claim_unstake_Inr [OF cl])
    fix k
    assume k: "fst (vt_pending v (b, a) s) = k"
      and add: "add_assets (v\<lparr>vt_pending := (vt_pending v)((b, a) := (vt_pending v (b, a))(s := (0, 0))),
                      vt_shares := (vt_shares v)((b, a) := vt_shares v (b, a) - k)\<rparr>) (b, a) (- paid) = Inr v'"
    have "0 \<le> k" using shares_okD(2) [of v "(b, a)" s] ok k by (simp add: vault_ok_iff)
    with w show ?thesis by (intro words_ok_add [OF add]) (auto simp: words_ok_def intro: order.strict_trans1 [of _ "vt_shares v (b, a)"])
  qed
  with w ClaimUnstake show ?thesis by (auto split: sum.splits)
next
  case (RequestUnstake t b a s amount)
  with w show ?thesis
    by (auto simp: request_unstake_def Let_def words_ok_def split: sum.splits if_splits)
next
  case (Slash role tr b a amount)
  with w show ?thesis
    by (auto simp: slash_def Let_def words_ok_def split: sum.splits if_splits dest!: words_ok_add)
next
  case (NotifyReward role tr b a amount)
  with w show ?thesis
    by (auto simp: notify_reward_def Let_def words_ok_def split: sum.splits if_splits dest!: words_ok_add)
qed

interpretation vault_machine: event_machine vault_step "\<lambda>x. x = (new_vault, 0)"
    "\<lambda>x. vault_ok (fst x) \<and> words_ok (fst x) \<and> vt_total (fst x) = snd x"
proof
  show "x = (new_vault, 0) \<Longrightarrow> vault_ok (fst x) \<and> words_ok (fst x) \<and> vt_total (fst x) = snd x" for x
    by (simp add: vault_ok_new) (simp add: new_vault_def words_ok_def)
next
  fix x ev
  assume inv: "vault_ok (fst x) \<and> words_ok (fst x) \<and> vt_total (fst x) = snd x"
  obtain v held where x: "x = (v, held)" by (cases x)
  with inv have v: "vault_ok v" "words_ok v" "vt_total v = held" by simp_all
  have "vault_ok (fst (vault_step x ev)) \<and> vt_total (fst (vault_step x ev)) = snd (vault_step x ev)"
    using v stake_ok [OF v(1)] request_unstake_ok [OF v(1)] claim_unstake_ok [OF v(1)] slash_ok [OF v(1)]
      notify_reward_ok [OF v(1)]
    by (cases ev) (auto simp: x split: sum.splits)
  with words_ok_step [OF v(2,1), of held ev] x
  show "vault_ok (fst (vault_step x ev)) \<and> words_ok (fst (vault_step x ev))
      \<and> vt_total (fst (vault_step x ev)) = snd (vault_step x ev)" by simp
qed

definition vault_reachable :: "vault \<Rightarrow> bool" where
  "vault_reachable v \<longleftrightarrow> (\<exists>evs. v = fst (foldl vault_step (new_vault, 0) evs))"

lemma vault_reachable_ok: "vault_reachable v \<Longrightarrow> vault_ok v \<and> words_ok v"
  unfolding vault_reachable_def using vault_machine.reachable_inv [of "(new_vault, 0)"] by blast

section \<open>Properties\<close>

text \<open>
  The vault's books balance: after any calls it accounts for exactly the tokens it has taken in and
  not paid out or burned, and in them the stake of any set of validators of a Brain is at most the
  Brain's, the Brain's at most the total, and no stake is negative.
\<close>
theorem vault_books_balance:
  assumes "foldl vault_step (new_vault, 0) evs = (v, held)" and "finite S"
  shows "vt_total v = held \<and> (\<forall>a. 0 \<le> validator_stake v b a)
    \<and> (\<Sum>a \<in> S. validator_stake v b a) \<le> brain_stake v b \<and> brain_stake v b \<le> vt_total v"
proof -
  have ok: "vault_ok v" "vt_total v = held"
    using vault_machine.reachable_inv [of "(new_vault, 0)" evs] assms(1) by simp_all
  then have assets: "assets_ok v" by (simp add: vault_ok_iff)
  have "(\<Sum>a \<in> S. vt_assets v (b, a)) \<le> vt_brain v b"
    using assets assets_le(1) [OF assets] assms(2) sum_map_ge [of "\<lambda>a. vt_assets v (b, a)" S] by (simp add: assets_ok_def)
  with ok(2) assets_le [OF assets] show ?thesis
    by (simp add: validator_stake_def brain_stake_def)
qed

text \<open>A price is kept when the assets grow at least in proportion to the shares.\<close>

lemma price_kept:
  fixes A A' S S' n :: int
  assumes "A * S' \<le> A' * S" and "0 < S" and "0 < S'" and "0 \<le> n"
  shows "n * A div S \<le> n * A' div S'"
proof -
  let ?q = "n * A div S"
  have "?q * S \<le> n * A" using assms(2) by (simp add: minus_mod_eq_div_mult [symmetric])
  then have "(?q * S) * S' \<le> (n * A) * S'" using assms(3) by (intro mult_right_mono) simp_all
  also have "\<dots> \<le> n * (A' * S)" using mult_left_mono [OF assms(1,4)] by (simp add: mult.assoc)
  finally have "S * (?q * S') \<le> S * (n * A')" by (simp add: algebra_simps)
  then have "?q * S' \<le> n * A'" using assms(2) by (simp only: mult_le_cancel_left_pos)
  from zdiv_mono1 [OF this assms(3)] assms(3) show ?thesis by simp
qed


lemma div_mult_le: "0 < S \<Longrightarrow> x div S * S \<le> x" for x S :: int
  by (simp add: minus_mod_eq_div_mult [symmetric])

lemma stake_keeps_price:
  assumes ok: "vault_ok v" and st: "stake tr v b a s amount = Inr v'" and pos: "0 < vt_shares v p"
  shows "vt_assets v p * vt_shares v' p \<le> vt_assets v' p * vt_shares v p"
proof (rule stake_Inr [OF st])
  fix n
  assume live: "vt_shares v (b, a) = 0 \<or> vt_assets v (b, a) \<noteq> 0" and n: "assets_to_shares v (b, a) amount = Inr n"
    and add: "add_assets (v\<lparr>vt_staker := (vt_staker v)((b, a) := (vt_staker v (b, a))(s := vt_staker v (b, a) s + n)),
                   vt_shares := (vt_shares v)((b, a) := vt_shares v (b, a) + n)\<rparr>) (b, a) amount = Inr v'"
  have v': "vt_assets v' = (vt_assets v)((b, a) := vt_assets v (b, a) + amount)"
    "vt_shares v' = (vt_shares v)((b, a) := vt_shares v (b, a) + n)"
    using add by (simp_all add: add_assets_Inr)
  show ?thesis
  proof (cases "p = (b, a)")
    case True
    with live pos have A: "0 < vt_assets v (b, a)" using ok assets_le(1) [of v b a] by (auto simp: vault_ok_iff)
    with n pos True have "n = amount * vt_shares v p div vt_assets v p"
      by (auto simp: assets_to_shares_def split: if_splits)
    with A True have "n * vt_assets v p \<le> amount * vt_shares v p" by (simp add: div_mult_le)
    with True v' show ?thesis by (simp add: algebra_simps)
  qed (simp add: v')
qed

lemma claim_keeps_price:
  assumes ok: "vault_ok v" and cl: "claim_unstake tr t v b a s = Inr (v', paid)" and pos: "0 < vt_shares v p"
  shows "vt_assets v p * vt_shares v' p \<le> vt_assets v' p * vt_shares v p"
proof (rule claim_unstake_Inr [OF cl])
  fix k
  assume paid: "shares_to_assets v (b, a) k = Inr paid"
    and add: "add_assets (v\<lparr>vt_pending := (vt_pending v)((b, a) := (vt_pending v (b, a))(s := (0, 0))),
                      vt_shares := (vt_shares v)((b, a) := vt_shares v (b, a) - k)\<rparr>) (b, a) (- paid) = Inr v'"
  have v': "vt_assets v' = (vt_assets v)((b, a) := vt_assets v (b, a) - paid)"
    "vt_shares v' = (vt_shares v)((b, a) := vt_shares v (b, a) - k)"
    using add by (simp_all add: add_assets_Inr)
  show ?thesis
  proof (cases "p = (b, a)")
    case True
    with paid pos have "paid = k * vt_assets v p div vt_shares v p"
      by (auto simp: shares_to_assets_def split: if_splits)
    with pos have "paid * vt_shares v p \<le> k * vt_assets v p" by (simp add: div_mult_le)
    with True v' show ?thesis by (simp add: algebra_simps)
  qed (simp add: v')
qed

lemma other_calls_keep_price:
  "request_unstake t v b a s amount = Inr v' \<Longrightarrow> vt_assets v' = vt_assets v \<and> vt_shares v' = vt_shares v"
  "notify_reward role tr v b a amount = Inr v' \<Longrightarrow>
     vt_shares v' = vt_shares v \<and> (\<forall>p. vt_assets v p \<le> vt_assets v' p)"
  by (auto simp: request_unstake_def notify_reward_def Let_def add_assets_Inr is_uint256_def split: if_splits)

definition is_slash :: "vault_event \<Rightarrow> bool" where
  "is_slash ev \<longleftrightarrow> (case ev of Slash _ _ _ _ _ \<Rightarrow> True | _ \<Rightarrow> False)"

text \<open>
  Only slashing lowers what a share is worth: in every reachable state, whatever others stake,
  exit, claim or add as rewards, the assets any number of shares of a pool stand for, rounded down
  as the vault rounds them, do not fall, so rounding never favours the caller over the others.
\<close>
theorem only_slashing_lowers_shares:
  assumes "vault_reachable v" and "\<not> is_slash ev" and "fst (vault_step (v, held) ev) = v'"
    and "0 < vt_shares v p" and "0 < vt_shares v' p" and "0 \<le> n"
  shows "n * vt_assets v p div vt_shares v p \<le> n * vt_assets v' p div vt_shares v' p"
proof (rule price_kept [OF _ assms(4-6)])
  have ok: "vault_ok v" using vault_reachable_ok [OF assms(1)] by simp
  show "vt_assets v p * vt_shares v' p \<le> vt_assets v' p * vt_shares v p"
  proof (cases ev)
    case (NotifyReward role tr b a amount)
    then show ?thesis
      using assms(3,4) other_calls_keep_price(2) [of role tr v b a amount v']
      by (cases p) (auto split: sum.splits intro: mult_right_mono)
  qed (use assms(2-4) stake_keeps_price [OF ok _ assms(4)] claim_keeps_price [OF ok _ assms(4)] other_calls_keep_price(1)
       in \<open>auto simp: is_slash_def split: sum.splits\<close>)
qed

text \<open>
  An exit is paid and cannot dodge a slash: in every reachable state a pending unstake whose cooldown
  is over can be claimed, as long as the product of the conversion fits a word and the token transfer
  succeeds, for the value its shares have at that moment; after a slash of the whole pool during the
  cooldown that value is nothing, for the exiting staker as for everyone else.
\<close>
theorem exit_is_paid_and_slashable:
  assumes "vault_reachable v" and "vt_pending v (b, a) s = (k, unlock_at)" and "k \<noteq> 0" and "unlock_at \<le> t"
    and "is_uint256 (k * vt_assets v (b, a))"
  shows "(\<exists>v'. claim_unstake True t v b a s = Inr (v', k * vt_assets v (b, a) div vt_shares v (b, a)))
    \<and> (\<exists>v'. slash True True v b a (vt_assets v (b, a)) = Inr (v', vt_assets v (b, a))
         \<and> (\<exists>v''. claim_unstake True t v' b a s = Inr (v'', 0))
         \<and> (\<forall>c. staker_balance v' b a c = Inr 0 \<and> pending_balance v' b a c = Inr 0))"
proof -
  let ?p = "(b, a)"
  have ok: "assets_ok v" "shares_ok v" and words: "words_ok v"
    using vault_reachable_ok [OF assms(1)] by (simp_all add: vault_ok_iff)
  have k: "0 < k" "k \<le> vt_shares v ?p"
    using shares_okD(1,2) [OF ok(2), of ?p s] held_le_shares [OF ok(2), of ?p s] assms(2,3)
    by (auto simp: held_shares_def)
  note A = assets_le(1,2) [OF ok(1), of b a] assets_le(3) [OF ok(1), of b]
  have total: "vt_total v < 2 ^ 256" "vt_shares v ?p < 2 ^ 256" using words by (simp_all add: words_ok_def)
  let ?paid = "k * vt_assets v ?p div vt_shares v ?p"
  have "k * vt_assets v ?p \<le> vt_shares v ?p * vt_assets v ?p" using k(2) A(1) by (rule mult_right_mono)
  then have "?paid \<le> vt_shares v ?p * vt_assets v ?p div vt_shares v ?p" using k by (intro zdiv_mono1) simp_all
  then have paid: "0 \<le> ?paid" "?paid \<le> vt_assets v ?p" using k A(1) by (simp_all add: checked_div_nonneg)
  have "is_uint256 (vt_assets v ?p - ?paid)" "is_uint256 (vt_brain v b - ?paid)" "is_uint256 (vt_total v - ?paid)"
    "is_uint256 (vt_shares v ?p - k)"
    using paid A total k by (simp_all add: is_uint256_def)
  then have "\<exists>v'. claim_unstake True t v b a s = Inr (v', ?paid)"
    using assms(2-5) k by (simp add: claim_unstake_def Let_def shares_to_assets_def checked_def add_assets_def)
  moreover have "\<exists>v'. slash True True v b a (vt_assets v ?p) = Inr (v', vt_assets v ?p)
      \<and> vt_assets v' ?p = 0 \<and> vt_shares v' = vt_shares v \<and> vt_pending v' = vt_pending v
      \<and> 0 \<le> vt_brain v' b \<and> vt_brain v' b < 2 ^ 256 \<and> 0 \<le> vt_total v' \<and> vt_total v' < 2 ^ 256"
    using A total by (simp add: slash_def Let_def add_assets_def checked_def is_uint256_def)
  then obtain v' where v': "slash True True v b a (vt_assets v ?p) = Inr (v', vt_assets v ?p)"
      "vt_assets v' ?p = 0" "vt_shares v' = vt_shares v" "vt_pending v' = vt_pending v"
      "0 \<le> vt_brain v' b" "vt_brain v' b < 2 ^ 256" "0 \<le> vt_total v'" "vt_total v' < 2 ^ 256" by blast
  moreover have "\<exists>v''. claim_unstake True t v' b a s = Inr (v'', 0)"
    using assms(2-4) k v' total by (simp add: claim_unstake_def Let_def shares_to_assets_def checked_def add_assets_def is_uint256_def)
  moreover have "staker_balance v' b a c = Inr 0 \<and> pending_balance v' b a c = Inr 0" for c
    using v'(2) by (simp add: staker_balance_def pending_balance_def shares_to_assets_def checked_def is_uint256_def)
  ultimately show ?thesis by blast
qed

section \<open>Concrete runs\<close>

text \<open>Two stakers of one pool, and an exit of the first.\<close>

abbreviation demo_pool_key :: pool_key where
  "demo_pool_key \<equiv> (8, hex0x [1])"

abbreviation demo_stakes :: "vault_event list" where
  "demo_stakes \<equiv> [Stake True 8 (hex0x [1]) (hex0x [7]) 100, Stake True 8 (hex0x [1]) (hex0x [8]) 50,
     RequestUnstake 1000 8 (hex0x [1]) (hex0x [7]) 40]"

definition demo_staked :: vault where
  "demo_staked = \<lparr>vt_assets = (\<lambda>_. 0)(demo_pool_key := 150), vt_shares = (\<lambda>_. 0)(demo_pool_key := 150),
     vt_staker = (\<lambda>_ _. 0)(demo_pool_key := (\<lambda>_. 0)(hex0x [7] := 60, hex0x [8] := 50)),
     vt_pending = (\<lambda>_ _. (0, 0))(demo_pool_key := (\<lambda>_. (0, 0))(hex0x [7] := (40, 1210600))),
     vt_total = 150, vt_brain = (\<lambda>_. 0)(8 := 150)\<rparr>"

lemma hex0x_not_zero_address: "hex0x [x] \<noteq> zero_address"
proof -
  have "length (hex0x [x]) \<noteq> length zero_address" by (simp add: hex0x_def zero_address_def)
  then show ?thesis by metis
qed

lemma demo_vault_run: "foldl vault_step (new_vault, 0) demo_stakes = (demo_staked, 150)"
  by (simp add: stake_def request_unstake_def assets_to_shares_def assets_to_shares_up_def shares_to_assets_def
      add_assets_def checked_def is_uint256_def new_vault_def demo_staked_def hex0x_not_zero_address Let_def
      UNSTAKE_COOLDOWN_def fun_eq_iff)

lemma demo_vault_reachable: "vault_reachable demo_staked"
  unfolding vault_reachable_def by (rule exI [of _ demo_stakes]) (simp only: demo_vault_run fst_conv)

theorem vault_books_balance_witness:
  "(\<Sum>a \<in> {hex0x [1]}. validator_stake demo_staked 8 a) \<le> brain_stake demo_staked 8"
  using vault_books_balance [OF demo_vault_run, of "{hex0x [1]}" 8] by blast

theorem only_slashing_lowers_shares_witness:
  "60 * 150 div 150 \<le> 60 * vt_assets (fst (vault_step (demo_staked, 150) (NotifyReward True True 8 (hex0x [1]) 30))) demo_pool_key
     div (150 :: int)"
  using only_slashing_lowers_shares [OF demo_vault_reachable, of "NotifyReward True True 8 (hex0x [1]) 30" 150 _ demo_pool_key 60]
  by (simp add: is_slash_def notify_reward_def add_assets_def checked_def is_uint256_def demo_staked_def
      hex0x_not_zero_address Let_def)

theorem exit_is_paid_and_slashable_witness:
  "(\<exists>v'. claim_unstake True 1210600 demo_staked 8 (hex0x [1]) (hex0x [7]) = Inr (v', 40))
   \<and> (\<exists>v'. slash True True demo_staked 8 (hex0x [1]) 150 = Inr (v', 150)
        \<and> (\<exists>v''. claim_unstake True 1210600 v' 8 (hex0x [1]) (hex0x [7]) = Inr (v'', 0)))"
  using exit_is_paid_and_slashable [OF demo_vault_reachable, of 8 "hex0x [1]" "hex0x [7]" 40 1210600 1210600]
  by (auto simp: demo_staked_def is_uint256_def)

end
