(* ===== verification/Registry.thy ===== *)
theory Registry imports Aggregator Vault
begin

text \<open>
  \<open>contracts/src/scoring/ScoringRegistry.sol\<close>: the epochs' commitments on chain, with the quorum taken from
  the vault of theory Vault. A call gets the block's time; a reverted one is a \<open>registry_error\<close>. Addresses
  are values in the contract and stand here as their checksummed texts, signatures as the texts whose
  bytes are sent. Events and the address of the challenger are left out.
\<close>

section \<open>The contract\<close>

datatype registry_error =
    ZeroRoot | EpochInTheFuture | EpochNotComplete | EpochAlreadyProposed | LengthMismatch | NoSigners
  | SignersNotSorted | RegistryInvalidSignature | EmptyQuorum | InsufficientSignerStake
  | EpochNotProposed | EpochAlreadyInvalidated | ChallengeWindowOpen | SameRoot | NotACommitmentSigner
  | NotEquivocation | SlashReverted vault_error | RegistryPanic | RegistryBadCalldata

type_synonym 'a registry_call = "registry_error + 'a"

definition EPOCH_LENGTH :: int where "EPOCH_LENGTH = 3600"

definition CHALLENGE_WINDOW :: int where "CHALLENGE_WINDOW = 3600"

definition zero_root :: bytes where "zero_root = replicate 32 0"

record epoch_commitment =
  ec_root :: bytes
  ec_proposed_at :: int
  ec_finalized_at :: int
  ec_signer_count :: int
  ec_signer_stake :: int
  ec_invalidated :: bool

record registry =
  rg_epochs :: "int \<times> int \<Rightarrow> epoch_commitment"
  rg_signed_roots :: "int \<times> int \<times> pystr \<Rightarrow> bytes"
  rg_signers :: "int \<times> int \<times> pystr \<Rightarrow> bool"

definition no_commitment :: epoch_commitment where
  "no_commitment = \<lparr>ec_root = zero_root, ec_proposed_at = 0, ec_finalized_at = 0, ec_signer_count = 0,
     ec_signer_stake = 0, ec_invalidated = False\<rparr>"

definition new_registry :: registry where
  "new_registry = \<lparr>rg_epochs = (\<lambda>_. no_commitment), rg_signed_roots = (\<lambda>_. zero_root), rg_signers = (\<lambda>_. False)\<rparr>"

text \<open>Where the contract lives: chain, address and genesis.\<close>

record registry_site =
  rs_chain :: int
  rs_address :: pystr
  rs_genesis :: int

text \<open>\<open>currentEpoch\<close> at a block of this timestamp, with its cast to 64 bits.\<close>

definition current_epoch :: "int \<Rightarrow> int \<Rightarrow> int" where
  "current_epoch genesis timestamp =
     (if timestamp < genesis then 0 else ((timestamp - genesis) div EPOCH_LENGTH) mod 2 ^ 64)"

text \<open>\<open>commitmentDigest\<close>; the message prefix of EIP-191 belongs to \<open>recover_message\<close>.\<close>

definition registry_digest :: "ethlib \<Rightarrow> registry_site \<Rightarrow> int \<Rightarrow> int \<Rightarrow> bytes \<Rightarrow> bytes res" where
  "registry_digest E site epoch brain_id merkle_root =
     rbind (abi_encode E (commitment_fields E (rs_chain site) (rs_address site) epoch brain_id merkle_root)) (\<lambda>enc.
       Inr (keccak E enc))"

text \<open>\<open>ECDSA.recover(digest, signature) == signer\<close>; a signature it rejects reverts as a wrong one does.\<close>

definition recovers_to :: "ethlib \<Rightarrow> bytes \<Rightarrow> pystr \<Rightarrow> pystr \<Rightarrow> bool" where
  "recovers_to E digest sig signer \<longleftrightarrow> rbind (recover_message E digest (JStr sig)) (checksum E) = Inr signer"

text \<open>The loop over the signers: the last address as a number, and the stake so far.\<close>

fun check_signers ::
    "ethlib \<Rightarrow> bytes \<Rightarrow> (pystr \<Rightarrow> int) \<Rightarrow> int \<Rightarrow> int \<Rightarrow> (pystr \<times> pystr) list \<Rightarrow> int registry_call" where
  "check_signers E digest stake_on last_signer stake_sum [] = Inr stake_sum"
| "check_signers E digest stake_on last_signer stake_sum ((signer, sig) # rest) =
     (if addr_num signer \<le> last_signer then Inl SignersNotSorted
      else if \<not> recovers_to E digest sig signer then Inl RegistryInvalidSignature
      else if \<not> is_uint256 (stake_sum + stake_on signer) then Inl RegistryPanic
      else check_signers E digest stake_on (addr_num signer) (stake_sum + stake_on signer) rest)"

definition calldata_ok :: "int \<Rightarrow> int \<Rightarrow> bytes \<Rightarrow> bool" where
  "calldata_ok epoch brain_id merkle_root \<longleftrightarrow>
     0 \<le> epoch \<and> epoch < 2 ^ 64 \<and> is_uint256 brain_id \<and> length merkle_root = 32"

fun propose_epoch :: "ethlib \<Rightarrow> registry_site \<Rightarrow> vault \<Rightarrow> int \<Rightarrow> registry \<Rightarrow> proposal \<Rightarrow> registry registry_call" where
  "propose_epoch E site v timestamp r (epoch, brain_id, merkle_root, signers, signatures) =
     (if \<not> calldata_ok epoch brain_id merkle_root then Inl RegistryBadCalldata
      else if merkle_root = zero_root then Inl ZeroRoot
      else if current_epoch (rs_genesis site) timestamp < epoch then Inl EpochInTheFuture
      else if epoch = current_epoch (rs_genesis site) timestamp then Inl EpochNotComplete
      else if ec_root (rg_epochs r (epoch, brain_id)) \<noteq> zero_root then Inl EpochAlreadyProposed
      else if length signers \<noteq> length signatures then Inl LengthMismatch
      else if signers = [] then Inl NoSigners
      else case registry_digest E site epoch brain_id merkle_root of
        Inl e \<Rightarrow> Inl RegistryBadCalldata
      | Inr digest \<Rightarrow>
          rbind (check_signers E digest (validator_stake v brain_id) 0 0 (zip signers signatures)) (\<lambda>stake_sum.
            let tot = brain_stake v brain_id
            in if tot = 0 then Inl EmptyQuorum
               else if \<not> is_uint256 (tot * MIN_QUORUM_BPS + 9999) then Inl RegistryPanic
               else if stake_sum < (tot * MIN_QUORUM_BPS + 9999) div 10000 then Inl InsufficientSignerStake
               else Inr (r\<lparr>rg_epochs := (rg_epochs r)((epoch, brain_id) :=
                              \<lparr>ec_root = merkle_root, ec_proposed_at = timestamp mod 2 ^ 64, ec_finalized_at = 0,
                               ec_signer_count = int (length signers) mod 2 ^ 32, ec_signer_stake = stake_sum,
                               ec_invalidated = False\<rparr>),
                           rg_signed_roots := (\<lambda>(e, b, a). if e = epoch \<and> b = brain_id \<and> a \<in> set signers
                              then merkle_root else rg_signed_roots r (e, b, a)),
                           rg_signers := (\<lambda>(e, b, a). e = epoch \<and> b = brain_id \<and> a \<in> set signers
                              \<or> rg_signers r (e, b, a))\<rparr>)))"

definition finalize_epoch :: "int \<Rightarrow> registry \<Rightarrow> int \<Rightarrow> int \<Rightarrow> registry registry_call" where
  "finalize_epoch timestamp r epoch brain_id =
     (let c = rg_epochs r (epoch, brain_id)
      in if ec_root c = zero_root then Inl EpochNotProposed
         else if ec_invalidated c then Inl EpochAlreadyInvalidated
         else if ec_finalized_at c \<noteq> 0 then Inr r
         else if 2 ^ 64 \<le> ec_proposed_at c + CHALLENGE_WINDOW then Inl RegistryPanic
         else if timestamp < ec_proposed_at c + CHALLENGE_WINDOW then Inl ChallengeWindowOpen
         else Inr (r\<lparr>rg_epochs := (rg_epochs r)((epoch, brain_id) := c\<lparr>ec_finalized_at := timestamp mod 2 ^ 64\<rparr>)\<rparr>))"

text \<open>\<open>challengeEquivocation\<close>, with the vault after its slash; whether the registry may slash is an argument.\<close>

definition challenge_equivocation ::
    "ethlib \<Rightarrow> registry_site \<Rightarrow> bool \<Rightarrow> bool \<Rightarrow> vault \<Rightarrow> registry \<Rightarrow> int \<Rightarrow> int \<Rightarrow> bytes \<Rightarrow> pystr \<Rightarrow> bytes \<Rightarrow> pystr \<Rightarrow> pystr
       \<Rightarrow> (registry \<times> vault \<times> int) registry_call" where
  "challenge_equivocation E site is_slasher transfers v r epoch brain_id root_a sig_a root_b sig_b validator =
     (let c = rg_epochs r (epoch, brain_id);
          signed = (\<lambda>rb sig. case registry_digest E site epoch brain_id rb of
                       Inl e \<Rightarrow> False | Inr digest \<Rightarrow> recovers_to E digest sig validator);
          voided = r\<lparr>rg_epochs := (rg_epochs r)((epoch, brain_id) := c\<lparr>ec_invalidated := True\<rparr>)\<rparr>;
          v_stake = validator_stake v brain_id validator
      in if \<not> calldata_ok epoch brain_id root_a \<or> length root_b \<noteq> 32 then Inl RegistryBadCalldata
         else if root_a = root_b then Inl SameRoot
         else if ec_root c = zero_root then Inl EpochNotProposed
         else if ec_invalidated c then Inl EpochAlreadyInvalidated
         else if \<not> rg_signers r (epoch, brain_id, validator) then Inl NotACommitmentSigner
         else if root_a \<noteq> ec_root c \<and> root_b \<noteq> ec_root c then Inl NotEquivocation
         else if \<not> signed root_a sig_a then Inl RegistryInvalidSignature
         else if \<not> signed root_b sig_b then Inl RegistryInvalidSignature
         else if 0 < v_stake then
           (case slash is_slasher transfers v brain_id validator v_stake of
              Inl e \<Rightarrow> Inl (SlashReverted e)
            | Inr (v', burned) \<Rightarrow> Inr (voided, v', burned))
         else Inr (voided, v, 0))"

definition verify_score :: "ethlib \<Rightarrow> registry \<Rightarrow> int \<Rightarrow> int \<Rightarrow> pystr \<Rightarrow> int \<Rightarrow> bytes list \<Rightarrow> bool" where
  "verify_score E r epoch brain_id miner score pf =
     (let c = rg_epochs r (epoch, brain_id)
      in if ec_root c = zero_root \<or> ec_finalized_at c = 0 \<or> ec_invalidated c then False
         else case leaf_hash E \<lparr>leaf_brain_id = brain_id, leaf_miner = miner, leaf_score = score\<rparr> of
           Inl e \<Rightarrow> False
         | Inr leaf \<Rightarrow> process_proof E leaf pf = ec_root c)"

section \<open>The quorum check against its specification\<close>

lemma check_signers_Inr:
  assumes "\<And>a. 0 \<le> stake_on a" and "0 \<le> acc"
  shows "check_signers E digest stake_on lst acc ps = Inr tot \<longleftrightarrow>
     sorted_wrt (<) (lst # map (addr_num \<circ> fst) ps) \<and> (\<forall>(a, sig) \<in> set ps. recovers_to E digest sig a)
     \<and> tot = acc + (\<Sum>(a, sig) \<leftarrow> ps. stake_on a) \<and> (ps \<noteq> [] \<longrightarrow> tot < 2 ^ 256)"
  using assms(2)
proof (induction ps arbitrary: lst acc)
  case (Cons p ps)
  obtain a sig where p: "p = (a, sig)" by (cases p)
  have rest: "0 \<le> (\<Sum>(a, sig) \<leftarrow> ps. stake_on a)" using assms(1) by (intro sum_list_nonneg) auto
  have acc: "0 \<le> acc + stake_on a" using assms(1) [of a] Cons.prems by simp
  have sorted: "sorted_wrt (<) (lst # addr_num a # map (addr_num \<circ> fst) ps) \<longleftrightarrow>
      lst < addr_num a \<and> sorted_wrt (<) (addr_num a # map (addr_num \<circ> fst) ps)"
    by (auto intro: order.strict_trans)
  show ?case
    unfolding p using Cons.IH [OF acc, of "addr_num a"] acc rest sorted
    by (cases ps) (auto simp: is_uint256_def not_le)
qed auto

lemma registry_digest_commitment:
  assumes "checksum E registry = Inr (rs_address site)" and "length rb = 32"
  shows "registry_digest E site epoch b rb = commitment_digest E (rs_chain site) registry epoch b (RBytes rb)"
  using assms by (simp add: registry_digest_def commitment_digest_def check_root_def)

text \<open>The vault as the aggregator sees it.\<close>

definition sees_vault :: "chain_view \<Rightarrow> vault \<Rightarrow> bool" where
  "sees_vault cv v \<longleftrightarrow> stake_of cv = validator_stake v \<and> total_stake cv = brain_stake v"

definition same_site :: "agg_config \<Rightarrow> registry_site \<Rightarrow> ethlib \<Rightarrow> bool" where
  "same_site cfg site E \<longleftrightarrow> chain_id cfg = rs_chain site \<and> checksum E (scoring_registry cfg) = Inr (rs_address site)
     \<and> min_quorum_bps cfg = MIN_QUORUM_BPS"

lemma vault_ledger: "vault_ok v \<Longrightarrow> ledger (validator_stake v b) (brain_stake v b)"
proof -
  assume "vault_ok v"
  then have assets: "assets_ok v" by (simp add: vault_ok_iff)
  then have "sum (\<lambda>a. vt_assets v (b, a)) S \<le> vt_brain v b" if "finite S" for S
    using that assets_le(1) [OF assets] sum_map_ge [of "\<lambda>a. vt_assets v (b, a)" S] by (simp add: assets_ok_def)
  with assets_le(1) [OF assets] show ?thesis
    by (simp add: ledger_def validator_stake_def [abs_def] brain_stake_def)
qed

lemma distinct_zip_sum:
  assumes "length xs = length ys"
  shows "(\<Sum>(x, y) \<leftarrow> zip xs ys. f x) = (\<Sum>x \<leftarrow> xs. f x)"
  using assms by (induction xs ys rule: list_induct2) simp_all

lemma sorted_distinct_addresses: "sorted_wrt (\<lambda>x y. addr_num x < addr_num y) xs \<Longrightarrow> distinct xs"
  by (induction xs) auto

text \<open>
  The argument checks of the aggregator's specification are the contract's: on a reachable vault, with
  the same chain, address and quorum on both sides, a well-formed submission for a completed epoch
  that is still free goes through exactly when it meets \<open>contract_accepts\<close> and no signer is the
  zero address.
\<close>

lemma propose_epoch_iff:
  assumes ok: "vault_ok v" "words_ok v" and site: "same_site cfg site E" and cv: "sees_vault cv v"
    and small: "brain_stake v b < 2 ^ 240"
    and call: "calldata_ok epoch b rb" "rb \<noteq> zero_root" "epoch < current_epoch (rs_genesis site) t"
      "ec_root (rg_epochs r (epoch, b)) = zero_root"
  shows "(\<exists>r'. propose_epoch E site v t r (epoch, b, rb, signers, sigs) = Inr r') \<longleftrightarrow>
     contract_accepts E cfg cv (epoch, b, rb, signers, sigs) \<and> (\<forall>a \<in> set signers. 0 < addr_num a)"
proof -
  let ?st = "validator_stake v b" and ?tot = "brain_stake v b"
  have led: "ledger ?st ?tot" by (rule vault_ledger [OF ok(1)])
  then have nonneg: "0 \<le> ?st a" for a by (simp add: ledger_def)
  have tot: "0 \<le> ?tot" using led by (force simp: ledger_def)
  have word: "is_uint256 (?tot * MIN_QUORUM_BPS + 9999)" using tot small by (simp add: is_uint256_def MIN_QUORUM_BPS_def)
  have dig: "registry_digest E site epoch b rb = commitment_digest E (chain_id cfg) (scoring_registry cfg) epoch b (RBytes rb)"
    using registry_digest_commitment [of E "scoring_registry cfg" site rb epoch b] site call(1)
    by (simp add: same_site_def calldata_ok_def)
  have sums: "(\<Sum>a \<leftarrow> signers. ?st a) < 2 ^ 256" if "distinct signers"
  proof -
    have "(\<Sum>a \<leftarrow> signers. ?st a) = sum ?st (set signers)" using that by (rule sum_list_distinct_conv_sum_set)
    also have "\<dots> \<le> ?tot" using led by (simp add: ledger_def)
    finally show ?thesis using small by simp
  qed
  show ?thesis
  proof (cases "commitment_digest E (chain_id cfg) (scoring_registry cfg) epoch b (RBytes rb)")
    case (Inl e)
    then have "\<not> contract_accepts E cfg cv (epoch, b, rb, signers, sigs)"
      by (cases signers; cases sigs) (auto simp: contract_accepts_def recover_commitment_signer_def)
    with Inl dig call show ?thesis by simp
  next
    case (Inr digest)
    have rec: "rbind (recover_commitment_signer E (chain_id cfg) (scoring_registry cfg) epoch b (RBytes rb) sig) (checksum E) = Inr a
        \<longleftrightarrow> recovers_to E digest sig a" for sig a
      by (simp add: recover_commitment_signer_def recovers_to_def Inr)
    have zip: "(\<Sum>(a, sig) \<leftarrow> zip signers sigs. ?st a) = (\<Sum>a \<leftarrow> signers. ?st a)" "map (addr_num \<circ> fst) (zip signers sigs) = map addr_num signers"
      if "length signers = length sigs"
      using that by (simp_all add: distinct_zip_sum flip: map_map)
    have cs: "check_signers E digest ?st 0 0 (zip signers sigs) = Inr n \<longleftrightarrow>
        sorted_wrt (<) (0 # map addr_num signers) \<and> (\<forall>(a, sig) \<in> set (zip signers sigs). recovers_to E digest sig a)
        \<and> n = (\<Sum>a \<leftarrow> signers. ?st a)" if len: "length signers = length sigs" "signers \<noteq> []" for n
    proof -
      have "n < 2 ^ 256" if "sorted_wrt (<) (map addr_num signers)" "n = (\<Sum>a \<leftarrow> signers. ?st a)"
        using that sums sorted_distinct_addresses by (simp add: sorted_wrt_map)
      then show ?thesis
        using check_signers_Inr [OF nonneg, where acc = 0 and E = E and digest = digest and lst = 0 and ps = "zip signers sigs" and tot = n] zip [OF len(1)] by auto
    qed
    have accepts: "contract_accepts E cfg cv (epoch, b, rb, signers, sigs) \<longleftrightarrow>
        length signers = length sigs \<and> signers \<noteq> [] \<and> sorted_wrt (\<lambda>x y. addr_num x < addr_num y) signers
        \<and> (\<forall>(a, sig) \<in> set (zip signers sigs). recovers_to E digest sig a) \<and> ?tot \<noteq> 0
        \<and> (?tot * MIN_QUORUM_BPS + 9999) div 10000 \<le> (\<Sum>a \<leftarrow> signers. ?st a)"
      unfolding contract_accepts_def prod.case rec using cv site by (simp add: sees_vault_def same_site_def quorum_need_def)
    show ?thesis
      unfolding accepts using call word Inr dig cs
      by (auto simp: sorted_wrt_map Let_def not_less)
  qed
qed

section \<open>The two contracts as an event machine\<close>

datatype chain_event =
    ProposeEpoch int proposal
  | FinalizeEpoch int int int
  | ChallengeEquivocation bool bool int int bytes pystr bytes pystr pystr
  | AtVault vault_event

type_synonym chain_state = "registry \<times> vault \<times> int"

fun chain_step :: "ethlib \<Rightarrow> registry_site \<Rightarrow> chain_state \<Rightarrow> chain_event \<Rightarrow> chain_state" where
  "chain_step E site (r, v, held) (ProposeEpoch t c) =
     (case propose_epoch E site v t r c of Inl e \<Rightarrow> (r, v, held) | Inr r' \<Rightarrow> (r', v, held))"
| "chain_step E site (r, v, held) (FinalizeEpoch t epoch b) =
     (case finalize_epoch t r epoch b of Inl e \<Rightarrow> (r, v, held) | Inr r' \<Rightarrow> (r', v, held))"
| "chain_step E site (r, v, held) (ChallengeEquivocation role tr epoch b root_a sig_a root_b sig_b a) =
     (case challenge_equivocation E site role tr v r epoch b root_a sig_a root_b sig_b a of
        Inl e \<Rightarrow> (r, v, held)
      | Inr (r', v', burned) \<Rightarrow> (r', v', held - burned))"
| "chain_step E site (r, v, held) (AtVault ev) = (r, vault_step (v, held) ev)"

definition registry_ok :: "registry \<Rightarrow> bool" where
  "registry_ok r \<longleftrightarrow> (\<forall>e b. ec_root (rg_epochs r (e, b)) = zero_root \<longrightarrow>
         ec_finalized_at (rg_epochs r (e, b)) = 0 \<and> \<not> ec_invalidated (rg_epochs r (e, b)))
     \<and> (\<forall>e b a. rg_signers r (e, b, a) \<longrightarrow> ec_root (rg_epochs r (e, b)) \<noteq> zero_root
         \<and> rg_signed_roots r (e, b, a) = ec_root (rg_epochs r (e, b)))"

definition chain_ok :: "chain_state \<Rightarrow> bool" where
  "chain_ok x \<longleftrightarrow> (case x of (r, v, held) \<Rightarrow> registry_ok r \<and> vault_ok v \<and> words_ok v \<and> vt_total v = held)"

lemma propose_epoch_Inr:
  assumes "propose_epoch E site v t r (e, b, rb, signers, sigs) = Inr r'"
  obtains n where "rb \<noteq> zero_root" and "e < current_epoch (rs_genesis site) t" and "ec_root (rg_epochs r (e, b)) = zero_root"
    and "r' = r\<lparr>rg_epochs := (rg_epochs r)((e, b) :=
            \<lparr>ec_root = rb, ec_proposed_at = t mod 2 ^ 64, ec_finalized_at = 0, ec_signer_count = int (length signers) mod 2 ^ 32,
             ec_signer_stake = n, ec_invalidated = False\<rparr>),
          rg_signed_roots := (\<lambda>(e', b', a). if e' = e \<and> b' = b \<and> a \<in> set signers then rb else rg_signed_roots r (e', b', a)),
          rg_signers := (\<lambda>(e', b', a). e' = e \<and> b' = b \<and> a \<in> set signers \<or> rg_signers r (e', b', a))\<rparr>"
  using assms by (auto simp: Let_def not_less split: if_splits sum.splits)

lemma finalize_epoch_Inr:
  assumes "finalize_epoch t r e b = Inr r'"
  obtains (again) "r' = r" "ec_finalized_at (rg_epochs r (e, b)) \<noteq> 0"
  | (now) "ec_root (rg_epochs r (e, b)) \<noteq> zero_root" "ec_finalized_at (rg_epochs r (e, b)) = 0"
      "\<not> ec_invalidated (rg_epochs r (e, b))" "ec_proposed_at (rg_epochs r (e, b)) + CHALLENGE_WINDOW \<le> t"
      "r' = r\<lparr>rg_epochs := (rg_epochs r)((e, b) := (rg_epochs r (e, b))\<lparr>ec_finalized_at := t mod 2 ^ 64\<rparr>)\<rparr>"
  using assms by (auto simp: finalize_epoch_def Let_def split: if_splits)

lemma challenge_Inr:
  assumes "challenge_equivocation E site role tr v r e b ra siga rb sigb a = Inr (r', v', burned)"
  obtains da db where "ra \<noteq> rb" and "ec_root (rg_epochs r (e, b)) \<noteq> zero_root" and "\<not> ec_invalidated (rg_epochs r (e, b))"
    and "rg_signers r (e, b, a)" and "ra = ec_root (rg_epochs r (e, b)) \<or> rb = ec_root (rg_epochs r (e, b))"
    and "registry_digest E site e b ra = Inr da" and "recovers_to E da siga a"
    and "registry_digest E site e b rb = Inr db" and "recovers_to E db sigb a"
    and "r' = r\<lparr>rg_epochs := (rg_epochs r)((e, b) := (rg_epochs r (e, b))\<lparr>ec_invalidated := True\<rparr>)\<rparr>"
    and "v' = v \<and> burned = 0 \<and> validator_stake v b a \<le> 0 \<or> slash role tr v b a (validator_stake v b a) = Inr (v', burned)"
  using assms
  by (auto simp: challenge_equivocation_def Let_def not_less split: if_splits sum.splits)

lemma registry_ok_new: "registry_ok new_registry"
  by (simp add: registry_ok_def new_registry_def no_commitment_def)

lemma propose_ok: "registry_ok r \<Longrightarrow> propose_epoch E site v t r c = Inr r' \<Longrightarrow> registry_ok r'"
  by (cases c) (auto simp: registry_ok_def elim!: propose_epoch_Inr simp del: propose_epoch.simps split: if_splits)

lemma finalize_ok: "registry_ok r \<Longrightarrow> finalize_epoch t r e b = Inr r' \<Longrightarrow> registry_ok r'"
  by (erule finalize_epoch_Inr) (auto simp: registry_ok_def)

lemma challenge_ok:
  assumes "registry_ok r" and "vault_ok v" and "words_ok v"
    and "challenge_equivocation E site role tr v r e b ra siga rb sigb a = Inr (r', v', burned)"
  shows "registry_ok r' \<and> vault_ok v' \<and> words_ok v' \<and> vt_total v' = vt_total v - burned"
proof (rule challenge_Inr [OF assms(4)])
  assume inv: "ec_root (rg_epochs r (e, b)) \<noteq> zero_root"
    and r': "r' = r\<lparr>rg_epochs := (rg_epochs r)((e, b) := (rg_epochs r (e, b))\<lparr>ec_invalidated := True\<rparr>)\<rparr>"
    and v': "v' = v \<and> burned = 0 \<and> validator_stake v b a \<le> 0 \<or> slash role tr v b a (validator_stake v b a) = Inr (v', burned)"
  have "registry_ok r'" using assms(1) inv by (auto simp: registry_ok_def r')
  moreover have "words_ok v'"
    using v' assms(3) words_ok_step [OF assms(3,2), of 0 "Slash role tr b a (validator_stake v b a)"] by auto
  ultimately show ?thesis using v' assms(2) slash_ok [OF assms(2)] by auto
qed

interpretation chain_machine: event_machine "chain_step E site" "\<lambda>x. x = (new_registry, new_vault, 0)" chain_ok for E site
proof
  show "x = (new_registry, new_vault, 0) \<Longrightarrow> chain_ok x" for x
    using vault_machine.inv_init [of "(new_vault, 0)"] registry_ok_new by (simp add: chain_ok_def)
next
  fix x ev
  assume inv: "chain_ok x"
  obtain r v held where x: "x = (r, v, held)" by (cases x)
  with inv have ok: "registry_ok r" "vault_ok v" "words_ok v" "vt_total v = held" by (simp_all add: chain_ok_def)
  show "chain_ok (chain_step E site x ev)"
  proof (cases ev)
    case (ProposeEpoch t c)
    then show ?thesis using ok propose_ok [OF ok(1)] by (auto simp: x chain_ok_def split: sum.splits simp del: propose_epoch.simps)
  next
    case (FinalizeEpoch t e b)
    then show ?thesis using ok finalize_ok [OF ok(1)] by (auto simp: x chain_ok_def split: sum.splits)
  next
    case (ChallengeEquivocation role tr e b ra siga rb sigb a)
    then show ?thesis using ok challenge_ok [OF ok(1-3)] by (auto simp: x chain_ok_def split: sum.splits)
  next
    case (AtVault vev)
    with ok vault_machine.inv_step [of "(v, held)" vev] show ?thesis by (auto simp: x chain_ok_def split: prod.splits)
  qed
qed

section \<open>Properties\<close>

text \<open>What later calls leave of a commitment.\<close>

definition commitment_kept :: "epoch_commitment \<Rightarrow> epoch_commitment \<Rightarrow> bool" where
  "commitment_kept c d \<longleftrightarrow> (ec_root c \<noteq> zero_root \<longrightarrow>
     ec_root d = ec_root c \<and> ec_proposed_at d = ec_proposed_at c \<and> ec_signer_stake d = ec_signer_stake c
     \<and> (ec_finalized_at c \<noteq> 0 \<longrightarrow> ec_finalized_at d = ec_finalized_at c)
     \<and> (ec_invalidated c \<longrightarrow> ec_invalidated d))"

lemma commitment_kept_refl: "commitment_kept c c"
  by (simp add: commitment_kept_def)

lemma commitment_kept_trans: "commitment_kept c d \<Longrightarrow> commitment_kept d e \<Longrightarrow> commitment_kept c e"
  by (auto simp: commitment_kept_def)

lemma chain_step_keeps:
  "commitment_kept (rg_epochs (fst x) k) (rg_epochs (fst (chain_step E site x ev)) k)"
proof -
  obtain r v held where x: "x = (r, v, held)" by (cases x)
  show ?thesis
  proof (cases ev)
    case (ProposeEpoch t c)
    show ?thesis
    proof (cases "propose_epoch E site v t r c")
      case (Inr r')
      obtain e b rb signers sigs where c: "c = (e, b, rb, signers, sigs)" by (cases c)
      from Inr have "commitment_kept (rg_epochs r k) (rg_epochs r' k)"
        unfolding c by (rule propose_epoch_Inr) (auto simp: commitment_kept_def)
      with ProposeEpoch Inr x show ?thesis by simp
    qed (use ProposeEpoch x in \<open>simp add: commitment_kept_refl\<close>)
  next
    case (FinalizeEpoch t e b)
    have "commitment_kept (rg_epochs r k) (rg_epochs r' k)" if "finalize_epoch t r e b = Inr r'" for r'
      using that by (rule finalize_epoch_Inr) (auto simp: commitment_kept_def)
    with FinalizeEpoch x show ?thesis by (auto simp: commitment_kept_refl split: sum.splits)
  next
    case (ChallengeEquivocation role tr e b ra siga rb sigb a)
    have "commitment_kept (rg_epochs r k) (rg_epochs r' k)"
      if "challenge_equivocation E site role tr v r e b ra siga rb sigb a = Inr (r', v', burned)" for r' v' burned
      using that by (rule challenge_Inr) (auto simp: commitment_kept_def)
    with ChallengeEquivocation x show ?thesis by (auto simp: commitment_kept_refl split: sum.splits)
  qed (simp add: x commitment_kept_refl)
qed

lemma chain_run_keeps:
  "commitment_kept (rg_epochs (fst x) k) (rg_epochs (fst (foldl (chain_step E site) x evs)) k)"
proof (induction evs arbitrary: x)
  case (Cons ev evs)
  from commitment_kept_trans [OF chain_step_keeps Cons.IH] show ?case by simp
qed (simp add: commitment_kept_refl)

text \<open>
  C10. A committed root is final: whatever is proposed, finalised, challenged, staked, claimed or slashed
  afterwards, the root of a committed epoch of a Brain, its proposal time and a finalisation stay, so
  that every score that verified keeps verifying unless the commitment is invalidated, and an
  invalidated epoch never verifies again and cannot be proposed anew.
\<close>
theorem committed_root_is_final:
  assumes "ec_root (rg_epochs r (epoch, b)) \<noteq> zero_root"
    and "foldl (chain_step E site) (r, v, held) evs = (r', v', held')"
  shows "ec_root (rg_epochs r' (epoch, b)) = ec_root (rg_epochs r (epoch, b))
    \<and> (verify_score E r epoch b miner score pf \<longrightarrow> \<not> ec_invalidated (rg_epochs r' (epoch, b)) \<longrightarrow>
         verify_score E r' epoch b miner score pf)
    \<and> (ec_invalidated (rg_epochs r (epoch, b)) \<longrightarrow> \<not> verify_score E r' epoch b miner score pf
         \<and> (\<forall>t c. fst c = epoch \<longrightarrow> fst (snd c) = b \<longrightarrow> (\<exists>err. propose_epoch E site v' t r' c = Inl err)))"
proof -
  have kept: "commitment_kept (rg_epochs r (epoch, b)) (rg_epochs r' (epoch, b))"
    using chain_run_keeps [of "(r, v, held)" "(epoch, b)" E site evs] assms(2) by simp
  have "\<exists>err. propose_epoch E site v' t r' c = Inl err" if "fst c = epoch" "fst (snd c) = b" for t c
  proof -
    obtain e' b' rb signers sigs where "c = (e', b', rb, signers, sigs)" by (cases c)
    with that have c: "c = (epoch, b, rb, signers, sigs)" by simp
    have taken: "ec_root (rg_epochs r' (epoch, b)) \<noteq> zero_root" using kept assms(1) by (simp add: commitment_kept_def)
    show ?thesis
    proof (cases "propose_epoch E site v' t r' c")
      case (Inr r'')
      then have False unfolding c by (rule propose_epoch_Inr) (use taken in simp)
      then show ?thesis ..
    qed simp
  qed
  with kept assms(1) show ?thesis
    by (auto simp: commitment_kept_def verify_score_def Let_def split: sum.splits)
qed

text \<open>
  C11. Only equivocators are slashed: in every reachable state of the two contracts a challenge that goes
  through comes with two different roots of the epoch, one of them the committed one, that both
  recover to a signer of the commitment; it invalidates the commitment, and it takes that
  validator's whole stake on this Brain and nobody else's, nor its own on another Brain.
\<close>
theorem challenge_hits_the_equivocator:
  assumes "foldl (chain_step E site) (new_registry, new_vault, 0) evs = (r, v, held)"
    and "challenge_equivocation E site role tr v r epoch b ra siga rb sigb a = Inr (r', v', burned)"
  shows "ra \<noteq> rb \<and> ec_root (rg_epochs r (epoch, b)) \<in> {ra, rb} \<and> rg_signed_roots r (epoch, b, a) = ec_root (rg_epochs r (epoch, b))
    \<and> (\<exists>da db. registry_digest E site epoch b ra = Inr da \<and> recovers_to E da siga a
         \<and> registry_digest E site epoch b rb = Inr db \<and> recovers_to E db sigb a)
    \<and> ec_invalidated (rg_epochs r' (epoch, b)) \<and> burned = validator_stake v b a
    \<and> validator_stake v' b a = 0 \<and> (\<forall>b' c. (b', c) \<noteq> (b, a) \<longrightarrow> validator_stake v' b' c = validator_stake v b' c)"
proof -
  have ok: "registry_ok r" "vault_ok v"
    using chain_machine.reachable_inv [of "(new_registry, new_vault, 0)" E site evs] assms(1) by (simp_all add: chain_ok_def)
  have nonneg: "0 \<le> validator_stake v b a"
    using ok(2) assets_le(1) by (simp add: vault_ok_iff validator_stake_def)
  have slashed: "burned = validator_stake v b a \<and> validator_stake v' b a = 0
      \<and> (\<forall>b' c. (b', c) \<noteq> (b, a) \<longrightarrow> validator_stake v' b' c = validator_stake v b' c)"
    if "slash role tr v b a (validator_stake v b a) = Inr (v', burned)"
    using that by (auto simp: slash_def Let_def validator_stake_def add_assets_Inr split: if_splits)
  from assms(2) show ?thesis
    by (rule challenge_Inr) (use ok(1) nonneg slashed in \<open>auto simp: registry_ok_def\<close>)
qed

section \<open>Concrete runs\<close>

text \<open>A Brain with one staked validator, whose commitment reaches the quorum alone.\<close>

abbreviation demo_site :: registry_site where
  "demo_site \<equiv> \<lparr>rs_chain = 57073, rs_address = hex0x [171], rs_genesis = 0\<rparr>"

definition demo_stake :: vault where
  "demo_stake = \<lparr>vt_assets = (\<lambda>_. 0)((8, hex0x [1]) := 100), vt_shares = (\<lambda>_. 0)((8, hex0x [1]) := 100),
     vt_staker = (\<lambda>_ _. 0)((8, hex0x [1]) := (\<lambda>_. 0)(hex0x [7] := 100)), vt_pending = (\<lambda>_ _. (0, 0)),
     vt_total = 100, vt_brain = (\<lambda>_. 0)(8 := 100)\<rparr>"

lemma demo_stake_step:
  "vault_step (new_vault, 0) (Stake True 8 (hex0x [1]) (hex0x [7]) 100) = (demo_stake, 100)"
  by (simp add: stake_def assets_to_shares_def add_assets_def checked_def is_uint256_def new_vault_def demo_stake_def
      hex0x_not_zero_address Let_def fun_eq_iff)

lemma demo_registry_digest:
  "length rb = 32 \<Longrightarrow> registry_digest demo_eth demo_site 1 8 rb =
     Inr (demo_hash (sum_list (ascii_bytes ''BasedAI:ScoringRegistry:v2'') + 241 + 171 + 1 + 8 + sum_list rb))"
  by (simp add: registry_digest_def commitment_fields_def DOMAIN_TAG_def)

definition demo_digest_of :: "byte \<Rightarrow> bytes" where
  "demo_digest_of x = demo_hash (sum_list (ascii_bytes ''BasedAI:ScoringRegistry:v2'') + 241 + 171 + 1 + 8 + x)"

lemma demo_digest_root: "registry_digest demo_eth demo_site 1 8 (demo_hash x) = Inr (demo_digest_of x)"
  by (simp add: demo_registry_digest demo_digest_of_def)

definition demo_sig_of :: "byte \<Rightarrow> byte \<Rightarrow> pystr" where
  "demo_sig_of k x = to_hex (k # demo_digest_of x)"

lemma demo_sig_of_recovers: "recovers_to demo_eth (demo_digest_of x) (demo_sig_of k x) (hex0x [k])"
  by (simp add: recovers_to_def demo_recover_def demo_sig_of_def strip_0x_def)

lemma addr_num_byte [simp]: "addr_num (hex0x [k]) = uint k"
  by (simp add: addr_num_def py_int_text_byte)

definition demo_commitment :: "byte \<Rightarrow> epoch_commitment" where
  "demo_commitment x = \<lparr>ec_root = demo_hash x, ec_proposed_at = 7200, ec_finalized_at = 0, ec_signer_count = 1,
     ec_signer_stake = 100, ec_invalidated = False\<rparr>"

definition demo_committed :: "byte \<Rightarrow> registry" where
  "demo_committed x = \<lparr>rg_epochs = (\<lambda>_. no_commitment)((1, 8) := demo_commitment x),
     rg_signed_roots = (\<lambda>(e, b, a). if e = 1 \<and> b = 8 \<and> a = hex0x [1] then demo_hash x else zero_root),
     rg_signers = (\<lambda>(e, b, a). e = 1 \<and> b = 8 \<and> a = hex0x [1])\<rparr>"

lemma demo_hash_not_zero: "x \<noteq> 0 \<Longrightarrow> demo_hash x \<noteq> zero_root"
  by (simp add: zero_root_def demo_hash_def numeral_eq_Suc)

lemma demo_propose:
  "x \<noteq> 0 \<Longrightarrow> propose_epoch demo_eth demo_site demo_stake 7200 new_registry (1, 8, demo_hash x, [hex0x [1]], [demo_sig_of 1 x])
     = Inr (demo_committed x)"
  by (simp add: calldata_ok_def is_uint256_def demo_hash_not_zero current_epoch_def EPOCH_LENGTH_def new_registry_def no_commitment_def
      demo_digest_root demo_sig_of_recovers validator_stake_def brain_stake_def demo_stake_def MIN_QUORUM_BPS_def
      demo_committed_def demo_commitment_def fun_eq_iff Let_def)

lemma demo_chain_run:
  "x \<noteq> 0 \<Longrightarrow> foldl (chain_step demo_eth demo_site) (new_registry, new_vault, 0)
     [AtVault (Stake True 8 (hex0x [1]) (hex0x [7]) 100),
      ProposeEpoch 7200 (1, 8, demo_hash x, [hex0x [1]], [demo_sig_of 1 x])] = (demo_committed x, demo_stake, 100)"
  by (simp add: demo_stake_step demo_propose del: vault_step.simps propose_epoch.simps)

lemma demo_epoch_entry: "rg_epochs (demo_committed x) (1, 8) = demo_commitment x"
  by (simp add: demo_committed_def)

theorem committed_root_is_final_witness:
  "ec_root (rg_epochs (fst (foldl (chain_step demo_eth demo_site) (demo_committed 9, demo_stake, 100)
     [FinalizeEpoch 10800 1 8, ProposeEpoch 10800 (1, 8, demo_hash 3, [], [])])) (1, 8)) = demo_hash 9"
proof -
  have "ec_root (rg_epochs (demo_committed 9) (1, 8)) \<noteq> zero_root"
    by (simp add: demo_epoch_entry demo_commitment_def demo_hash_not_zero)
  from committed_root_is_final [OF this, of demo_eth demo_site demo_stake 100
      "[FinalizeEpoch 10800 1 8, ProposeEpoch 10800 (1, 8, demo_hash 3, [], [])]"]
  show ?thesis
    by (cases "foldl (chain_step demo_eth demo_site) (demo_committed 9, demo_stake, 100)
        [FinalizeEpoch 10800 1 8, ProposeEpoch 10800 (1, 8, demo_hash 3, [], [])]")
      (simp add: demo_epoch_entry demo_commitment_def)
qed

lemma demo_challenge:
  "\<exists>r' v'. challenge_equivocation demo_eth demo_site True True demo_stake (demo_committed 9) 1 8 (demo_hash 9) (demo_sig_of 1 9)
     (demo_hash 10) (demo_sig_of 1 10) (hex0x [1]) = Inr (r', v', 100)"
  by (simp add: challenge_equivocation_def calldata_ok_def is_uint256_def demo_epoch_entry Let_def demo_digest_root
      demo_sig_of_recovers slash_def add_assets_def checked_def validator_stake_def demo_stake_def)
    (simp add: demo_committed_def demo_commitment_def demo_hash_not_zero)

theorem challenge_hits_the_equivocator_witness:
  "\<exists>r' v'. challenge_equivocation demo_eth demo_site True True demo_stake (demo_committed 9) 1 8 (demo_hash 9) (demo_sig_of 1 9)
       (demo_hash 10) (demo_sig_of 1 10) (hex0x [1]) = Inr (r', v', validator_stake demo_stake 8 (hex0x [1]))
     \<and> ec_invalidated (rg_epochs r' (1, 8)) \<and> validator_stake v' 8 (hex0x [1]) = 0"
proof -
  obtain r' v' where c: "challenge_equivocation demo_eth demo_site True True demo_stake (demo_committed 9) 1 8 (demo_hash 9)
      (demo_sig_of 1 9) (demo_hash 10) (demo_sig_of 1 10) (hex0x [1]) = Inr (r', v', 100)"
    using demo_challenge by blast
  have run: "foldl (chain_step demo_eth demo_site) (new_registry, new_vault, 0)
     [AtVault (Stake True 8 (hex0x [1]) (hex0x [7]) 100),
      ProposeEpoch 7200 (1, 8, demo_hash 9, [hex0x [1]], [demo_sig_of 1 9])] = (demo_committed 9, demo_stake, 100)"
    by (rule demo_chain_run) simp
  from challenge_hits_the_equivocator [OF run c] c show ?thesis by metis
qed

end
