(* ===== verification/Epochs.thy ===== *)
theory Epochs imports Validator Registry
begin

text \<open>
  The clock of \<open>_epoch_loop\<close> in \<open>validator/src/basedai_validator/runtime.py\<close> against the clock of
  \<open>contracts/src/scoring/ScoringRegistry.sol\<close>: the loop reads the contract's epoch, sleeps to the next full
  hour of the Unix clock and posts; the contract counts its hours from its genesis. Times are
  rationals: a double read from the clock is a multiple of \<open>2 ^ -22\<close>, so the subtraction the loop makes
  of it is exact. Reading the epoch and the clock takes no time here; posting takes what it takes.
\<close>

section \<open>The two clocks\<close>

definition hour_boundary :: "rat \<Rightarrow> int" where
  "hour_boundary now = (trunc_rat now div 3600 + 1) * 3600"

definition wait_for_epoch_end :: "rat \<Rightarrow> rat" where
  "wait_for_epoch_end now = max 1 (of_int (hour_boundary now) - now)"

text \<open>One turn of the loop up to the posting: the epoch it will post and the moment it wakes up.\<close>

definition epoch_turn :: "(rat \<Rightarrow> int res) \<Rightarrow> rat \<Rightarrow> int \<times> rat" where
  "epoch_turn epoch_call now =
     (read_current_epoch (epoch_call now) (trunc_rat now), now + wait_for_epoch_end now)"

text \<open>The first \<open>k\<close> turns, when the posting of turn \<open>n\<close> takes \<open>work n\<close> seconds.\<close>

fun epoch_turns :: "(rat \<Rightarrow> int res) \<Rightarrow> (nat \<Rightarrow> rat) \<Rightarrow> nat \<Rightarrow> nat \<Rightarrow> rat \<Rightarrow> (int \<times> rat) list" where
  "epoch_turns epoch_call work n 0 now = []"
| "epoch_turns epoch_call work n (Suc k) now =
     (let turn = epoch_turn epoch_call now
      in turn # epoch_turns epoch_call work (Suc n) k (snd turn + work n))"

text \<open>A chain whose latest block has the time of the clock.\<close>

definition chain_epoch :: "int \<Rightarrow> rat \<Rightarrow> int res" where
  "chain_epoch genesis now = Inr (current_epoch genesis (trunc_rat now))"

section \<open>Waking up\<close>

lemma trunc_nonneg: "0 \<le> t \<Longrightarrow> trunc_rat t = \<lfloor>t\<rfloor>"
  by (simp add: trunc_rat_def)

lemma hour_after: "(x div 3600 + 1) * 3600 \<le> x + 3600" "x < (x div 3600 + 1) * 3600" for x :: int
  by presburger+

lemma wake_in_first_second:
  assumes "0 \<le> t"
  shows "of_int (hour_boundary t) \<le> t + wait_for_epoch_end t"
    and "t + wait_for_epoch_end t < of_int (hour_boundary t) + 1"
proof -
  have "\<lfloor>t\<rfloor> + 1 \<le> hour_boundary t"
    using hour_after(2) [of "\<lfloor>t\<rfloor>"] by (simp add: hour_boundary_def trunc_nonneg assms)
  then have "t < of_int (hour_boundary t)" by (simp add: floor_less_iff [symmetric])
  then show "of_int (hour_boundary t) \<le> t + wait_for_epoch_end t"
    and "t + wait_for_epoch_end t < of_int (hour_boundary t) + 1"
    by (simp_all add: wait_for_epoch_end_def max_def)
qed

lemma wake_floor:
  assumes "0 \<le> t"
  shows "\<lfloor>t + wait_for_epoch_end t\<rfloor> = hour_boundary t"
  using wake_in_first_second [OF assms] by (intro floor_unique) simp_all

lemma wake_nonneg: "0 \<le> t \<Longrightarrow> 0 \<le> t + wait_for_epoch_end t"
  by (simp add: wait_for_epoch_end_def max_def)

lemma wait_at_most_an_hour:
  assumes "0 \<le> t"
  shows "wait_for_epoch_end t \<le> 3600"
proof -
  have "hour_boundary t \<le> \<lfloor>t\<rfloor> + 3600"
    unfolding hour_boundary_def trunc_nonneg [OF assms] by (rule hour_after)
  then have "(of_int (hour_boundary t) :: rat) \<le> of_int \<lfloor>t\<rfloor> + 3600"
    by (simp flip: of_int_le_iff [where 'a = rat])
  with of_int_floor_le [of t] have "of_int (hour_boundary t) \<le> t + 3600" by linarith
  then show ?thesis by (simp add: wait_for_epoch_end_def)
qed

section \<open>Epochs counted from the genesis\<close>

lemma current_epoch_small:
  assumes "0 \<le> g" and "g \<le> t" and "t < 2 ^ 64"
  shows "current_epoch g t = (t - g) div 3600"
proof -
  have "(t - g) = 3600 * ((t - g) div 3600) + (t - g) mod 3600" "0 \<le> (t - g) mod 3600" "(t - g) mod 3600 < 3600"
    by simp_all
  then have "(t - g) div 3600 < 2 ^ 64" "0 \<le> (t - g) div 3600" using assms by linarith+
  then have "(t - g) div 3600 mod 2 ^ 64 = (t - g) div 3600" by (intro mod_pos_pos_trivial)
  with assms(2) show ?thesis unfolding current_epoch_def EPOCH_LENGTH_def by (simp only: not_less if_not_P if_False)
qed

text \<open>With both clocks split at the hours, the next full hour falls into a later epoch in two cases.\<close>

lemma epoch_at_boundary:
  fixes g x :: int
  shows "((x div 3600 + 1) * 3600 - g) div 3600 =
    (x - g) div 3600 + (if g mod 3600 = 0 \<or> x mod 3600 < g mod 3600 then 1 else 0)"
proof -
  define a m c h where "a = x div 3600" and "m = x mod 3600" and "c = g div 3600" and "h = g mod 3600"
  have x: "x = 3600 * a + m" "0 \<le> m" "m < 3600" and g: "g = 3600 * c + h" "0 \<le> h" "h < 3600"
    unfolding a_def m_def c_def h_def by simp_all
  have split: "(x div 3600 + 1) * 3600 - g = 3600 * (a + 1 - c) - h" "x - g = 3600 * (a - c) + (m - h)"
    unfolding a_def [symmetric] using x(1) g(1) by (simp_all only: algebra_simps)
  have next_hour: "(3600 * (a + 1 - c) - h) div 3600 = (if h = 0 then a + 1 - c else a - c)"
    using g by (auto intro!: int_div_pos_eq [where r = "3600 - h"] simp: algebra_simps)
  have this_hour: "(3600 * (a - c) + (m - h)) div 3600 = (if h \<le> m then a - c else a - c - 1)"
    using x g by (auto intro!: int_div_pos_eq [where r = "m - h"] int_div_pos_eq [where r = "3600 + m - h"]
      simp: algebra_simps)
  show ?thesis
    unfolding split next_hour this_hour m_def [symmetric] h_def [symmetric] using x(2) by auto
qed

lemma epoch_at_wake:
  assumes "0 \<le> g" and "of_int g \<le> t" and "t < 2 ^ 63"
  shows "current_epoch g (trunc_rat (t + wait_for_epoch_end t)) = current_epoch g (trunc_rat t) +
    (if g mod 3600 = 0 \<or> \<lfloor>t\<rfloor> mod 3600 < g mod 3600 then 1 else 0)"
proof -
  have t: "0 \<le> t" "g \<le> \<lfloor>t\<rfloor>" "\<lfloor>t\<rfloor> < 2 ^ 63"
    using assms by (simp_all add: le_floor_iff floor_less_iff order_trans [OF _ assms(2)])
  have wake: "trunc_rat (t + wait_for_epoch_end t) = (\<lfloor>t\<rfloor> div 3600 + 1) * 3600"
    using wake_floor [OF t(1)] by (simp add: trunc_nonneg wake_nonneg t(1) hour_boundary_def)
  have "y < 2 ^ 64" "g \<le> y" if "y \<le> x + 3600" "x < y" "g \<le> x" "x < 2 ^ 63" for x y :: int
    using that by simp_all
  from this [OF hour_after t(2,3)]
  have "(\<lfloor>t\<rfloor> div 3600 + 1) * 3600 < 2 ^ 64" "g \<le> (\<lfloor>t\<rfloor> div 3600 + 1) * 3600" .
  from current_epoch_small [OF assms(1) this(2,1)] current_epoch_small [OF assms(1) t(2)] t(3)
  show ?thesis by (simp only: wake trunc_nonneg [OF t(1)] epoch_at_boundary) simp
qed

section \<open>Properties\<close>


text \<open>
  Without the contract's answer the loop takes the hour of the Unix clock for the epoch: with a genesis
  after the first hour of 1970 that is an epoch the contract has not reached yet, so everything the
  validator signs in that turn is for the future.
\<close>
theorem fallback_epoch_is_in_the_future:
  assumes "3600 \<le> g" and "g \<le> \<lfloor>t\<rfloor>" and "t < 2 ^ 63" and "epoch_call t = Inl err"
    and "epoch_turn epoch_call t = (epoch, wake)"
  shows "current_epoch g \<lfloor>t\<rfloor> < epoch"
proof -
  have "(\<lfloor>t\<rfloor> - g) div 3600 \<le> (\<lfloor>t\<rfloor> + (- 1) * 3600) div 3600"
    using assms(1) by (intro zdiv_mono1) simp_all
  also have "\<dots> = \<lfloor>t\<rfloor> div 3600 - 1" by (subst div_mult_self1) simp_all
  finally have "(\<lfloor>t\<rfloor> - g) div 3600 < \<lfloor>t\<rfloor> div 3600" by simp
  moreover have "\<lfloor>t\<rfloor> < 2 ^ 64" using assms(3) by (simp add: floor_less_iff)
  moreover have "0 \<le> \<lfloor>t\<rfloor>" using assms(1,2) by linarith
  ultimately show ?thesis
    using assms current_epoch_small [of g "\<lfloor>t\<rfloor>"]
    by (auto simp: epoch_turn_def read_current_epoch_def trunc_rat_def)
qed

lemma aligned_epoch:
  assumes "0 \<le> g" and "g mod 3600 = 0" and "g \<le> x" and "x < 2 ^ 64"
  shows "current_epoch g x = x div 3600 - g div 3600"
proof -
  from assms(2) obtain c where c: "g = c * 3600" by (auto simp: mod_eq_0_iff_dvd dvd_def)
  have "(x + (- c) * 3600) div 3600 = x div 3600 - c" by (subst div_mult_self1) simp_all
  then have "(x - g) div 3600 = x div 3600 - g div 3600" by (simp add: c)
  with current_epoch_small [OF assms(1,3,4)] show ?thesis by simp
qed

text \<open>
  The loop with a genesis at a full hour: when every posting takes less than an hour less a second, the
  turns post consecutive epochs, each one once and each when it is over.
\<close>
theorem aligned_epochs_posted_in_turn:
  assumes "0 \<le> g" and "g mod 3600 = 0" and "\<forall>n. 0 \<le> work n \<and> work n \<le> 3599"
    and "of_int g \<le> t" and "t + 7201 * of_nat k < 2 ^ 63"
  shows "map fst (epoch_turns (chain_epoch g) work n k t) = map (\<lambda>i. current_epoch g \<lfloor>t\<rfloor> + int i) [0..<k]
    \<and> (\<forall>(epoch, wake) \<in> set (epoch_turns (chain_epoch g) work n k t). current_epoch g (trunc_rat wake) = epoch + 1)"
  using assms(4,5)
proof (induction k arbitrary: n t)
  case (Suc k)
  define wake where "wake = t + wait_for_epoch_end t"
  define t' where "t' = wake + work n"
  have t: "0 \<le> t" using order_trans [OF _ Suc.prems(1), of 0] assms(1) by simp
  have "t < 2 ^ 63" using Suc.prems(2) by (simp add: algebra_simps)
  from epoch_at_wake [OF assms(1) Suc.prems(1) this] assms(2)
  have next_epoch: "current_epoch g (trunc_rat wake) = current_epoch g \<lfloor>t\<rfloor> + 1"
    by (simp add: wake_def trunc_nonneg t)
  let ?H = "hour_boundary t"
  have wake: "of_int ?H \<le> wake" "wake < of_int ?H + 1" "t + 1 \<le> wake" "wake \<le> t + 3600" and work: "0 \<le> work n" "work n \<le> 3599"
    using wake_in_first_second [OF t] wait_at_most_an_hour [OF t] assms(3) by (simp_all add: wake_def wait_for_epoch_end_def)
  then have t': "0 \<le> t'" "of_int g \<le> t'" "t' \<le> t + 7199" "of_int ?H \<le> t'" "t' < of_int (?H + 3600)"
    using t Suc.prems(1) by (simp_all add: t'_def)
  have same: "current_epoch g \<lfloor>t'\<rfloor> = current_epoch g \<lfloor>t\<rfloor> + 1"
  proof -
    have "?H \<le> \<lfloor>t'\<rfloor>" "\<lfloor>t'\<rfloor> < ?H + 3600" using t'(4,5) by (simp_all only: le_floor_iff floor_less_iff)
    then have "\<lfloor>t'\<rfloor> div 3600 = ?H div 3600"
      by (intro int_div_pos_eq [where r = "\<lfloor>t'\<rfloor> - ?H"]) (simp_all add: hour_boundary_def)
    moreover have "g \<le> \<lfloor>t\<rfloor>" using Suc.prems(1) by (simp add: le_floor_iff)
    then have "g \<le> ?H" using hour_after(2) [of "\<lfloor>t\<rfloor>"] by (simp add: hour_boundary_def trunc_nonneg t)
    moreover have "\<lfloor>t'\<rfloor> < 2 ^ 64" using t'(3) Suc.prems(2) by (simp add: floor_less_iff algebra_simps)
    ultimately have "current_epoch g \<lfloor>t'\<rfloor> = current_epoch g ?H"
      using aligned_epoch [OF assms(1,2), of "\<lfloor>t'\<rfloor>"] aligned_epoch [OF assms(1,2), of ?H] \<open>?H \<le> \<lfloor>t'\<rfloor>\<close> by linarith
    then show ?thesis using next_epoch wake_floor [OF t] by (simp add: wake_def trunc_nonneg wake_nonneg t)
  qed
  have "t' + 7201 * of_nat k < 2 ^ 63" using Suc.prems(2) t'(3) by (simp add: algebra_simps)
  from Suc.IH [OF t'(2) this, of "Suc n"] same next_epoch show ?case
    by (auto simp: epoch_turn_def chain_epoch_def read_current_epoch_def trunc_nonneg t wake_def [symmetric] t'_def [symmetric]
        map_upt_Suc Let_def simp del: upt_Suc)
qed simp

section \<open>Concrete turns\<close>

text \<open>A genesis half an hour after a full one, and a turn that begins half an hour after a full one.\<close>

lemma demo_boundary: "hour_boundary 5400 = 7200" "hour_boundary 3600 = 7200"
  by (simp_all add: hour_boundary_def trunc_rat_def)

lemma demo_turn: "epoch_turn (chain_epoch 1800) 5400 = (1, 7200)"
  by (simp add: epoch_turn_def chain_epoch_def read_current_epoch_def trunc_rat_def current_epoch_def EPOCH_LENGTH_def
      wait_for_epoch_end_def demo_boundary)


theorem fallback_epoch_is_in_the_future_witness:
  "current_epoch 3600 5400 < fst (epoch_turn (\<lambda>_. Inl OtherError) 5400)"
  using fallback_epoch_is_in_the_future [of 3600 5400 "\<lambda>_. Inl OtherError" OtherError
      "fst (epoch_turn (\<lambda>_. Inl OtherError) 5400)" "snd (epoch_turn (\<lambda>_. Inl OtherError) 5400)"]
  by simp

theorem aligned_epochs_posted_in_turn_witness:
  "map fst (epoch_turns (chain_epoch 3600) (\<lambda>_. 30) 0 3 3600) = [0, 1, 2]"
  using aligned_epochs_posted_in_turn [of 3600 "\<lambda>_. 30" 3600 3 0]
  by (simp add: current_epoch_def EPOCH_LENGTH_def upt_rec)

end
