(* ===== verification/Committed.thy ===== *)
theory Committed imports Service Session Epochs
begin

text \<open>
  An epoch from the validators to the chain: what \<open>validator/src/basedai_validator/runtime.py\<close> posts, what
  \<open>service.py\<close> reads and stores, what \<open>aggregator.py\<close> submits, and what
  \<open>contracts/src/scoring/ScoringRegistry.sol\<close> then makes of it.
\<close>

section \<open>Validators and their aggregator\<close>

text \<open>A validator and an aggregator service set up for the same chain and registry.\<close>

definition same_registry :: "validator_config \<Rightarrow> service_config \<Rightarrow> bool" where
  "same_registry vcfg scfg \<longleftrightarrow> vc_chain_id vcfg = chain_id (agg_cfg scfg)
     \<and> vc_scoring_registry vcfg = scoring_registry (agg_cfg scfg)"

lemma signature_text_0x: "signature_text s = JStr (with_0x s)"
  by (simp add: signature_text_def with_0x_def)

lemma epoch_signature_recovers:
  assumes "recovers_signer E" and "same_registry vcfg scfg" and "epoch_signature E vcfg epoch r = Inr sig"
  shows "recover_commitment_signer E (chain_id (agg_cfg scfg)) (scoring_registry (agg_cfg scfg)) epoch
           (vc_brain_id vcfg) r (with_0x sig) = Inr (validator_address E vcfg)"
  using assms
  by (auto simp: epoch_signature_def sign_commitment_def recover_commitment_signer_def same_registry_def
      recovers_signer_def validator_address_def)

text \<open>The validator hashes checksummed addresses, the service the texts of the rows: the same leaves.\<close>

lemma leaf_hash_checksum:
  assumes "abi_address_value E" and "checksum E a = Inr b"
  shows "leaf_hash E \<lparr>leaf_brain_id = i, leaf_miner = a, leaf_score = x\<rparr> = leaf_hash E \<lparr>leaf_brain_id = i, leaf_miner = b, leaf_score = x\<rparr>"
proof -
  have "abi_encode E ([AUint 256 i] @ AAddress a # [AUint 256 x]) = abi_encode E ([AUint 256 i] @ AAddress b # [AUint 256 x])"
    using assms unfolding abi_address_value_def by blast
  then show ?thesis by (simp add: leaf_hash_def)
qed

definition submitted_row_leaf :: "validator_config \<Rightarrow> miner_score \<Rightarrow> score_leaf" where
  "submitted_row_leaf vcfg s = \<lparr>leaf_brain_id = vc_brain_id vcfg, leaf_miner = scored_miner s, leaf_score = score_fp s\<rparr>"

lemma submitted_leaves:
  "map_res (submitted_leaf rep (vc_brain_id vcfg)) (map score_row scores) = Inr (map (submitted_row_leaf vcfg) scores)"
  by (induction scores) (simp_all add: submitted_leaf_def score_row_def field_str_def field_int_def submitted_row_leaf_def)

lemma build_merkle_root_hashes:
  assumes "map_res (leaf_hash E) xs = map_res (leaf_hash E) ys" and "xs = [] \<longleftrightarrow> ys = []"
  shows "build_merkle_root E xs = build_merkle_root E ys"
  using assms by (simp add: build_merkle_root_def sorted_hashes_def)

lemma epoch_leaves_hash:
  assumes "abi_address_value E" and "map_res (epoch_leaf E vcfg) scores = Inr leaves"
  shows "build_merkle_root E leaves = build_merkle_root E (map (submitted_row_leaf vcfg) scores)"
proof (rule build_merkle_root_hashes)
  show "map_res (leaf_hash E) leaves = map_res (leaf_hash E) (map (submitted_row_leaf vcfg) scores)"
    using assms(2)
    by (induction scores arbitrary: leaves)
      (auto simp: epoch_leaf_def submitted_row_leaf_def leaf_hash_checksum [OF assms(1)])
  show "leaves = [] \<longleftrightarrow> map (submitted_row_leaf vcfg) scores = []"
    using map_res_length [OF assms(2)] by auto
qed

lemma candidate_is_read:
  assumes "recovers_signer E" and "abi_address_value E" and "same_registry vcfg scfg"
    and "build_candidate E vcfg epoch scores = Inr payload"
  shows "read_candidate E scfg (Some payload) =
      Inr (epoch, vc_brain_id vcfg, validator_address E vcfg, map score_row scores, validator_address E vcfg)"
proof -
  obtain leaves own_root hashed sig where l: "map_res (epoch_leaf E vcfg) scores = Inr leaves"
    and r: "build_merkle_root E leaves = Inr (own_root, hashed)"
    and sig: "epoch_signature E vcfg epoch (RBytes own_root) = Inr sig"
    and p: "payload = candidate_payload E vcfg epoch scores sig"
    using assms(4) by (auto simp: build_candidate_def)
  have fields: "field_int payload ''epoch'' = Inr epoch" "field_int payload ''brain_id'' = Inr (vc_brain_id vcfg)"
    "field_str (text_of scfg) payload ''signer'' = Inr (validator_address E vcfg)"
    "jkey payload (lit ''scores'') = Inr (JList (map score_row scores))"
    "field_str (text_of scfg) payload ''signature'' = Inr (with_0x sig)"
    by (simp_all add: p candidate_payload_def field_int_def field_str_def signature_text_0x)
  have "build_merkle_root E (map (submitted_row_leaf vcfg) scores) = Inr (own_root, hashed)"
    using epoch_leaves_hash [OF assms(2) l] r by simp
  then show ?thesis
    using epoch_signature_recovers [OF assms(1,3) sig]
    by (simp add: read_candidate_def request_json_def fields submitted_leaves del: rbind_Inr_iff)
qed

lemma honest_commitment:
  assumes "recovers_signer E" and "keys_checksummed E" and "same_registry vcfg scfg"
    and "epoch_signature E vcfg epoch (RStr r) = Inr sig"
  shows "read_commitment scfg (Some (commitment_payload E vcfg epoch r sig)) =
           Inr (epoch, vc_brain_id vcfg, r, validator_address E vcfg, with_0x sig)"
    and "\<exists>a. add_commitment E (agg_cfg scfg) st epoch (vc_brain_id vcfg) (RStr r) (validator_address E vcfg) (with_0x sig) = (a, Inr True)
         \<and> dict_get (signers_for a epoch (vc_brain_id vcfg) (RStr r)) (validator_address E vcfg) = Some (with_0x sig)"
proof -
  have own: "checksum E (validator_address E vcfg) = Inr (validator_address E vcfg)"
    using assms(2) by (simp add: keys_checksummed_def validator_address_def)
  have "with_0x (with_0x sig) = with_0x sig" by (simp add: with_0x_def)
  then show "\<exists>a. add_commitment E (agg_cfg scfg) st epoch (vc_brain_id vcfg) (RStr r) (validator_address E vcfg) (with_0x sig) = (a, Inr True)
         \<and> dict_get (signers_for a epoch (vc_brain_id vcfg) (RStr r)) (validator_address E vcfg) = Some (with_0x sig)"
    using epoch_signature_recovers [OF assms(1,3,4)] own
    by (simp add: add_commitment_def Let_def signers_for_def dict_get_or_def alist_dict.look_put)
qed (simp add: read_commitment_def request_json_def field_int_def field_str_def commitment_payload_def signature_text_0x)

text \<open>
  An honest candidate authenticates its validator: the aggregator service reads from the request
  a validator posts exactly its epoch, Brain, address and rows, rebuilds the same Merkle root from
  them and recovers the validator's own address from the signature, so that the request is handed
  to the candidate pool.
\<close>
theorem honest_candidate_is_authenticated:
  assumes "recovers_signer E" and "abi_address_value E" and "same_registry vcfg scfg"
    and "build_candidate E vcfg epoch scores = Inr payload"
  shows "read_candidate E scfg (Some payload) =
      Inr (epoch, vc_brain_id vcfg, validator_address E vcfg, map score_row scores, validator_address E vcfg)"
  by (rule candidate_is_read [OF assms])

text \<open>
  An honest epoch is committed: when the aggregator service answers a validator's candidate with
  a canonical root, the validator posts a commitment to that root, and the service reads it back,
  accepts it and stores the signature under the validator's address for this epoch, Brain and
  root, whatever else it has stored.
\<close>
theorem honest_commitment_is_stored:
  assumes "recovers_signer E" and "keys_checksummed E" and "same_registry vcfg scfg"
    and "score_observations N obs = Inr scores" and "scores \<noteq> []"
    and "build_candidate E vcfg epoch scores = Inr payload" and "configured (vc_aggregator_url vcfg) = Some url"
    and "submit_candidate E scfg cv st (Some payload) = (st', Inr (candidate_response (Some (mroot, rows))))"
    and "epoch_signature E vcfg epoch (RStr mroot) = Inr sig"
  shows "\<exists>body a. post_epoch_commitment E N rep vcfg
        (\<lambda>sent. if sent = payload then Inr (fst (candidate_response (Some (mroot, rows))), Inr (snd (candidate_response (Some (mroot, rows)))))
                else Inl OtherError) gets epoch obs = Inr (Some body)
    \<and> read_commitment scfg (Some body) = Inr (epoch, vc_brain_id vcfg, mroot, validator_address E vcfg, with_0x sig)
    \<and> add_commitment E (agg_cfg scfg) (agg st'') epoch (vc_brain_id vcfg) (RStr mroot) (validator_address E vcfg) (with_0x sig) = (a, Inr True)
    \<and> dict_get (signers_for a epoch (vc_brain_id vcfg) (RStr mroot)) (validator_address E vcfg) = Some (with_0x sig)"
proof -
  let ?post = "\<lambda>sent. if sent = payload then Inr (fst (candidate_response (Some (mroot, rows))), Inr (snd (candidate_response (Some (mroot, rows)))))
                else Inl OtherError"
  have "submit_candidate_to rep vcfg ?post gets payload = Inr (Some mroot)"
    using assms(7) by (simp add: submit_candidate_to_def checked_json_def candidate_response_def dict_get_or_def)
  then have "post_epoch_commitment E N rep vcfg ?post gets epoch obs = Inr (Some (commitment_payload E vcfg epoch mroot sig))"
    using assms(4-7,9) by (simp add: post_epoch_commitment_def del: rbind_Inr_iff)
  with honest_commitment [OF assms(1-3,9)] show ?thesis by blast
qed

lemma honest_commitment_counts:
  assumes "recovers_signer E" and "keys_checksummed E" and "same_registry vcfg scfg"
    and "epoch_signature E vcfg epoch (RStr r) = Inr sig"
    and "AddCommitment epoch (vc_brain_id vcfg) (RStr r) (validator_address E vcfg) (with_0x sig) \<in> set evs"
  shows "stands_behind (fst (foldl (agg_step E (agg_cfg scfg)) x evs)) epoch (vc_brain_id vcfg) (RStr r)
           (validator_address E vcfg)"
proof (rule committed_stands_behind [OF assms(5)])
  fix st
  from honest_commitment(2) [OF assms(1-4), of st]
  show "stands_behind (fst (add_commitment E (agg_cfg scfg) st epoch (vc_brain_id vcfg) (RStr r)
      (validator_address E vcfg) (with_0x sig))) epoch (vc_brain_id vcfg) (RStr r) (validator_address E vcfg)"
    by (auto simp: stands_behind_def)
qed

text \<open>The commitments of validators that agree on a root, each as its own service reads it.\<close>

definition has_committed ::
    "ethlib \<Rightarrow> service_config \<Rightarrow> agg_event list \<Rightarrow> int \<Rightarrow> int \<Rightarrow> pystr \<Rightarrow> validator_config \<Rightarrow> bool" where
  "has_committed E scfg evs epoch b r v \<longleftrightarrow> same_registry v scfg \<and> vc_brain_id v = b
     \<and> (case epoch_signature E v epoch (RStr r) of
          Inl _ \<Rightarrow> False
        | Inr sig \<Rightarrow> AddCommitment epoch b (RStr r) (validator_address E v) (with_0x sig) \<in> set evs)"

lemma has_committed_counts:
  assumes "recovers_signer E" and "keys_checksummed E" and "has_committed E scfg evs epoch b r v"
  shows "stands_behind (fst (foldl (agg_step E (agg_cfg scfg)) x evs)) epoch b (RStr r) (validator_address E v)"
proof (cases "epoch_signature E v epoch (RStr r)")
  case (Inr sig)
  with assms(3) have "same_registry v scfg" "vc_brain_id v = b"
    "AddCommitment epoch b (RStr r) (validator_address E v) (with_0x sig) \<in> set evs"
    by (simp_all add: has_committed_def)
  with honest_commitment_counts [OF assms(1,2) _ Inr] show ?thesis by blast
qed (use assms(3) in \<open>simp add: has_committed_def\<close>)

lemma honest_majority_call:
  assumes "recovers_signer E" and "keys_checksummed E" and "checksum_canonical E" and "recover_ignores_prefix E"
    and "foldl (agg_step E (agg_cfg scfg)) (new_aggregator, []) evs = (s, calls)" and "(epoch, b) \<notin> proposed s"
    and "\<forall>v \<in> set vs. has_committed E scfg evs epoch b (hex0x rb) v"
    and "\<forall>v \<in> set vs. \<forall>x. stands_behind s epoch b (RStr x) (validator_address E v) \<longrightarrow> lower x = hex0x rb"
    and "ledger (stake_of cv b) (total_stake cv b)" and "total_stake cv b \<noteq> 0"
    and "5000 < min_quorum_bps (agg_cfg scfg)" and "distinct (map (validator_address E) vs)"
    and "quorum_need (total_stake cv b) (min_quorum_bps (agg_cfg scfg)) \<le> (\<Sum>v \<leftarrow> vs. stake_of cv b (validator_address E v))"
  shows "quorum_met (agg_cfg scfg) cv s epoch b (RStr (hex0x rb))
    \<and> (\<exists>s' signers sigs. try_propose (agg_cfg scfg) cv s epoch b =
             (s', Some (epoch, b, rb, signers, sigs), rbind (propose_fn cv (epoch, b, rb, signers, sigs)) (\<lambda>tx. Inr (Some tx)))
         \<and> contract_accepts E (agg_cfg scfg) cv (epoch, b, rb, signers, sigs)
         \<and> (\<forall>a \<in> set signers. stands_behind s epoch b (RStr (hex0x rb)) a)
         \<and> ((epoch, b) \<in> proposed s' \<longleftrightarrow> (\<exists>tx. propose_fn cv (epoch, b, rb, signers, sigs) = Inr tx)))"
proof -
  let ?A = "validator_address E ` set vs"
  have ok: "agg_ok E (agg_cfg scfg) s"
    using agg_machine.reachable_inv [of "(new_aggregator, [])" E "agg_cfg scfg" evs] assms(5) by simp
  have "stands_behind s epoch b (RStr (hex0x rb)) (validator_address E v)" if "v \<in> set vs" for v
    using has_committed_counts [OF assms(1,2), of scfg evs epoch b "hex0x rb" v "(new_aggregator, [])"] assms(5,7) that
    by simp
  moreover have "sum (stake_of cv b) ?A = (\<Sum>v \<leftarrow> vs. stake_of cv b (validator_address E v))"
    using sum_list_distinct_conv_sum_set [OF assms(12), of "stake_of cv b"] by (simp add: comp_def)
  ultimately have best: "quorum_met (agg_cfg scfg) cv s epoch b (RStr (hex0x rb))"
      "best_root cv s epoch b = Some (hex0x rb)"
    using quorum_root_is_best [OF ok assms(9-11), of ?A epoch "hex0x rb"] assms(8,13) by auto
  have pos: "0 \<le> total_stake cv b" "0 < min_quorum_bps (agg_cfg scfg)"
    using assms(9,11) by (force simp: ledger_def)+
  obtain c s' where c: "try_propose (agg_cfg scfg) cv s epoch b = (s', Some c, rbind (propose_fn cv c) (\<lambda>tx. Inr (Some tx)))"
      "(epoch, b) \<in> proposed s' \<longleftrightarrow> (\<exists>tx. propose_fn cv c = Inr tx)"
    using quorum_calls [OF ok best(2) _ best(1) assms(6,3,4) pos] by auto
  obtain signers sigs where args: "c = (epoch, b, rb, signers, sigs)"
      "assemble s epoch b (RStr (hex0x rb)) = Inr (signers, sigs)"
    by (rule try_propose_call [OF c(1)]) (use best(2) in auto)
  have "contract_accepts E (agg_cfg scfg) cv c"
    using assembled_acceptable [OF ok best_root_Some(1) [OF best(2)] _ best(1) args(2) _ assms(3,4) pos] args(1) by simp
  moreover have "stands_behind s epoch b (RStr (hex0x rb)) a" if "a \<in> set signers" for a
    using that mset_eq_setD [OF assemble_sorted(1) [OF args(2)]]
    by (simp add: stands_behind_def map_of_eq_None_iff del: not_None_eq)
  ultimately show ?thesis using best(1) c unfolding args(1) by blast
qed


text \<open>
  The root the validators sign proves the canonical rows: once a pair is frozen, every one of its
  rows has a proof that the contract's verifier folds to that root, and signing the answered text
  is signing exactly the bytes the rows are proved against.
\<close>
theorem canonical_row_is_provable:
  assumes "pool_get (foldl (pool_step E bps) new_pool evs) epoch b = Some (mroot, rows)" and "(m, x) \<in> set rows"
  shows "\<exists>pf h rb. build_proof E (map (row_leaf b) rows) (row_leaf b (m, x)) = Inr pf
    \<and> leaf_hash E (row_leaf b (m, x)) = Inr h \<and> process_proof E h pf = rb
    \<and> (\<forall>chain registry. commitment_digest E chain registry epoch b (RStr mroot) =
          commitment_digest E chain registry epoch b (RBytes rb))"
proof -
  have "pool_ok E (foldl (pool_step E bps) new_pool evs)" by (rule pool_machine.reachable_inv) simp
  with assms(1) have "canonical_ok E b (mroot, rows)" unfolding pool_ok_def pool_get_def by fastforce
  then obtain rb hashed where rb: "build_merkle_root E (map (row_leaf b) rows) = Inr (rb, hashed)" "mroot = hex0x rb"
    by (auto simp: canonical_ok_def)
  have "row_leaf b (m, x) \<in> set (map (row_leaf b) rows)" using assms(2) by auto
  from leaf_proof_verifies [OF rb(1) this] obtain pf h where "build_proof E (map (row_leaf b) rows) (row_leaf b (m, x)) = Inr pf"
    "leaf_hash E (row_leaf b (m, x)) = Inr h" "process_proof E h pf = rb" by blast
  moreover have "commitment_digest E chain registry epoch b (RStr mroot) = commitment_digest E chain registry epoch b (RBytes rb)"
    for chain registry
    by (simp add: commitment_digest_def rb(2))
  ultimately show ?thesis by blast
qed

section \<open>Down to the contract\<close>

text \<open>Validators with a quorum of the stake that agree on one root and have signed no other of the epoch.\<close>

definition honest_quorum ::
    "ethlib \<Rightarrow> service_config \<Rightarrow> chain_view \<Rightarrow> agg_event list \<Rightarrow> agg_state \<Rightarrow> int \<Rightarrow> int \<Rightarrow> bytes \<Rightarrow> validator_config list \<Rightarrow> bool" where
  "honest_quorum E scfg cv evs s epoch b rb vs \<longleftrightarrow>
     (\<forall>v \<in> set vs. has_committed E scfg evs epoch b (hex0x rb) v
        \<and> (\<forall>x. stands_behind s epoch b (RStr x) (validator_address E v) \<longrightarrow> lower x = hex0x rb))
     \<and> distinct (map (validator_address E) vs) \<and> total_stake cv b \<noteq> 0
     \<and> quorum_need (total_stake cv b) (min_quorum_bps (agg_cfg scfg)) \<le> (\<Sum>v \<leftarrow> vs. stake_of cv b (validator_address E v))"

text \<open>The state in which the contract takes a root for a completed epoch.\<close>

definition epoch_open :: "registry_site \<Rightarrow> registry \<Rightarrow> int \<Rightarrow> int \<Rightarrow> int \<Rightarrow> bytes \<Rightarrow> bool" where
  "epoch_open site r t epoch b rb \<longleftrightarrow> calldata_ok epoch b rb \<and> rb \<noteq> zero_root
     \<and> epoch < current_epoch (rs_genesis site) t \<and> ec_root (rg_epochs r (epoch, b)) = zero_root"

lemma frozen_row_verifies:
  assumes "pool_get (foldl (pool_step E bps) new_pool pevs) epoch b = Some (hex0x rb, rows)" and "(m, x) \<in> set rows"
    and "length rb = 32" and "ec_root (rg_epochs r (epoch, b)) = rb" and "rb \<noteq> zero_root"
    and "ec_finalized_at (rg_epochs r (epoch, b)) \<noteq> 0" and "\<not> ec_invalidated (rg_epochs r (epoch, b))"
  shows "\<exists>pf. build_proof E (map (row_leaf b) rows) (row_leaf b (m, x)) = Inr pf \<and> verify_score E r epoch b m x pf"
proof -
  have "pool_ok E (foldl (pool_step E bps) new_pool pevs)" by (rule pool_machine.reachable_inv) simp
  with assms(1) have "canonical_ok E b (hex0x rb, rows)" unfolding pool_ok_def pool_get_def by fastforce
  then obtain rt hashed where rt: "build_merkle_root E (map (row_leaf b) rows) = Inr (rt, hashed)" "hex0x rb = hex0x rt"
    by (auto simp: canonical_ok_def)
  have "row_leaf b (m, x) \<in> set (map (row_leaf b) rows)" using assms(2) by auto
  from leaf_proof_verifies [OF rt(1) this] rt(2) show ?thesis
    using assms(3-) by (auto simp: verify_score_def row_leaf_def)
qed


section \<open>The price of an honest epoch\<close>

text \<open>A validator set up for the contract at a site.\<close>

definition signs_for_site :: "ethlib \<Rightarrow> validator_config \<Rightarrow> registry_site \<Rightarrow> bool" where
  "signs_for_site E vcfg site \<longleftrightarrow> vc_chain_id vcfg = rs_chain site
     \<and> checksum E (vc_scoring_registry vcfg) = Inr (rs_address site)"

lemma epoch_signature_on_chain:
  assumes "recovers_signer E" and "keys_checksummed E" and "signs_for_site E vcfg site"
    and "epoch_signature E vcfg epoch root_arg = Inr sig" and "as_root_bytes root_arg = Inr rb"
  shows "\<exists>digest. registry_digest E site epoch (vc_brain_id vcfg) rb = Inr digest
    \<and> recovers_to E digest (with_0x sig) (validator_address E vcfg)"
proof -
  have len: "length rb = 32" using assms(5) by (rule as_root_bytes_length)
  obtain digest where d: "commitment_digest E (rs_chain site) (vc_scoring_registry vcfg) epoch (vc_brain_id vcfg) root_arg = Inr digest"
      "sig = sign_message E (vc_key vcfg) digest"
    using assms(3,4) by (auto simp: epoch_signature_def sign_commitment_def signs_for_site_def)
  have "commitment_digest E (rs_chain site) (vc_scoring_registry vcfg) epoch (vc_brain_id vcfg) root_arg
      = registry_digest E site epoch (vc_brain_id vcfg) rb"
    using assms(3,5) len by (simp add: commitment_digest_def registry_digest_def signs_for_site_def)
  moreover have "recovers_to E digest (with_0x sig) (validator_address E vcfg)"
    using assms(1,2) d(2) by (simp add: recovers_to_def recovers_signer_def keys_checksummed_def validator_address_def checksum_def)
  ultimately show ?thesis using d(1) by (intro exI [of _ digest]) simp
qed

lemma challenge_succeeds:
  assumes "calldata_ok epoch b ra" and "length rb = 32" and "ra \<noteq> rb" and "ec_root (rg_epochs r (epoch, b)) = rb" and "rb \<noteq> zero_root"
    and "\<not> ec_invalidated (rg_epochs r (epoch, b))" and "rg_signers r (epoch, b, a)"
    and "\<exists>d. registry_digest E site epoch b ra = Inr d \<and> recovers_to E d siga a"
    and "\<exists>d. registry_digest E site epoch b rb = Inr d \<and> recovers_to E d sigb a"
    and "vault_ok v" and "words_ok v" and "0 < validator_stake v b a"
  shows "\<exists>r' v'. challenge_equivocation E site True True v r epoch b ra siga rb sigb a = Inr (r', v', validator_stake v b a)
    \<and> ec_invalidated (rg_epochs r' (epoch, b)) \<and> validator_stake v' b a = 0"
proof -
  have le: "0 \<le> vt_assets v (b, a)" "vt_assets v (b, a) \<le> vt_brain v b" "vt_brain v b \<le> vt_total v"
    using assets_le assms(10) by (simp_all add: vault_ok_iff)
  have "vt_total v < 2 ^ 256" using assms(11) by (simp add: words_ok_def)
  with le have words: "is_uint256 (vt_assets v (b, a))" "is_uint256 (vt_brain v b - vt_assets v (b, a))"
      "is_uint256 (vt_total v - vt_assets v (b, a))"
    by (simp_all add: is_uint256_def)
  obtain v' where v': "slash True True v b a (validator_stake v b a) = Inr (v', validator_stake v b a)" "validator_stake v' b a = 0"
    using words assms(12) by (simp add: slash_def Let_def validator_stake_def add_assets_def is_uint256_def)
  with assms show ?thesis
    by (auto simp: challenge_equivocation_def Let_def)
qed

text \<open>
  C1. An honest validator can be slashed: the candidate it posts carries a signature over the root of its
  own scores that is, bit for bit, a commitment to that root; when the canonical root it then
  commits to is another one and the contract has taken it with this validator among the signers,
  anyone who has read the two requests can call \<open>challengeEquivocation\<close> with the two signatures,
  before or after the finalisation, and the call burns the validator's whole stake on the Brain and voids
  the epoch.
\<close>
theorem honest_validator_is_slashable:
  assumes "recovers_signer E" and "keys_checksummed E" and "signs_for_site E vcfg site"
    and "score_observations N obs = Inr scores" and "map_res (epoch_leaf E vcfg) scores = Inr leaves"
    and "build_merkle_root E leaves = Inr (own, hashed)"
    and "post_epoch_commitment E N rep vcfg post gets epoch obs = Inr (Some body)"
    and "jkey body (lit ''root'') = Inr (JStr (hex0x rb))" and "own \<noteq> rb"
    and "foldl (chain_step E site) (new_registry, new_vault, 0) cevs = (r, v, held)"
    and "calldata_ok epoch (vc_brain_id vcfg) rb" and "ec_root (rg_epochs r (epoch, vc_brain_id vcfg)) = rb" and "rb \<noteq> zero_root"
    and "rg_signers r (epoch, vc_brain_id vcfg, validator_address E vcfg)"
    and "\<not> ec_invalidated (rg_epochs r (epoch, vc_brain_id vcfg))"
    and "0 < validator_stake v (vc_brain_id vcfg) (validator_address E vcfg)"
  shows "\<exists>payload siga sigb r' v'. build_candidate E vcfg epoch scores = Inr payload
    \<and> jkey payload (lit ''signature'') = Inr (JStr siga) \<and> jkey body (lit ''signature'') = Inr (JStr sigb)
    \<and> challenge_equivocation E site True True v r epoch (vc_brain_id vcfg) own siga rb sigb (validator_address E vcfg)
        = Inr (r', v', validator_stake v (vc_brain_id vcfg) (validator_address E vcfg))
    \<and> ec_invalidated (rg_epochs r' (epoch, vc_brain_id vcfg))
    \<and> validator_stake v' (vc_brain_id vcfg) (validator_address E vcfg) = 0"
proof -
  let ?b = "vc_brain_id vcfg" and ?a = "validator_address E vcfg"
  obtain payload root_hex sigb where p: "build_candidate E vcfg epoch scores = Inr payload"
      and sb: "epoch_signature E vcfg epoch (RStr root_hex) = Inr sigb" and body: "body = commitment_payload E vcfg epoch root_hex sigb"
    using assms(4,7) by (auto simp: post_epoch_commitment_def split: if_splits option.splits)
  have hex: "root_hex = hex0x rb" using assms(8) by (simp add: body commitment_payload_def)
  obtain siga where sa: "epoch_signature E vcfg epoch (RBytes own) = Inr siga" and pp: "payload = candidate_payload E vcfg epoch scores siga"
    using p assms(5,6) by (auto simp: build_candidate_def)
  have len: "length rb = 32" using assms(11) by (simp add: calldata_ok_def)
  have own: "length own = 32"
    using sa by (auto simp: epoch_signature_def sign_commitment_def commitment_digest_def)
  have ok: "vault_ok v" "words_ok v"
    using chain_machine.reachable_inv [of "(new_registry, new_vault, 0)" E site cevs] assms(10) by (simp_all add: chain_ok_def)
  have "calldata_ok epoch ?b own" using assms(11) own by (simp add: calldata_ok_def)
  from challenge_succeeds [OF this len assms(9,12,13,15,14)
      epoch_signature_on_chain [OF assms(1-3) sa] epoch_signature_on_chain [OF assms(1-3) sb] ok assms(16)]
  show ?thesis
    using p own len by (simp add: pp body hex candidate_payload_def commitment_payload_def signature_text_0x)
qed

section \<open>Concrete epochs\<close>

lemma demo_recovers_keys: "recovers_signer demo_eth" "keys_checksummed demo_eth" "abi_address_value demo_eth"
  using demo_libraries by (simp_all add: libraries_ok_def)

definition demo_aggregator :: service_config where
  "demo_aggregator = \<lparr>agg_cfg = demo_cfg\<lparr>chain_id := 1\<rparr>, pool_bps = 5001, text_of = \<lambda>_. []\<rparr>"

lemma demo_same_registry: "same_registry demo_vcfg demo_aggregator"
  by (simp add: same_registry_def demo_vcfg_def demo_aggregator_def)

theorem honest_candidate_is_authenticated_witness:
  "\<exists>payload s. build_candidate demo_eth demo_vcfg 5 [s] = Inr payload
     \<and> read_candidate demo_eth demo_aggregator (Some payload) = Inr (5, 3, hex0x [6], [score_row s], hex0x [6])"
proof -
  obtain s csig where "build_candidate demo_eth demo_vcfg 5 [s] = Inr (candidate_payload demo_eth demo_vcfg 5 [s] csig)"
    by (rule demo_build_candidate)
  with honest_candidate_is_authenticated [OF demo_recovers_keys(1,3) demo_same_registry this] show ?thesis
    by (auto simp: validator_address_def demo_vcfg_def demo_key_def)
qed

text \<open>A service whose pool has already frozen epoch 5 of Brain 3.\<close>

definition demo_frozen_service :: service_state where
  "demo_frozen_service = \<lparr>agg = new_aggregator,
     pool = Some \<lparr>contributions = [], frozen = [((5, 3), (hex0x (demo_hash 9), [(hex0x [7], 1)]))]\<rparr>\<rparr>"

theorem honest_commitment_is_stored_witness:
  "\<exists>a sig. dict_get (signers_for a 5 3 (RStr (hex0x (demo_hash 9)))) (hex0x [6]) = Some (with_0x sig)"
proof -
  obtain s csig where s: "score_observations demo_numpy [demo_raw] = Inr [s]"
    and payload: "build_candidate demo_eth demo_vcfg 5 [s] = Inr (candidate_payload demo_eth demo_vcfg 5 [s] csig)"
    by (rule demo_build_candidate)
  obtain sig where sig: "epoch_signature demo_eth demo_vcfg 5 (RStr (hex0x (demo_hash 9))) = Inr sig"
    using demo_root_signature by blast
  have "read_candidate demo_eth demo_aggregator (Some (candidate_payload demo_eth demo_vcfg 5 [s] csig)) =
      Inr (5, 3, hex0x [6], [score_row s], hex0x [6])"
    using candidate_is_read [OF demo_recovers_keys(1,3) demo_same_registry payload]
    by (simp add: validator_address_def demo_vcfg_def demo_key_def)
  then have posted: "submit_candidate demo_eth demo_aggregator demo_view demo_frozen_service
      (Some (candidate_payload demo_eth demo_vcfg 5 [s] csig)) =
    (demo_frozen_service, Inr (candidate_response (Some (hex0x (demo_hash 9), [(hex0x [7], 1)]))))"
    by (simp add: submit_candidate_def demo_frozen_service_def pool_add_def demo_aggregator_def)
  have url: "configured (vc_aggregator_url demo_vcfg) = Some (lit ''a'')"
    by (simp add: demo_vcfg_def configured_def)
  have "vc_brain_id demo_vcfg = 3" "validator_address demo_eth demo_vcfg = hex0x [6]" "[s] \<noteq> []"
    by (simp_all add: validator_address_def demo_vcfg_def demo_key_def)
  with honest_commitment_is_stored [OF demo_recovers_keys(1,2) demo_same_registry s this(3) payload url posted sig]
  show ?thesis by metis
qed

text \<open>
  Two validators commit to one root; a third account without stake commits to an unprefixed
  spelling of it.
\<close>

definition demo_validator :: "pystr \<Rightarrow> validator_config" where
  "demo_validator key = demo_vcfg\<lparr>vc_key := key\<rparr>"

definition demo_epoch_hash :: bytes where
  "demo_epoch_hash = demo_hash (sum_list (ascii_bytes ''BasedAI:ScoringRegistry:v2'') + 1 + 171 + 5 + 3 + 9)"

lemma demo_epoch_digest:
  "as_root_bytes r = Inr (demo_hash 9) \<Longrightarrow> commitment_digest demo_eth 1 (hex0x [171]) 5 3 r = Inr demo_epoch_hash"
  by (simp add: commitment_digest_def commitment_fields_def DOMAIN_TAG_def demo_epoch_hash_def)

definition demo_epoch_sig :: "byte \<Rightarrow> pystr" where
  "demo_epoch_sig x = to_hex (x # demo_epoch_hash)"

lemma demo_epoch_sig_prefix [simp]: "with_0x (demo_epoch_sig x) = ox @ demo_epoch_sig x"
  by (simp add: with_0x_def demo_epoch_sig_def)

lemma demo_epoch_signer [simp]:
  "as_root_bytes r = Inr (demo_hash 9) \<Longrightarrow>
     recover_commitment_signer demo_eth 1 (hex0x [171]) 5 3 r (ox @ demo_epoch_sig x) = Inr (hex0x [x])"
  by (simp add: recover_commitment_signer_def demo_epoch_digest demo_recover_def demo_epoch_sig_def strip_0x_def)

abbreviation demo_epoch_run :: "agg_event list" where
  "demo_epoch_run \<equiv> [AddCommitment 5 3 (RStr (hex0x (demo_hash 9))) (hex0x [2]) (ox @ demo_epoch_sig 2),
     AddCommitment 5 3 (RStr (to_hex (demo_hash 9))) (hex0x [9]) (ox @ demo_epoch_sig 9),
     AddCommitment 5 3 (RStr (hex0x (demo_hash 9))) (hex0x [1]) (ox @ demo_epoch_sig 1)]"

abbreviation demo_epoch_reached :: agg_state where
  "demo_epoch_reached \<equiv> \<lparr>pending =
     [((5, 3, hex0x (demo_hash 9)), [(hex0x [2], ox @ demo_epoch_sig 2), (hex0x [1], ox @ demo_epoch_sig 1)]),
      ((5, 3, to_hex (demo_hash 9)), [(hex0x [9], ox @ demo_epoch_sig 9)])], proposed = {}\<rparr>"

lemma demo_epoch_root_bytes [simp]:
  "as_root_bytes (RStr (hex0x (demo_hash 9))) = Inr (demo_hash 9)"
  "as_root_bytes (RStr (to_hex (demo_hash 9))) = Inr (demo_hash 9)"
  by simp_all

lemma demo_epoch_keys [simp]: "hex0x (demo_hash 9) \<noteq> to_hex (demo_hash 9)" "to_hex (demo_hash 9) \<noteq> hex0x (demo_hash 9)"
  by (metis startswith_hex0x to_hex_no_prefix)+

lemma demo_epoch_reaches:
  "foldl (agg_step demo_eth (agg_cfg demo_aggregator)) (new_aggregator, []) demo_epoch_run = (demo_epoch_reached, [])"
  by (simp add: demo_aggregator_def add_commitment_def new_aggregator_def Let_def setdefault_def with_0x_def dict_get_or_def
      del: as_root_bytes.simps)

lemma demo_has_committed:
  "has_committed demo_eth demo_aggregator demo_epoch_run 5 3 (hex0x (demo_hash 9)) (demo_validator [1])"
  "has_committed demo_eth demo_aggregator demo_epoch_run 5 3 (hex0x (demo_hash 9)) (demo_validator [2])"
  by (simp_all add: has_committed_def demo_validator_def same_registry_def demo_vcfg_def demo_aggregator_def
      epoch_signature_def sign_commitment_def demo_epoch_digest demo_key_def validator_address_def
      del: as_root_bytes.simps)
    (simp_all add: demo_epoch_sig_def with_0x_def)


theorem canonical_row_is_provable_witness:
  "\<exists>pf h. leaf_hash demo_eth (row_leaf 8 (hex0x [7], 500000)) = Inr h
     \<and> build_proof demo_eth (map (row_leaf 8) [(hex0x [7], 500000)]) (row_leaf 8 (hex0x [7], 500000)) = Inr pf"
  using canonical_row_is_provable [OF demo_pool_get, of "hex0x [7]" 500000] by auto

text \<open>Brain 8, epoch 1: two staked validators, a frozen pair and the commitments to its root.\<close>

definition demo_chain_validator :: "pystr \<Rightarrow> validator_config" where
  "demo_chain_validator key = demo_vcfg\<lparr>vc_key := key, vc_brain_id := 8, vc_chain_id := 57073\<rparr>"

lemma demo_chain_validator_simps [simp]:
  "vc_key (demo_chain_validator key) = key" "vc_brain_id (demo_chain_validator key) = 8"
  "vc_chain_id (demo_chain_validator key) = 57073" "vc_scoring_registry (demo_chain_validator key) = hex0x [171]"
  "vc_aggregator_url (demo_chain_validator key) = Some (lit ''a'')"
  by (simp_all add: demo_chain_validator_def demo_vcfg_def)

lemma demo_chain_digest:
  "as_root_bytes r = Inr (demo_hash x) \<Longrightarrow> commitment_digest demo_eth 57073 (hex0x [171]) 1 8 r = Inr (demo_digest_of x)"
  using demo_digest_root [of x] by (simp add: commitment_digest_def registry_digest_def)

lemma demo_chain_signature:
  "as_root_bytes r = Inr (demo_hash x) \<Longrightarrow>
     epoch_signature demo_eth (demo_chain_validator key) 1 r = Inr (demo_sig_of (demo_key key) x)"
  by (simp add: epoch_signature_def sign_commitment_def demo_chain_digest demo_sig_of_def)

lemma demo_root_text: "as_root_bytes (RStr (hex0x (demo_hash x))) = Inr (demo_hash x)"
  by simp

lemma demo_sig_of_prefix [simp]: "with_0x (demo_sig_of k x) = ox @ demo_sig_of k x" "with_0x (ox @ demo_sig_of k x) = ox @ demo_sig_of k x"
  by (simp_all add: with_0x_def demo_sig_of_def)

lemma demo_chain_signer [simp]:
  "recover_commitment_signer demo_eth 57073 (hex0x [171]) 1 8 (RStr (hex0x (demo_hash x))) (ox @ demo_sig_of k x) = Inr (hex0x [k])"
  by (simp add: recover_commitment_signer_def demo_chain_digest demo_recover_def demo_sig_of_def strip_0x_def)

abbreviation demo_chain_aggregator :: service_config where
  "demo_chain_aggregator \<equiv> \<lparr>agg_cfg = demo_cfg, pool_bps = 5001, text_of = \<lambda>_. []\<rparr>"

abbreviation demo_pair_commitments :: "agg_event list" where
  "demo_pair_commitments \<equiv> [AddCommitment 1 8 (RStr (hex0x (demo_hash 47))) (hex0x [1]) (ox @ demo_sig_of 1 47),
     AddCommitment 1 8 (RStr (hex0x (demo_hash 47))) (hex0x [2]) (ox @ demo_sig_of 2 47)]"

abbreviation demo_pair_reached :: agg_state where
  "demo_pair_reached \<equiv> \<lparr>pending = [((1, 8, hex0x (demo_hash 47)),
     [(hex0x [1], ox @ demo_sig_of 1 47), (hex0x [2], ox @ demo_sig_of 2 47)])], proposed = {}\<rparr>"

lemma demo_pair_reaches:
  "foldl (agg_step demo_eth (agg_cfg demo_chain_aggregator)) (new_aggregator, []) demo_pair_commitments = (demo_pair_reached, [])"
  by (simp add: add_commitment_def new_aggregator_def Let_def setdefault_def dict_get_or_def del: as_root_bytes.simps)

definition demo_pair_stake :: vault where
  "demo_pair_stake = \<lparr>vt_assets = (\<lambda>_. 0)((8, hex0x [1]) := 100, (8, hex0x [2]) := 100),
     vt_shares = (\<lambda>_. 0)((8, hex0x [1]) := 100, (8, hex0x [2]) := 100),
     vt_staker = (\<lambda>_ _. 0)((8, hex0x [1]) := (\<lambda>_. 0)(hex0x [7] := 100), (8, hex0x [2]) := (\<lambda>_. 0)(hex0x [7] := 100)),
     vt_pending = (\<lambda>_ _. (0, 0)), vt_total = 200, vt_brain = (\<lambda>_. 0)(8 := 200)\<rparr>"

lemma demo_pair_stakes:
  "foldl (chain_step demo_eth demo_site) (new_registry, new_vault, 0)
     [AtVault (Stake True 8 (hex0x [1]) (hex0x [7]) 100), AtVault (Stake True 8 (hex0x [2]) (hex0x [7]) 100)]
   = (new_registry, demo_pair_stake, 200)"
  by (simp add: demo_stake_step del: vault_step.simps)
    (simp add: demo_stake_def stake_def assets_to_shares_def add_assets_def checked_def is_uint256_def demo_pair_stake_def
      hex0x_not_zero_address Let_def fun_eq_iff)

abbreviation demo_pair_view :: chain_view where
  "demo_pair_view \<equiv> \<lparr>stake_of = validator_stake demo_pair_stake, total_stake = brain_stake demo_pair_stake,
     propose_fn = (\<lambda>_. Inr (lit ''0xtx''))\<rparr>"

lemma demo_pair_quorum:
  "honest_quorum demo_eth demo_chain_aggregator demo_pair_view demo_pair_commitments demo_pair_reached 1 8 (demo_hash 47)
     [demo_chain_validator [1], demo_chain_validator [2]]"
proof -
  have addr: "validator_address demo_eth (demo_chain_validator [1]) = hex0x [1]" "validator_address demo_eth (demo_chain_validator [2]) = hex0x [2]"
    by (simp_all add: validator_address_def demo_key_def)
  have "has_committed demo_eth demo_chain_aggregator demo_pair_commitments 1 8 (hex0x (demo_hash 47)) v"
    if "v = demo_chain_validator [1] \<or> v = demo_chain_validator [2]" for v
    using that demo_chain_signature [OF demo_root_text]
    by (auto simp: has_committed_def same_registry_def validator_address_def demo_key_def simp del: as_root_bytes.simps)
  moreover have "lower x = hex0x (demo_hash 47)" if "stands_behind demo_pair_reached 1 8 (RStr x) a" for x a
    using that by (auto simp: stands_behind_def signers_for_def dict_get_or_def split: if_splits)
  ultimately show ?thesis
    using addr by (auto simp: honest_quorum_def quorum_need_def MIN_QUORUM_BPS_def validator_stake_def brain_stake_def demo_pair_stake_def)
qed


lemma demo_own_tree:
  obtains s leaf x where "score_observations demo_numpy [demo_raw] = Inr [s]"
    and "map_res (epoch_leaf demo_eth (demo_chain_validator [1])) [s] = Inr [leaf]"
    and "build_merkle_root demo_eth [leaf] = Inr (demo_hash x, [demo_hash x])"
proof -
  obtain s where s: "score_observations demo_numpy [demo_raw] = Inr [s]" "scored_miner s = hex0x [7]"
    "0 \<le> score_fp s" "score_fp s \<le> 1000000" by (rule demo_epoch_scores)
  let ?leaf = "\<lparr>leaf_brain_id = 8, leaf_miner = hex0x [7], leaf_score = score_fp s\<rparr>"
  obtain x where "leaf_hash demo_eth ?leaf = Inr (demo_hash x)" using s by (simp add: leaf_hash_def)
  then show ?thesis
    by (intro that [of s ?leaf x]) (use s in \<open>simp_all add: epoch_leaf_def build_merkle_root_def sorted_hashes_def climb.simps\<close>)
qed

theorem honest_validator_is_slashable_witness:
  "\<exists>x ra siga rb sigb r' v'. challenge_equivocation demo_eth demo_site True True demo_stake (demo_committed x) 1 8 ra siga rb sigb (hex0x [1])
     = Inr (r', v', 100) \<and> validator_stake v' 8 (hex0x [1]) = 0"
proof -
  let ?V = "demo_chain_validator [1]"
  obtain s leaf k where s: "score_observations demo_numpy [demo_raw] = Inr [s]" "map_res (epoch_leaf demo_eth ?V) [s] = Inr [leaf]"
    "build_merkle_root demo_eth [leaf] = Inr (demo_hash k, [demo_hash k])" by (rule demo_own_tree)
  have "\<exists>x. x \<noteq> k \<and> x \<noteq> 0" by (rule exI [of _ "if k = 1 then 2 else 1"]) simp
  then obtain x where x: "x \<noteq> k" "x \<noteq> 0" by blast
  let ?answer = "JObj [(lit ''canonical'', JBool True), (lit ''root'', JStr (hex0x (demo_hash x)))]"
  let ?body = "commitment_payload demo_eth ?V 1 (hex0x (demo_hash x)) (demo_sig_of 1 x)"
  have cand: "build_candidate demo_eth ?V 1 [s] = Inr (candidate_payload demo_eth ?V 1 [s] (demo_sig_of 1 k))"
    using s(2,3) demo_chain_signature [of "RBytes (demo_hash k)" k "[1]"]
    by (simp add: build_candidate_def demo_key_def del: map_res.simps)
  have posted: "post_epoch_commitment demo_eth demo_numpy (\<lambda>_. []) ?V (\<lambda>_. Inr (200, Inr ?answer)) (\<lambda>_. Inl OtherError) 1 [demo_raw]
      = Inr (Some ?body)"
    using s(1) cand demo_chain_signature [OF demo_root_text, of "[1]" x]
    by (simp add: post_epoch_commitment_def submit_candidate_to_def checked_json_def configured_def dict_get_or_def demo_key_def)
  have addr: "validator_address demo_eth ?V = hex0x [1]" by (simp add: validator_address_def demo_key_def)
  have site: "signs_for_site demo_eth ?V demo_site" by (simp add: signs_for_site_def)
  have stored: "calldata_ok 1 8 (demo_hash x)" "ec_root (rg_epochs (demo_committed x) (1, 8)) = demo_hash x" "demo_hash x \<noteq> zero_root"
    "rg_signers (demo_committed x) (1, 8, hex0x [1])" "\<not> ec_invalidated (rg_epochs (demo_committed x) (1, 8))"
    "validator_stake demo_stake 8 (hex0x [1]) = 100"
    using x(2) by (simp_all add: calldata_ok_def is_uint256_def demo_epoch_entry demo_commitment_def demo_hash_not_zero
        demo_committed_def validator_stake_def demo_stake_def)
  have rt: "jkey ?body (lit ''root'') = Inr (JStr (hex0x (demo_hash x)))" "demo_hash k \<noteq> demo_hash x"
    using x(1) by (simp_all add: commitment_payload_def)
  show ?thesis
    using honest_validator_is_slashable [OF demo_recovers_keys(1,2) site s posted rt demo_chain_run [OF x(2)]] stored addr
    by fastforce
qed

end
