(* ===== verification/Transport.thy ===== *)
theory Transport imports Miner
begin

text \<open>
  How a miner is reached: \<open>http_server.py\<close> (the HTTP routes and the signed announcement to the
  gateway), \<open>p2p.py\<close> (the libp2p node, which without the library only remembers its handlers) and the
  start-up order of \<open>Miner.run\<close>. The libraries' own work (sockets, streams, the server) is a
  parameter or left out; handlers are the functions of theory Miner, of some type \<open>'h\<close>.
\<close>

section \<open>Announcing\<close>

definition MINER_ANNOUNCE_TAG :: "ethlib \<Rightarrow> bytes" where
  "MINER_ANNOUNCE_TAG E = keccak E (map of_nat (lit ''BasedAI:MinerAnnounce:v1''))"

definition miner_announce_digest :: "ethlib \<Rightarrow> int \<Rightarrow> pystr \<Rightarrow> int \<Rightarrow> bytes res" where
  "miner_announce_digest E brain_id url ts =
     rbind (abi_encode E [ABytes32 (MINER_ANNOUNCE_TAG E), AUint 256 brain_id, AString url, AUint 256 ts])
       (\<lambda>enc. Inr (keccak E enc))"

definition miner_sign_announce :: "ethlib \<Rightarrow> pystr \<Rightarrow> int \<Rightarrow> pystr \<Rightarrow> int \<Rightarrow> pystr res" where
  "miner_sign_announce E key brain_id url ts =
     rbind (miner_announce_digest E brain_id url ts) (\<lambda>digest. Inr (sign_message E key digest))"

definition announce_payload :: "ethlib \<Rightarrow> pystr \<Rightarrow> pystr \<Rightarrow> int \<Rightarrow> pystr \<Rightarrow> json" where
  "announce_payload E key url ts signature =
     JObj [(lit ''address'', JStr (key_address E key)), (lit ''url'', JStr url), (lit ''ts'', JInt ts),
           (lit ''signature'', JStr (with_0x signature))]"

definition announce_path :: "pystr \<Rightarrow> int \<Rightarrow> pystr" where
  "announce_path gateway_url brain_id =
     rstrip_slash gateway_url @ lit ''/brains/'' @ int_text brain_id @ lit ''/announce''"

text \<open>
  \<open>announce_once\<close>: signing is outside the \<open>try\<close>, so a URL that cannot be encoded raises; the status
  of the answer decides the result.
\<close>

definition announce_once ::
    "ethlib \<Rightarrow> pystr \<Rightarrow> pystr \<Rightarrow> int \<Rightarrow> pystr \<Rightarrow> int \<Rightarrow> (pystr \<Rightarrow> json \<Rightarrow> nat res) \<Rightarrow> bool res" where
  "announce_once E key gateway_url brain_id public_url ts post =
     rbind (miner_sign_announce E key brain_id public_url ts) (\<lambda>signature.
       Inr (case post (announce_path gateway_url brain_id) (announce_payload E key public_url ts signature) of
              Inl e \<Rightarrow> False
            | Inr status \<Rightarrow> \<not> raises_for_status status))"

section \<open>The HTTP routes\<close>

text \<open>The routes of \<open>make_miner_app\<close> by method and path; the framework answers everything else itself.\<close>

datatype 'h miner_route = Serve 'h | Health

definition miner_app :: "'h \<Rightarrow> 'h \<Rightarrow> 'h \<Rightarrow> (pystr \<times> pystr, 'h miner_route) dict" where
  "miner_app infer challenge settle =
     [((lit ''POST'', lit ''/infer''), Serve infer), ((lit ''POST'', lit ''/challenge''), Serve challenge),
      ((lit ''POST'', lit ''/settle''), Serve settle), ((lit ''GET'', lit ''/health''), Health)]"

text \<open>What a route answers; a handler's bytes are sent as they are, always with status 200.\<close>

definition route_reply :: "'h miner_route \<Rightarrow> ('h \<Rightarrow> 's \<Rightarrow> 's \<times> json) \<Rightarrow> 's \<Rightarrow> 's \<times> nat \<times> json" where
  "route_reply r run s =
     (case r of
        Health \<Rightarrow> (s, 200, JObj [(lit ''ok'', JBool True)])
      | Serve h \<Rightarrow> (case run h s of (s', body) \<Rightarrow> (s', 200, body)))"

section \<open>The libp2p node\<close>

definition PROTOCOL_INFER :: pystr where "PROTOCOL_INFER = lit ''/basedai/infer/1.0.0''"
definition PROTOCOL_CHALLENGE :: pystr where "PROTOCOL_CHALLENGE = lit ''/basedai/challenge/1.0.0''"

text \<open>\<open>p_streams\<close> holds the handlers set on the host, \<open>p_peers\<close> the peers it is connected to.\<close>

record 'h p2p_node =
  p_listen :: "pystr list"
  p_bootstrap :: "pystr list"
  p_topic :: pystr
  p_online :: bool
  p_handlers :: "(pystr, 'h) dict"
  p_streams :: "(pystr, 'h) dict"
  p_peers :: "pystr list"

definition new_node :: "pystr list \<Rightarrow> pystr list \<Rightarrow> pystr \<Rightarrow> 'h p2p_node" where
  "new_node listen bootstrap topic = \<lparr>p_listen = listen, p_bootstrap = bootstrap, p_topic = topic,
     p_online = False, p_handlers = [], p_streams = [], p_peers = []\<rparr>"

text \<open>
  \<open>start\<close>: without libp2p nothing happens; otherwise the host listens, which may raise, and dials the
  bootstrap peers, whose failures are logged one by one.
\<close>

definition p2p_start :: "bool \<Rightarrow> unit res \<Rightarrow> (pystr \<Rightarrow> unit res) \<Rightarrow> 'h p2p_node \<Rightarrow> 'h p2p_node res" where
  "p2p_start available listen connect node =
     (if \<not> available then Inr node
      else rbind listen (\<lambda>_. Inr (node\<lparr>p_online := True,
             p_peers := filter (\<lambda>a. connect a = Inr ()) (p_bootstrap node)\<rparr>)))"

definition on_request :: "pystr \<Rightarrow> 'h \<Rightarrow> 'h p2p_node \<Rightarrow> 'h p2p_node" where
  "on_request protocol h node =
     (let node' = node\<lparr>p_handlers := dict_set protocol h (p_handlers node)\<rparr>
      in if p_online node then node'\<lparr>p_streams := dict_set protocol h (p_streams node)\<rparr> else node')"

text \<open>The stream handler: read, handle, write, and close in any case. The result says what was written.\<close>

definition serve_stream :: "('b \<Rightarrow> 's \<Rightarrow> 's \<times> json res) \<Rightarrow> 'b res \<Rightarrow> 's \<Rightarrow> 's \<times> json option" where
  "serve_stream h input s =
     (case input of
        Inl e \<Rightarrow> (s, None)
      | Inr data \<Rightarrow> (case h data s of (s', Inr out) \<Rightarrow> (s', Some out) | (s', Inl e) \<Rightarrow> (s', None)))"

text \<open>\<open>gossip\<close>: the messages published. Without a host it returns; with one, the publication is omitted in the source.\<close>

definition gossip :: "'h p2p_node \<Rightarrow> json \<Rightarrow> json list" where
  "gossip node message = []"

section \<open>Starting the miner\<close>

datatype miner_task = ReceiptFlusher | Heartbeat | AnnounceLoop

text \<open>\<open>_heartbeat\<close>: one round.\<close>

definition heartbeat :: "ethlib \<Rightarrow> miner_config \<Rightarrow> 'h p2p_node \<Rightarrow> int \<Rightarrow> json list" where
  "heartbeat E cfg node ts =
     gossip node (JObj [(lit ''type'', JStr (lit ''heartbeat'')), (lit ''miner'', JStr (miner_address E cfg)),
       (lit ''brain_id'', JInt (mc_brain_id cfg)), (lit ''ts'', JInt ts)])"

text \<open>\<open>if self.config.gateway.gateway_url and self.config.gateway.public_url\<close>.\<close>

definition http_enabled :: "pystr option \<Rightarrow> pystr option \<Rightarrow> bool" where
  "http_enabled gateway_url public_url \<longleftrightarrow>
     (case (gateway_url, public_url) of (Some g, Some p) \<Rightarrow> g \<noteq> [] \<and> p \<noteq> [] | _ \<Rightarrow> False)"

text \<open>
  \<open>run\<close> up to its tasks: the node, the HTTP routes if any, and the tasks. The result of the
  registration is ignored; its exception is not.
\<close>

definition miner_run ::
    "bool res \<Rightarrow> unit res \<Rightarrow> 'h p2p_node res \<Rightarrow> unit res \<Rightarrow> pystr option \<Rightarrow> pystr option \<Rightarrow> 'h \<Rightarrow> 'h \<Rightarrow> 'h
       \<Rightarrow> ('h p2p_node \<times> (pystr \<times> pystr, 'h miner_route) dict \<times> miner_task list) res" where
  "miner_run registered engine_started node_started listening gateway_url public_url infer challenge settle =
     rbind registered (\<lambda>_.
     rbind engine_started (\<lambda>_.
     rbind node_started (\<lambda>node.
       let node = on_request PROTOCOL_CHALLENGE challenge (on_request PROTOCOL_INFER infer node);
           tasks = [ReceiptFlusher, Heartbeat]
       in if http_enabled gateway_url public_url
          then rbind listening (\<lambda>_. Inr (node, miner_app infer challenge settle, tasks @ [AnnounceLoop]))
          else Inr (node, [], tasks))))"

section \<open>What can be reached\<close>

lemma miner_app_routes:
  "dict_get (miner_app i c s) (m, p) = Some (Serve h) \<longleftrightarrow>
     m = lit ''POST'' \<and> (p = lit ''/infer'' \<and> h = i \<or> p = lit ''/challenge'' \<and> h = c \<or> p = lit ''/settle'' \<and> h = s)"
  by (auto simp: miner_app_def)

text \<open>
  A started miner serves inference and challenges over libp2p exactly when its host is up, but
  never settlements, which only the HTTP routes have; and it announces itself exactly when it
  serves them.
\<close>
theorem settlement_needs_http:
  assumes "miner_run reg eng (Inr node) lis g p i c s = Inr (node', routes, tasks)"
    and "p_handlers node = []" and "p_streams node = []"
  shows "p_handlers node' = [(PROTOCOL_INFER, i), (PROTOCOL_CHALLENGE, c)]
    \<and> p_streams node' = (if p_online node then [(PROTOCOL_INFER, i), (PROTOCOL_CHALLENGE, c)] else [])
    \<and> (dict_get routes (lit ''POST'', lit ''/settle'') = Some (Serve s) \<longleftrightarrow> http_enabled g p)
    \<and> (AnnounceLoop \<in> set tasks \<longleftrightarrow> http_enabled g p)"
  using assms
  by (auto simp: miner_run_def on_request_def miner_app_def PROTOCOL_INFER_def PROTOCOL_CHALLENGE_def
      Let_def split: if_splits)

lemma heartbeat_is_never_published: "heartbeat E cfg node ts = []"
  by (simp add: heartbeat_def gossip_def)

end
