(* ===== verification/MemberIndex.thy ===== *)
theory MemberIndex imports Json Doubles
begin

text \<open>
  \<open>gateway/src/basedai_gateway/indexer.py\<close>: the miners and validators of each Brain as the registry
  events leave them, joined with the endpoints the miners announced. A Python set is iterated in an
  order the program does not control: \<open>miners_of\<close> takes the enumeration \<open>order\<close> as an argument.
\<close>

section \<open>The code\<close>

record endpoint =
  ep_url :: pystr
  ep_score :: real
  ep_ts :: int

record member_index =
  reg_miners :: "int \<Rightarrow> pystr set"
  reg_validators :: "int \<Rightarrow> pystr set"
  endpoints :: "int \<times> pystr \<Rightarrow> endpoint option"
  ttl :: int

definition new_index :: "int \<Rightarrow> member_index" where
  "new_index endpoint_ttl =
     \<lparr>reg_miners = (\<lambda>_. {}), reg_validators = (\<lambda>_. {}), endpoints = (\<lambda>_. None), ttl = endpoint_ttl\<rparr>"

text \<open>\<open>apply_event\<close>; the name is compared with the four event names, any other is ignored.\<close>

definition apply_event :: "json \<Rightarrow> int \<Rightarrow> pystr \<Rightarrow> member_index \<Rightarrow> member_index" where
  "apply_event name brain_id address ix =
     (let addr = lower address
      in if name = JStr (lit ''MinerRegistered'') then
           ix\<lparr>reg_miners := (reg_miners ix)(brain_id := insert addr (reg_miners ix brain_id))\<rparr>
         else if name = JStr (lit ''MinerDeregistered'') then
           ix\<lparr>reg_miners := (reg_miners ix)(brain_id := reg_miners ix brain_id - {addr}),
              endpoints := (endpoints ix)((brain_id, addr) := None)\<rparr>
         else if name = JStr (lit ''ValidatorRegistered'') then
           ix\<lparr>reg_validators := (reg_validators ix)(brain_id := insert addr (reg_validators ix brain_id))\<rparr>
         else if name = JStr (lit ''ValidatorDeregistered'') then
           ix\<lparr>reg_validators := (reg_validators ix)(brain_id := reg_validators ix brain_id - {addr})\<rparr>
         else ix)"

text \<open>\<open>address.lower()\<close> exists only on strings.\<close>

fun text_of_json :: "json \<Rightarrow> pystr res" where
  "text_of_json (JStr s) = Inr s"
| "text_of_json _ = Inl AttributeError"

definition event_fields :: "json \<Rightarrow> (json \<times> int \<times> pystr) res" where
  "event_fields ev =
     rbind (jkey ev (lit ''name'')) (\<lambda>name.
     rbind (rbind (jkey ev (lit ''brain_id'')) py_int) (\<lambda>b.
     rbind (rbind (jkey ev (lit ''address'')) text_of_json) (\<lambda>a. Inr (name, b, a))))"

fun apply_events :: "member_index \<Rightarrow> json list \<Rightarrow> member_index \<times> unit res" where
  "apply_events ix [] = (ix, Inr ())"
| "apply_events ix (ev # evs) =
     (case event_fields ev of
        Inl e \<Rightarrow> (ix, Inl e)
      | Inr (name, b, a) \<Rightarrow> apply_events (apply_event name b a ix) evs)"

definition replace_membership :: "member_index \<Rightarrow> json list \<Rightarrow> member_index \<times> unit res" where
  "replace_membership ix evs =
     apply_events (ix\<lparr>reg_miners := (\<lambda>_. {}), reg_validators := (\<lambda>_. {})\<rparr>) evs"

definition is_miner :: "member_index \<Rightarrow> int \<Rightarrow> pystr \<Rightarrow> bool" where
  "is_miner ix brain_id address \<longleftrightarrow> lower address \<in> reg_miners ix brain_id"

definition is_validator :: "member_index \<Rightarrow> int \<Rightarrow> pystr \<Rightarrow> bool" where
  "is_validator ix brain_id address \<longleftrightarrow> lower address \<in> reg_validators ix brain_id"

definition announce_endpoint :: "member_index \<Rightarrow> int \<Rightarrow> pystr \<Rightarrow> pystr \<Rightarrow> int \<Rightarrow> real \<Rightarrow> member_index" where
  "announce_endpoint ix brain_id address url ts score =
     ix\<lparr>endpoints := (endpoints ix)((brain_id, lower address) \<mapsto> \<lparr>ep_url = url, ep_score = score, ep_ts = ts\<rparr>)\<rparr>"

definition set_score :: "member_index \<Rightarrow> int \<Rightarrow> pystr \<Rightarrow> real \<Rightarrow> member_index" where
  "set_score ix brain_id address score =
     (case endpoints ix (brain_id, lower address) of
        None \<Rightarrow> ix
      | Some ep \<Rightarrow> ix\<lparr>endpoints := (endpoints ix)((brain_id, lower address) \<mapsto> ep\<lparr>ep_score := score\<rparr>)\<rparr>)"

definition is_fresh :: "member_index \<Rightarrow> int option \<Rightarrow> endpoint \<Rightarrow> bool" where
  "is_fresh ix now ep \<longleftrightarrow> (case now of None \<Rightarrow> True | Some n \<Rightarrow> ttl ix = 0 \<or> n - ep_ts ep \<le> ttl ix)"

definition listed :: "member_index \<Rightarrow> int option \<Rightarrow> int \<Rightarrow> pystr \<Rightarrow> (pystr \<times> pystr \<times> real) option" where
  "listed ix now brain_id addr =
     (case endpoints ix (brain_id, addr) of
        None \<Rightarrow> None
      | Some ep \<Rightarrow> if is_fresh ix now ep then Some (addr, ep_url ep, ep_score ep) else None)"

definition miners_of ::
    "(pystr set \<Rightarrow> pystr list) \<Rightarrow> member_index \<Rightarrow> int \<Rightarrow> int option \<Rightarrow> (pystr \<times> pystr \<times> real) list" where
  "miners_of order ix brain_id now =
     sort_desc (snd \<circ> snd) (List.map_filter (listed ix now brain_id) (order (reg_miners ix brain_id)))"

definition endpoint_of :: "member_index \<Rightarrow> int \<Rightarrow> pystr \<Rightarrow> pystr option" where
  "endpoint_of ix brain_id address = map_option ep_url (endpoints ix (brain_id, lower address))"

section \<open>Membership is decided by the last event\<close>

datatype member_kind = MinerRegistered | MinerDeregistered | ValidatorRegistered | ValidatorDeregistered

record member_event =
  ev_kind :: member_kind
  ev_brain :: int
  ev_member :: pystr
  ev_block :: int
  ev_log :: int

fun kind_name :: "member_kind \<Rightarrow> pystr" where
  "kind_name MinerRegistered = lit ''MinerRegistered''"
| "kind_name MinerDeregistered = lit ''MinerDeregistered''"
| "kind_name ValidatorRegistered = lit ''ValidatorRegistered''"
| "kind_name ValidatorDeregistered = lit ''ValidatorDeregistered''"

text \<open>The dict the poller builds for a decoded log.\<close>

definition event_json :: "member_event \<Rightarrow> json" where
  "event_json ev =
     JObj [(lit ''name'', JStr (kind_name (ev_kind ev))), (lit ''brain_id'', JInt (ev_brain ev)),
           (lit ''address'', JStr (ev_member ev)), (lit ''block_number'', JInt (ev_block ev)),
           (lit ''log_index'', JInt (ev_log ev))]"

lemma event_fields_json [simp]:
  "event_fields (event_json ev) = Inr (JStr (kind_name (ev_kind ev)), ev_brain ev, ev_member ev)"
  by (simp add: event_fields_def event_json_def)

text \<open>
  The specification: an address is a member exactly when the last registration or deregistration
  event that names it is a registration.
\<close>

definition concerns :: "bool \<Rightarrow> int \<Rightarrow> pystr \<Rightarrow> member_event \<Rightarrow> bool" where
  "concerns as_miner b a ev \<longleftrightarrow> ev_brain ev = b \<and> lower (ev_member ev) = lower a
     \<and> ev_kind ev \<in> (if as_miner then {MinerRegistered, MinerDeregistered} else {ValidatorRegistered, ValidatorDeregistered})"

definition last_registers :: "bool \<Rightarrow> member_event list \<Rightarrow> int \<Rightarrow> pystr \<Rightarrow> bool" where
  "last_registers as_miner evs b a \<longleftrightarrow>
     (case filter (concerns as_miner b a) (rev evs) of
        [] \<Rightarrow> False
      | ev # _ \<Rightarrow> ev_kind ev \<in> {MinerRegistered, ValidatorRegistered})"

definition apply_typed :: "member_index \<Rightarrow> member_event \<Rightarrow> member_index" where
  "apply_typed ix ev = apply_event (JStr (kind_name (ev_kind ev))) (ev_brain ev) (ev_member ev) ix"

lemma apply_events_json: "apply_events ix (map event_json evs) = (foldl apply_typed ix evs, Inr ())"
  by (induction evs arbitrary: ix) (simp_all add: apply_typed_def)

lemma apply_typed_miner:
  "is_miner (apply_typed ix ev) b a \<longleftrightarrow>
     (if concerns True b a ev then ev_kind ev = MinerRegistered else is_miner ix b a)"
  by (cases "ev_kind ev") (auto simp: apply_typed_def apply_event_def is_miner_def concerns_def Let_def)

lemma apply_typed_validator:
  "is_validator (apply_typed ix ev) b a \<longleftrightarrow>
     (if concerns False b a ev then ev_kind ev = ValidatorRegistered else is_validator ix b a)"
  by (cases "ev_kind ev") (auto simp: apply_typed_def apply_event_def is_validator_def concerns_def Let_def)

lemma last_registers_snoc:
  "last_registers m (evs @ [ev]) b a \<longleftrightarrow>
     (if concerns m b a ev then ev_kind ev \<in> {MinerRegistered, ValidatorRegistered} else last_registers m evs b a)"
  by (simp add: last_registers_def)

lemma members_foldl:
  assumes "reg_miners ix = (\<lambda>_. {})" and "reg_validators ix = (\<lambda>_. {})"
  shows "is_miner (foldl apply_typed ix evs) b a = last_registers True evs b a
    \<and> is_validator (foldl apply_typed ix evs) b a = last_registers False evs b a"
proof (induction evs rule: rev_induct)
  case Nil
  with assms show ?case by (simp add: is_miner_def is_validator_def last_registers_def)
next
  case (snoc ev evs)
  then show ?case
    by (auto simp: apply_typed_miner apply_typed_validator last_registers_snoc concerns_def)
qed

lemma replace_membership_json:
  "replace_membership ix (map event_json evs) =
     (foldl apply_typed (ix\<lparr>reg_miners := (\<lambda>_. {}), reg_validators := (\<lambda>_. {})\<rparr>) evs, Inr ())"
  by (simp add: replace_membership_def apply_events_json)

lemma endpoints_apply:
  "endpoints (apply_typed ix ev) =
     (if ev_kind ev = MinerDeregistered then (endpoints ix)((ev_brain ev, lower (ev_member ev)) := None) else endpoints ix)"
  by (cases "ev_kind ev") (auto simp: apply_typed_def apply_event_def Let_def)

lemma endpoints_foldl:
  "endpoints (foldl apply_typed ix evs) k =
     (if \<exists>ev \<in> set evs. ev_kind ev = MinerDeregistered \<and> (ev_brain ev, lower (ev_member ev)) = k then None else endpoints ix k)"
  by (induction evs rule: rev_induct) (auto simp: endpoints_apply)

section \<open>The ranking\<close>

text \<open>What iterating over a set gives: its elements, each once, in some order.\<close>

definition enumerates :: "(pystr set \<Rightarrow> pystr list) \<Rightarrow> bool" where
  "enumerates order \<longleftrightarrow> (\<forall>S. finite S \<longrightarrow> set (order S) = S \<and> distinct (order S))"

lemma listed_Some: "listed ix now b a = Some x \<longleftrightarrow>
    (\<exists>ep. endpoints ix (b, a) = Some ep \<and> is_fresh ix now ep \<and> x = (a, ep_url ep, ep_score ep))"
  by (auto simp: listed_def split: option.splits)

lemma distinct_map_filter_listed:
  "distinct as \<Longrightarrow> distinct (map fst (List.map_filter (listed ix now b) as))"
proof (induction as)
  case (Cons a as)
  then show ?case
    by (auto simp: List.map_filter_simps set_map_filter listed_Some split: option.splits)
qed (simp add: List.map_filter_simps)

text \<open>Only events add members, so the registered sets stay finite.\<close>

definition index_ok :: "member_index \<Rightarrow> bool" where
  "index_ok ix \<longleftrightarrow> (\<forall>b. finite (reg_miners ix b) \<and> finite (reg_validators ix b))"

lemma index_ok_apply: "index_ok ix \<Longrightarrow> index_ok (apply_event name b a ix)"
  by (auto simp: index_ok_def apply_event_def Let_def)

lemma index_ok_events: "index_ok ix \<Longrightarrow> index_ok (fst (apply_events ix evs))"
  by (induction ix evs rule: apply_events.induct)
    (auto simp: index_ok_apply split: sum.splits)

lemma index_ok_replace: "index_ok (fst (replace_membership ix evs))"
  unfolding replace_membership_def by (rule index_ok_events) (simp add: index_ok_def)

lemma membership_announce [simp]:
  "is_miner (announce_endpoint ix b' a' url ts score) b a = is_miner ix b a"
  "is_validator (announce_endpoint ix b' a' url ts score) b a = is_validator ix b a"
  by (simp_all add: is_miner_def is_validator_def announce_endpoint_def)

section \<open>Properties\<close>

text \<open>
  Membership is what the registry says: rebuilding from the canonical event list makes an address a
  miner (a validator) of a Brain exactly when the last miner (validator) event that names it, in any
  spelling of its case, is a registration, whatever the index held before.
\<close>
theorem membership_follows_last_event:
  "case replace_membership ix (map event_json evs) of (ix', r) \<Rightarrow>
     r = Inr ()
     \<and> is_miner ix' b a = last_registers True evs b a
     \<and> is_validator ix' b a = last_registers False evs b a"
  by (simp add: replace_membership_json members_foldl)

lemma miners_of_mem:
  assumes "enumerates order" and "index_ok mi"
  shows "(a, url, sc) \<in> set (miners_of order mi b t) \<longleftrightarrow>
    (\<exists>ep. a \<in> reg_miners mi b \<and> endpoints mi (b, a) = Some ep \<and> is_fresh mi t ep \<and> url = ep_url ep \<and> sc = ep_score ep)"
proof -
  have "set (order (reg_miners mi b)) = reg_miners mi b"
    using assms by (auto simp: enumerates_def index_ok_def)
  then show ?thesis by (auto simp: miners_of_def set_map_filter listed_Some)
qed

lemma miners_of_first:
  assumes "enumerates order" and "index_ok mi" and "miners_of order mi b t = (a, url, sc) # others"
  shows "\<exists>ep. a \<in> reg_miners mi b \<and> endpoints mi (b, a) = Some ep \<and> is_fresh mi t ep \<and> url = ep_url ep
    \<and> (\<forall>a' ep'. a' \<in> reg_miners mi b \<and> endpoints mi (b, a') = Some ep' \<and> is_fresh mi t ep' \<longrightarrow> ep_score ep' \<le> ep_score ep)"
proof -
  let ?ms = "miners_of order mi b t"
  have "sorted_wrt (\<lambda>x y. snd (snd y) \<le> snd (snd x)) ?ms"
    using sort_desc_sorted [of "snd \<circ> snd"] by (simp add: miners_of_def)
  then have top: "snd (snd y) \<le> sc" if "y \<in> set ?ms" for y using assms(3) that by auto
  have "(a, url, sc) \<in> set ?ms" using assms(3) by simp
  then obtain ep where ep: "a \<in> reg_miners mi b" "endpoints mi (b, a) = Some ep" "is_fresh mi t ep" "url = ep_url ep"
    "sc = ep_score ep"
    by (auto simp: miners_of_mem [OF assms(1,2)])
  have "ep_score ep' \<le> ep_score ep"
    if "a' \<in> reg_miners mi b \<and> endpoints mi (b, a') = Some ep' \<and> is_fresh mi t ep'" for a' ep'
    using top [of "(a', ep_url ep', ep_score ep')"] that ep(5) by (simp add: miners_of_mem [OF assms(1,2)])
  with ep show ?thesis by blast
qed

text \<open>
  Rebuilding forgets endpoints of re-registered miners: a miner that was deregistered once and has
  registered again is a member after every rebuild, but the rebuild replays the old deregistration and
  so removes whatever endpoint it has announced since: it is not listed and cannot be dialled. The
  endpoints of miners never deregistered are kept.
\<close>
theorem rebuild_drops_reannounced_endpoint:
  assumes "ev \<in> set evs" and "ev_kind ev = MinerDeregistered" and "ev_brain ev = b"
    and "lower (ev_member ev) = lower a" and "last_registers True evs b a"
    and "replace_membership ix (map event_json evs) = (ix', r)"
  shows "is_miner ix' b a \<and> endpoint_of ix' b a = None
    \<and> (\<forall>order now. lower a \<notin> fst ` set (miners_of order ix' b now))
    \<and> (\<forall>b' a'. (\<forall>e \<in> set evs. \<not> (ev_kind e = MinerDeregistered \<and> ev_brain e = b' \<and> lower (ev_member e) = a'))
         \<longrightarrow> endpoints ix' (b', a') = endpoints ix (b', a'))"
proof -
  have eps: "endpoints ix' (b', a') =
      (if \<exists>e \<in> set evs. ev_kind e = MinerDeregistered \<and> ev_brain e = b' \<and> lower (ev_member e) = a'
       then None else endpoints ix (b', a'))" for b' a'
    using assms(6) by (auto simp: replace_membership_json endpoints_foldl split: if_splits)
  then have none: "endpoints ix' (b, lower a) = None" using assms(1-4) by auto
  moreover have "is_miner ix' b a"
    using assms(5,6) by (auto simp: replace_membership_json members_foldl)
  moreover have "lower a \<notin> fst ` set (miners_of order ix' b now)" for order now
    using none by (auto simp: miners_of_def set_map_filter listed_Some)
  ultimately show ?thesis using eps by (simp add: endpoint_of_def) auto
qed

text \<open>
  The miner list is the ranking of the reachable members: exactly the registered miners with a fresh
  endpoint, each once with its announced URL, ordered by descending score.
\<close>
theorem miners_are_fresh_and_ranked:
  assumes "enumerates order" and "index_ok ix"
  shows "set (miners_of order ix b now) =
       {(a, ep_url ep, ep_score ep) | a ep. a \<in> reg_miners ix b \<and> endpoints ix (b, a) = Some ep \<and> is_fresh ix now ep}
    \<and> distinct (map fst (miners_of order ix b now))
    \<and> sorted_wrt (\<lambda>x y. snd (snd y) \<le> snd (snd x)) (miners_of order ix b now)"
proof -
  have fin: "set (order (reg_miners ix b)) = reg_miners ix b" "distinct (order (reg_miners ix b))"
    using assms by (auto simp: enumerates_def index_ok_def)
  have "mset (map fst (miners_of order ix b now)) =
      mset (map fst (List.map_filter (listed ix now b) (order (reg_miners ix b))))"
    by (simp add: miners_of_def image_mset.compositionality)
  from mset_eq_imp_distinct_iff [OF this] distinct_map_filter_listed [OF fin(2)]
  have "distinct (map fst (miners_of order ix b now))" by blast
  moreover have "set (miners_of order ix b now) =
      {(a, ep_url ep, ep_score ep) | a ep. a \<in> reg_miners ix b \<and> endpoints ix (b, a) = Some ep \<and> is_fresh ix now ep}"
    by (fastforce simp: miners_of_def set_map_filter listed_Some fin(1))
  moreover have "sorted_wrt (\<lambda>x y. snd (snd y) \<le> snd (snd x)) (miners_of order ix b now)"
    using sort_desc_sorted [of "snd \<circ> snd"] by (simp add: miners_of_def)
  ultimately show ?thesis by blast
qed

section \<open>Concrete runs\<close>

abbreviation demo_miner :: "member_kind \<Rightarrow> int \<Rightarrow> member_event" where
  "demo_miner k n \<equiv> \<lparr>ev_kind = k, ev_brain = 8, ev_member = hex0x [7], ev_block = n, ev_log = 0\<rparr>"

abbreviation demo_history :: "member_event list" where
  "demo_history \<equiv> [demo_miner MinerRegistered 1, demo_miner MinerDeregistered 5, demo_miner MinerRegistered 9]"

definition demo_index :: member_index where
  "demo_index = announce_endpoint
     (fst (replace_membership (new_index 600) (map event_json demo_history))) 8 (hex0x [7]) (lit ''https://m'') 100 0"

theorem rebuild_drops_reannounced_endpoint_witness:
  "is_miner demo_index 8 (hex0x [7]) \<and> endpoint_of demo_index 8 (hex0x [7]) = Some (lit ''https://m'')
   \<and> endpoint_of (fst (replace_membership demo_index (map event_json demo_history))) 8 (hex0x [7]) = None"
proof -
  have last: "last_registers True demo_history 8 (hex0x [7])"
    by (simp add: last_registers_def concerns_def)
  have "endpoint_of (fst (replace_membership demo_index (map event_json demo_history))) 8 (hex0x [7]) = None"
    using rebuild_drops_reannounced_endpoint [OF _ _ _ _ last surjective_pairing, of "demo_miner MinerDeregistered 5"]
    by simp
  moreover have "is_miner (fst (replace_membership (new_index 600) (map event_json demo_history))) 8 (hex0x [7])"
    unfolding replace_membership_json using last by (simp add: members_foldl del: foldl.simps)
  then have "is_miner demo_index 8 (hex0x [7])"
    unfolding demo_index_def by simp
  ultimately show ?thesis by (simp add: demo_index_def announce_endpoint_def endpoint_of_def)
qed

lemma sorted_list_enumerates: "enumerates sorted_list_of_set"
  by (simp add: enumerates_def)

theorem miners_are_fresh_and_ranked_witness:
  "set (miners_of sorted_list_of_set (new_index 600\<lparr>reg_miners := \<lambda>_. {lit ''a''}, endpoints := \<lambda>_. Some
        \<lparr>ep_url = lit ''u'', ep_score = 1, ep_ts = 0\<rparr>\<rparr>) 8 (Some 100)) = {(lit ''a'', lit ''u'', 1)}"
proof -
  let ?ix = "new_index 600\<lparr>reg_miners := \<lambda>_. {lit ''a''}, endpoints := \<lambda>_. Some \<lparr>ep_url = lit ''u'', ep_score = 1, ep_ts = 0\<rparr>\<rparr>"
  have "index_ok ?ix" by (simp add: index_ok_def new_index_def)
  from miners_are_fresh_and_ranked [OF sorted_list_enumerates this, of 8 "Some 100"] show ?thesis
    by (simp add: is_fresh_def new_index_def)
qed

end
