(* ===== verification/Gateway.thy ===== *)
theory Gateway imports MemberIndex EthLib
begin

text \<open>
  \<open>make_app\<close> of \<open>gateway/src/basedai_gateway/server.py\<close> and \<open>announce.py\<close>: the URL guard, the rate
  limiter, signed announcements, the proxied requests with their bounded concurrency, and the
  submission of finalized scores. A proxied request has two events, its dial and its completion,
  because other requests are served between them.
\<close>

section \<open>Announcements\<close>

definition ANNOUNCE_TAG :: "ethlib \<Rightarrow> bytes" where
  "ANNOUNCE_TAG E = keccak E (map of_nat (lit ''BasedAI:MinerAnnounce:v1''))"

definition announce_digest :: "ethlib \<Rightarrow> int \<Rightarrow> pystr \<Rightarrow> int \<Rightarrow> bytes res" where
  "announce_digest E brain_id url ts =
     rbind (abi_encode E [ABytes32 (ANNOUNCE_TAG E), AUint 256 brain_id, AString url, AUint 256 ts])
       (\<lambda>enc. Inr (keccak E enc))"

definition sign_announce :: "ethlib \<Rightarrow> pystr \<Rightarrow> int \<Rightarrow> pystr \<Rightarrow> int \<Rightarrow> pystr res" where
  "sign_announce E key brain_id url ts =
     rbind (announce_digest E brain_id url ts) (\<lambda>digest. Inr (sign_message E key digest))"

definition recover_announce :: "ethlib \<Rightarrow> int \<Rightarrow> pystr \<Rightarrow> int \<Rightarrow> json \<Rightarrow> pystr res" where
  "recover_announce E brain_id url ts signature =
     rbind (announce_digest E brain_id url ts) (\<lambda>digest. recover_message E digest signature)"

section \<open>The URL guard\<close>

text \<open>
  What \<open>urlparse\<close>, \<open>getaddrinfo\<close> and \<open>ipaddress\<close> say about a URL is the environment's: \<open>parse_url\<close>
  gives scheme, host and port (reading the port of a malformed authority raises), \<open>resolve\<close> the
  addresses of a host, \<open>None\<close> when it does not resolve.
\<close>

record ip_info =
  ip_text :: pystr
  is_private :: bool
  is_loopback :: bool
  is_link_local :: bool
  is_multicast :: bool
  is_reserved :: bool
  is_unspecified :: bool

record url_parts =
  scheme :: pystr
  hostname :: "pystr option"
  port :: "int option res"

record network =
  parse_url :: "pystr \<Rightarrow> url_parts res"
  resolve :: "pystr \<Rightarrow> int \<Rightarrow> ip_info list option"

definition non_public :: "ip_info \<Rightarrow> bool" where
  "non_public ip \<longleftrightarrow> is_private ip \<or> is_loopback ip \<or> is_link_local ip \<or> is_multicast ip
     \<or> is_reserved ip \<or> is_unspecified ip"

definition public_url_guard :: "network \<Rightarrow> pystr \<Rightarrow> pystr option res" where
  "public_url_guard net url =
     rbind (parse_url net url) (\<lambda>parsed.
       if scheme parsed \<noteq> lit ''http'' \<and> scheme parsed \<noteq> lit ''https''
       then Inr (Some (lit ''url scheme must be http or https''))
       else if hostname parsed = None \<or> hostname parsed = Some [] then Inr (Some (lit ''url has no host''))
       else rbind (port parsed) (\<lambda>p.
         let dial_port = (case p of None \<Rightarrow> if scheme parsed = lit ''https'' then 443 else 80
                          | Some n \<Rightarrow> if n = 0 then if scheme parsed = lit ''https'' then 443 else 80 else n)
         in Inr (case resolve net (the (hostname parsed)) dial_port of
                   None \<Rightarrow> Some (lit ''url host does not resolve'')
                 | Some infos \<Rightarrow>
                     (case filter non_public infos of
                        [] \<Rightarrow> None
                      | ip # _ \<Rightarrow> Some (lit ''url resolves to non-public address '' @ ip_text ip)))))"

section \<open>The rate limiter\<close>

text \<open>The bucket of an IP address: start of its window and number of requests admitted in it.\<close>

definition rate_limit_mw :: "int \<Rightarrow> int \<Rightarrow> int \<Rightarrow> int \<times> int \<Rightarrow> (int \<times> int) \<times> bool" where
  "rate_limit_mw rate_limit rate_window now bucket =
     (case bucket of (win, cnt) \<Rightarrow>
        if now - win \<ge> rate_window then ((now, 1), True)
        else if cnt \<ge> rate_limit then ((win, cnt), False)
        else ((win, cnt + 1), True))"

section \<open>The handlers\<close>

type_synonym reply = "nat \<times> json"

definition reply_error :: "nat \<Rightarrow> pystr \<Rightarrow> reply" where
  "reply_error status msg = (status, JObj [(lit ''error'', JStr msg)])"

definition ANNOUNCE_MAX_AGE :: int where "ANNOUNCE_MAX_AGE = 600"

text \<open>The moment of a request: the clock, the guard's verdicts, the order of set iteration.\<close>

record moment =
  now :: int
  url_guard :: "pystr \<Rightarrow> pystr option res"
  set_order :: "pystr set \<Rightarrow> pystr list"

definition read_announce :: "ethlib \<Rightarrow> (json \<Rightarrow> pystr) \<Rightarrow> json \<Rightarrow> (pystr \<times> pystr \<times> int \<times> json) res" where
  "read_announce E rep body =
     rbind (rbind (jkey body (lit ''address'')) (to_checksum_address E)) (\<lambda>address.
     rbind (jkey body (lit ''url'')) (\<lambda>u. let url = py_str rep u in
     rbind (rbind (jkey body (lit ''ts'')) py_int) (\<lambda>ts.
     rbind (jkey body (lit ''signature'')) (\<lambda>signature. Inr (address, url, ts, signature)))))"

definition announce ::
    "ethlib \<Rightarrow> (json \<Rightarrow> pystr) \<Rightarrow> moment \<Rightarrow> member_index \<Rightarrow> int \<Rightarrow> json \<Rightarrow> member_index \<times> reply res" where
  "announce E rep mo ix brain_id body =
     (case read_announce E rep body of
        Inl e \<Rightarrow> (ix, if is_malformed e then Inr (reply_error 400 (lit ''malformed announce'')) else Inl e)
      | Inr (address, url, ts, signature) \<Rightarrow>
          if \<bar>now mo - ts\<bar> > ANNOUNCE_MAX_AGE
          then (ix, Inr (reply_error 400 (lit ''stale announce timestamp'')))
          else (case url_guard mo url of
            Inl e \<Rightarrow> (ix, Inl e)
          | Inr (Some reason) \<Rightarrow> (ix, Inr (reply_error 400 (lit ''invalid url: '' @ reason)))
          | Inr None \<Rightarrow>
              (case recover_announce E brain_id url ts signature of
                 Inl e \<Rightarrow> (ix, Inr (reply_error 400 (lit ''bad signature'')))
               | Inr recovered \<Rightarrow>
                   if lower recovered \<noteq> lower address
                   then (ix, Inr (reply_error 401 (lit ''signature does not match address'')))
                   else if \<not> is_miner ix brain_id address
                   then (ix, Inr (reply_error 403 (lit ''not a registered miner'')))
                   else (announce_endpoint ix brain_id address url ts 0, Inr (200, JObj [(lit ''ok'', JBool True)])))))"

text \<open>The URL a proxied request is for: the named target's endpoint, else the best-scored miner's.\<close>

definition target_url :: "moment \<Rightarrow> member_index \<Rightarrow> int \<Rightarrow> json \<Rightarrow> pystr option res" where
  "target_url mo ix brain_id body =
     rbind (jget body (lit ''target_miner'') JNull) (\<lambda>target.
     rbind (if py_true target then rbind (text_of_json target) (\<lambda>a. Inr (endpoint_of ix brain_id a)) else Inr None)
       (\<lambda>url. Inr (case url of
                Some u \<Rightarrow> Some u
              | None \<Rightarrow> (case miners_of (set_order mo) ix brain_id (Some (now mo)) of
                          [] \<Rightarrow> None
                        | m # _ \<Rightarrow> Some (fst (snd m))))))"

datatype proxied = Answered reply | Dialled pystr

definition proxy_begin :: "int \<Rightarrow> moment \<Rightarrow> member_index \<Rightarrow> int \<Rightarrow> int \<Rightarrow> json \<Rightarrow> int \<times> proxied res" where
  "proxy_begin max_inflight mo ix n brain_id body =
     (case target_url mo ix brain_id body of
        Inl e \<Rightarrow> (n, Inl e)
      | Inr None \<Rightarrow>
          (n, Inr (Answered (reply_error 503 (lit ''no miners available for brain '' @ int_text brain_id))))
      | Inr (Some url) \<Rightarrow>
          (case url_guard mo url of
             Inl e \<Rightarrow> (n, Inl e)
           | Inr (Some reason) \<Rightarrow> (n, Inr (Answered (reply_error 502 (lit ''miner url blocked: '' @ reason))))
           | Inr None \<Rightarrow>
               if n \<ge> max_inflight then (n, Inr (Answered (reply_error 503 (lit ''gateway at capacity''))))
               else (n + 1, Inr (Dialled url))))"

text \<open>The end of a dial, reached in the \<open>finally\<close> whether the proxy answered or raised.\<close>

definition proxy_end :: "int \<Rightarrow> reply res \<Rightarrow> int \<times> reply res" where
  "proxy_end n outcome = (n - 1, outcome)"

text \<open>
  \<open>_httpx_proxy\<close>: the request sent for a dialled URL, and the reply made of the miner's answer (its
  status with its JSON, or an error object when the body is not JSON).
\<close>

definition proxy_request :: "pystr \<Rightarrow> pystr \<Rightarrow> pystr" where
  "proxy_request url path = rstrip_slash url @ path"

definition proxy_reply :: "nat \<Rightarrow> json option \<Rightarrow> reply" where
  "proxy_reply status data =
     (status, case data of
        Some j \<Rightarrow> j
      | None \<Rightarrow> JObj [(lit ''error'', JStr (lit ''miner returned non-JSON ('' @ int_text (int status) @ lit '')''))])"

type_synonym score_verifier = "int \<Rightarrow> int \<Rightarrow> pystr \<Rightarrow> int \<Rightarrow> json list \<Rightarrow> bool res"

definition read_score :: "ethlib \<Rightarrow> json \<Rightarrow> (pystr \<times> int \<times> json list) res" where
  "read_score E e =
     rbind (rbind (jkey e (lit ''miner'')) (to_checksum_address E)) (\<lambda>m.
     rbind (rbind (jkey e (lit ''score'')) py_int) (\<lambda>x.
     rbind (rbind (jget e (lit ''proof'') (JList [])) py_list) (\<lambda>pf. Inr (m, x, pf))))"

fun apply_scores ::
    "ethlib \<Rightarrow> score_verifier \<Rightarrow> int \<Rightarrow> int \<Rightarrow> member_index \<Rightarrow> nat \<Rightarrow> json list \<Rightarrow> member_index \<times> nat res" where
  "apply_scores E verify epoch brain_id ix applied [] = (ix, Inr applied)"
| "apply_scores E verify epoch brain_id ix applied (e # es) =
     (case read_score E e of
        Inl er \<Rightarrow>
          if is_malformed er then apply_scores E verify epoch brain_id ix applied es else (ix, Inl er)
      | Inr (m, x, pf) \<Rightarrow>
          (case verify epoch brain_id m x pf of
             Inl er \<Rightarrow> (ix, Inl er)
           | Inr True \<Rightarrow>
               apply_scores E verify epoch brain_id (set_score ix brain_id m (double (of_int x))) (applied + 1) es
           | Inr False \<Rightarrow> apply_scores E verify epoch brain_id ix applied es))"

definition submit_scores ::
    "ethlib \<Rightarrow> score_verifier option \<Rightarrow> member_index \<Rightarrow> int \<Rightarrow> json \<Rightarrow> member_index \<times> reply res" where
  "submit_scores E verify_score ix brain_id body =
     (case verify_score of
        None \<Rightarrow> (ix, Inr (reply_error 503 (lit ''scoring not configured'')))
      | Some verify \<Rightarrow>
          (case rbind (rbind (jkey body (lit ''epoch'')) py_int) (\<lambda>epoch.
                rbind (jkey body (lit ''entries'')) (\<lambda>entries. Inr (epoch, entries))) of
             Inl e \<Rightarrow> (ix, if is_malformed e then Inr (reply_error 400 (lit ''malformed scores'')) else Inl e)
           | Inr (epoch, entries) \<Rightarrow>
               (case py_list entries of
                  Inl e \<Rightarrow> (ix, Inl e)
                | Inr es \<Rightarrow>
                    (case apply_scores E verify epoch brain_id ix 0 es of
                       (ix', Inl e) \<Rightarrow> (ix', Inl e)
                     | (ix', Inr applied) \<Rightarrow>
                         (ix', Inr (200, JObj [(lit ''ok'', JBool True), (lit ''applied'', JInt (int applied))]))))))"

section \<open>Counting admissions\<close>

text \<open>The window and the time of every admitted request of one address.\<close>

fun rate_log :: "int \<Rightarrow> int \<Rightarrow> int \<times> int \<Rightarrow> int list \<Rightarrow> (int \<times> int) list" where
  "rate_log limit window bucket [] = []"
| "rate_log limit window bucket (t # ts) =
     (case rate_limit_mw limit window t bucket of (bucket', ok) \<Rightarrow>
        (if ok then [(fst bucket', t)] else []) @ rate_log limit window bucket' ts)"

definition in_window :: "int \<Rightarrow> (int \<times> int) list \<Rightarrow> nat" where
  "in_window v admitted = length (filter (\<lambda>e. fst e = v) admitted)"

lemma in_window_simps [simp]:
  "in_window v [] = 0"
  "in_window v (e # es) = (if fst e = v then 1 else 0) + in_window v es"
  by (simp_all add: in_window_def)

lemma in_window_none: "(\<And>e. e \<in> set es \<Longrightarrow> fst e \<noteq> v) \<Longrightarrow> in_window v es = 0"
  by (simp add: in_window_def)

text \<open>
  From a bucket \<open>(w, c)\<close> not ahead of the clock: an entry lies in its window, windows are the current
  one or start at least a window length later, distinct windows are that far apart, and no window
  admits more than the limit (the current one, more than what is left of it).
\<close>

definition log_spaced :: "int \<Rightarrow> int \<Rightarrow> int \<Rightarrow> int \<Rightarrow> (int \<times> int) list \<Rightarrow> bool" where
  "log_spaced limit window w c es \<longleftrightarrow>
     (\<forall>e \<in> set es. fst e \<le> snd e \<and> snd e < fst e + window \<and> (fst e = w \<or> w + window \<le> fst e))
   \<and> (\<forall>e \<in> set es. \<forall>f \<in> set es. fst e < fst f \<longrightarrow> fst e + window \<le> fst f)
   \<and> int (in_window w es) \<le> limit - c
   \<and> (\<forall>v. v \<noteq> w \<longrightarrow> int (in_window v es) \<le> limit)"

lemma rate_log_spaced:
  assumes "0 < window" and "1 \<le> limit" and "c \<le> limit" and "sorted ts" and "\<forall>t \<in> set ts. w \<le> t"
  shows "log_spaced limit window w c (rate_log limit window (w, c) ts)"
  using assms(3-5)
proof (induction ts arbitrary: w c)
  case Nil
  with assms(2) show ?case by (simp add: log_spaced_def)
next
  case (Cons t ts)
  have srt: "sorted ts" "\<forall>u \<in> set ts. t \<le> u" and wt: "w \<le> t" using Cons.prems by auto
  show ?case
  proof (cases "t - w \<ge> window")
    case True
    let ?es = "rate_log limit window (t, 1) ts"
    have IH: "log_spaced limit window t 1 ?es" by (rule Cons.IH) (use assms srt in auto)
    have later: "fst e = t \<or> t + window \<le> fst e" if "e \<in> set ?es" for e
      using IH that by (simp add: log_spaced_def)
    then have none: "in_window w ?es = 0"
      using True assms(1) by (intro in_window_none) force
    have L: "rate_log limit window (w, c) (t # ts) = (t, t) # ?es"
      using True by (simp add: rate_limit_mw_def)
    have "w + window \<le> fst e" if "e \<in> set ?es" for e
      using later [OF that] True assms(1) by linarith
    then have "\<forall>e \<in> set ((t, t) # ?es). fst e \<le> snd e \<and> snd e < fst e + window \<and> (fst e = w \<or> w + window \<le> fst e)"
      using IH True assms(1) by (simp add: log_spaced_def)
    moreover have "\<forall>e \<in> set ((t, t) # ?es). \<forall>f \<in> set ((t, t) # ?es). fst e < fst f \<longrightarrow> fst e + window \<le> fst f"
    proof (intro ballI impI)
      fix e f
      assume e: "e \<in> set ((t, t) # ?es)" and f: "f \<in> set ((t, t) # ?es)" and less: "fst e < fst f"
      have "fst e = t \<or> e \<in> set ?es" "fst f = t \<or> f \<in> set ?es" using e f by auto
      then show "fst e + window \<le> fst f"
      proof (elim disjE)
        assume "e \<in> set ?es" "f \<in> set ?es"
        with IH less show ?thesis by (simp add: log_spaced_def)
      next
        assume "fst e = t" "f \<in> set ?es"
        with later [of f] less show ?thesis by auto
      next
        assume "e \<in> set ?es" "fst f = t"
        with later [of e] less assms(1) show ?thesis by auto
      qed (use less in auto)
    qed
    moreover have "int (in_window w ((t, t) # ?es)) \<le> limit - c"
      using none True assms(1) Cons.prems(1) by simp
    moreover have "int (in_window v ((t, t) # ?es)) \<le> limit" for v
      using IH by (cases "v = t") (simp_all add: log_spaced_def)
    ultimately show ?thesis unfolding L log_spaced_def by blast
  next
    case False
    then have tw: "t < w + window" by simp
    show ?thesis
    proof (cases "c \<ge> limit")
      case True
      have "log_spaced limit window w c (rate_log limit window (w, c) ts)"
        by (rule Cons.IH) (use Cons.prems in auto)
      with False True show ?thesis by (simp add: rate_limit_mw_def)
    next
      case False
      let ?es = "rate_log limit window (w, c + 1) ts"
      have IH: "log_spaced limit window w (c + 1) ?es" by (rule Cons.IH) (use Cons.prems False in auto)
      moreover have "rate_log limit window (w, c) (t # ts) = (w, t) # ?es"
        using False tw by (simp add: rate_limit_mw_def)
      ultimately show ?thesis using tw wt assms(1)
        by (auto simp: log_spaced_def)
    qed
  qed
qed

lemma two_windows:
  fixes T :: "int set"
  assumes "finite T" and "0 < window" and "\<forall>v \<in> T. lo < v \<and> v < lo + 2 * window"
    and "\<forall>v \<in> T. \<forall>u \<in> T. v < u \<longrightarrow> v + window \<le> u"
  shows "\<exists>v u. T \<subseteq> {v, u}"
proof (cases "T = {}")
  case False
  let ?v = "Min T" and ?R = "T - {Min T}"
  have v: "?v \<in> T" "\<forall>u \<in> T. ?v \<le> u" using assms(1) False by auto
  show ?thesis
  proof (cases "?R = {}")
    case False
    let ?u = "Min ?R"
    have u: "?u \<in> ?R" using assms(1) False by (intro Min_in) auto
    moreover have u_le: "\<forall>x \<in> ?R. ?u \<le> x" using assms(1) by simp
    ultimately have gap: "?v + window \<le> ?u" using v assms(4) by force
    have "x = ?u" if "x \<in> ?R" for x
    proof (rule ccontr)
      assume "x \<noteq> ?u"
      with u_le that have "?u < x" by force
      with u that assms(4) have "?u + window \<le> x" by force
      moreover have "lo < ?v" "x < lo + 2 * window" using v(1) that assms(3) by auto
      ultimately show False using gap by linarith
    qed
    then have "T \<subseteq> {?v, ?u}" by blast
    then show ?thesis by blast
  qed blast
qed simp

lemma length_filter_two:
  assumes "fst ` {e \<in> set es. P e} \<subseteq> {v, u}" and "\<forall>x. int (in_window x es) \<le> limit"
  shows "int (length (filter P es)) \<le> 2 * limit"
proof -
  have "length (filter P es) \<le> in_window v es + in_window u es"
    using assms(1)
  proof (induction es)
    case (Cons e es)
    then have "length (filter P es) \<le> in_window v es + in_window u es" by force
    with Cons.prems show ?case by force
  qed simp
  with assms(2) [rule_format, of v] assms(2) [rule_format, of u] show ?thesis by linarith
qed

section \<open>The gateway as a transition system\<close>

text \<open>
  The state of the application: the index, the counter of dials under way, and, to state what the
  counter counts, the URLs being dialled.
\<close>

record gateway =
  ix :: member_index
  inflight :: int
  dialling :: "pystr multiset"

definition new_gateway :: "int \<Rightarrow> gateway" where
  "new_gateway endpoint_ttl = \<lparr>ix = new_index endpoint_ttl, inflight = 0, dialling = {#}\<rparr>"

inductive gw_step :: "ethlib \<Rightarrow> int \<Rightarrow> gateway \<Rightarrow> gateway \<Rightarrow> bool"
  for E :: ethlib and max_inflight :: int where
  announced: "announce E rep mo (ix g) b body = (ix', r) \<Longrightarrow> gw_step E max_inflight g (g\<lparr>ix := ix'\<rparr>)"
| answered: "proxy_begin max_inflight mo (ix g) (inflight g) b body = (n, r) \<Longrightarrow> (\<And>u. r \<noteq> Inr (Dialled u))
    \<Longrightarrow> gw_step E max_inflight g (g\<lparr>inflight := n\<rparr>)"
| dialled: "proxy_begin max_inflight mo (ix g) (inflight g) b body = (n, Inr (Dialled u))
    \<Longrightarrow> gw_step E max_inflight g (g\<lparr>inflight := n, dialling := add_mset u (dialling g)\<rparr>)"
| completed: "u \<in># dialling g \<Longrightarrow> proxy_end (inflight g) outcome = (n, r)
    \<Longrightarrow> gw_step E max_inflight g (g\<lparr>inflight := n, dialling := dialling g - {#u#}\<rparr>)"
| scored: "submit_scores E verify (ix g) b body = (ix', r) \<Longrightarrow> gw_step E max_inflight g (g\<lparr>ix := ix'\<rparr>)"
| polled: "replace_membership (ix g) evs = (ix', r) \<Longrightarrow> gw_step E max_inflight g (g\<lparr>ix := ix'\<rparr>)"

inductive_cases gw_stepE: "gw_step E max_inflight g g'"

inductive gw_reachable :: "ethlib \<Rightarrow> int \<Rightarrow> gateway \<Rightarrow> bool" for E :: ethlib and max_inflight :: int where
  start: "gw_reachable E max_inflight (new_gateway endpoint_ttl)"
| step: "gw_reachable E max_inflight g \<Longrightarrow> gw_step E max_inflight g g' \<Longrightarrow> gw_reachable E max_inflight g'"

text \<open>An endpoint's URL and time were signed for its Brain by the address it is stored under.\<close>

definition signed_endpoint :: "ethlib \<Rightarrow> int \<Rightarrow> pystr \<Rightarrow> endpoint \<Rightarrow> bool" where
  "signed_endpoint E b a ep \<longleftrightarrow>
     (\<exists>sig recovered. recover_announce E b (ep_url ep) (ep_ts ep) sig = Inr recovered \<and> lower recovered = a)"

definition endpoints_signed :: "ethlib \<Rightarrow> member_index \<Rightarrow> bool" where
  "endpoints_signed E x \<longleftrightarrow> (\<forall>b a ep. endpoints x (b, a) = Some ep \<longrightarrow> signed_endpoint E b a ep)"

text \<open>What an announcement that changes the index has passed.\<close>

lemma announce_cases:
  obtains (unchanged) r where "announce E rep mo x b body = (x, r)"
  | (stored) a url ts sig recovered where "read_announce E rep body = Inr (a, url, ts, sig)"
      "\<bar>now mo - ts\<bar> \<le> ANNOUNCE_MAX_AGE" "url_guard mo url = Inr None"
      "recover_announce E b url ts sig = Inr recovered" "lower recovered = lower a" "is_miner x b a"
      "announce E rep mo x b body = (announce_endpoint x b a url ts 0, Inr (200, JObj [(lit ''ok'', JBool True)]))"
  by (cases "announce E rep mo x b body")
    (auto simp: announce_def split: sum.splits prod.splits if_splits option.splits)

lemma endpoints_announce [simp]:
  "endpoints (announce_endpoint x b a url ts sc) = (endpoints x)((b, lower a) \<mapsto> \<lparr>ep_url = url, ep_score = sc, ep_ts = ts\<rparr>)"
  by (simp add: announce_endpoint_def)

lemma announce_signed:
  "endpoints_signed E x \<Longrightarrow> announce E rep mo x b body = (x', r) \<Longrightarrow> endpoints_signed E x'"
proof (cases rule: announce_cases [of E rep mo x b body])
  case (stored a url ts sig recovered)
  assume ok: "endpoints_signed E x" and x': "announce E rep mo x b body = (x', r)"
  have "signed_endpoint E b (lower a) \<lparr>ep_url = url, ep_score = 0, ep_ts = ts\<rparr>"
    using stored(4,5) by (auto simp: signed_endpoint_def)
  with ok x' stored(7) show ?thesis by (auto simp: endpoints_signed_def split: if_splits)
qed auto

text \<open>Scores and membership changes touch neither URLs nor times.\<close>

definition same_urls :: "member_index \<Rightarrow> member_index \<Rightarrow> bool" where
  "same_urls x y \<longleftrightarrow> (\<forall>k ep. endpoints y k = Some ep \<longrightarrow>
     (\<exists>ep'. endpoints x k = Some ep' \<and> ep_url ep' = ep_url ep \<and> ep_ts ep' = ep_ts ep))"

lemma same_urls_refl [simp]: "same_urls x x"
  by (simp add: same_urls_def)

lemma same_urls_trans: "same_urls x y \<Longrightarrow> same_urls y z \<Longrightarrow> same_urls x z"
  unfolding same_urls_def by metis

lemma same_urls_signed: "same_urls x y \<Longrightarrow> endpoints_signed E x \<Longrightarrow> endpoints_signed E y"
  unfolding same_urls_def endpoints_signed_def signed_endpoint_def by metis

lemma same_urls_set_score: "same_urls x (set_score x b a sc)"
  by (auto simp: same_urls_def set_score_def split: option.splits)

lemma same_urls_apply_scores:
  "same_urls x (fst (apply_scores E verify epoch b x n es))"
proof (induction es arbitrary: x n)
  case (Cons e es)
  have "same_urls x (fst (apply_scores E verify epoch b (set_score x b a sc) k es))" for a sc k
    using same_urls_trans [OF same_urls_set_score Cons] .
  with Cons show ?case by (auto split: sum.splits prod.splits bool.splits)
qed simp

lemma submit_scores_index:
  "fst (submit_scores E verify x b body) = x
   \<or> (\<exists>v epoch es. verify = Some v \<and> fst (submit_scores E verify x b body) = fst (apply_scores E v epoch b x 0 es))"
proof (cases verify)
  case (Some v)
  have "fst (case apply_scores E v epoch b x 0 es of
          (y, Inl e) \<Rightarrow> (y, Inl e)
        | (y, Inr applied) \<Rightarrow> (y, Inr (200, JObj [(lit ''ok'', JBool True), (lit ''applied'', JInt (int applied))])))
      = fst (apply_scores E v epoch b x 0 es)" for epoch es
    by (auto split: prod.splits sum.splits)
  with Some show ?thesis
    by (auto simp: submit_scores_def split: sum.splits)
qed (simp add: submit_scores_def)

lemma same_urls_submit: "submit_scores E verify x b body = (x', r) \<Longrightarrow> same_urls x x'"
  using submit_scores_index [of E verify x b body] same_urls_apply_scores by auto

lemma same_urls_apply_event: "same_urls x (apply_event name b a x)"
  by (auto simp: same_urls_def apply_event_def Let_def)

lemma same_urls_replace: "replace_membership x evs = (x', r) \<Longrightarrow> same_urls x x'"
proof -
  have "same_urls y (fst (apply_events y evs))" for y
  proof (induction evs arbitrary: y)
    case (Cons ev evs)
    have "same_urls y (fst (apply_events (apply_event name b a y) evs))" for name b a
      using same_urls_trans [OF same_urls_apply_event Cons] .
    then show ?case by (auto split: sum.splits)
  qed simp
  then have rest: "same_urls (x\<lparr>reg_miners := (\<lambda>_. {}), reg_validators := (\<lambda>_. {})\<rparr>)
      (fst (replace_membership x evs))"
    by (simp add: replace_membership_def)
  have "same_urls x (x\<lparr>reg_miners := (\<lambda>_. {}), reg_validators := (\<lambda>_. {})\<rparr>)" by (simp add: same_urls_def)
  from same_urls_trans [OF this rest] show "replace_membership x evs = (x', r) \<Longrightarrow> same_urls x x'" by simp
qed

lemma proxy_begin_cases:
  obtains (kept) r where "proxy_begin m mo x n b body = (n, r)" "\<And>u. r \<noteq> Inr (Dialled u)"
  | (dial) u where "proxy_begin m mo x n b body = (n + 1, Inr (Dialled u))" "target_url mo x b body = Inr (Some u)"
      "url_guard mo u = Inr None" "n < m"
  by (cases "proxy_begin m mo x n b body")
    (auto simp: proxy_begin_def split: sum.splits option.splits if_splits)

lemma index_ok_same_members:
  "reg_miners y = reg_miners x \<Longrightarrow> reg_validators y = reg_validators x \<Longrightarrow> index_ok x \<Longrightarrow> index_ok y"
  by (simp add: index_ok_def)

lemma members_set_score:
  "reg_miners (set_score x b a sc) = reg_miners x" "reg_validators (set_score x b a sc) = reg_validators x"
  by (simp_all add: set_score_def split: option.splits)

lemma index_ok_apply_scores: "index_ok x \<Longrightarrow> index_ok (fst (apply_scores E v epoch b x n es))"
proof (induction es arbitrary: x n)
  case (Cons e es)
  then have "index_ok (fst (apply_scores E v epoch b (set_score x b a sc) k es))" for a sc k
    by (intro Cons.IH index_ok_same_members [OF members_set_score])
  with Cons show ?case by (auto split: sum.splits prod.splits bool.splits)
qed simp

lemma index_ok_submit: "index_ok x \<Longrightarrow> submit_scores E verify x b body = (x', r) \<Longrightarrow> index_ok x'"
  using submit_scores_index [of E verify x b body] index_ok_apply_scores by auto

lemma index_ok_announce: "index_ok x \<Longrightarrow> announce E rep mo x b body = (x', r) \<Longrightarrow> index_ok x'"
  by (cases rule: announce_cases [of E rep mo x b body])
    (auto simp: index_ok_def announce_endpoint_def)

definition gateway_ok :: "ethlib \<Rightarrow> int \<Rightarrow> gateway \<Rightarrow> bool" where
  "gateway_ok E max_inflight g \<longleftrightarrow>
     endpoints_signed E (ix g) \<and> index_ok (ix g) \<and> inflight g = int (size (dialling g)) \<and> inflight g \<le> max 0 max_inflight"

lemma gateway_ok_step:
  assumes "gw_step E m g g'" and "gateway_ok E m g"
  shows "gateway_ok E m g'"
  using assms(1)
proof cases
  case (announced rep mo b body ix' r)
  with assms(2) announce_signed [OF _ announced(2)] index_ok_announce [OF _ announced(2)] show ?thesis by (auto simp: gateway_ok_def)
next
  case (answered mo b body n r)
  then have "n = inflight g" by (cases rule: proxy_begin_cases [of m mo "ix g" "inflight g" b body]) auto
  with answered assms(2) show ?thesis by (simp add: gateway_ok_def)
next
  case (dialled mo b body n u)
  then have "n = inflight g + 1 \<and> inflight g < m"
    by (cases rule: proxy_begin_cases [of m mo "ix g" "inflight g" b body]) auto
  with dialled assms(2) show ?thesis by (simp add: gateway_ok_def)
next
  case (completed u outcome n r)
  then have "dialling g \<noteq> {#}" by auto
  then have "0 < size (dialling g)" by (simp add: nonempty_has_size)
  with completed assms(2) show ?thesis by (auto simp: gateway_ok_def proxy_end_def size_Diff_singleton)
next
  case (scored verify b body ix' r)
  with assms(2) same_urls_signed [OF same_urls_submit [OF scored(2)]] index_ok_submit [OF _ scored(2)] show ?thesis by (auto simp: gateway_ok_def)
next
  case (polled evs ix' r)
  with assms(2) same_urls_signed [OF same_urls_replace [OF polled(2)]] index_ok_replace [of "ix g" evs] polled(2) show ?thesis by (auto simp: gateway_ok_def)
qed

lemma gateway_ok_reachable: "gw_reachable E m g \<Longrightarrow> gateway_ok E m g"
proof (induction rule: gw_reachable.induct)
  case (start endpoint_ttl)
  show ?case by (simp add: gateway_ok_def new_gateway_def endpoints_signed_def new_index_def index_ok_def)
next
  case (step g g')
  then show ?case by (blast intro: gateway_ok_step)
qed

section \<open>Properties\<close>

text \<open>
  What the guard lets through: \<open>_public_url_guard\<close> allows a URL exactly when its scheme is http or
  https, it has a host and a readable port, the host resolves for the port that would be dialled, and
  every resolved address is public; otherwise it gives a reason or the parser's error, never silence.
\<close>
theorem guard_allows_only_public:
  "public_url_guard net url = Inr None \<longleftrightarrow>
     (\<exists>parsed h p infos. parse_url net url = Inr parsed
        \<and> scheme parsed \<in> {lit ''http'', lit ''https''} \<and> hostname parsed = Some h \<and> h \<noteq> [] \<and> port parsed = Inr p
        \<and> resolve net h (case p of Some n \<Rightarrow> if n \<noteq> 0 then n else if scheme parsed = lit ''https'' then 443 else 80
                         | None \<Rightarrow> if scheme parsed = lit ''https'' then 443 else 80) = Some infos
        \<and> (\<forall>ip \<in> set infos. \<not> (is_private ip \<or> is_loopback ip \<or> is_link_local ip \<or> is_multicast ip
              \<or> is_reserved ip \<or> is_unspecified ip)))"
proof (cases "parse_url net url")
  case (Inr parsed)
  have list_none: "(case filter non_public is of [] \<Rightarrow> None | ip # _ \<Rightarrow> Some (f ip)) = None \<longleftrightarrow> filter non_public is = []"
    for "is" and f :: "ip_info \<Rightarrow> pystr"
    by (cases "filter non_public is") simp_all
  have verdict: "(case infos of None \<Rightarrow> Some r0 | Some is \<Rightarrow> (case filter non_public is of [] \<Rightarrow> None | ip # _ \<Rightarrow> Some (f ip))) = None
      \<longleftrightarrow> (\<exists>is. infos = Some is \<and> (\<forall>ip \<in> set is. \<not> non_public ip))" for infos r0 and f :: "ip_info \<Rightarrow> pystr"
    by (cases infos) (auto simp: filter_empty_conv list_none split: list.splits)
  define dial where "dial = (\<lambda>p. case p of None \<Rightarrow> if scheme parsed = lit ''https'' then 443 else 80
      | Some n \<Rightarrow> if n = 0 then if scheme parsed = lit ''https'' then 443 else 80 else (n :: int))"
  have guard: "public_url_guard net url = Inr None \<longleftrightarrow> scheme parsed \<in> {lit ''http'', lit ''https''}
      \<and> hostname parsed \<noteq> None \<and> hostname parsed \<noteq> Some []
      \<and> (\<exists>p. port parsed = Inr p \<and> (\<exists>is. resolve net (the (hostname parsed)) (dial p) = Some is \<and> (\<forall>ip \<in> set is. \<not> non_public ip)))"
    using Inr by (cases "port parsed") (simp_all add: public_url_guard_def Let_def dial_def verdict)
  have "dial p = (case p of Some n \<Rightarrow> if n \<noteq> 0 then n else if scheme parsed = lit ''https'' then 443 else 80
      | None \<Rightarrow> if scheme parsed = lit ''https'' then 443 else 80)" for p
    by (simp add: dial_def split: option.splits)
  with guard Inr show ?thesis
    by (cases "hostname parsed") (auto simp: non_public_def)
qed (simp add: public_url_guard_def)

text \<open>
  C18. An announcement binds a URL only to its owner: the index changes only when the request carries an
  address, URL and timestamp whose digest for this Brain recovers, from its signature, to that address,
  the timestamp is within ten minutes of the clock, the guard allows the URL and the address is a
  registered miner of the Brain; then exactly that address's endpoint is replaced, with score 0 even
  when a finalized score had been set.
\<close>
theorem announce_binds_signed_url:
  assumes "announce E rep mo x b body = (x', r)" and "x' \<noteq> x"
  shows "\<exists>a url ts sig recovered.
      read_announce E rep body = Inr (a, url, ts, sig)
    \<and> \<bar>now mo - ts\<bar> \<le> 600 \<and> url_guard mo url = Inr None
    \<and> recover_announce E b url ts sig = Inr recovered \<and> lower recovered = lower a \<and> is_miner x b a
    \<and> endpoints x' = (endpoints x)((b, lower a) \<mapsto> \<lparr>ep_url = url, ep_score = 0, ep_ts = ts\<rparr>)
    \<and> reg_miners x' = reg_miners x \<and> reg_validators x' = reg_validators x"
proof (cases rule: announce_cases [of E rep mo x b body])
  case (stored a url ts sig recovered)
  then have "x' = announce_endpoint x b a url ts 0" using assms(1) by simp
  with stored show ?thesis
    by (auto simp: announce_endpoint_def ANNOUNCE_MAX_AGE_def)
qed (use assms in simp)

text \<open>
  Bounded concurrency: in every reachable state of the gateway the counter is the number of dials
  under way, whatever the order in which requests arrive and complete or fail, and it never exceeds the
  configured bound; every stored endpoint carries a URL and timestamp signed for its Brain by the
  address it is stored under.
\<close>
theorem inflight_counts_dials:
  assumes "gw_reachable E max_inflight g"
  shows "inflight g = int (size (dialling g)) \<and> (0 \<le> max_inflight \<longrightarrow> inflight g \<le> max_inflight)
    \<and> (\<forall>b a ep. endpoints (ix g) (b, a) = Some ep \<longrightarrow>
         (\<exists>sig recovered. recover_announce E b (ep_url ep) (ep_ts ep) sig = Inr recovered \<and> lower recovered = a))"
  using gateway_ok_reachable [OF assms]
  by (auto simp: gateway_ok_def endpoints_signed_def signed_endpoint_def)

lemma dial_is_signed:
  assumes "gw_reachable E m g" and "enumerates (set_order mo)"
    and "proxy_begin m mo (ix g) (inflight g) b body = (n, Inr (Dialled url))"
  shows "url_guard mo url = Inr None \<and> n = inflight g + 1 \<and> n \<le> m
    \<and> (\<exists>a ep sig recovered. endpoints (ix g) (b, a) = Some ep \<and> ep_url ep = url
         \<and> recover_announce E b url (ep_ts ep) sig = Inr recovered \<and> lower recovered = a
         \<and> ((\<exists>t. jget body (lit ''target_miner'') JNull = Inr (JStr t) \<and> a = lower t)
            \<or> a \<in> reg_miners (ix g) b \<and> is_fresh (ix g) (Some (now mo)) ep
              \<and> (\<forall>a' ep'. a' \<in> reg_miners (ix g) b \<and> endpoints (ix g) (b, a') = Some ep'
                   \<and> is_fresh (ix g) (Some (now mo)) ep' \<longrightarrow> ep_score ep' \<le> ep_score ep)))"
proof (cases rule: proxy_begin_cases [of m mo "ix g" "inflight g" b body])
  case (dial u)
  then have u: "u = url" and n: "n = inflight g + 1" using assms(3) by simp_all
  have signed: "\<exists>sig recovered. recover_announce E b (ep_url ep) (ep_ts ep) sig = Inr recovered \<and> lower recovered = a"
    if "endpoints (ix g) (b, a) = Some ep" for a ep
    using gateway_ok_reachable [OF assms(1)] that by (auto simp: gateway_ok_def endpoints_signed_def signed_endpoint_def)
  obtain target where target: "jget body (lit ''target_miner'') JNull = Inr target"
    using dial(2) by (auto simp: target_url_def)
  let ?ms = "miners_of (set_order mo) (ix g) b (Some (now mo))"
  consider (named) t where "target = JStr t" "endpoint_of (ix g) b t = Some url"
    | (best) rest a sc where "?ms = (a, url, sc) # rest"
    using dial(2) target u
    by (cases target; cases ?ms) (auto simp: target_url_def split: if_splits option.splits)
  then have "\<exists>a ep sig recovered. endpoints (ix g) (b, a) = Some ep \<and> ep_url ep = url
         \<and> recover_announce E b url (ep_ts ep) sig = Inr recovered \<and> lower recovered = a
         \<and> ((\<exists>t. jget body (lit ''target_miner'') JNull = Inr (JStr t) \<and> a = lower t)
            \<or> a \<in> reg_miners (ix g) b \<and> is_fresh (ix g) (Some (now mo)) ep
              \<and> (\<forall>a' ep'. a' \<in> reg_miners (ix g) b \<and> endpoints (ix g) (b, a') = Some ep'
                   \<and> is_fresh (ix g) (Some (now mo)) ep' \<longrightarrow> ep_score ep' \<le> ep_score ep))"
  proof cases
    case named
    then obtain ep where ep: "endpoints (ix g) (b, lower t) = Some ep" "ep_url ep = url"
      by (auto simp: endpoint_of_def)
    from signed [OF ep(1)] ep target named(1) show ?thesis by blast
  next
    case best
    have "index_ok (ix g)" using gateway_ok_reachable [OF assms(1)] by (simp add: gateway_ok_def)
    from miners_of_first [OF assms(2) this best] signed show ?thesis by metis
  qed
  with dial n u show ?thesis by simp
next
  case (kept r)
  with assms(3) show ?thesis by (metis prod.inject)
qed

text \<open>
  A dial is to a signed, guarded endpoint: the URL a request is proxied to in a reachable state passed
  the guard at that moment, and it was announced for this Brain under the key of the address it is
  stored for: the named target, or else a registered miner with a fresh endpoint that no other reachable
  miner outranks.
\<close>
theorem dials_go_to_signed_endpoints:
  assumes "gw_reachable E m g" and "enumerates (set_order mo)"
    and "proxy_begin m mo (ix g) (inflight g) b body = (n, Inr (Dialled url))"
  shows "url_guard mo url = Inr None \<and> n = inflight g + 1 \<and> n \<le> m
    \<and> (\<exists>a ep sig recovered. endpoints (ix g) (b, a) = Some ep \<and> ep_url ep = url
         \<and> recover_announce E b url (ep_ts ep) sig = Inr recovered \<and> lower recovered = a
         \<and> ((\<exists>t. jget body (lit ''target_miner'') JNull = Inr (JStr t) \<and> a = lower t)
            \<or> a \<in> reg_miners (ix g) b \<and> is_fresh (ix g) (Some (now mo)) ep
              \<and> (\<forall>a' ep'. a' \<in> reg_miners (ix g) b \<and> endpoints (ix g) (b, a') = Some ep'
                   \<and> is_fresh (ix g) (Some (now mo)) ep' \<longrightarrow> ep_score ep' \<le> ep_score ep)))"
  by (rule dial_is_signed [OF assms])

text \<open>
  C22. The rate limit holds across window boundaries: for one address and a clock that does not run
  backwards, among the requests of any interval as long as the window at most twice the limit are
  admitted, and no window of the limiter admits more than the limit.
\<close>
theorem rate_limit_bounds_admissions:
  assumes "0 < window" and "1 \<le> limit" and "sorted ts" and "\<forall>t \<in> set ts. 0 \<le> t"
  shows "int (length (filter (\<lambda>e. t0 \<le> snd e \<and> snd e < t0 + window) (rate_log limit window (0, 0) ts))) \<le> 2 * limit
    \<and> (\<forall>v. int (length (filter (\<lambda>e. fst e = v) (rate_log limit window (0, 0) ts))) \<le> limit)"
proof -
  let ?es = "rate_log limit window (0, 0) ts"
  have sp: "log_spaced limit window 0 0 ?es"
    using assms by (intro rate_log_spaced) auto
  have each: "int (in_window v ?es) \<le> limit" for v
    using sp by (cases "v = 0") (simp_all add: log_spaced_def)
  let ?P = "\<lambda>e. t0 \<le> snd e \<and> snd e < t0 + window"
  have "\<exists>v u. fst ` {e \<in> set ?es. ?P e} \<subseteq> {v, u}"
  proof (rule two_windows [of _ window "t0 - window"])
    show "\<forall>v \<in> fst ` {e \<in> set ?es. ?P e}. t0 - window < v \<and> v < t0 - window + 2 * window"
      using sp by (auto simp: log_spaced_def)
    show "\<forall>v \<in> fst ` {e \<in> set ?es. ?P e}. \<forall>u \<in> fst ` {e \<in> set ?es. ?P e}. v < u \<longrightarrow> v + window \<le> u"
      using sp unfolding log_spaced_def by blast
  qed (use assms(1) in simp_all)
  then obtain v u where two: "fst ` {e \<in> set ?es. ?P e} \<subseteq> {v, u}" by blast
  have "int (length (filter ?P ?es)) \<le> 2 * limit"
    by (rule length_filter_two [OF two]) (simp add: each)
  with each show ?thesis by (simp add: in_window_def)
qed

text \<open>
  Only verified scores rank miners: a score submission changes no score but those of entries that the
  verifier accepted against the finalized root of the stated epoch, and changes nothing else.
\<close>
theorem submitted_scores_are_verified:
  assumes "submit_scores E verify x b body = (x', r)"
    and "endpoints x' (b', a) = Some ep'" and "endpoints x (b', a) = Some ep" and "ep' \<noteq> ep"
  shows "\<exists>v epoch m sc pf. verify = Some v \<and> v epoch b m sc pf = Inr True
    \<and> b' = b \<and> a = lower m \<and> ep' = ep\<lparr>ep_score := double (of_int sc)\<rparr>"
proof -
  have step: "endpoints (fst (apply_scores E v epoch b y k es)) (b', a) = Some ep' \<Longrightarrow> endpoints y (b', a) = Some ep0
      \<Longrightarrow> ep' = ep0 \<or> (\<exists>m sc pf. v epoch b m sc pf = Inr True \<and> b' = b \<and> a = lower m
            \<and> ep' = ep0\<lparr>ep_score := double (of_int sc)\<rparr>)" for v epoch y k es ep0
  proof (induction es arbitrary: y k ep0)
    case (Cons e es)
    show ?case
    proof (cases "\<exists>m sc pf. read_score E e = Inr (m, sc, pf) \<and> v epoch b m sc pf = Inr True")
      case True
      then obtain m sc pf where e: "read_score E e = Inr (m, sc, pf)" "v epoch b m sc pf = Inr True" by blast
      let ?y = "set_score y b m (double (of_int sc))"
      have res: "endpoints (fst (apply_scores E v epoch b ?y (k + 1) es)) (b', a) = Some ep'"
        using Cons.prems(1) e by simp
      show ?thesis
      proof (cases "b' = b \<and> a = lower m")
        case True
        then have "endpoints ?y (b', a) = Some (ep0\<lparr>ep_score := double (of_int sc)\<rparr>)"
          using Cons.prems(2) by (simp add: set_score_def)
        from Cons.IH [OF res this] True e(2) show ?thesis by auto
      next
        case False
        then have "endpoints ?y (b', a) = Some ep0"
          using Cons.prems(2) by (auto simp: set_score_def split: option.splits)
        from Cons.IH [OF res this] show ?thesis .
      qed
    next
      case False
      then have "fst (apply_scores E v epoch b y k (e # es)) = y
          \<or> fst (apply_scores E v epoch b y k (e # es)) = fst (apply_scores E v epoch b y k es)"
        by (auto split: sum.splits prod.splits bool.splits)
      then show ?thesis using Cons.IH [of y k ep0] Cons.prems by (elim disjE) simp_all
    qed
  qed simp
  from submit_scores_index [of E verify x b body] assms
  obtain v epoch es where v: "verify = Some v" "x' = fst (apply_scores E v epoch b x 0 es)" by auto
  from step [of v epoch x 0 es ep] assms(2-4) v show ?thesis by blast
qed

section \<open>Concrete runs\<close>

abbreviation demo_ip :: "bool \<Rightarrow> ip_info" where
  "demo_ip priv \<equiv> \<lparr>ip_text = lit ''ip'', is_private = priv, is_loopback = False, is_link_local = False,
     is_multicast = False, is_reserved = False, is_unspecified = False\<rparr>"

abbreviation demo_net :: network where
  "demo_net \<equiv> \<lparr>parse_url = (\<lambda>u. Inr \<lparr>scheme = lit ''https'', hostname = Some u, port = Inr None\<rparr>),
     resolve = (\<lambda>h _. if h = [104] then Some [demo_ip False] else Some [demo_ip False, demo_ip True])\<rparr>"

theorem guard_allows_only_public_witness:
  "public_url_guard demo_net [104] = Inr None \<and> public_url_guard demo_net [105] \<noteq> Inr None"
  using guard_allows_only_public [of demo_net "[104]"] guard_allows_only_public [of demo_net "[105]"]
  by simp

abbreviation demo_moment :: moment where
  "demo_moment \<equiv> \<lparr>now = 100, url_guard = (\<lambda>_. Inr None), set_order = sorted_list_of_set\<rparr>"

definition demo_announce_sig :: pystr where
  "demo_announce_sig = to_hex (7 # demo_hash (sum_list (ANNOUNCE_TAG demo_eth) + 8 + 104 + 100))"

lemma demo_recover_announce:
  "recover_announce demo_eth 8 [104] 100 (JStr demo_announce_sig) = Inr (hex0x [7])"
  by (simp add: recover_announce_def announce_digest_def utf8_encode_def utf8_char_def demo_announce_sig_def
      demo_recover_def strip_0x_def)

definition demo_announce :: json where
  "demo_announce = JObj [(lit ''address'', JStr (hex0x [7])), (lit ''url'', JStr [104]), (lit ''ts'', JInt 100),
     (lit ''signature'', JStr demo_announce_sig)]"

definition demo_members :: member_index where
  "demo_members = fst (replace_membership (new_index 600) (map event_json [demo_miner MinerRegistered 1]))"

lemma demo_members_simps:
  "is_miner demo_members 8 (hex0x [7])" "endpoints demo_members = (\<lambda>_. None)"
  by (simp_all add: demo_members_def replace_membership_def apply_event_def is_miner_def new_index_def Let_def)

definition demo_joined :: member_index where
  "demo_joined = announce_endpoint demo_members 8 (hex0x [7]) [104] 100 0"

lemma demo_announced:
  "announce demo_eth (\<lambda>_. []) demo_moment demo_members 8 demo_announce =
     (demo_joined, Inr (200, JObj [(lit ''ok'', JBool True)]))"
  by (simp add: announce_def read_announce_def demo_announce_def ANNOUNCE_MAX_AGE_def demo_recover_announce
      demo_members_simps demo_joined_def)

lemma demo_joined_endpoints [simp]:
  "endpoints demo_joined = (\<lambda>_. None)((8, hex0x [7]) \<mapsto> \<lparr>ep_url = [104], ep_score = 0, ep_ts = 100\<rparr>)"
  by (simp add: demo_joined_def demo_members_simps)

theorem announce_binds_signed_url_witness:
  "\<exists>sig recovered. recover_announce demo_eth 8 [104] 100 sig = Inr recovered \<and> lower recovered = hex0x [7]"
proof -
  have "endpoints demo_joined (8, hex0x [7]) \<noteq> endpoints demo_members (8, hex0x [7])"
    by (simp add: demo_members_simps)
  then have "demo_joined \<noteq> demo_members" by metis
  from announce_binds_signed_url [OF demo_announced this] show ?thesis
    by (auto simp: read_announce_def demo_announce_def)
qed

lemma demo_gateway_reachable:
  "gw_reachable demo_eth 64 \<lparr>ix = demo_joined, inflight = 0, dialling = {#}\<rparr>"
proof -
  have "gw_step demo_eth 64 (new_gateway 600) (new_gateway 600\<lparr>ix := demo_members\<rparr>)"
    by (rule gw_step.polled) (simp add: demo_members_def new_gateway_def prod_eq_iff)
  then have 1: "gw_reachable demo_eth 64 (new_gateway 600\<lparr>ix := demo_members\<rparr>)"
    by (rule gw_reachable.step [OF gw_reachable.start])
  have "gw_step demo_eth 64 (new_gateway 600\<lparr>ix := demo_members\<rparr>) (new_gateway 600\<lparr>ix := demo_members\<rparr>\<lparr>ix := demo_joined\<rparr>)"
    by (rule gw_step.announced [where rep = "\<lambda>_. []" and mo = demo_moment and b = 8 and body = demo_announce])
      (simp add: demo_announced new_gateway_def)
  from gw_reachable.step [OF 1 this] show ?thesis by (simp add: new_gateway_def)
qed

theorem inflight_counts_dials_witness:
  "\<exists>sig recovered. recover_announce demo_eth 8 [104] 100 sig = Inr recovered \<and> lower recovered = hex0x [7]"
  using inflight_counts_dials [OF demo_gateway_reachable, THEN conjunct2, THEN conjunct2, rule_format,
      of 8 "hex0x [7]" "\<lparr>ep_url = [104], ep_score = 0, ep_ts = 100\<rparr>"]
  by simp

lemma demo_dial:
  "proxy_begin 64 demo_moment (ix \<lparr>ix = demo_joined, inflight = 0, dialling = {#}\<rparr>)
     (inflight \<lparr>ix = demo_joined, inflight = 0, dialling = {#}\<rparr>) 8 (JObj [(lit ''target_miner'', JStr (hex0x [7]))])
   = (1, Inr (Dialled [104]))"
  by (simp add: proxy_begin_def target_url_def endpoint_of_def hex0x_def)

theorem dials_go_to_signed_endpoints_witness:
  "url_guard demo_moment [104] = Inr None
   \<and> (\<exists>a ep. endpoints (ix \<lparr>ix = demo_joined, inflight = 0, dialling = {#}\<rparr>) (8, a) = Some ep \<and> ep_url ep = [104])"
proof -
  have "enumerates (set_order demo_moment)" by (simp add: sorted_list_enumerates)
  from dials_go_to_signed_endpoints [OF demo_gateway_reachable this demo_dial] show ?thesis by blast
qed

theorem rate_limit_bounds_admissions_witness:
  "int (length (filter (\<lambda>e. 100 \<le> snd e \<and> snd e < 100 + 60) (rate_log 60 60 (0, 0) [100, 110, 170]))) \<le> 2 * 60"
  using rate_limit_bounds_admissions [of 60 60 "[100, 110, 170]" 100] by simp

lemma demo_scored:
  "submit_scores demo_eth (Some (\<lambda>_ _ _ _ _. Inr True)) demo_joined 8
     (JObj [(lit ''epoch'', JInt 1), (lit ''entries'', JList [JObj [(lit ''miner'', JStr (hex0x [7])), (lit ''score'', JInt 500000)]])])
   = (set_score demo_joined 8 (hex0x [7]) 500000, Inr (200, JObj [(lit ''ok'', JBool True), (lit ''applied'', JInt 1)]))"
  using double_nat [of 500000] by (simp add: submit_scores_def read_score_def dict_get_or_def)

theorem submitted_scores_are_verified_witness:
  "\<exists>m sc. hex0x [7] = lower m \<and> (500000 :: real) = double (of_int sc)"
proof -
  have "endpoints (set_score demo_joined 8 (hex0x [7]) 500000) (8, hex0x [7]) =
      Some \<lparr>ep_url = [104], ep_score = 500000, ep_ts = 100\<rparr>"
    by (simp add: set_score_def)
  from submitted_scores_are_verified [OF demo_scored this, of "\<lparr>ep_url = [104], ep_score = 0, ep_ts = 100\<rparr>"]
  show ?thesis by auto
qed

end
