(* ===== verification/Poller.thy ===== *)
theory Poller imports MemberIndex
begin

text \<open>
  \<open>ChainPoller\<close> and \<open>CursorStore\<close> of \<open>gateway/src/basedai_gateway/server.py\<close>: the scan for membership
  events with its reorg handling, and the durable cursor. The node answers through the record
  \<open>chain\<close>; any of its calls may fail, and what a failed poll has already changed stays changed.
\<close>

section \<open>Positions of logs\<close>

text \<open>The sort key \<open>(block_number, log_index)\<close>, compared lexicographically.\<close>

datatype log_pos = LogPos int int

instantiation log_pos :: linorder
begin

fun less_eq_log_pos :: "log_pos \<Rightarrow> log_pos \<Rightarrow> bool" where
  "less_eq_log_pos (LogPos b i) (LogPos c j) = (b < c \<or> (b = c \<and> i \<le> j))"

definition less_log_pos :: "log_pos \<Rightarrow> log_pos \<Rightarrow> bool" where
  "less_log_pos p q \<longleftrightarrow> p \<le> q \<and> \<not> q \<le> p"

instance
proof
  fix x y z :: log_pos
  show "(x < y) = (x \<le> y \<and> \<not> y \<le> x)" by (simp add: less_log_pos_def)
  show "x \<le> x" by (cases x) simp
  show "x \<le> y \<Longrightarrow> y \<le> z \<Longrightarrow> x \<le> z" by (cases x; cases y; cases z) auto
  show "x \<le> y \<Longrightarrow> y \<le> x \<Longrightarrow> x = y" by (cases x; cases y) auto
  show "x \<le> y \<or> y \<le> x" by (cases x; cases y) auto
qed

end

definition pos_of :: "member_event \<Rightarrow> log_pos" where
  "pos_of ev = LogPos (ev_block ev) (ev_log ev)"

section \<open>The code\<close>

record chain =
  block_number :: "int res"
  block_hash :: "int \<Rightarrow> pystr res"
  get_logs :: "member_kind \<Rightarrow> int \<Rightarrow> int \<Rightarrow> member_event list res"

text \<open>
  A decoded log is given as the record of the fields the code reads (the member is the address of
  whichever of the two indexed arguments the event has). The poller keeps its events as the JSON
  objects it also saves, its hashes under the decimal text of the block number.
\<close>

record poller =
  p_events :: "json list"
  p_hashes :: "(pystr, json) dict"
  next_block :: int

record poller_config =
  confirmations :: int
  reorg_buffer :: int

definition EVENTS :: "member_kind list" where
  "EVENTS = [MinerRegistered, MinerDeregistered, ValidatorRegistered, ValidatorDeregistered]"

text \<open>The walk back over stored hashes to the common ancestor.\<close>

function probe_back :: "(int \<Rightarrow> pystr res) \<Rightarrow> (pystr, json) dict \<Rightarrow> int \<Rightarrow> int res" where
  "probe_back hash hashes probe =
     (if 0 \<le> probe \<and> dict_get hashes (int_text probe) \<noteq> None
      then rbind (hash probe) (\<lambda>canonical.
             if dict_get hashes (int_text probe) = Some (JStr canonical) then Inr probe
             else probe_back hash hashes (probe - 1))
      else Inr probe)"
  by pat_completeness auto
termination
  by (relation "measure (\<lambda>(hash, hashes, probe). nat (probe + 1))") auto

declare probe_back.simps [simp del]

definition hash_entries :: "(int \<Rightarrow> pystr res) \<Rightarrow> int \<Rightarrow> int \<Rightarrow> (pystr, json) dict res" where
  "hash_entries hash from_block head =
     map_res (\<lambda>n. rbind (hash n) (\<lambda>h. Inr (int_text n, JStr h))) [from_block..head]"

text \<open>A comprehension that keeps the elements whose test, which may raise, holds.\<close>

fun filter_res :: "('a \<Rightarrow> bool res) \<Rightarrow> 'a list \<Rightarrow> 'a list res" where
  "filter_res p [] = Inr []"
| "filter_res p (x # xs) =
     rbind (p x) (\<lambda>keep. rbind (filter_res p xs) (\<lambda>ys. Inr (if keep then x # ys else ys)))"

definition events_below :: "int \<Rightarrow> json list \<Rightarrow> json list res" where
  "events_below from_block evs =
     filter_res (\<lambda>e. rbind (rbind (jkey e (lit ''block_number'')) py_int) (\<lambda>n. Inr (n < from_block))) evs"

definition hashes_below :: "int \<Rightarrow> (pystr, json) dict \<Rightarrow> (pystr, json) dict res" where
  "hashes_below from_block hashes =
     filter_res (\<lambda>e. rbind (py_int_text 10 (fst e)) (\<lambda>n. Inr (n < from_block))) hashes"

definition dict_update :: "('k, 'v) dict \<Rightarrow> ('k, 'v) dict \<Rightarrow> ('k, 'v) dict" where
  "dict_update d new = foldl (\<lambda>d (k, v). dict_set k v d) d new"

definition new_events :: "chain \<Rightarrow> int \<Rightarrow> int \<Rightarrow> member_event list res" where
  "new_events ch from_block head =
     rbind (map_res (\<lambda>k. get_logs ch k from_block head) EVENTS)
       (\<lambda>logs. Inr (sort_key pos_of (concat logs)))"

definition state_json :: "int \<Rightarrow> json list \<Rightarrow> (pystr, json) dict \<Rightarrow> json" where
  "state_json n evs hashes =
     JObj [(lit ''next_block'', JInt n), (lit ''events'', JList evs), (lit ''hashes'', JObj hashes)]"

text \<open>
  \<open>poll_once\<close>: the new poller and index, what was saved, and the number of events or the exception.
\<close>

definition scan_from :: "poller_config \<Rightarrow> chain \<Rightarrow> poller \<Rightarrow> int res" where
  "scan_from cfg ch p =
     (let from_block = max 0 (next_block p - reorg_buffer cfg)
      in rbind (probe_back (block_hash ch) (p_hashes p) (from_block - 1)) (\<lambda>probe.
           Inr (if probe < from_block - 1 then probe + 1 else from_block)))"

definition poll_once ::
    "poller_config \<Rightarrow> chain \<Rightarrow> poller \<Rightarrow> member_index \<Rightarrow> poller \<times> member_index \<times> json option \<times> nat res" where
  "poll_once cfg ch p ix =
     (case block_number ch of
        Inl e \<Rightarrow> (p, ix, None, Inl e)
      | Inr number \<Rightarrow>
          (let head = number - confirmations cfg
           in if head < next_block p then (p, ix, None, Inr 0)
              else (case rbind (scan_from cfg ch p) (\<lambda>from_block.
                          rbind (hash_entries (block_hash ch) from_block head) (\<lambda>hs.
                          rbind (events_below from_block (p_events p)) (\<lambda>old. Inr (from_block, hs, old)))) of
                Inl e \<Rightarrow> (p, ix, None, Inl e)
              | Inr (from_block, hs, old) \<Rightarrow>
                  (case new_events ch from_block head of
                     Inl e \<Rightarrow> (p\<lparr>p_events := old\<rparr>, ix, None, Inl e)
                   | Inr applied \<Rightarrow>
                       (let evs = old @ map event_json applied; p1 = p\<lparr>p_events := evs\<rparr>
                        in case replace_membership ix evs of
                             (ix', Inl e) \<Rightarrow> (p1, ix', None, Inl e)
                           | (ix', Inr _) \<Rightarrow>
                               (case hashes_below from_block (p_hashes p) of
                                  Inl e \<Rightarrow> (p1, ix', None, Inl e)
                                | Inr kept \<Rightarrow>
                                    (let hashes = dict_update kept hs
                                     in (\<lparr>p_events = evs, p_hashes = hashes, next_block = head + 1\<rparr>, ix',
                                         Some (state_json (head + 1) evs hashes), Inr (length applied)))))))))"

text \<open>
  \<open>CursorStore\<close>: the file is absent, unreadable (an operating-system or JSON error), or holds JSON.
  \<open>dict(x)\<close> of an array of pairs, which no writer of the file produces, counts as an error.
\<close>

datatype cursor_file = Absent | Unreadable | Holds json

fun py_dict :: "json \<Rightarrow> (pystr, json) dict res" where
  "py_dict (JObj d) = Inr d"
| "py_dict (JList []) = Inr []"
| "py_dict _ = Inl TypeError"

definition cursor_value :: "'a res \<Rightarrow> 'a option res" where
  "cursor_value r = (case r of Inr x \<Rightarrow> Inr (Some x) | Inl e \<Rightarrow> if is_malformed e then Inr None else Inl e)"

fun load_state :: "cursor_file \<Rightarrow> (int \<times> json list \<times> (pystr, json) dict) option res" where
  "load_state Absent = Inr None"
| "load_state Unreadable = Inr None"
| "load_state (Holds state) = cursor_value
     (rbind (rbind (jkey state (lit ''next_block'')) py_int) (\<lambda>n.
      rbind (rbind (jget state (lit ''events'') (JList [])) py_list) (\<lambda>evs.
      rbind (rbind (jget state (lit ''hashes'') (JObj [])) py_dict) (\<lambda>hs. Inr (n, evs, hs)))))"

fun load_cursor :: "cursor_file \<Rightarrow> int option res" where
  "load_cursor Absent = Inr None"
| "load_cursor Unreadable = Inr None"
| "load_cursor (Holds state) = cursor_value (rbind (jkey state (lit ''next_block'')) py_int)"

definition save_state :: "int \<Rightarrow> json list \<Rightarrow> (pystr, json) dict \<Rightarrow> cursor_file" where
  "save_state n evs hashes = Holds (state_json n evs hashes)"

definition save_cursor :: "int \<Rightarrow> cursor_file" where
  "save_cursor n = save_state n [] []"

text \<open>\<open>__init__\<close>: resume from the stored state, or start fresh.\<close>

definition init_poller :: "cursor_file option \<Rightarrow> int \<Rightarrow> member_index \<Rightarrow> (poller \<times> member_index) res" where
  "init_poller store start_block ix =
     rbind (case store of None \<Rightarrow> Inr None | Some f \<Rightarrow> load_state f) (\<lambda>state.
       let (n, evs, hs) = (case state of None \<Rightarrow> (start_block, [], []) | Some s \<Rightarrow> s)
       in case replace_membership ix evs of
            (ix', Inl e) \<Rightarrow> Inl e
          | (ix', Inr _) \<Rightarrow> Inr (\<lparr>p_events = evs, p_hashes = hs, next_block = n\<rparr>, ix'))"

section \<open>Texts of block numbers\<close>

lemma nat_digits_nonempty [simp]: "nat_digits n \<noteq> []"
  by (subst nat_digits.simps) simp

lemma strip_digits: "strip_ws (nat_digits n) = nat_digits n"
proof -
  have "dropWhile is_space xs = xs" if "\<forall>c \<in> set xs. 48 \<le> c \<and> c \<le> 57" for xs
    using that by (cases xs) (auto simp: is_space_def)
  then show ?thesis by (simp add: strip_ws_def nat_digits_ascii)
qed

lemma digits_sep: "c \<noteq> 95 \<Longrightarrow> digits_val b acc True (c # cs) = digits_val b acc False (c # cs)"
  by simp

lemma py_int_text_int_text:
  assumes "0 \<le> n"
  shows "py_int_text 10 (int_text n) = Inr n"
proof -
  obtain c cs where ds: "nat_digits (nat n) = c # cs" by (cases "nat_digits (nat n)") auto
  then have "48 \<le> c" "c \<le> 57" using nat_digits_ascii [of c "nat n"] by simp_all
  then have "unsigned_int 10 (nat_digits (nat n)) = Some (nat n)"
    using digits_val_nat_digits [of "nat n"] digits_sep [of c 10 0 cs] ds
    by (simp add: unsigned_int_def)
  with \<open>48 \<le> c\<close> have "py_int_text 10 (nat_digits (nat n)) = Inr (int (nat n))"
    by (intro py_int_text_plain [OF strip_digits ds]) auto
  with assms show ?thesis by (simp add: int_text_def)
qed

lemma int_text_inject: "0 \<le> m \<Longrightarrow> 0 \<le> n \<Longrightarrow> int_text m = int_text n \<longleftrightarrow> m = n"
  by (metis py_int_text_int_text sum.inject(2))

section \<open>Filters that may raise\<close>

lemma filter_res_total:
  assumes "\<And>x. x \<in> set xs \<Longrightarrow> p x = Inr (q x)"
  shows "filter_res p xs = Inr (filter q xs)"
  using assms by (induction xs) auto

lemma events_below_json:
  "events_below n (map event_json evs) = Inr (map event_json (filter (\<lambda>e. ev_block e < n) evs))"
proof -
  have "filter_res (\<lambda>e. rbind (rbind (jkey e (lit ''block_number'')) py_int) (\<lambda>m. Inr (m < n))) (map event_json evs)
      = Inr (map event_json (filter (\<lambda>e. ev_block e < n) evs))"
    by (induction evs) (simp_all add: event_json_def)
  then show ?thesis by (simp add: events_below_def)
qed

section \<open>The canonical chain\<close>

text \<open>
  What a node serves: the membership events \<open>L\<close> of the chain in order of position, and the hashes \<open>H\<close>
  of its blocks up to the head.
\<close>

definition events_lt :: "int \<Rightarrow> member_event list \<Rightarrow> member_event list" where
  "events_lt n L = filter (\<lambda>e. ev_block e < n) L"

definition serves :: "chain \<Rightarrow> int \<Rightarrow> member_event list \<Rightarrow> (int \<Rightarrow> pystr) \<Rightarrow> bool" where
  "serves ch number L H \<longleftrightarrow>
     block_number ch = Inr number
   \<and> (\<forall>n. block_hash ch n = Inr (H n))
   \<and> (\<forall>k f t. get_logs ch k f t = Inr (filter (\<lambda>e. ev_kind e = k \<and> f \<le> ev_block e \<and> ev_block e \<le> t) L))
   \<and> sorted_wrt (\<lambda>x y. pos_of x < pos_of y) L"

text \<open>
  The poller has followed a chain \<open>(L, H)\<close>: its events are those below \<open>next_block\<close> and its hashes
  those of the blocks from \<open>lo\<close> to \<open>next_block - 1\<close>.
\<close>

definition follows :: "poller \<Rightarrow> member_event list \<Rightarrow> (int \<Rightarrow> pystr) \<Rightarrow> int \<Rightarrow> bool" where
  "follows p L H lo \<longleftrightarrow> 0 \<le> lo
   \<and> p_events p = map event_json (events_lt (next_block p) L)
   \<and> (\<forall>k \<in> set (dict_keys (p_hashes p)). \<exists>n \<ge> 0. k = int_text n)
   \<and> (\<forall>n \<ge> 0. dict_get (p_hashes p) (int_text n) = (if lo \<le> n \<and> n < next_block p then Some (JStr (H n)) else None))
   \<and> dict_ok (p_hashes p)"

text \<open>
  Two chains agree up to a block they give the same hash (a hash commits to the whole past), and below
  the first block \<open>lo\<close> whose hash is stored.
\<close>

definition same_past :: "member_event list \<Rightarrow> (int \<Rightarrow> pystr) \<Rightarrow> member_event list \<Rightarrow> (int \<Rightarrow> pystr) \<Rightarrow> int \<Rightarrow> bool" where
  "same_past L H L' H' lo \<longleftrightarrow> events_lt lo L = events_lt lo L'
   \<and> (\<forall>n. H n = H' n \<longrightarrow> events_lt (n + 1) L = events_lt (n + 1) L' \<and> (\<forall>m \<le> n. H m = H' m))"

lemma probe_back_steps:
  assumes hash: "\<And>n. hash n = Inr (H' n)"
    and stored: "\<And>n. 0 \<le> n \<Longrightarrow> dict_get hashes (int_text n) = (if lo \<le> n \<and> n < nxt then Some (JStr (H n)) else None)"
    and "0 \<le> lo" and "probe < nxt"
  shows "\<exists>q \<le> probe. probe_back hash hashes probe = Inr q \<and> (lo \<le> q \<longrightarrow> H q = H' q) \<and> (q < probe \<longrightarrow> lo \<le> q + 1)"
  using assms(4)
proof (induction "nat (probe + 1)" arbitrary: probe rule: less_induct)
  case less
  show ?case
  proof (cases "lo \<le> probe")
    case False
    then have "probe_back hash hashes probe = Inr probe"
      using stored [of probe] by (subst probe_back.simps) (cases "0 \<le> probe"; simp)
    with False show ?thesis by auto
  next
    case True
    then have st: "dict_get hashes (int_text probe) = Some (JStr (H probe))" "0 \<le> probe"
      using stored [of probe] assms(3) less.prems by simp_all
    show ?thesis
    proof (cases "H probe = H' probe")
      case True
      then have "probe_back hash hashes probe = Inr probe"
        using st hash by (subst probe_back.simps) simp
      with True show ?thesis by auto
    next
      case False
      then have "probe_back hash hashes probe = probe_back hash hashes (probe - 1)"
        using st hash by (subst probe_back.simps) simp
      moreover obtain q where "q \<le> probe - 1" "probe_back hash hashes (probe - 1) = Inr q"
        "lo \<le> q \<longrightarrow> H q = H' q" "q < probe - 1 \<longrightarrow> lo \<le> q + 1"
        using less.hyps [of "probe - 1"] st(2) less.prems by auto
      ultimately show ?thesis using True by (intro exI [of _ q]) auto
    qed
  qed
qed

lemma kinds_cover:
  "mset (concat (map (\<lambda>k. filter (\<lambda>e. ev_kind e = k \<and> P e) L) EVENTS)) = mset (filter P L)"
proof (induction L)
  case (Cons e L)
  then show ?case by (cases "ev_kind e") (auto simp: EVENTS_def)
qed (simp add: EVENTS_def)

lemma distinct_singleton_set: "distinct ys \<Longrightarrow> set ys = {k} \<Longrightarrow> ys = [k]"
  by (cases ys; cases "tl ys") auto

lemma sort_by_position:
  assumes "sorted_wrt (\<lambda>x y. pos_of x < pos_of y) L" and "mset xs = mset L"
  shows "sort_key pos_of xs = L"
proof (rule properties_for_sort_key)
  show "mset L = mset xs" using assms(2) by simp
  have "sorted_wrt (<) (map pos_of L)" using assms(1) by (simp add: sorted_wrt_map)
  then have strict: "sorted (map pos_of L)" "distinct (map pos_of L)" by (simp_all add: strict_sorted_iff)
  then have inj: "inj_on pos_of (set L)" and dist: "distinct L" by (simp_all add: distinct_map)
  show "sorted (map pos_of L)" by (rule strict(1))
  fix k
  assume k: "k \<in> set L"
  have "distinct xs" using dist mset_eq_imp_distinct_iff [OF assms(2)] by simp
  have same: "set xs = set L" using assms(2) by (rule mset_eq_setD)
  have single: "filter (\<lambda>x. pos_of k = pos_of x) ys = [k]" if "distinct ys" "set ys = set L" for ys
  proof -
    have "set (filter (\<lambda>x. pos_of k = pos_of x) ys) = {k}"
      using inj k that(2) by (auto simp: inj_on_def)
    moreover have "distinct (filter (\<lambda>x. pos_of k = pos_of x) ys)" using that(1) by simp
    ultimately show ?thesis by (intro distinct_singleton_set)
  qed
  show "filter (\<lambda>x. pos_of k = pos_of x) L = filter (\<lambda>x. pos_of k = pos_of x) xs"
    using single [OF dist refl] single [OF \<open>distinct xs\<close> same] by simp
qed

lemma new_events_canonical:
  assumes "serves ch number L H"
  shows "new_events ch f t = Inr (filter (\<lambda>e. f \<le> ev_block e \<and> ev_block e \<le> t) L)"
proof -
  let ?P = "\<lambda>e. f \<le> ev_block e \<and> ev_block e \<le> t"
  have "map_res (\<lambda>k. get_logs ch k f t) EVENTS = Inr (map (\<lambda>k. filter (\<lambda>e. ev_kind e = k \<and> ?P e) L) EVENTS)"
    using assms by (intro map_res_total) (simp add: serves_def)
  moreover have "sort_key pos_of (concat (map (\<lambda>k. filter (\<lambda>e. ev_kind e = k \<and> ?P e) L) EVENTS)) = filter ?P L"
    using assms kinds_cover by (intro sort_by_position) (auto simp: serves_def sorted_wrt_filter)
  ultimately show ?thesis by (simp add: new_events_def)
qed

lemma pos_block_le: "pos_of x < pos_of y \<Longrightarrow> ev_block x \<le> ev_block y"
  by (auto simp: pos_of_def less_log_pos_def)

lemma suffix_appended:
  assumes "sorted_wrt (\<lambda>x y. pos_of x < pos_of y) L" and "f \<le> t + 1"
  shows "events_lt f L @ filter (\<lambda>e. f \<le> ev_block e \<and> ev_block e \<le> t) L = events_lt (t + 1) L"
  using assms(1)
proof (induction L)
  case (Cons e L)
  then have IH: "events_lt f L @ filter (\<lambda>e. f \<le> ev_block e \<and> ev_block e \<le> t) L = events_lt (t + 1) L"
    and later: "\<forall>x \<in> set L. ev_block e \<le> ev_block x" by (auto dest: pos_block_le)
  show ?case
  proof (cases "ev_block e < f")
    case True
    with IH assms(2) show ?thesis by (simp add: events_lt_def)
  next
    case False
    then have "filter (\<lambda>e. ev_block e < f) L = []" using later by (auto simp: filter_empty_conv)
    with IH False show ?thesis by (auto simp: events_lt_def)
  qed
qed (simp add: events_lt_def)

lemma events_lt_lt: "m \<le> n \<Longrightarrow> events_lt m (events_lt n L) = events_lt m L"
  by (auto simp: events_lt_def intro: filter_cong)

section \<open>One poll\<close>

lemma scan_from_ancestor:
  assumes "follows p L H lo" and "serves ch number L' H'" and "same_past L H L' H' lo"
    and "0 \<le> next_block p" and "0 \<le> reorg_buffer cfg"
  obtains f where "scan_from cfg ch p = Inr f" "0 \<le> f" "f \<le> next_block p" "events_lt f L = events_lt f L'"
    "\<And>n. lo \<le> n \<Longrightarrow> n < f \<Longrightarrow> H n = H' n"
proof -
  let ?fb = "max 0 (next_block p - reorg_buffer cfg)"
  have stored: "dict_get (p_hashes p) (int_text n) = (if lo \<le> n \<and> n < next_block p then Some (JStr (H n)) else None)"
    if "0 \<le> n" for n using assms(1) that by (simp add: follows_def)
  have lo: "0 \<le> lo" and hash: "\<And>n. block_hash ch n = Inr (H' n)"
    using assms(1,2) by (simp_all add: follows_def serves_def)
  have "?fb - 1 < next_block p" using assms(4,5) by linarith
  then have "\<exists>q \<le> ?fb - 1. probe_back (block_hash ch) (p_hashes p) (?fb - 1) = Inr q
      \<and> (lo \<le> q \<longrightarrow> H q = H' q) \<and> (q < ?fb - 1 \<longrightarrow> lo \<le> q + 1)"
    by (intro probe_back_steps [OF hash _ lo]) (rule stored)
  then
  obtain q where q: "q \<le> ?fb - 1" "probe_back (block_hash ch) (p_hashes p) (?fb - 1) = Inr q"
    "lo \<le> q \<longrightarrow> H q = H' q" "q < ?fb - 1 \<longrightarrow> lo \<le> q + 1" by auto
  have scan: "scan_from cfg ch p = Inr (q + 1)" using q(1,2) by (simp add: scan_from_def Let_def)
  have agree: "events_lt (q + 1) L = events_lt (q + 1) L' \<and> (\<forall>n. lo \<le> n \<and> n < q + 1 \<longrightarrow> H n = H' n)"
  proof (cases "lo \<le> q")
    case True
    with q(3) assms(3) show ?thesis by (simp add: same_past_def)
  next
    case False
    then have "q + 1 \<le> lo" by simp
    moreover have "events_lt lo L = events_lt lo L'" using assms(3) by (simp add: same_past_def)
    ultimately have "events_lt (q + 1) L = events_lt (q + 1) L'" by (metis events_lt_lt)
    with \<open>q + 1 \<le> lo\<close> show ?thesis by auto
  qed
  have "0 \<le> q + 1" using q(1,4) lo by (cases "q < ?fb - 1") auto
  moreover have "q + 1 \<le> next_block p" using q(1) assms(4,5) by linarith
  ultimately show ?thesis using scan agree that by blast
qed

lemma hash_entries_all:
  assumes "serves ch number L H"
  shows "hash_entries (block_hash ch) f t = Inr (map (\<lambda>n. (int_text n, JStr (H n))) [f..t])"
  using assms unfolding hash_entries_def by (intro map_res_total) (simp add: serves_def)

lemma map_of_int_text:
  assumes "\<forall>m \<in> set ms. 0 \<le> m" and "0 \<le> n"
  shows "map_of (map (\<lambda>m. (int_text m, v m)) ms) (int_text n) = (if n \<in> set ms then Some (v n) else None)"
  using assms by (induction ms) (auto simp: int_text_inject)

lemma map_of_filter_key: "map_of (filter (\<lambda>e. Q (fst e)) d) k = (if Q k then map_of d k else None)"
  by (induction d) auto

lemma hashes_below_filter:
  assumes "\<forall>k \<in> set (dict_keys d). \<exists>n \<ge> 0. k = int_text n"
  shows "hashes_below f d = Inr (filter (\<lambda>e. py_int_text 10 (fst e) \<in> Inr ` {..<f}) d)"
  unfolding hashes_below_def
proof (rule filter_res_total)
  fix e
  assume "e \<in> set d"
  then obtain n where "0 \<le> n" "fst e = int_text n" using assms by fastforce
  then show "rbind (py_int_text 10 (fst e)) (\<lambda>n. Inr (n < f)) = Inr (py_int_text 10 (fst e) \<in> Inr ` {..<f})"
    by (auto simp: py_int_text_int_text)
qed

lemma merged_hashes:
  assumes "follows p L H lo" and "0 \<le> f" and "f \<le> next_block p" and "f \<le> t + 1"
    and "\<And>n. lo \<le> n \<Longrightarrow> n < f \<Longrightarrow> H n = H' n"
  defines "kept \<equiv> filter (\<lambda>e. py_int_text 10 (fst e) \<in> Inr ` {..<f}) (p_hashes p)"
  defines "new \<equiv> map (\<lambda>n. (int_text n, JStr (H' n))) [f..t]"
  shows "\<forall>n \<ge> 0. dict_get (dict_update kept new) (int_text n) =
      (if min lo f \<le> n \<and> n < t + 1 then Some (JStr (H' n)) else None)"
    "\<forall>k \<in> set (dict_keys (dict_update kept new)). \<exists>n \<ge> 0. k = int_text n"
    "dict_ok (dict_update kept new)"
proof -
  have p: "\<forall>k \<in> set (dict_keys (p_hashes p)). \<exists>n \<ge> 0. k = int_text n" "dict_ok (p_hashes p)"
    "\<And>n. 0 \<le> n \<Longrightarrow> dict_get (p_hashes p) (int_text n) = (if lo \<le> n \<and> n < next_block p then Some (JStr (H n)) else None)"
    using assms(1) by (simp_all add: follows_def)
  have upd: "dict_get (dict_update kept new) k = (dict_get kept ++ map_of (rev new)) k" for k
    unfolding dict_update_def by (simp add: alist_dict.look_puts)
  have keptg: "dict_get kept (int_text n) = (if n < f then dict_get (p_hashes p) (int_text n) else None)" if "0 \<le> n" for n
    unfolding kept_def map_of_filter_key [where Q = "\<lambda>k. py_int_text 10 k \<in> Inr ` {..<f}"]
    using that by (auto simp: py_int_text_int_text)
  have newg: "map_of (rev new) (int_text n) = (if f \<le> n \<and> n \<le> t then Some (JStr (H' n)) else None)" if "0 \<le> n" for n
    unfolding new_def rev_map using that assms(2) by (subst map_of_int_text) auto
  show "\<forall>n \<ge> 0. dict_get (dict_update kept new) (int_text n) =
      (if min lo f \<le> n \<and> n < t + 1 then Some (JStr (H' n)) else None)"
    using assms(3-5) by (auto simp: upd map_add_def keptg newg p(3))
  have "dict_ok kept" unfolding kept_def using p(2) by (rule distinct_map_filter)
  then show "dict_ok (dict_update kept new)" unfolding dict_update_def by (rule alist_dict.ok_puts)
  have "k \<in> set (dict_keys kept) \<or> k \<in> set (dict_keys new)" if "k \<in> set (dict_keys (dict_update kept new))" for k
  proof -
    have "(dict_get kept ++ map_of (rev new)) k \<noteq> None"
      using that alist_dict.keys_look [of k "dict_update kept new"] upd by simp
    then show ?thesis by (auto simp: map_add_None map_of_eq_None_iff)
  qed
  moreover have "\<exists>n \<ge> 0. k = int_text n" if "k \<in> set (dict_keys kept)" for k
    using that p(1) by (auto simp: kept_def)
  moreover have "\<exists>n \<ge> 0. k = int_text n" if mem: "k \<in> set (dict_keys new)" for k
  proof -
    obtain x where "f \<le> x" "k = int_text x" using mem by (auto simp: new_def)
    with assms(2) show ?thesis by (intro exI [of _ x]) simp
  qed
  ultimately show "\<forall>k \<in> set (dict_keys (dict_update kept new)). \<exists>n \<ge> 0. k = int_text n" by blast
qed

section \<open>Properties\<close>

lemma poll_reaches_canonical_chain:
  assumes "follows p L H lo" and "serves ch number L' H'" and "same_past L H L' H' lo"
    and "0 \<le> next_block p" and "0 \<le> reorg_buffer cfg" and "next_block p \<le> number - confirmations cfg"
  shows "\<exists>p' ix' n lo'. poll_once cfg ch p ix =
        (p', ix', Some (state_json (next_block p') (p_events p') (p_hashes p')), Inr n)
    \<and> next_block p' = number - confirmations cfg + 1
    \<and> follows p' L' H' lo'
    \<and> (\<forall>b a. is_miner ix' b a = last_registers True (events_lt (next_block p') L') b a
           \<and> is_validator ix' b a = last_registers False (events_lt (next_block p') L') b a)
    \<and> load_state (save_state (next_block p') (p_events p') (p_hashes p'))
        = Inr (Some (next_block p', p_events p', p_hashes p'))"
proof -
  let ?head = "number - confirmations cfg"
  obtain f where f: "scan_from cfg ch p = Inr f" "0 \<le> f" "f \<le> next_block p" "events_lt f L = events_lt f L'"
    "\<And>n. lo \<le> n \<Longrightarrow> n < f \<Longrightarrow> H n = H' n"
    using scan_from_ancestor [OF assms(1-5)] by metis
  have fh: "f \<le> ?head + 1" using f(3) assms(6) by simp
  let ?new = "filter (\<lambda>e. f \<le> ev_block e \<and> ev_block e \<le> ?head) L'"
  let ?evs = "events_lt (?head + 1) L'"
  let ?kept = "filter (\<lambda>e. py_int_text 10 (fst e) \<in> Inr ` {..<f}) (p_hashes p)"
  let ?hs = "map (\<lambda>n. (int_text n, JStr (H' n))) [f..?head]"
  let ?p = "\<lparr>p_events = map event_json ?evs, p_hashes = dict_update ?kept ?hs, next_block = ?head + 1\<rparr>"
  let ?ix = "foldl apply_typed (ix\<lparr>reg_miners := (\<lambda>_. {}), reg_validators := (\<lambda>_. {})\<rparr>) ?evs"
  have number: "block_number ch = Inr number" using assms(2) by (simp add: serves_def)
  have srt: "sorted_wrt (\<lambda>x y. pos_of x < pos_of y) L'" using assms(2) by (simp add: serves_def)
  have old: "events_below f (p_events p) = Inr (map event_json (events_lt f L'))"
  proof -
    have "p_events p = map event_json (events_lt (next_block p) L)" using assms(1) by (simp add: follows_def)
    then have "events_below f (p_events p) = Inr (map event_json (events_lt f (events_lt (next_block p) L)))"
      by (simp add: events_below_json events_lt_def)
    then show ?thesis by (simp add: events_lt_lt [OF f(3)] f(4))
  qed
  have evs: "map event_json (events_lt f L') @ map event_json ?new = map event_json ?evs"
    by (simp only: map_append [symmetric] suffix_appended [OF srt fh])
  have below: "hashes_below f (p_hashes p) = Inr ?kept"
    using assms(1) by (intro hashes_below_filter) (simp add: follows_def)
  have poll: "poll_once cfg ch p ix = (?p, ?ix, Some (state_json (?head + 1) (map event_json ?evs) (dict_update ?kept ?hs)), Inr (length ?new))"
    using assms(6) number
    by (simp add: poll_once_def Let_def f(1) hash_entries_all [OF assms(2)] old new_events_canonical [OF assms(2)]
        evs replace_membership_json below)
  have "follows ?p L' H' (min lo f)"
    using merged_hashes [OF assms(1) f(2,3) fh f(5)] assms(1) f(2) by (simp add: follows_def)
  moreover have "is_miner ?ix b a = last_registers True ?evs b a \<and> is_validator ?ix b a = last_registers False ?evs b a" for b a
    by (rule members_foldl) simp_all
  moreover have "load_state (save_state n xs hs) = Inr (Some (n, xs, hs))" for n xs hs
    by (simp add: save_state_def state_json_def cursor_value_def)
  ultimately show ?thesis
    using poll by (intro exI [of _ ?p] exI [of _ ?ix] exI [of _ "length ?new"] exI [of _ "min lo f"]) simp
qed

text \<open>
  A poll follows the canonical chain through reorganisations of any depth covered by stored hashes:
  from a poller that followed one chain, a poll against a node that serves another (the two agree up to
  any block they give the same hash, and below the first stored one) ends with exactly the events
  and hashes of the new chain up to the confirmed head, the index's members are those the new chain's
  last events say, and what it saved is what a restart reads back.
\<close>
theorem poll_follows_canonical_chain:
  assumes "follows p L H lo" and "serves ch number L' H'" and "same_past L H L' H' lo"
    and "0 \<le> next_block p" and "0 \<le> reorg_buffer cfg" and "next_block p \<le> number - confirmations cfg"
  shows "\<exists>p' ix' n lo'. poll_once cfg ch p ix =
        (p', ix', Some (state_json (next_block p') (p_events p') (p_hashes p')), Inr n)
    \<and> next_block p' = number - confirmations cfg + 1
    \<and> follows p' L' H' lo'
    \<and> (\<forall>b a. is_miner ix' b a = last_registers True (events_lt (next_block p') L') b a
           \<and> is_validator ix' b a = last_registers False (events_lt (next_block p') L') b a)
    \<and> load_state (save_state (next_block p') (p_events p') (p_hashes p'))
        = Inr (Some (next_block p', p_events p', p_hashes p'))"
  by (rule poll_reaches_canonical_chain [OF assms])


text \<open>
  A poll that fails at the logs can lose history: the events from the scan's start on are dropped
  before the logs are fetched, while the cursor and the hashes stay. A later successful poll that
  starts higher up, because the node it asks agrees with the stored hashes again, appends only what
  it scans: the events in between are gone although the canonical chain has them.
\<close>
theorem failed_poll_drops_events:
  assumes "follows p L H lo" and "block_number ch = Inr number" and "next_block p \<le> number - confirmations cfg"
    and "scan_from cfg ch p = Inr f" and "f \<le> next_block p"
    and "hash_entries (block_hash ch) f (number - confirmations cfg) = Inr hs"
    and "new_events ch f (number - confirmations cfg) = Inl e"
    and "serves ch2 number2 L2 H2" and "next_block p \<le> number2 - confirmations cfg"
    and "scan_from cfg ch2 p = Inr f2" and "f \<le> f2"
  shows "\<exists>p1 p2 ix2 saved n. poll_once cfg ch p ix = (p1, ix, None, Inl e)
    \<and> next_block p1 = next_block p \<and> p_events p1 = map event_json (events_lt f L)
    \<and> poll_once cfg ch2 p1 ix = (p2, ix2, Some saved, Inr n)
    \<and> p_events p2 = map event_json
         (events_lt f L @ filter (\<lambda>e. f2 \<le> ev_block e \<and> ev_block e \<le> number2 - confirmations cfg) L2)"
proof -
  let ?p1 = "p\<lparr>p_events := map event_json (events_lt f L)\<rparr>" and ?head = "number2 - confirmations cfg"
  have evs: "p_events p = map event_json (events_lt (next_block p) L)" using assms(1) by (simp add: follows_def)
  have "events_below f (p_events p) = Inr (map event_json (events_lt f (events_lt (next_block p) L)))"
    unfolding evs by (simp add: events_below_json events_lt_def)
  then have old: "events_below f (p_events p) = Inr (map event_json (events_lt f L))"
    by (simp add: events_lt_lt [OF assms(5)])
  have poll1: "poll_once cfg ch p ix = (?p1, ix, None, Inl e)"
    using assms(2-4,6,7) by (simp add: poll_once_def Let_def old)
  have scan: "scan_from cfg ch2 ?p1 = Inr f2" using assms(10) by (simp add: scan_from_def)
  have "events_below f2 (map event_json (events_lt f L)) = Inr (map event_json (events_lt f2 (events_lt f L)))"
    by (simp add: events_below_json events_lt_def)
  also have "events_lt f2 (events_lt f L) = events_lt f L" using assms(11) by (auto simp: events_lt_def intro: filter_cong)
  finally have old2: "events_below f2 (map event_json (events_lt f L)) = Inr (map event_json (events_lt f L))" .
  obtain kept where below: "hashes_below f2 (p_hashes p) = Inr kept"
    using assms(1) hashes_below_filter [of "p_hashes p" f2] by (auto simp: follows_def)
  let ?new = "filter (\<lambda>e. f2 \<le> ev_block e \<and> ev_block e \<le> ?head) L2"
  have joined: "map event_json (events_lt f L) @ map event_json ?new = map event_json (events_lt f L @ ?new)"
    by simp
  have "block_number ch2 = Inr number2" using assms(8) by (simp add: serves_def)
  then obtain p2 ix2 saved n where poll2: "poll_once cfg ch2 ?p1 ix = (p2, ix2, Some saved, Inr n)"
    and "p_events p2 = map event_json (events_lt f L @ ?new)"
    using assms(9) below
    by (simp add: poll_once_def Let_def scan hash_entries_all [OF assms(8)] old2 new_events_canonical [OF assms(8)]
        joined replace_membership_json del: map_append)
  with poll1 show ?thesis
    by (intro exI [of _ ?p1] exI [of _ p2] exI [of _ ix2] exI [of _ saved] exI [of _ n]) simp
qed

section \<open>Concrete runs\<close>

abbreviation demo_L :: "member_event list" where
  "demo_L \<equiv> [demo_miner MinerRegistered 1]"

abbreviation demo_H :: "int \<Rightarrow> pystr" where
  "demo_H \<equiv> \<lambda>_. lit ''0xa''"

abbreviation demo_fork :: "int \<Rightarrow> pystr" where
  "demo_fork \<equiv> \<lambda>n. if n < 1 then lit ''0xa'' else lit ''0xb''"

abbreviation demo_serving :: "member_event list \<Rightarrow> (int \<Rightarrow> pystr) \<Rightarrow> chain" where
  "demo_serving L H \<equiv> \<lparr>block_number = Inr 5, block_hash = (\<lambda>n. Inr (H n)),
     get_logs = (\<lambda>k f t. Inr (filter (\<lambda>e. ev_kind e = k \<and> f \<le> ev_block e \<and> ev_block e \<le> t) L))\<rparr>"

abbreviation demo_poller :: poller where
  "demo_poller \<equiv> \<lparr>p_events = map event_json demo_L,
     p_hashes = map (\<lambda>n. (int_text n, JStr (lit ''0xa''))) [0..3], next_block = 4\<rparr>"

abbreviation demo_pcfg :: poller_config where
  "demo_pcfg \<equiv> \<lparr>confirmations = 0, reorg_buffer = 1\<rparr>"

lemma demo_follows: "follows demo_poller demo_L demo_H 0"
proof -
  have "inj_on int_text (set [0..3])" by (auto simp: inj_on_def int_text_inject)
  then have "dict_ok (p_hashes demo_poller)" by (simp add: distinct_map comp_def)
  then show ?thesis
    by (auto simp: follows_def events_lt_def map_of_int_text)
qed

lemma demo_fork_serves: "serves (demo_serving [] demo_fork) 5 [] demo_fork"
  by (simp add: serves_def)

lemma demo_same_past: "same_past demo_L demo_H [] demo_fork 0"
  by (auto simp: same_past_def events_lt_def split: if_splits)

theorem poll_follows_canonical_chain_witness:
  "\<exists>p' ix' saved n. poll_once demo_pcfg (demo_serving [] demo_fork) demo_poller (new_index 600) = (p', ix', Some saved, Inr n)
     \<and> \<not> is_miner ix' 8 (hex0x [7])"
  using poll_follows_canonical_chain [OF demo_follows demo_fork_serves demo_same_past, of demo_pcfg "new_index 600"]
  by (auto simp: events_lt_def last_registers_def)


abbreviation demo_failing :: chain where
  "demo_failing \<equiv> \<lparr>block_number = Inr 5, block_hash = (\<lambda>_. Inr (lit ''0xc'')), get_logs = (\<lambda>_ _ _. Inl OtherError)\<rparr>"

lemma demo_stored: "0 \<le> n \<Longrightarrow> dict_get (p_hashes demo_poller) (int_text n) = (if n \<le> 3 then Some (JStr (lit ''0xa'')) else None)"
  by (simp add: map_of_int_text)

lemma demo_scans:
  "scan_from demo_pcfg demo_failing demo_poller = Inr 0"
  "scan_from demo_pcfg (demo_serving demo_L demo_H) demo_poller = Inr 3"
proof -
  have step_back: "probe_back (\<lambda>_. Inr (lit ''0xc'')) (p_hashes demo_poller) n = probe_back (\<lambda>_. Inr (lit ''0xc'')) (p_hashes demo_poller) (n - 1)"
    if "0 \<le> n" "n \<le> 3" for n
    using that demo_stored [of n] by (subst probe_back.simps) simp
  have "probe_back (\<lambda>_. Inr (lit ''0xc'')) (p_hashes demo_poller) (- 1) = Inr (- 1)"
    by (subst probe_back.simps) simp
  then have "probe_back (\<lambda>_. Inr (lit ''0xc'')) (p_hashes demo_poller) 2 = Inr (- 1)"
    using step_back [of 2] step_back [of 1] step_back [of 0] by simp
  then show "scan_from demo_pcfg demo_failing demo_poller = Inr 0" by (simp add: scan_from_def)
  have "probe_back (\<lambda>_. Inr (lit ''0xa'')) (p_hashes demo_poller) 2 = Inr 2"
    using demo_stored [of 2] by (subst probe_back.simps) simp
  then show "scan_from demo_pcfg (demo_serving demo_L demo_H) demo_poller = Inr 3" by (simp add: scan_from_def)
qed

theorem failed_poll_drops_events_witness:
  "\<exists>p1 p2 ix2 saved n. poll_once demo_pcfg demo_failing demo_poller (new_index 600) = (p1, new_index 600, None, Inl OtherError)
    \<and> poll_once demo_pcfg (demo_serving demo_L demo_H) p1 (new_index 600) = (p2, ix2, Some saved, Inr n)
    \<and> p_events p2 = []"
proof -
  have hs: "hash_entries (block_hash demo_failing) 0 (5 - confirmations demo_pcfg) =
      Inr (map (\<lambda>n. (int_text n, JStr (lit ''0xc''))) [0..5])"
    by (simp add: hash_entries_def)
  have logs: "new_events demo_failing 0 (5 - confirmations demo_pcfg) = Inl OtherError"
    by (simp add: new_events_def EVENTS_def)
  have "serves (demo_serving demo_L demo_H) 5 demo_L demo_H" by (simp add: serves_def)
  from failed_poll_drops_events [OF demo_follows _ _ demo_scans(1) _ hs logs this _ demo_scans(2),
      where ix = "new_index 600"]
  obtain p1 p2 ix2 saved n where polls:
    "poll_once demo_pcfg demo_failing demo_poller (new_index 600) = (p1, new_index 600, None, Inl OtherError)"
    "poll_once demo_pcfg (demo_serving demo_L demo_H) p1 (new_index 600) = (p2, ix2, Some saved, Inr n)"
    and evs: "p_events p2 = map event_json (events_lt 0 demo_L @
        filter (\<lambda>e. 3 \<le> ev_block e \<and> ev_block e \<le> 5 - confirmations demo_pcfg) demo_L)"
    by auto
  from evs have "p_events p2 = []" by (simp add: events_lt_def)
  with polls show ?thesis by blast
qed

end
