(* ===== verification/Config.thy ===== *)
theory Config imports PyText
begin

text \<open>
  \<open>config.py\<close> of the miner and of the validator: substitution of environment variables in the parsed
  YAML file, and the field validators of the chain section. The two files have the same
  \<open>_expand_env\<close>, \<open>_https_rpc\<close> and \<open>_valid_addr\<close>; the miner's also checks the chain id. The YAML parser and
  pydantic's type coercion are not modelled: the tree and the typed fields are arguments.
\<close>

section \<open>Environment variables\<close>

text \<open>A parsed YAML value; \<open>'a\<close> stands for numbers, booleans, dates and null, also as keys.\<close>

datatype 'a yaml =
    YAtom 'a | YText pystr | YSeq "'a yaml list" | YMap "((pystr + 'a) \<times> 'a yaml) list"

definition is_placeholder :: "pystr \<Rightarrow> bool" where
  "is_placeholder s \<longleftrightarrow> startswith s [36, 123] \<and> s \<noteq> [] \<and> last s = 125"

text \<open>\<open>obj[2:-1]\<close>.\<close>

definition placeholder_name :: "pystr \<Rightarrow> pystr" where
  "placeholder_name s = drop 2 (butlast s)"

fun expand_env :: "(pystr \<Rightarrow> pystr res) \<Rightarrow> 'a yaml \<Rightarrow> 'a yaml res" where
  "expand_env env (YMap d) =
     rbind (map_res (\<lambda>p. rbind (expand_env env (snd p)) (\<lambda>v. Inr (fst p, v))) d) (\<lambda>d'. Inr (YMap d'))"
| "expand_env env (YSeq xs) = rbind (map_res (expand_env env) xs) (\<lambda>ys. Inr (YSeq ys))"
| "expand_env env (YText s) =
     (if is_placeholder s then rbind (env (placeholder_name s)) (\<lambda>v. Inr (YText v)) else Inr (YText s))"
| "expand_env env (YAtom a) = Inr (YAtom a)"

text \<open>The names a tree asks for, and the tree with its placeholders replaced at once.\<close>

fun placeholders :: "'a yaml \<Rightarrow> pystr set" where
  "placeholders (YMap d) = (\<Union>p \<in> set d. placeholders (snd p))"
| "placeholders (YSeq xs) = (\<Union>x \<in> set xs. placeholders x)"
| "placeholders (YText s) = (if is_placeholder s then {placeholder_name s} else {})"
| "placeholders (YAtom a) = {}"

fun substituted :: "(pystr \<Rightarrow> pystr) \<Rightarrow> 'a yaml \<Rightarrow> 'a yaml" where
  "substituted f (YMap d) = YMap (map (\<lambda>p. (fst p, substituted f (snd p))) d)"
| "substituted f (YSeq xs) = YSeq (map (substituted f) xs)"
| "substituted f (YText s) = YText (if is_placeholder s then f (placeholder_name s) else s)"
| "substituted f (YAtom a) = YAtom a"

text \<open>The tree with every text forgotten: what substitution cannot change.\<close>

fun shape :: "'a yaml \<Rightarrow> 'a yaml" where
  "shape (YMap d) = YMap (map (\<lambda>p. (fst p, shape (snd p))) d)"
| "shape (YSeq xs) = YSeq (map shape xs)"
| "shape (YText s) = YText []"
| "shape (YAtom a) = YAtom a"

section \<open>The chain section\<close>

definition is_hex :: "nat \<Rightarrow> bool" where
  "is_hex c \<longleftrightarrow> hex_digit c \<noteq> None"

text \<open>
  \<open>re.compile(r"^0x[0-9a-fA-F]{40}$").match\<close>: \<open>$\<close> matches at the end and before a final newline.
\<close>

definition address_match :: "pystr \<Rightarrow> bool" where
  "address_match v \<longleftrightarrow> startswith v ox \<and> 42 \<le> length v \<and> list_all is_hex (take 40 (drop 2 v))
     \<and> (drop 42 v = [] \<or> drop 42 v = [10])"

definition zero_address :: pystr where
  "zero_address = ox @ replicate 40 48"

definition valid_addr :: "pystr \<Rightarrow> pystr res" where
  "valid_addr v = (if \<not> address_match v \<or> lower v = zero_address then Inl ValueError else Inr v)"

definition https_rpc :: "pystr \<Rightarrow> pystr res" where
  "https_rpc v =
     (if startswith v (lit ''https://'') \<or> startswith v (lit ''http://localhost'') \<or> startswith v (lit ''http://127.'')
      then Inr v else Inl ValueError)"

definition positive_chain :: "int \<Rightarrow> int res" where
  "positive_chain v = (if v \<le> 0 then Inl ValueError else Inr v)"

text \<open>The two \<open>ChainConfig\<close> classes; \<open>contracts\<close> holds the four addresses in the order of the fields.\<close>

record chain_config =
  cfg_rpc_url :: pystr
  cfg_chain_id :: int
  cfg_contracts :: "pystr list"

definition miner_chain :: "chain_config \<Rightarrow> chain_config res" where
  "miner_chain c =
     rbind (https_rpc (cfg_rpc_url c)) (\<lambda>u.
     rbind (positive_chain (cfg_chain_id c)) (\<lambda>i.
     rbind (map_res valid_addr (cfg_contracts c)) (\<lambda>as. Inr \<lparr>cfg_rpc_url = u, cfg_chain_id = i, cfg_contracts = as\<rparr>)))"

definition validator_chain :: "chain_config \<Rightarrow> chain_config res" where
  "validator_chain c =
     rbind (https_rpc (cfg_rpc_url c)) (\<lambda>u.
     rbind (map_res valid_addr (cfg_contracts c)) (\<lambda>as. Inr \<lparr>cfg_rpc_url = u, cfg_chain_id = cfg_chain_id c, cfg_contracts = as\<rparr>))"

section \<open>Properties\<close>

lemma expand_env_Inr:
  "expand_env env t = Inr t' \<longleftrightarrow>
     (\<forall>n \<in> placeholders t. \<exists>v. env n = Inr v) \<and> t' = substituted (\<lambda>n. projr (env n)) t"
proof (induction t arbitrary: t')
  case (YText s)
  show ?case by (cases "env (placeholder_name s)") auto
next
  case (YSeq xs)
  then have "map_res (expand_env env) xs = Inr ys \<longleftrightarrow>
      (\<forall>x \<in> set xs. \<forall>n \<in> placeholders x. \<exists>v. env n = Inr v) \<and> ys = map (substituted (\<lambda>n. projr (env n))) xs" for ys
    by (induction xs arbitrary: ys) auto
  then show ?case by auto
next
  case (YMap d)
  then have "\<And>p v'. p \<in> set d \<Longrightarrow> expand_env env (snd p) = Inr v' \<longleftrightarrow>
     (\<forall>n \<in> placeholders (snd p). \<exists>v. env n = Inr v) \<and> v' = substituted (\<lambda>n. projr (env n)) (snd p)"
    by (metis prod.collapse snds.intros)
  then have "map_res (\<lambda>p. rbind (expand_env env (snd p)) (\<lambda>v. Inr (fst p, v))) d = Inr e \<longleftrightarrow>
      (\<forall>p \<in> set d. \<forall>n \<in> placeholders (snd p). \<exists>v. env n = Inr v)
      \<and> e = map (\<lambda>p. (fst p, substituted (\<lambda>n. projr (env n)) (snd p))) d" for e
    by (induction d arbitrary: e) auto
  then show ?case by auto
qed auto

lemma shape_substituted: "shape (substituted f t) = shape t"
  by (induction t) (auto intro: prod.expand)

lemma hex_zero: "lower_char c = 48 \<longleftrightarrow> c = 48"
  by (auto simp: lower_char_def)

text \<open>
  Expanding a configuration replaces exactly the texts that are one whole placeholder by the
  variable's value (which is not expanded again), keeps keys, order, nesting and every value that
  is not a text, and fails exactly when a variable is missing.
\<close>
theorem expand_env_substitutes:
  "(expand_env env t = Inr t' \<longleftrightarrow>
      (\<forall>n \<in> placeholders t. \<exists>v. env n = Inr v) \<and> t' = substituted (\<lambda>n. projr (env n)) t \<and> shape t' = shape t)
   \<and> ((\<exists>e. expand_env env t = Inl e) \<longleftrightarrow> (\<exists>n \<in> placeholders t. \<exists>e. env n = Inl e))"
proof
  show "expand_env env t = Inr t' \<longleftrightarrow>
      (\<forall>n \<in> placeholders t. \<exists>v. env n = Inr v) \<and> t' = substituted (\<lambda>n. projr (env n)) t \<and> shape t' = shape t"
    by (auto simp: expand_env_Inr shape_substituted)
  have "(\<exists>e. expand_env env t = Inl e) \<longleftrightarrow> \<not> (\<exists>t'. expand_env env t = Inr t')"
    by (cases "expand_env env t") auto
  also have "\<dots> \<longleftrightarrow> (\<exists>n \<in> placeholders t. \<exists>e. env n = Inl e)"
    unfolding expand_env_Inr by (metis Inl_Inr_False old.sum.exhaust)
  finally show "(\<exists>e. expand_env env t = Inl e) \<longleftrightarrow> (\<exists>n \<in> placeholders t. \<exists>e. env n = Inl e)" .
qed

text \<open>
  An accepted contract address is \<open>0x\<close> and forty hexadecimal digits, not all zero, or any such text
  with a newline at its end, then even the zero address.
\<close>
lemma valid_addr_exact:
  "valid_addr v = Inr w \<longleftrightarrow>
     w = v \<and> (\<exists>h. length h = 40 \<and> list_all is_hex h \<and> (v = ox @ h \<and> h \<noteq> replicate 40 48 \<or> v = ox @ h @ [10]))"
proof -
  have "address_match v \<longleftrightarrow> (\<exists>h. length h = 40 \<and> list_all is_hex h \<and> (v = ox @ h \<or> v = ox @ h @ [10]))"
  proof
    assume a: "address_match v"
    then obtain t where t: "v = ox @ t" by (auto simp: address_match_def elim: startswithE)
    define h where "h = take 40 t"
    have "t = h @ drop 40 t" by (simp add: h_def)
    moreover have "length h = 40" and "list_all is_hex h" and "drop 40 t = [] \<or> drop 40 t = [10]"
      using a by (simp_all add: h_def t address_match_def)
    ultimately have "length h = 40 \<and> list_all is_hex h \<and> (v = ox @ h \<or> v = ox @ h @ [10])"
      unfolding t by (metis append_Nil2)
    then show "\<exists>h. length h = 40 \<and> list_all is_hex h \<and> (v = ox @ h \<or> v = ox @ h @ [10])" by blast
  next
    assume "\<exists>h. length h = 40 \<and> list_all is_hex h \<and> (v = ox @ h \<or> v = ox @ h @ [10])"
    then show "address_match v" by (auto simp: address_match_def)
  qed
  note shape_of = this
  have nz: "lower (ox @ h) = zero_address \<longleftrightarrow> h = replicate 40 48" if "length h = 40" for h
  proof -
    have "map lower_char h = replicate n 48 \<longleftrightarrow> h = replicate n 48" if "length h = n" for n
      using that by (induction n arbitrary: h) (auto simp: hex_zero length_Suc_conv)
    with that show ?thesis by (simp add: zero_address_def lower_def [of h])
  qed
  have nl: "lower (ox @ h @ [10]) \<noteq> zero_address" if "length h = 40" for h
  proof
    assume "lower (ox @ h @ [10]) = zero_address"
    then have "length (lower (ox @ h @ [10])) = length zero_address" by simp
    with that show False by (simp add: zero_address_def)
  qed
  have "valid_addr v = Inr w \<longleftrightarrow> w = v \<and> address_match v \<and> lower v \<noteq> zero_address"
    by (auto simp: valid_addr_def)
  also have "\<dots> \<longleftrightarrow> w = v \<and> (\<exists>h. length h = 40 \<and> list_all is_hex h \<and> (v = ox @ h \<and> h \<noteq> replicate 40 48 \<or> v = ox @ h @ [10]))"
    unfolding shape_of using nz nl by metis
  finally show ?thesis .
qed

text \<open>Two addresses and a URL that the checks mean to refuse and accept.\<close>

lemma accepted_by_mistake:
  "valid_addr (zero_address @ [10]) = Inr (zero_address @ [10])"
  "https_rpc (lit ''http://localhost.example.org'') = Inr (lit ''http://localhost.example.org'')"
  "https_rpc (lit ''http://127.example.org'') = Inr (lit ''http://127.example.org'')"
proof -
  have "list_all is_hex (replicate n 48)" for n
    by (induction n) (simp_all add: is_hex_def hex_digit_def)
  then show "valid_addr (zero_address @ [10]) = Inr (zero_address @ [10])"
    unfolding valid_addr_exact zero_address_def
    by (intro conjI exI [of _ "replicate 40 48"] disjI2) simp_all
qed (simp_all add: https_rpc_def startswith_def lit_def)

text \<open>A chain section that passes is passed on unchanged, and both parties accept the same addresses.\<close>

lemma chain_accepted:
  "miner_chain c = Inr c' \<longleftrightarrow> validator_chain c = Inr c' \<and> 0 < cfg_chain_id c"
  "validator_chain c = Inr c' \<Longrightarrow> c' = c"
proof -
  have id: "map_res valid_addr as = Inr bs \<Longrightarrow> bs = as" for as bs
    by (induction as arbitrary: bs) (auto simp: valid_addr_exact)
  show "validator_chain c = Inr c' \<Longrightarrow> c' = c"
    by (auto simp: validator_chain_def https_rpc_def split: if_splits dest!: id)
  show "miner_chain c = Inr c' \<longleftrightarrow> validator_chain c = Inr c' \<and> 0 < cfg_chain_id c"
    by (auto simp: miner_chain_def validator_chain_def positive_chain_def)
qed

theorem expand_env_substitutes_witness:
  "expand_env (\<lambda>n. if n = lit ''KEY'' then Inr (lit ''0xab'') else Inl KeyError)
     (YMap [(Inl (lit ''private_key''), YText (lit ''${KEY}'')), (Inl (lit ''chain_id''), YAtom (1 :: int))]) =
   Inr (YMap [(Inl (lit ''private_key''), YText (lit ''0xab'')), (Inl (lit ''chain_id''), YAtom 1)])"
proof -
  let ?env = "\<lambda>n. if n = lit ''KEY'' then Inr (lit ''0xab'') else (Inl KeyError :: pystr res)"
  let ?t = "YMap [(Inl (lit ''private_key''), YText (lit ''${KEY}'')), (Inl (lit ''chain_id''), YAtom (1 :: int))]"
  have "is_placeholder (lit ''${KEY}'')" "placeholder_name (lit ''${KEY}'') = lit ''KEY''"
    by (simp_all add: is_placeholder_def placeholder_name_def startswith_def lit_def of_char_def)
  then show ?thesis
    using expand_env_substitutes [of ?env ?t "substituted (\<lambda>n. projr (?env n)) ?t"] by (simp add: shape_substituted)
qed

end
