(* ===== verification/Programs.thy ===== *)
theory Programs imports Gateway Poller Config Transport Service
begin

text \<open>
  The command line programs: what they check of their arguments, how they wire the components, and
  the gateway process, in which the poll loop and the HTTP application share one index. Argument
  parsing, logging and the servers themselves are the libraries'. Theory Commands puts the programs
  together.
\<close>

section \<open>The gateway's arguments\<close>

definition gateway_arguments :: "pystr \<Rightarrow> pystr \<Rightarrow> pystr \<Rightarrow> pystr + unit" where
  "gateway_arguments gw_rpc subnet scoring =
     (if \<not> address_match subnet \<or> \<not> address_match scoring
      then Inl (lit ''registry addresses must be 0x addresses'')
      else if \<not> (startswith gw_rpc (lit ''https://'') \<or> startswith gw_rpc (lit ''http://localhost'')
                 \<or> startswith gw_rpc (lit ''http://127.''))
      then Inl (lit ''rpc-url must be https:// (or localhost)'')
      else Inr ())"

text \<open>\<open>verify_score\<close>: the contract's answer as a truth value.\<close>

definition chain_verifier :: "(int \<Rightarrow> int \<Rightarrow> pystr \<Rightarrow> int \<Rightarrow> json list \<Rightarrow> json res) \<Rightarrow> score_verifier" where
  "chain_verifier call epoch brain_id m x pf = rbind (call epoch brain_id m x pf) (\<lambda>r. Inr (py_true r))"

section \<open>The gateway process\<close>

text \<open>The application, the poller, and the cursor file, which \<open>poll_once\<close> writes when it succeeds.\<close>

record gateway_process =
  gp_app :: gateway
  gp_poller :: poller
  gp_file :: cursor_file

definition start_gateway :: "cursor_file \<Rightarrow> int \<Rightarrow> int \<Rightarrow> gateway_process res" where
  "start_gateway store start_block endpoint_ttl =
     rbind (init_poller (Some store) start_block (new_index endpoint_ttl)) (\<lambda>(p, mi).
       Inr \<lparr>gp_app = (new_gateway endpoint_ttl)\<lparr>ix := mi\<rparr>, gp_poller = p, gp_file = store\<rparr>)"

text \<open>One round of \<open>_poll_loop\<close>: an exception is logged, and what it has already changed stays.\<close>

definition poll_round :: "poller_config \<Rightarrow> chain \<Rightarrow> gateway_process \<Rightarrow> gateway_process" where
  "poll_round cfg ch s =
     (case poll_once cfg ch (gp_poller s) (ix (gp_app s)) of (p, mi, saved, r) \<Rightarrow>
        s\<lparr>gp_app := (gp_app s)\<lparr>ix := mi\<rparr>, gp_poller := p,
          gp_file := (case saved of None \<Rightarrow> gp_file s | Some state \<Rightarrow> Holds state)\<rparr>)"

inductive process_step :: "ethlib \<Rightarrow> int \<Rightarrow> poller_config \<Rightarrow> gateway_process \<Rightarrow> gateway_process \<Rightarrow> bool"
  for E :: ethlib and max_inflight :: int and cfg :: poller_config where
  request: "gw_step E max_inflight (gp_app s) g' \<Longrightarrow> process_step E max_inflight cfg s (s\<lparr>gp_app := g'\<rparr>)"
| round: "process_step E max_inflight cfg s (poll_round cfg ch s)"

inductive process_reachable :: "ethlib \<Rightarrow> int \<Rightarrow> poller_config \<Rightarrow> cursor_file \<Rightarrow> int \<Rightarrow> gateway_process \<Rightarrow> bool"
  for E :: ethlib and max_inflight :: int and cfg :: poller_config and store :: cursor_file and start_block :: int where
  begins: "start_gateway store start_block endpoint_ttl = Inr s \<Longrightarrow> process_reachable E max_inflight cfg store start_block s"
| continues: "process_reachable E max_inflight cfg store start_block s \<Longrightarrow> process_step E max_inflight cfg s s'
    \<Longrightarrow> process_reachable E max_inflight cfg store start_block s'"

text \<open>
  What a poll does to the index is a rebuild from some events or nothing; the cursor moves only
  together with what is saved, and only forwards.
\<close>

lemma poll_once_index:
  "poll_once cfg ch p mi = (p', mi', saved, r) \<Longrightarrow> mi' = mi \<or> (\<exists>evs r'. replace_membership mi evs = (mi', r'))"
  by (auto simp: poll_once_def Let_def split: sum.splits if_splits prod.splits)

lemma poll_once_cursor:
  assumes "poll_once cfg ch p mi = (p', mi', saved, r)"
  shows "(case saved of
       None \<Rightarrow> next_block p' = next_block p
     | Some state \<Rightarrow> next_block p < next_block p' \<and> (\<exists>evs hs. state = state_json (next_block p') evs hs))"
  using assms
  by (auto simp: poll_once_def Let_def split: sum.splits if_splits prod.splits; blast)

lemma load_saved: "load_state (Holds (state_json n evs hs)) = Inr (Some (n, evs, hs))"
  by (simp add: state_json_def cursor_value_def dict_get_or_def)

lemma init_poller_cases:
  assumes "init_poller (Some store) start_block mi = Inr (p, mi')"
  obtains state evs r where "load_state store = Inr state"
    and "next_block p = (case state of None \<Rightarrow> start_block | Some (n, _) \<Rightarrow> n)"
    and "replace_membership mi evs = (mi', r)"
proof (cases "load_state store")
  case (Inr state)
  obtain n evs hs where state: "(case state of None \<Rightarrow> (start_block, [], []) | Some s \<Rightarrow> s) = (n, evs, hs)"
    by (metis prod_cases3)
  obtain mi2 r where r: "replace_membership mi evs = (mi2, r)" by (cases "replace_membership mi evs")
  have e: "mi2 = mi'" and n: "next_block p = n"
    using assms Inr state r by (auto simp: init_poller_def split: sum.splits)
  have "next_block p = (case state of None \<Rightarrow> start_block | Some (n, _) \<Rightarrow> n)"
    using n state by (auto split: option.splits)
  from that [OF Inr this r [unfolded e]] show ?thesis .
qed (use assms in \<open>simp add: init_poller_def\<close>)

lemma init_cursor:
  assumes "init_poller (Some store) start_block mi = Inr (p, mi')"
  shows "\<exists>state. load_state store = Inr state \<and> next_block p = (case state of None \<Rightarrow> start_block | Some (n, _) \<Rightarrow> n)"
  using init_poller_cases [OF assms] by metis

definition cursor_ok :: "int \<Rightarrow> gateway_process \<Rightarrow> bool" where
  "cursor_ok start_block s \<longleftrightarrow>
     (\<exists>state. load_state (gp_file s) = Inr state
        \<and> next_block (gp_poller s) = (case state of None \<Rightarrow> start_block | Some (n, _) \<Rightarrow> n))"

lemma cursor_ok_step:
  assumes "process_step E m cfg s s'" and "cursor_ok b s"
  shows "cursor_ok b s'"
  using assms(1)
proof (cases rule: process_step.cases)
  case (request g')
  with assms(2) show ?thesis by (simp add: cursor_ok_def)
next
  case (round ch)
  obtain p mi saved r where poll: "poll_once cfg ch (gp_poller s) (ix (gp_app s)) = (p, mi, saved, r)"
    by (cases "poll_once cfg ch (gp_poller s) (ix (gp_app s))")
  with round poll_once_cursor [OF poll] assms(2) show ?thesis
    by (cases saved) (auto simp: poll_round_def cursor_ok_def load_saved simp del: load_state.simps)
qed

lemma process_gateway_step:
  assumes "process_step E m cfg s s'" and "gw_reachable E m (gp_app s)"
  shows "gw_reachable E m (gp_app s')"
  using assms(1)
proof (cases rule: process_step.cases)
  case (request g')
  with assms(2) show ?thesis by (simp add: gw_reachable.step)
next
  case (round ch)
  obtain p mi saved r where poll: "poll_once cfg ch (gp_poller s) (ix (gp_app s)) = (p, mi, saved, r)"
    by (cases "poll_once cfg ch (gp_poller s) (ix (gp_app s))")
  from poll_once_index [OF poll] show ?thesis
  proof
    assume "mi = ix (gp_app s)"
    then show ?thesis using round poll assms(2) by (simp add: poll_round_def)
  next
    assume "\<exists>evs r'. replace_membership (ix (gp_app s)) evs = (mi, r')"
    then obtain evs r' where "replace_membership (ix (gp_app s)) evs = (mi, r')" by blast
    from gw_reachable.step [OF assms(2) gw_step.polled [OF this]] show ?thesis
      using round poll by (simp add: poll_round_def)
  qed
qed

text \<open>
  The gateway process keeps its guarantees and loses no block: in every state that requests and
  polls, failing or not, can reach from a start, the application is in a reachable state of the
  gateway machine, so that all its invariants hold while the poller rebuilds the index underneath,
  and if the process is restarted from the file as it is at that moment, the new poller continues
  at exactly the block the old one would have polled next.
\<close>
theorem restart_skips_no_block:
  assumes "process_reachable E m cfg store start_block s"
  shows "gw_reachable E m (gp_app s)
    \<and> (\<forall>ttl s'. start_gateway (gp_file s) start_block ttl = Inr s' \<longrightarrow>
         next_block (gp_poller s') = next_block (gp_poller s))"
proof -
  have "gw_reachable E m (gp_app s) \<and> cursor_ok start_block s"
    using assms
  proof (induction rule: process_reachable.induct)
    case (begins ttl s)
    then obtain p mi where i: "init_poller (Some store) start_block (new_index ttl) = Inr (p, mi)"
      and s: "s = \<lparr>gp_app = (new_gateway ttl)\<lparr>ix := mi\<rparr>, gp_poller = p, gp_file = store\<rparr>"
      by (auto simp: start_gateway_def)
    obtain evs r where "replace_membership (new_index ttl) evs = (mi, r)"
      using init_poller_cases [OF i] by metis
    then have "gw_step E m (new_gateway ttl) ((new_gateway ttl)\<lparr>ix := mi\<rparr>)"
      by (intro gw_step.polled) (simp add: new_gateway_def)
    from gw_reachable.step [OF gw_reachable.start this] show ?case
      using init_cursor [OF i] by (simp add: s cursor_ok_def)
  next
    case (continues s s')
    then show ?case using process_gateway_step cursor_ok_step by blast
  qed
  then show ?thesis
    by (auto simp: cursor_ok_def start_gateway_def dest!: init_cursor)
qed

definition demo_poll :: poller_config where
  "demo_poll = \<lparr>confirmations = 3, reorg_buffer = 10\<rparr>"

text \<open>A chain of eleven blocks without logs.\<close>

definition demo_quiet :: chain where
  "demo_quiet = \<lparr>block_number = Inr 11, block_hash = (\<lambda>_. Inr []), get_logs = (\<lambda>_ _ _. Inr [])\<rparr>"

theorem restart_skips_no_block_witness:
  "\<exists>s. start_gateway Absent 7 600 = Inr s \<and> gw_reachable demo_eth 64 (gp_app (poll_round demo_poll demo_quiet s))
     \<and> (\<exists>s'. start_gateway (gp_file (poll_round demo_poll demo_quiet s)) 7 600 = Inr s' \<and> next_block (gp_poller s') = 9)"
proof -
  obtain s where s: "start_gateway Absent 7 600 = Inr s" "gp_file s = Absent"
    "gp_poller s = \<lparr>p_events = [], p_hashes = [], next_block = 7\<rparr>"
    by (simp add: start_gateway_def init_poller_def replace_membership_def)
  have "process_reachable demo_eth 64 demo_poll Absent 7 (poll_round demo_poll demo_quiet s)"
    by (rule process_reachable.continues [OF process_reachable.begins [OF s(1)] process_step.round])
  note reached = restart_skips_no_block [OF this]
  let ?hs = "dict_update [] (map (\<lambda>n. (int_text n, JStr [])) [0..8])"
  have "probe_back h [] (- 1) = Inr (- 1)" for h by (simp add: probe_back.simps)
  then have poll: "poll_once demo_poll demo_quiet (gp_poller s) mi =
      (\<lparr>p_events = [], p_hashes = ?hs, next_block = 9\<rparr>, fst (replace_membership mi []), Some (state_json 9 [] ?hs), Inr 0)" for mi
    by (simp add: poll_once_def Let_def s(3) demo_poll_def demo_quiet_def scan_from_def hash_entries_def events_below_def
        new_events_def EVENTS_def replace_membership_def hashes_below_def del: upto.simps upto_rec_numeral)
  then have round: "gp_file (poll_round demo_poll demo_quiet s) = Holds (state_json 9 [] ?hs)"
    "next_block (gp_poller (poll_round demo_poll demo_quiet s)) = 9"
    by (simp_all add: poll_round_def)
  obtain s' where "start_gateway (gp_file (poll_round demo_poll demo_quiet s)) 7 600 = Inr s'"
    unfolding round start_gateway_def init_poller_def
    by (simp add: load_saved replace_membership_def del: load_state.simps)
  with reached s(1) round(2) show ?thesis by metis
qed

section \<open>The miner and validator programs\<close>

text \<open>
  \<open>register\<close>: what is printed, or the error. Exceptions of \<open>verify_registration\<close> escape.
\<close>

definition register_command ::
    "ethlib \<Rightarrow> miner_config \<Rightarrow> miner_view \<Rightarrow> (int \<Rightarrow> int \<Rightarrow> unit res) \<Rightarrow> miner_view \<Rightarrow> (pystr + pystr) res" where
  "register_command E cfg before send_register after =
     rbind (snd (verify_registration E cfg before send_register after)) (\<lambda>ok.
       Inr (if \<not> ok
            then Inl (lit ''Registration NOT confirmed for '' @ miner_address E cfg @ lit '' on Brain '' @ int_text (mc_brain_id cfg))
            else Inr (lit ''Registered miner '' @ miner_address E cfg @ lit '' on Brain '' @ int_text (mc_brain_id cfg))))"

text \<open>
  The command reports success exactly when the registry says the address is a miner: before, or after
  a registration that was sent with the configured cap.
\<close>
theorem register_reports_registry:
  "(\<exists>msg. register_command E cfg before send_register after = Inr (Inr msg)) \<longleftrightarrow>
     view_is_miner before (mc_brain_id cfg) (miner_address E cfg) = Inr True
     \<or> view_is_miner before (mc_brain_id cfg) (miner_address E cfg) = Inr False
       \<and> send_register (mc_brain_id cfg) (if mc_max_fee cfg \<noteq> 0 then mc_max_fee cfg else 2 ^ 255) = Inr ()
       \<and> view_is_miner after (mc_brain_id cfg) (miner_address E cfg) = Inr True"
  by (auto simp: register_command_def verify_registration_def Let_def split: sum.splits bool.splits)

text \<open>
  The \<open>aggregator\<close> command: one service state with a pool that shares the aggregator's stake functions,
  gated by the contract's current epoch.
\<close>

definition aggregator_command :: "int \<Rightarrow> pystr \<Rightarrow> (json \<Rightarrow> pystr) \<Rightarrow> service_config \<times> service_state" where
  "aggregator_command chain registry rep =
     (\<lparr>agg_cfg = \<lparr>chain_id = chain, scoring_registry = registry, min_quorum_bps = MIN_QUORUM_BPS\<rparr>,
       pool_bps = MIN_QUORUM_BPS, text_of = rep\<rparr>, new_service True)"

definition aggregator_epoch :: "json res \<Rightarrow> int res option" where
  "aggregator_epoch current_epoch_call = Some (rbind current_epoch_call py_int)"

end
