(* ===== verification/Devnet.thy ===== *)
theory Devnet imports Committed Transport Programs
begin

text \<open>
  \<open>scripts/devnet_e2e.py\<close>: the repository's smoke test, which runs a miner of its own behind the
  gateway application, the aggregator service and the cursor store. Each program is its model from
  the other theories, a request's body reaches the handler as it was sent, and the script's
  assertions are computations that stop. Keys, addresses and the miner's URL are an argument, so a
  theorem about the script holds for every choice of them.
\<close>

section \<open>The script's own miner\<close>

definition DEVNET_CHAIN :: int where "DEVNET_CHAIN = 57073"

definition DEVNET_BRAIN :: int where "DEVNET_BRAIN = 8"

definition PRICE_PER_BYTE :: int where "PRICE_PER_BYTE = 7"

definition PRICE_PER_REQUEST :: int where "PRICE_PER_REQUEST = 101"

record devnet_setup =
  ds_market :: pystr
  ds_scoring :: pystr
  ds_user :: pystr
  ds_miner :: pystr
  ds_v1 :: pystr
  ds_v2 :: pystr
  ds_other :: pystr
  ds_url :: pystr
  ds_clock :: int

record devnet =
  dv_index :: member_index
  dv_inflight :: int
  dv_bucket :: "int \<times> int"
  dv_balances :: "(pystr, int) dict"
  dv_redeemed :: "json receipt list"
  dv_settled :: "json receipt list"

definition miner_says :: "string \<Rightarrow> json" where
  "miner_says msg = JObj [(lit ''error'', JStr (lit msg))]"

definition devnet_receipt :: "json \<Rightarrow> json receipt res" where
  "devnet_receipt data = rbind (jkey data (lit ''receipt'')) read_final"

text \<open>\<open>verify_user_signature\<close> on a receipt whose addresses are decoded JSON.\<close>

definition devnet_verify :: "ethlib \<Rightarrow> devnet_setup \<Rightarrow> json receipt \<Rightarrow> json \<Rightarrow> bool res" where
  "devnet_verify E S r sig =
     rbind (hash_bytes (rc_prompt_hash r)) (\<lambda>_.
     rbind (hash_bytes (rc_response_hash r)) (\<lambda>_.
     rbind (text_receipt r) (\<lambda>tr. verify_user_signature E (ds_market S) DEVNET_CHAIN tr sig)))"

definition devnet_response :: "json receipt \<Rightarrow> pystr \<Rightarrow> pystr \<Rightarrow> pystr \<Rightarrow> int \<Rightarrow> json" where
  "devnet_response pre prompt response rh amount =
     JObj [(lit ''text'', JStr response), (lit ''prompt_hash'', rc_prompt_hash pre),
           (lit ''response_hash'', JStr rh),
           (lit ''tokens_in'', JInt (int (length prompt))), (lit ''tokens_out'', JInt (int (length response))),
           (lit ''final_receipt'', serialize_receipt (pre\<lparr>rc_response_hash := JStr rh, rc_amount := amount\<rparr>)),
           (lit ''miner_signature'', JStr (ox @ concat (replicate 65 (lit ''55''))))]"

definition devnet_infer :: "ethlib \<Rightarrow> devnet_setup \<Rightarrow> devnet \<Rightarrow> json \<Rightarrow> json res" where
  "devnet_infer E S d data =
     rbind (devnet_receipt data) (\<lambda>pre.
     rbind (jlower (rc_miner pre)) (\<lambda>m.
     if m \<noteq> lower (key_address E (ds_miner S)) then Inr (miner_says ''wrong miner'')
     else rbind (jlower (rc_user pre)) (\<lambda>u.
     rbind (rbind (jkey data (lit ''budget'')) py_int) (\<lambda>budget.
     if dict_get_or (dv_balances d) u 0 < budget then Inr (miner_says ''insufficient user balance'')
     else rbind (jkey data (lit ''user_signature'')) (\<lambda>sig.
     rbind (devnet_verify E S pre sig) (\<lambda>ok.
     if \<not> ok then Inr (miner_says ''bad signature'')
     else rbind (jkey data (lit ''prompt'')) (\<lambda>p.
     rbind (jlower (rc_prompt_hash pre)) (\<lambda>ph.
     rbind (case p of JStr s \<Rightarrow> Inr s | _ \<Rightarrow> Inl TypeError) (\<lambda>prompt.
     rbind (text_hash E prompt) (\<lambda>h.
     if ph \<noteq> lower h then Inr (miner_says ''prompt hash mismatch'')
     else let response = lit ''devnet:'' @ prompt in
       rbind (text_hash E response) (\<lambda>rh.
       rbind (utf8_encode prompt) (\<lambda>pb.
       rbind (utf8_encode response) (\<lambda>rb.
         Inr (devnet_response pre prompt response rh
                (min (PRICE_PER_REQUEST + PRICE_PER_BYTE * (int (length pb) + int (length rb))) budget)))))))))))))))"

text \<open>\<open>balances[user] -= amount\<close> raises when the user has no entry, which an amount of zero or less reaches.\<close>

definition devnet_settle :: "ethlib \<Rightarrow> devnet_setup \<Rightarrow> devnet \<Rightarrow> json \<Rightarrow> devnet \<times> json res" where
  "devnet_settle E S d data =
     (case rbind (devnet_receipt data) (\<lambda>r. rbind (jkey data (lit ''user_signature'')) (\<lambda>sig.
             rbind (devnet_verify E S r sig) (\<lambda>ok. Inr (r, ok)))) of
        Inl e \<Rightarrow> (d, Inl e)
      | Inr (r, ok) \<Rightarrow>
          if \<not> ok then (d, Inr (miner_says ''bad signature''))
          else (case jlower (rc_user r) of
            Inl e \<Rightarrow> (d, Inl e)
          | Inr u \<Rightarrow>
              if dict_get_or (dv_balances d) u 0 < rc_amount r then (d, Inr (miner_says ''insufficient user balance''))
              else (case dict_get (dv_balances d) u of
                None \<Rightarrow> (d, Inl KeyError)
              | Some x \<Rightarrow>
                  (d\<lparr>dv_balances := dict_set u (x - rc_amount r) (dv_balances d),
                     dv_redeemed := dv_redeemed d @ [r], dv_settled := dv_settled d @ [r]\<rparr>,
                   Inr (JObj [(lit ''ok'', JBool True)])))))"

definition devnet_challenge :: "json \<Rightarrow> json res" where
  "devnet_challenge data =
     Inr (JObj [(lit ''text'', JStr (lit ''challenge-ok'')),
                (lit ''response_hash'', JStr (ox @ concat (replicate 32 (lit ''66''))))])"

section \<open>The gateway in front of it\<close>

datatype devnet_handler = OnInfer | OnChallenge | OnSettle

text \<open>A request the gateway sends to a URL: the miner's routes, or a connection that fails.\<close>

definition devnet_dial ::
    "ethlib \<Rightarrow> devnet_setup \<Rightarrow> pystr \<Rightarrow> pystr \<Rightarrow> json \<Rightarrow> devnet \<Rightarrow> devnet \<times> reply res" where
  "devnet_dial E S url path data d =
     (if proxy_request url path \<noteq> ds_url S @ path then (d, Inl OtherError)
      else case dict_get (miner_app OnInfer OnChallenge OnSettle) (lit ''POST'', path) of
        None \<Rightarrow> (d, Inr (proxy_reply 404 None))
      | Some Health \<Rightarrow> (d, Inr (200, JObj [(lit ''ok'', JBool True)]))
      | Some (Serve h) \<Rightarrow>
          (case (case h of OnInfer \<Rightarrow> (d, devnet_infer E S d data) | OnChallenge \<Rightarrow> (d, devnet_challenge data)
                  | OnSettle \<Rightarrow> devnet_settle E S d data) of
             (d', Inl e) \<Rightarrow> (d', Inr (proxy_reply 500 None))
           | (d', Inr out) \<Rightarrow> (d', Inr (proxy_reply 200 (Some out)))))"

definition devnet_moment :: "(pystr set \<Rightarrow> pystr list) \<Rightarrow> moment" where
  "devnet_moment order = \<lparr>now = 1700000000, url_guard = (\<lambda>_. Inr None), set_order = order\<rparr>"

text \<open>Every route runs behind the rate limiter with its defaults.\<close>

definition devnet_call :: "(devnet \<Rightarrow> devnet \<times> reply res) \<Rightarrow> devnet \<Rightarrow> devnet \<times> reply res" where
  "devnet_call handler d =
     (case rate_limit_mw 240 60 1700000000 (dv_bucket d) of (bucket, admitted) \<Rightarrow>
        if admitted then handler (d\<lparr>dv_bucket := bucket\<rparr>)
        else (d\<lparr>dv_bucket := bucket\<rparr>, Inr (reply_error 429 (lit ''rate limit exceeded''))))"

definition devnet_announce ::
    "ethlib \<Rightarrow> (json \<Rightarrow> pystr) \<Rightarrow> (pystr set \<Rightarrow> pystr list) \<Rightarrow> json \<Rightarrow> devnet \<Rightarrow> devnet \<times> reply res" where
  "devnet_announce E rep order body =
     devnet_call (\<lambda>d. case announce E rep (devnet_moment order) (dv_index d) DEVNET_BRAIN body of
       (mi, r) \<Rightarrow> (d\<lparr>dv_index := mi\<rparr>, r))"

definition devnet_miners ::
    "(real \<Rightarrow> json) \<Rightarrow> (pystr set \<Rightarrow> pystr list) \<Rightarrow> devnet \<Rightarrow> devnet \<times> reply res" where
  "devnet_miners num order =
     devnet_call (\<lambda>d. (d, Inr (200, JList (map (\<lambda>(a, url, sc).
       JObj [(lit ''address'', JStr a), (lit ''url'', JStr url), (lit ''score'', num sc)])
         (miners_of order (dv_index d) DEVNET_BRAIN (Some (now (devnet_moment order))))))))"

definition devnet_proxied ::
    "ethlib \<Rightarrow> devnet_setup \<Rightarrow> (pystr set \<Rightarrow> pystr list) \<Rightarrow> string \<Rightarrow> json \<Rightarrow> devnet \<Rightarrow> devnet \<times> reply res" where
  "devnet_proxied E S order path body =
     devnet_call (\<lambda>d. case proxy_begin 64 (devnet_moment order) (dv_index d) (dv_inflight d) DEVNET_BRAIN body of
       (n, Inl e) \<Rightarrow> (d\<lparr>dv_inflight := n\<rparr>, Inl e)
     | (n, Inr (Answered r)) \<Rightarrow> (d\<lparr>dv_inflight := n\<rparr>, Inr r)
     | (n, Inr (Dialled url)) \<Rightarrow>
         (case devnet_dial E S url (lit path) body (d\<lparr>dv_inflight := n\<rparr>) of (d', outcome) \<Rightarrow>
            (case proxy_end (dv_inflight d') outcome of (n', r) \<Rightarrow> (d'\<lparr>dv_inflight := n'\<rparr>, r))))"

section \<open>The script\<close>

datatype stop = Raised pyexc | AssertionFailed

type_synonym 'a script = "stop + 'a"

definition run :: "'a res \<Rightarrow> 'a script" where
  "run r = (case r of Inl e \<Rightarrow> Inl (Raised e) | Inr x \<Rightarrow> Inr x)"

definition ensure :: "bool \<Rightarrow> unit script" where
  "ensure b = (if b then Inr () else Inl AssertionFailed)"

text \<open>An escaped exception is a 500 whose body is not JSON.\<close>

definition http_status :: "reply res \<Rightarrow> nat" where
  "http_status r = (case r of Inl e \<Rightarrow> 500 | Inr (status, _) \<Rightarrow> status)"

definition http_json :: "reply res \<Rightarrow> json script" where
  "http_json r = (case r of Inl e \<Rightarrow> Inl (Raised OtherError) | Inr (_, j) \<Rightarrow> Inr j)"

definition devnet_start :: "ethlib \<Rightarrow> devnet_setup \<Rightarrow> devnet" where
  "devnet_start E S =
     \<lparr>dv_index = apply_event (JStr (lit ''MinerRegistered'')) DEVNET_BRAIN (key_address E (ds_miner S)) (new_index 600),
      dv_inflight = 0, dv_bucket = (0, 0), dv_balances = [(lower (key_address E (ds_user S)), 10 ^ 18)],
      dv_redeemed = [], dv_settled = []\<rparr>"

definition announce_body :: "ethlib \<Rightarrow> devnet_setup \<Rightarrow> pystr \<Rightarrow> pystr \<Rightarrow> json" where
  "announce_body E S key sig =
     JObj [(lit ''address'', JStr (key_address E key)), (lit ''url'', JStr (ds_url S)), (lit ''ts'', JInt 1700000000),
           (lit ''signature'', JStr sig)]"

definition devnet_discovery ::
    "ethlib \<Rightarrow> (json \<Rightarrow> pystr) \<Rightarrow> (real \<Rightarrow> json) \<Rightarrow> (pystr set \<Rightarrow> pystr list) \<Rightarrow> devnet_setup \<Rightarrow> devnet \<Rightarrow> devnet script" where
  "devnet_discovery E rep num order S d =
     rbind (run (sign_announce E (ds_other S) DEVNET_BRAIN (ds_url S) 1700000000)) (\<lambda>bad_sig.
     case devnet_announce E rep order (announce_body E S (ds_other S) bad_sig) d of (d, bad) \<Rightarrow>
     rbind (ensure (http_status bad = 403)) (\<lambda>_.
     rbind (run (sign_announce E (ds_miner S) DEVNET_BRAIN (ds_url S) 1700000000)) (\<lambda>sig.
     case devnet_announce E rep order (announce_body E S (ds_miner S) sig) d of (d, good) \<Rightarrow>
     rbind (ensure (http_status good = 200)) (\<lambda>_.
     case devnet_miners num order d of (d, listing) \<Rightarrow>
     rbind (http_json listing) (\<lambda>miners.
     rbind (ensure (py_true miners)) (\<lambda>_.
     rbind (run (py_list miners)) (\<lambda>ms.
     rbind (run (rbind (jkey (hd ms) (lit ''address'')) jlower)) (\<lambda>a.
     rbind (ensure (a = lower (key_address E (ds_miner S)))) (\<lambda>_. Inr d)))))))))"

definition devnet_sign :: "ethlib \<Rightarrow> devnet_setup \<Rightarrow> json receipt \<Rightarrow> pystr res" where
  "devnet_sign E S r =
     sign_receipt E \<lparr>cc_chain_id = DEVNET_CHAIN, cc_market = ds_market S, cc_key = Some (ds_user S)\<rparr> (ds_user S) r"

definition devnet_preauth :: "ethlib \<Rightarrow> devnet_setup \<Rightarrow> json receipt res" where
  "devnet_preauth E S =
     rbind (text_hash E (lit ''hello'')) (\<lambda>ph.
     rbind (sentinel_text E ph 42) (\<lambda>sentinel.
       Inr \<lparr>rc_user = JStr (key_address E (ds_user S)), rc_miner = JStr (key_address E (ds_miner S)),
            rc_brain_id = DEVNET_BRAIN, rc_prompt_hash = JStr ph, rc_response_hash = JStr sentinel,
            rc_amount = 10 ^ 12, rc_expiry = ds_clock S + 3600, rc_nonce = 42\<rparr>))"

definition devnet_request :: "ethlib \<Rightarrow> devnet_setup \<Rightarrow> json receipt \<Rightarrow> pystr \<Rightarrow> json" where
  "devnet_request E S pre sig =
     JObj [(lit ''target_miner'', JStr (key_address E (ds_miner S))), (lit ''prompt'', JStr (lit ''hello'')),
           (lit ''budget'', JInt (10 ^ 15)), (lit ''receipt'', serialize_receipt pre), (lit ''user_signature'', JStr sig)]"

definition devnet_settlement :: "ethlib \<Rightarrow> devnet_setup \<Rightarrow> json receipt \<Rightarrow> pystr \<Rightarrow> json" where
  "devnet_settlement E S r sig =
     JObj [(lit ''target_miner'', JStr (key_address E (ds_miner S))), (lit ''receipt'', serialize_receipt r),
           (lit ''user_signature'', JStr sig)]"

text \<open>The miner answers with integers, on which the \<open>int\<close> of \<open>read_final\<close> is the identity.\<close>

definition devnet_inference ::
    "ethlib \<Rightarrow> (pystr set \<Rightarrow> pystr list) \<Rightarrow> devnet_setup \<Rightarrow> json receipt \<Rightarrow> pystr \<Rightarrow> devnet \<Rightarrow> devnet script" where
  "devnet_inference E order S pre sig d =
     (case devnet_proxied E S order ''/infer'' (devnet_request E S pre sig) d of (d, answered) \<Rightarrow>
     rbind (ensure (http_status answered = 200)) (\<lambda>_.
     rbind (http_json answered) (\<lambda>payload.
     rbind (run (jkey payload (lit ''text''))) (\<lambda>delivered.
     rbind (ensure (delivered = JStr (lit ''devnet:hello''))) (\<lambda>_.
     rbind (run (rbind (jkey payload (lit ''final_receipt'')) read_final)) (\<lambda>final.
     rbind (run (assert_final_receipt_identity pre final)) (\<lambda>_.
     let expected = PRICE_PER_REQUEST + PRICE_PER_BYTE * (int (length (lit ''hello'')) + int (length (jtext delivered))) in
     rbind (ensure (rc_amount final = expected)) (\<lambda>_.
     rbind (run (devnet_sign E S final)) (\<lambda>final_sig.
     case devnet_proxied E S order ''/settle'' (devnet_settlement E S final final_sig) d of (d, settle) \<Rightarrow>
     rbind (ensure (http_status settle = 200)) (\<lambda>_.
     rbind (ensure (dv_settled d \<noteq> []
                    \<and> dict_get (dv_balances d) (lower (key_address E (ds_user S))) = Some (10 ^ 18 - expected)))
       (\<lambda>_. Inr d)))))))))))"

definition devnet_tampering ::
    "ethlib \<Rightarrow> (pystr set \<Rightarrow> pystr list) \<Rightarrow> devnet_setup \<Rightarrow> json receipt \<Rightarrow> pystr \<Rightarrow> devnet \<Rightarrow> devnet script" where
  "devnet_tampering E order S pre sig d =
     (let tampered = pre\<lparr>rc_prompt_hash := JStr (ox @ concat (replicate 32 (lit ''99'')))\<rparr> in
     case devnet_proxied E S order ''/infer'' (devnet_request E S tampered sig) d of (d, answered) \<Rightarrow>
     rbind (http_json answered) (\<lambda>payload.
     rbind (run (jkey payload (lit ''error''))) (\<lambda>e.
     rbind (ensure (e \<in> {JStr (lit ''bad signature''), JStr (lit ''prompt hash mismatch'')})) (\<lambda>_. Inr d))))"

definition devnet_stakes :: "ethlib \<Rightarrow> devnet_setup \<Rightarrow> chain_view" where
  "devnet_stakes E S =
     \<lparr>stake_of = (\<lambda>_ signer. dict_get_or [(lower (key_address E (ds_v1 S)), 3000), (lower (key_address E (ds_v2 S)), 3000)]
                    (lower signer) 0),
      total_stake = (\<lambda>_. 10000), propose_fn = (\<lambda>_. Inr (lit ''0xdevnet''))\<rparr>"

definition devnet_aggregator :: "(json \<Rightarrow> pystr) \<Rightarrow> devnet_setup \<Rightarrow> service_config \<times> service_state" where
  "devnet_aggregator rep S = aggregator_command DEVNET_CHAIN (ds_scoring S) rep"

definition devnet_candidate :: "ethlib \<Rightarrow> devnet_setup \<Rightarrow> pystr \<Rightarrow> int \<Rightarrow> json res" where
  "devnet_candidate E S key score =
     rbind (build_merkle_root E [\<lparr>leaf_brain_id = DEVNET_BRAIN, leaf_miner = key_address E (ds_miner S), leaf_score = score\<rparr>])
       (\<lambda>(rb, _).
     rbind (sign_commitment E key DEVNET_CHAIN (ds_scoring S) 1 DEVNET_BRAIN (RStr (ox @ to_hex rb))) (\<lambda>sig.
       Inr (JObj [(lit ''epoch'', JInt 1), (lit ''brain_id'', JInt DEVNET_BRAIN), (lit ''signer'', JStr (key_address E key)),
                  (lit ''scores'', JList [JObj [(lit ''miner'', JStr (key_address E (ds_miner S))), (lit ''score'', JInt score)]]),
                  (lit ''signature'', JStr sig)])))"

definition devnet_commitment :: "ethlib \<Rightarrow> devnet_setup \<Rightarrow> json \<Rightarrow> pystr \<Rightarrow> pystr \<Rightarrow> json res" where
  "devnet_commitment E S mroot signer key =
     rbind (case mroot of JStr r \<Rightarrow> Inr r | _ \<Rightarrow> Inl AttributeError) (\<lambda>r.
     rbind (sign_commitment E key DEVNET_CHAIN (ds_scoring S) 1 DEVNET_BRAIN (RStr r)) (\<lambda>sig.
       Inr (JObj [(lit ''epoch'', JInt 1), (lit ''brain_id'', JInt DEVNET_BRAIN), (lit ''root'', mroot),
                  (lit ''signer'', JStr signer), (lit ''signature'', JStr sig)])))"

text \<open>One posted commitment, with the proposals made so far.\<close>

definition devnet_commit ::
    "ethlib \<Rightarrow> (json \<Rightarrow> pystr) \<Rightarrow> devnet_setup \<Rightarrow> nat \<Rightarrow> json \<Rightarrow> pystr \<Rightarrow> pystr
       \<Rightarrow> service_state \<times> proposal list \<Rightarrow> (service_state \<times> proposal list) script" where
  "devnet_commit E rep S status mroot signer key st =
     (case st of (s, proposals) \<Rightarrow>
     rbind (run (devnet_commitment E S mroot signer key)) (\<lambda>body.
     case commitments E (fst (devnet_aggregator rep S)) (devnet_stakes E S) (Some (Inr 2)) s (Some body) of (s', call, r) \<Rightarrow>
     rbind (ensure (http_status r = status)) (\<lambda>_. Inr (s', proposals @ (case call of None \<Rightarrow> [] | Some c \<Rightarrow> [c])))))"

definition devnet_epoch :: "ethlib \<Rightarrow> (json \<Rightarrow> pystr) \<Rightarrow> devnet_setup \<Rightarrow> proposal list script" where
  "devnet_epoch E rep S =
     (let cfg = fst (devnet_aggregator rep S); v1 = ds_v1 S; v2 = ds_v2 S in
     rbind (run (devnet_candidate E S v1 100)) (\<lambda>c1.
     case submit_candidate E cfg (devnet_stakes E S) (snd (devnet_aggregator rep S)) (Some c1) of (s1, r1) \<Rightarrow>
     rbind (ensure (http_status r1 = 200)) (\<lambda>_.
     rbind (rbind (http_json r1) (\<lambda>j. run (jkey j (lit ''canonical'')))) (\<lambda>first.
     rbind (ensure (first = JBool False)) (\<lambda>_.
     rbind (run (devnet_candidate E S v2 300)) (\<lambda>c2.
     case submit_candidate E cfg (devnet_stakes E S) s1 (Some c2) of (s2, r2) \<Rightarrow>
     rbind (http_json r2) (\<lambda>data.
     rbind (ensure (http_status r2 = 200)) (\<lambda>_.
     rbind (run (jkey data (lit ''canonical''))) (\<lambda>second.
     rbind (ensure (second = JBool True)) (\<lambda>_.
     rbind (run (jkey data (lit ''root''))) (\<lambda>mroot.
     rbind (devnet_commit E rep S 401 mroot (key_address E v2) v1 (s2, [])) (\<lambda>st.
     rbind (devnet_commit E rep S 200 mroot (key_address E v1) v1 st) (\<lambda>st.
     rbind (devnet_commit E rep S 200 mroot (key_address E v2) v2 st) (\<lambda>(s3, proposals).
     rbind (ensure (proposals \<noteq> [] \<and> fst (hd proposals) = 1)) (\<lambda>_. Inr proposals)))))))))))))))"


definition devnet_member :: "ethlib \<Rightarrow> devnet_setup \<Rightarrow> json" where
  "devnet_member E S =
     JObj [(lit ''name'', JStr (lit ''MinerRegistered'')), (lit ''brain_id'', JInt DEVNET_BRAIN),
           (lit ''address'', JStr (key_address E (ds_miner S))), (lit ''block_number'', JInt 1)]"

definition cursor_events :: "cursor_file \<Rightarrow> json list res" where
  "cursor_events f = rbind (load_state f) (\<lambda>state. case state of None \<Rightarrow> Inl TypeError | Some (_, evs, _) \<Rightarrow> Inr evs)"

definition devnet_restart :: "ethlib \<Rightarrow> devnet_setup \<Rightarrow> unit script" where
  "devnet_restart E S =
     (let a = key_address E (ds_miner S);
          file = save_state 2 [devnet_member E S] [(lit ''1'', JStr (ox @ concat (replicate 32 (lit ''aa''))))] in
     rbind (run (cursor_events file)) (\<lambda>evs.
     case replace_membership (new_index 600) evs of (mi, r) \<Rightarrow>
     rbind (run r) (\<lambda>_.
     rbind (ensure (is_miner mi DEVNET_BRAIN a)) (\<lambda>_.
     rbind (run (cursor_events (save_state 3 [] [(lit ''2'', JStr (ox @ concat (replicate 32 (lit ''bb''))))]))) (\<lambda>evs.
     case replace_membership mi evs of (mi, r) \<Rightarrow>
     rbind (run r) (\<lambda>_. ensure (\<not> is_miner mi DEVNET_BRAIN a)))))))"

definition devnet_main ::
    "ethlib \<Rightarrow> (json \<Rightarrow> pystr) \<Rightarrow> (real \<Rightarrow> json) \<Rightarrow> (pystr set \<Rightarrow> pystr list) \<Rightarrow> devnet_setup
       \<Rightarrow> (devnet \<times> proposal list) script" where
  "devnet_main E rep num order S =
     rbind (devnet_discovery E rep num order S (devnet_start E S)) (\<lambda>d.
     rbind (run (devnet_preauth E S)) (\<lambda>pre.
     rbind (run (devnet_sign E S pre)) (\<lambda>sig.
     rbind (devnet_inference E order S pre sig d) (\<lambda>d.
     rbind (devnet_tampering E order S pre sig d) (\<lambda>d.
     rbind (devnet_epoch E rep S) (\<lambda>proposals.
     rbind (devnet_restart E S) (\<lambda>_. Inr (d, proposals))))))))"

section \<open>What the script relies on\<close>

text \<open>A signature recovers to some address on every digest, not only on the one it was made for.\<close>

definition signatures_recover :: "ethlib \<Rightarrow> bool" where
  "signatures_recover E \<longleftrightarrow> (\<forall>key d d'. \<exists>a. recover_message E d' (JStr (sign_message E key d)) = Inr a)"

definition devnet_ready :: "ethlib \<Rightarrow> (pystr set \<Rightarrow> pystr list) \<Rightarrow> devnet_setup \<Rightarrow> bool" where
  "devnet_ready E order S \<longleftrightarrow>
     libraries_ok E \<and> checksum_canonical E \<and> signatures_recover E \<and> enumerates order
     \<and> (\<exists>a. checksum E (ds_market S) = Inr a) \<and> (\<exists>a. checksum E (ds_scoring S) = Inr a)
     \<and> (\<exists>bs. utf8_encode (ds_url S) = Inr bs) \<and> rstrip_slash (ds_url S) = ds_url S
     \<and> lower (key_address E (ds_other S)) \<noteq> lower (key_address E (ds_miner S))
     \<and> lower (key_address E (ds_v1 S)) \<noteq> lower (key_address E (ds_v2 S))
     \<and> text_hash E (lit ''hello'') \<noteq> Inr (ox @ concat (replicate 32 (lit ''99'')))
     \<and> 0 \<le> ds_clock S \<and> ds_clock S < 2 ^ 63"

lemma run_simps [simp]: "run (Inr x) = Inr x" "run (Inl e) = Inl (Raised e)"
  by (simp_all add: run_def)

lemma ensure_simps [simp]: "ensure True = Inr ()" "ensure False = Inl AssertionFailed"
  by (simp_all add: ensure_def)

lemma ready_laws:
  assumes "devnet_ready E order S"
  shows "recover_message E d (JStr (sign_message E key d)) = Inr (key_address E key)"
    and "checksum E (key_address E key) = Inr (key_address E key)"
    and "to_checksum_address E (JStr (key_address E key)) = Inr (key_address E key)"
    and "list_all (abi_in_range E) vs \<Longrightarrow> \<exists>bs. abi_encode E vs = Inr bs"
    and "length (keccak E bs) = 32"
  using assms
  by (simp_all add: devnet_ready_def libraries_ok_def recovers_signer_def keys_checksummed_def abi_total_def keccak_width_def checksum_def)

section \<open>Discovery\<close>

lemma devnet_announce_digest:
  assumes "devnet_ready E order S"
  shows "\<exists>d. announce_digest E DEVNET_BRAIN (ds_url S) 1700000000 = Inr d"
proof -
  have "list_all (abi_in_range E) [ABytes32 (ANNOUNCE_TAG E), AUint 256 DEVNET_BRAIN, AString (ds_url S), AUint 256 1700000000]"
    using assms ready_laws(5) [OF assms] by (simp add: ANNOUNCE_TAG_def DEVNET_BRAIN_def devnet_ready_def)
  from ready_laws(4) [OF assms this] show ?thesis by (auto simp: announce_digest_def)
qed

lemma devnet_announced:
  assumes "devnet_ready E order S" and "sign_announce E key DEVNET_BRAIN (ds_url S) 1700000000 = Inr sig"
  shows "announce E rep (devnet_moment order) mi DEVNET_BRAIN (announce_body E S key sig) =
    (if is_miner mi DEVNET_BRAIN (key_address E key)
     then (announce_endpoint mi DEVNET_BRAIN (key_address E key) (ds_url S) 1700000000 0, Inr (200, JObj [(lit ''ok'', JBool True)]))
     else (mi, Inr (reply_error 403 (lit ''not a registered miner''))))"
proof -
  obtain d where d: "announce_digest E DEVNET_BRAIN (ds_url S) 1700000000 = Inr d" "sig = sign_message E key d"
    using assms(2) by (auto simp: sign_announce_def)
  have "recover_announce E DEVNET_BRAIN (ds_url S) 1700000000 (JStr sig) = Inr (key_address E key)"
    using d ready_laws(1) [OF assms(1)] by (simp add: recover_announce_def)
  moreover have "read_announce E rep (announce_body E S key sig) = Inr (key_address E key, ds_url S, 1700000000, JStr sig)"
    using ready_laws(3) [OF assms(1)] by (simp add: read_announce_def announce_body_def Let_def)
  ultimately show ?thesis
    by (simp add: announce_def devnet_moment_def ANNOUNCE_MAX_AGE_def)
qed

text \<open>The index once the miner has announced itself, and the gateway after \<open>k\<close> requests of its first minute.\<close>

definition devnet_listed :: "ethlib \<Rightarrow> devnet_setup \<Rightarrow> member_index" where
  "devnet_listed E S = announce_endpoint (dv_index (devnet_start E S)) DEVNET_BRAIN (key_address E (ds_miner S)) (ds_url S) 1700000000 0"

definition devnet_after :: "ethlib \<Rightarrow> devnet_setup \<Rightarrow> int \<Rightarrow> devnet" where
  "devnet_after E S k = (devnet_start E S)\<lparr>dv_index := devnet_listed E S, dv_bucket := (1700000000, k)\<rparr>"

lemma devnet_membership [simp]:
  "reg_miners (dv_index (devnet_start E S)) = (\<lambda>_. {})(DEVNET_BRAIN := {lower (key_address E (ds_miner S))})"
  "reg_miners (devnet_listed E S) = (\<lambda>_. {})(DEVNET_BRAIN := {lower (key_address E (ds_miner S))})"
  by (simp_all add: devnet_listed_def announce_endpoint_def devnet_start_def apply_event_def new_index_def Let_def fun_eq_iff)

lemma devnet_endpoint [simp]:
  "endpoints (devnet_listed E S) (DEVNET_BRAIN, lower (key_address E (ds_miner S))) =
     Some \<lparr>ep_url = ds_url S, ep_score = 0, ep_ts = 1700000000\<rparr>" "ttl (devnet_listed E S) = 600"
  by (simp_all add: devnet_listed_def announce_endpoint_def devnet_start_def apply_event_def new_index_def Let_def)

lemma rate_admits: "0 \<le> k \<Longrightarrow> k < 240 \<Longrightarrow> rate_limit_mw 240 60 1700000000 (1700000000, k) = ((1700000000, k + 1), True)"
  by (simp add: rate_limit_mw_def)

lemma devnet_miners_listed:
  assumes "devnet_ready E order S"
  shows "miners_of order (devnet_listed E S) DEVNET_BRAIN (Some 1700000000) = [(lower (key_address E (ds_miner S)), ds_url S, 0)]"
proof -
  let ?a = "lower (key_address E (ds_miner S))"
  have "set (order {?a}) = {?a}" "distinct (order {?a})"
    using assms by (simp_all add: devnet_ready_def enumerates_def)
  then have "order {?a} = [?a]"
    by (cases "order {?a}"; cases "tl (order {?a})") auto
  then show ?thesis
    by (simp add: miners_of_def listed_def is_fresh_def List.map_filter_simps sort_desc_def)
qed

lemma discovery_passes:
  assumes ok: "devnet_ready E order S"
  shows "devnet_discovery E rep num order S (devnet_start E S) = Inr (devnet_after E S 3)"
proof -
  obtain d where d: "announce_digest E DEVNET_BRAIN (ds_url S) 1700000000 = Inr d"
    using devnet_announce_digest [OF ok] ..
  let ?sig = "\<lambda>key. sign_message E key d"
  have sig: "sign_announce E key DEVNET_BRAIN (ds_url S) 1700000000 = Inr (?sig key)" for key
    using d by (simp add: sign_announce_def)
  let ?d0 = "devnet_start E S"
  have first: "rate_limit_mw 240 60 1700000000 (dv_bucket ?d0) = ((1700000000, 1), True)"
    by (simp add: devnet_start_def rate_limit_mw_def)
  have no: "\<not> is_miner (dv_index ?d0) DEVNET_BRAIN (key_address E (ds_other S))"
    using ok by (simp add: is_miner_def devnet_ready_def)
  have yes: "is_miner (dv_index ?d0) DEVNET_BRAIN (key_address E (ds_miner S))"
    by (simp add: is_miner_def)
  have bad: "devnet_announce E rep order (announce_body E S (ds_other S) (?sig (ds_other S))) ?d0 =
      (?d0\<lparr>dv_bucket := (1700000000, 1)\<rparr>, Inr (reply_error 403 (lit ''not a registered miner'')))"
    by (simp add: devnet_announce_def devnet_call_def first devnet_announced [OF ok sig] no)
  have good: "devnet_announce E rep order (announce_body E S (ds_miner S) (?sig (ds_miner S))) (?d0\<lparr>dv_bucket := (1700000000, 1)\<rparr>) =
      (devnet_after E S 2, Inr (200, JObj [(lit ''ok'', JBool True)]))"
    by (simp add: devnet_announce_def devnet_call_def rate_admits devnet_announced [OF ok sig] yes devnet_after_def devnet_listed_def)
  have listing: "devnet_miners num order (devnet_after E S 2) = (devnet_after E S 3, Inr (200,
      JList [JObj [(lit ''address'', JStr (lower (key_address E (ds_miner S)))), (lit ''url'', JStr (ds_url S)), (lit ''score'', num 0)]]))"
    by (simp add: devnet_miners_def devnet_call_def devnet_after_def rate_admits devnet_moment_def devnet_miners_listed [OF ok])
  show ?thesis
    by (simp add: devnet_discovery_def sig bad good listing http_status_def reply_error_def http_json_def)
qed

section \<open>Inference\<close>

lemma devnet_texts:
  "utf8_encode (lit ''hello'') = Inr [104, 101, 108, 108, 111]"
  "utf8_encode (lit ''devnet:'' @ lit ''hello'') = Inr [100, 101, 118, 110, 101, 116, 58, 104, 101, 108, 108, 111]"
  by (simp_all add: lit_def utf8_encode_def utf8_char_def)

definition hello_hash :: "ethlib \<Rightarrow> bytes" where
  "hello_hash E = keccak E [104, 101, 108, 108, 111]"

definition answer_hash :: "ethlib \<Rightarrow> bytes" where
  "answer_hash E = keccak E [100, 101, 118, 110, 101, 116, 58, 104, 101, 108, 108, 111]"

lemma devnet_hashes:
  "text_hash E (lit ''hello'') = Inr (hex0x (hello_hash E))"
  "text_hash E (lit ''devnet:'' @ lit ''hello'') = Inr (hex0x (answer_hash E))"
  by (simp_all add: text_hash_def keccak_text_def devnet_texts hello_hash_def answer_hash_def hex0x_def)

text \<open>A receipt of the script's user and miner, with hashes of 32 bytes.\<close>

definition devnet_receipt_for :: "ethlib \<Rightarrow> devnet_setup \<Rightarrow> bytes \<Rightarrow> bytes \<Rightarrow> int \<Rightarrow> json receipt" where
  "devnet_receipt_for E S ph rh amount =
     \<lparr>rc_user = JStr (key_address E (ds_user S)), rc_miner = JStr (key_address E (ds_miner S)),
      rc_brain_id = DEVNET_BRAIN, rc_prompt_hash = JStr (hex0x ph), rc_response_hash = JStr (hex0x rh),
      rc_amount = amount, rc_expiry = ds_clock S + 3600, rc_nonce = 42\<rparr>"

lemma devnet_receipt_read: "read_final (serialize_receipt (devnet_receipt_for E S ph rh amount)) = Inr (devnet_receipt_for E S ph rh amount)"
  by (simp add: read_final_def serialize_receipt_def devnet_receipt_for_def)

lemma devnet_digest:
  assumes ok: "devnet_ready E order S" and "length ph = 32" and "length rh = 32" and "0 \<le> amount" and "amount < 2 ^ 256"
  obtains tr digest where "text_receipt (devnet_receipt_for E S ph rh amount) = Inr tr" and "rc_user tr = key_address E (ds_user S)"
    and "receipt_digest E (ds_market S) DEVNET_CHAIN tr = Inr digest"
proof -
  let ?tr = "\<lparr>rc_user = key_address E (ds_user S), rc_miner = key_address E (ds_miner S), rc_brain_id = DEVNET_BRAIN,
     rc_prompt_hash = JStr (hex0x ph), rc_response_hash = JStr (hex0x rh), rc_amount = amount,
     rc_expiry = ds_clock S + 3600, rc_nonce = 42\<rparr>"
  have "list_all (abi_in_range E) (receipt_fields (ds_market S) DEVNET_CHAIN ?tr ph rh)"
    using ok assms(2-) ready_laws(2) [OF ok] by (simp add: receipt_fields_def DEVNET_CHAIN_def DEVNET_BRAIN_def devnet_ready_def)
  from ready_laws(4) [OF ok this] obtain enc where "abi_encode E (receipt_fields (ds_market S) DEVNET_CHAIN ?tr ph rh) = Inr enc" ..
  then have "receipt_digest E (ds_market S) DEVNET_CHAIN ?tr = Inr (keccak E enc)"
    by (simp add: receipt_digest_def)
  then show ?thesis by (intro that [of ?tr]) (simp_all add: text_receipt_def devnet_receipt_for_def)
qed

lemma devnet_receipt_hashes [simp]:
  "hash_bytes (rc_prompt_hash (devnet_receipt_for E S x y n)) = Inr x"
  "hash_bytes (rc_response_hash (devnet_receipt_for E S x y n)) = Inr y"
  by (simp_all add: devnet_receipt_for_def)

lemma devnet_signed:
  assumes "devnet_ready E order S" and "length ph = 32" and "length rh = 32" and "0 \<le> amount" and "amount < 2 ^ 256"
  shows "\<exists>sig. devnet_sign E S (devnet_receipt_for E S ph rh amount) = Inr sig
    \<and> devnet_verify E S (devnet_receipt_for E S ph rh amount) (JStr sig) = Inr True"
proof -
  obtain tr d where tr: "text_receipt (devnet_receipt_for E S ph rh amount) = Inr tr" "rc_user tr = key_address E (ds_user S)"
    "receipt_digest E (ds_market S) DEVNET_CHAIN tr = Inr d" by (rule devnet_digest [OF assms])
  then show ?thesis
    using ready_laws(1) [OF assms(1)] by (simp add: devnet_sign_def sign_receipt_def devnet_verify_def verify_user_signature_def)
qed

lemma devnet_checked:
  assumes "devnet_ready E order S" and "length ph = 32" and "length rh = 32" and "0 \<le> amount" and "amount < 2 ^ 256"
    and "devnet_sign E S r = Inr sig"
  shows "\<exists>b. devnet_verify E S (devnet_receipt_for E S ph rh amount) (JStr sig) = Inr b"
proof -
  obtain tr d where tr: "text_receipt (devnet_receipt_for E S ph rh amount) = Inr tr"
    "receipt_digest E (ds_market S) DEVNET_CHAIN tr = Inr d" by (rule devnet_digest [OF assms(1-5)])
  obtain d' where "sig = sign_message E (ds_user S) d'"
    using assms(6) by (auto simp: devnet_sign_def sign_receipt_def)
  moreover obtain a where "recover_message E d (JStr (sign_message E (ds_user S) d')) = Inr a"
    using assms(1) by (meson devnet_ready_def signatures_recover_def)
  ultimately show ?thesis using tr by (simp add: devnet_verify_def verify_user_signature_def)
qed

lemma devnet_preauth_is:
  "devnet_preauth E S = Inr (devnet_receipt_for E S (hello_hash E) (sentinel_hash E (hello_hash E) 42) (10 ^ 12))"
  by (simp add: devnet_preauth_def devnet_hashes sentinel_text_bytes devnet_receipt_for_def)

lemma devnet_target:
  assumes "devnet_ready E order S" and "jget body (lit ''target_miner'') JNull = Inr (JStr (key_address E (ds_miner S)))"
  shows "target_url (devnet_moment order) (devnet_listed E S) DEVNET_BRAIN body = Inr (Some (ds_url S))"
  using assms
  by (cases "key_address E (ds_miner S) = []")
    (simp_all add: target_url_def endpoint_of_def devnet_moment_def devnet_miners_listed)

lemma devnet_forwards:
  assumes ok: "devnet_ready E order S" and "jget body (lit ''target_miner'') JNull = Inr (JStr (key_address E (ds_miner S)))"
    and "dv_index d = devnet_listed E S" and "dv_inflight d = 0" and "dv_bucket d = (1700000000, k)" and "0 \<le> k" and "k < 240"
  shows "devnet_proxied E S order path body d =
    (case devnet_dial E S (ds_url S) (lit path) body (d\<lparr>dv_bucket := (1700000000, k + 1), dv_inflight := 1\<rparr>) of
       (d', outcome) \<Rightarrow> (d'\<lparr>dv_inflight := dv_inflight d' - 1\<rparr>, outcome))"
proof -
  have "url_guard (devnet_moment order) u = Inr None" for u by (simp add: devnet_moment_def)
  then show ?thesis
    using assms by (simp add: devnet_proxied_def devnet_call_def rate_admits proxy_begin_def devnet_target proxy_end_def
        split: prod.splits)
qed

lemma devnet_dials:
  assumes "devnet_ready E order S"
  shows "devnet_dial E S (ds_url S) (lit ''/infer'') data d =
      (d, case devnet_infer E S d data of Inl e \<Rightarrow> Inr (proxy_reply 500 None) | Inr out \<Rightarrow> Inr (200, out))"
    and "devnet_dial E S (ds_url S) (lit ''/settle'') data d =
      (case devnet_settle E S d data of (d', Inl e) \<Rightarrow> (d', Inr (proxy_reply 500 None)) | (d', Inr out) \<Rightarrow> (d', Inr (200, out)))"
  using assms
  by (auto simp: devnet_dial_def proxy_request_def devnet_ready_def miner_app_def proxy_reply_def split: sum.splits prod.splits)

abbreviation devnet_charge :: int where "devnet_charge \<equiv> PRICE_PER_REQUEST + PRICE_PER_BYTE * 17"

lemma devnet_infer_answers:
  assumes ok: "devnet_ready E order S" and pre: "pre = devnet_receipt_for E S (hello_hash E) rh amount"
    and "dict_get (dv_balances d) (lower (key_address E (ds_user S))) = Some x" and "10 ^ 15 \<le> x"
    and "devnet_verify E S pre (JStr sig) = Inr True"
  shows "devnet_infer E S d (devnet_request E S pre sig) = Inr (devnet_response pre (lit ''hello'') (lit ''devnet:'' @ lit ''hello'')
     (hex0x (answer_hash E)) devnet_charge)"
proof -
  have read: "devnet_receipt (devnet_request E S pre sig) = Inr pre"
    by (simp add: devnet_receipt_def devnet_request_def devnet_receipt_read pre)
  have fields: "jkey (devnet_request E S pre sig) (lit ''budget'') = Inr (JInt (10 ^ 15))"
    "jkey (devnet_request E S pre sig) (lit ''user_signature'') = Inr (JStr sig)"
    "jkey (devnet_request E S pre sig) (lit ''prompt'') = Inr (JStr (lit ''hello''))"
    by (simp_all add: devnet_request_def)
  have rc: "rc_miner pre = JStr (key_address E (ds_miner S))" "rc_user pre = JStr (key_address E (ds_user S))"
    "rc_prompt_hash pre = JStr (hex0x (hello_hash E))"
    by (simp_all add: pre devnet_receipt_for_def)
  have "dict_get_or (dv_balances d) (lower (key_address E (ds_user S))) 0 = x" using assms(3) by (simp add: dict_get_or_def)
  then show ?thesis
    using assms(4,5)
    by (simp add: devnet_infer_def read fields rc devnet_texts devnet_hashes Let_def PRICE_PER_REQUEST_def PRICE_PER_BYTE_def
        del: rbind_Inr_iff)
qed

lemma devnet_settles:
  assumes "dict_get (dv_balances d) (lower (key_address E (ds_user S))) = Some x" and "amount \<le> x"
    and "r = devnet_receipt_for E S ph rh amount" and "devnet_verify E S r (JStr sig) = Inr True"
  shows "devnet_settle E S d (devnet_settlement E S r sig) =
    (d\<lparr>dv_balances := dict_set (lower (key_address E (ds_user S))) (x - amount) (dv_balances d),
       dv_redeemed := dv_redeemed d @ [r], dv_settled := dv_settled d @ [r]\<rparr>, Inr (JObj [(lit ''ok'', JBool True)]))"
proof -
  have read: "devnet_receipt (devnet_settlement E S r sig) = Inr r"
    by (simp add: devnet_receipt_def devnet_settlement_def devnet_receipt_read assms(3))
  have sig: "jkey (devnet_settlement E S r sig) (lit ''user_signature'') = Inr (JStr sig)"
    by (simp add: devnet_settlement_def)
  have rc: "rc_user r = JStr (key_address E (ds_user S))" "rc_amount r = amount"
    by (simp_all add: assms(3) devnet_receipt_for_def)
  show ?thesis
    using assms(1,2,4) by (simp add: devnet_settle_def read sig rc dict_get_or_def del: rbind_Inr_iff)
qed

text \<open>The miner's books after the one settlement.\<close>

definition devnet_paid :: "ethlib \<Rightarrow> devnet_setup \<Rightarrow> json receipt \<Rightarrow> int \<Rightarrow> devnet" where
  "devnet_paid E S final k = (devnet_after E S k)\<lparr>dv_balances := [(lower (key_address E (ds_user S)), 10 ^ 18 - devnet_charge)],
     dv_redeemed := [final], dv_settled := [final]\<rparr>"

lemma devnet_after_simps [simp]:
  "dv_index (devnet_after E S k) = devnet_listed E S" "dv_inflight (devnet_after E S k) = 0"
  "dv_bucket (devnet_after E S k) = (1700000000, k)" "dv_redeemed (devnet_after E S k) = []" "dv_settled (devnet_after E S k) = []"
  "dv_balances (devnet_after E S k) = [(lower (key_address E (ds_user S)), 10 ^ 18)]"
  by (simp_all add: devnet_after_def devnet_start_def)

lemma devnet_after_request: "(devnet_after E S k)\<lparr>dv_bucket := (1700000000, j), dv_inflight := 0\<rparr> = devnet_after E S j"
  by (simp add: devnet_after_def devnet_start_def)

abbreviation devnet_final :: "ethlib \<Rightarrow> devnet_setup \<Rightarrow> json receipt" where
  "devnet_final E S \<equiv> devnet_receipt_for E S (hello_hash E) (answer_hash E) devnet_charge"

lemma inference_passes:
  assumes ok: "devnet_ready E order S" and pre: "devnet_preauth E S = Inr pre" and sig: "devnet_sign E S pre = Inr sig"
  shows "devnet_inference E order S pre sig (devnet_after E S 3) = Inr (devnet_paid E S (devnet_final E S) 5)"
proof -
  have len: "length (hello_hash E) = 32" "length (answer_hash E) = 32" "length (sentinel_hash E (hello_hash E) 42) = 32"
    using ready_laws(5) [OF ok] by (simp_all add: hello_hash_def answer_hash_def sentinel_hash_def)
  have p: "pre = devnet_receipt_for E S (hello_hash E) (sentinel_hash E (hello_hash E) 42) (10 ^ 12)"
    using pre by (simp add: devnet_preauth_is)
  have v: "devnet_verify E S pre (JStr sig) = Inr True"
    using devnet_signed [OF ok len(1,3), of "10 ^ 12"] sig by (auto simp: p)
  let ?answer = "devnet_response pre (lit ''hello'') (lit ''devnet:'' @ lit ''hello'') (hex0x (answer_hash E)) devnet_charge"
  have target: "jget (devnet_request E S pre sig) (lit ''target_miner'') JNull = Inr (JStr (key_address E (ds_miner S)))"
    by (simp add: devnet_request_def dict_get_or_def)
  have asked: "devnet_proxied E S order ''/infer'' (devnet_request E S pre sig) (devnet_after E S 3) =
      (devnet_after E S 4, Inr (200, ?answer))"
    by (simp add: devnet_forwards [OF ok target, where k = 3] devnet_dials [OF ok] devnet_infer_answers [OF ok p _ _ v] devnet_after_request)
  have final: "pre\<lparr>rc_response_hash := JStr (hex0x (answer_hash E)), rc_amount := devnet_charge\<rparr> = devnet_final E S"
    by (simp add: p devnet_receipt_for_def)
  have charge: "(0 :: int) \<le> devnet_charge" "devnet_charge < 2 ^ 256" "devnet_charge \<le> 10 ^ 18"
    by (simp_all add: PRICE_PER_REQUEST_def PRICE_PER_BYTE_def)
  obtain fsig where fsig: "devnet_sign E S (devnet_final E S) = Inr fsig" "devnet_verify E S (devnet_final E S) (JStr fsig) = Inr True"
    using devnet_signed [OF ok len(1,2) charge(1,2)] by blast
  have target': "jget (devnet_settlement E S (devnet_final E S) fsig) (lit ''target_miner'') JNull = Inr (JStr (key_address E (ds_miner S)))"
    by (simp add: devnet_settlement_def dict_get_or_def)
  have settled: "devnet_proxied E S order ''/settle'' (devnet_settlement E S (devnet_final E S) fsig) (devnet_after E S 4) =
      (devnet_paid E S (devnet_final E S) 5, Inr (200, JObj [(lit ''ok'', JBool True)]))"
    using charge(3)
    by (simp add: devnet_forwards [OF ok target', where k = 4] devnet_dials [OF ok] devnet_settles [OF _ _ refl fsig(2)])
      (simp add: devnet_paid_def devnet_after_def devnet_start_def)
  have fields: "jkey ?answer (lit ''text'') = Inr (JStr (lit ''devnet:hello''))"
    "rbind (jkey ?answer (lit ''final_receipt'')) read_final = Inr (devnet_final E S)"
    by (simp_all add: devnet_response_def final devnet_receipt_read) (simp add: lit_def)
  have same: "assert_final_receipt_identity pre (devnet_final E S) = Inr ()"
    by (simp add: assert_final_receipt_identity_def p devnet_receipt_for_def same_text_def)
  have texts: "length (lit ''hello'') = 5" "length (lit ''devnet:hello'') = 12" "rc_amount (devnet_final E S) = devnet_charge"
    by (simp_all add: lit_def devnet_receipt_for_def)
  have books: "dv_settled (devnet_paid E S (devnet_final E S) 5) \<noteq> []"
    "dict_get (dv_balances (devnet_paid E S (devnet_final E S) 5)) (lower (key_address E (ds_user S))) = Some (10 ^ 18 - devnet_charge)"
    by (simp_all add: devnet_paid_def)
  show ?thesis
    unfolding devnet_inference_def asked
    by (simp add: http_status_def http_json_def fields same Let_def texts fsig(1) settled books del: rbind_Inr_iff)
qed

lemma to_hex_nines: "to_hex (replicate n 153) = concat (replicate n (lit ''99''))"
  by (induction n) (simp_all add: to_hex.simps lit_def hex_char_def)

lemma tampering_passes:
  assumes ok: "devnet_ready E order S" and pre: "devnet_preauth E S = Inr pre" and sig: "devnet_sign E S pre = Inr sig"
  shows "devnet_tampering E order S pre sig (devnet_paid E S f 5) = Inr (devnet_paid E S f 6)"
proof -
  let ?nines = "concat (replicate 32 (lit ''99''))" and ?nb = "replicate 32 (153 :: byte)"
  have len: "length (hello_hash E) = 32" "length (sentinel_hash E (hello_hash E) 42) = 32"
    using ready_laws(5) [OF ok] by (simp_all add: hello_hash_def sentinel_hash_def)
  have p: "pre = devnet_receipt_for E S (hello_hash E) (sentinel_hash E (hello_hash E) 42) (10 ^ 12)"
    using pre by (simp add: devnet_preauth_is)
  have nines: "ox @ ?nines = hex0x ?nb"
    by (simp add: hex0x_def to_hex_nines del: replicate_Suc)
  define t where "t = devnet_receipt_for E S ?nb (sentinel_hash E (hello_hash E) 42) (10 ^ 12)"
  have t: "pre\<lparr>rc_prompt_hash := JStr (ox @ ?nines)\<rparr> = t"
    unfolding nines by (simp add: p t_def devnet_receipt_for_def)
  have "\<exists>b. devnet_verify E S t (JStr sig) = Inr b"
    unfolding t_def by (rule devnet_checked [OF ok _ len(2) _ _ sig]) simp_all
  then obtain b where b: "devnet_verify E S t (JStr sig) = Inr b" ..
  have other: "hex0x ?nb \<noteq> hex0x (hello_hash E)"
    using ok devnet_hashes(1) [of E] by (auto simp: devnet_ready_def nines)
  let ?d = "devnet_paid E S f 5"
  have read: "devnet_receipt (devnet_request E S t sig) = Inr t"
    by (simp add: devnet_receipt_def devnet_request_def devnet_receipt_read t_def)
  have fields: "jkey (devnet_request E S t sig) (lit ''budget'') = Inr (JInt (10 ^ 15))"
    "jkey (devnet_request E S t sig) (lit ''user_signature'') = Inr (JStr sig)"
    "jkey (devnet_request E S t sig) (lit ''prompt'') = Inr (JStr (lit ''hello''))"
    by (simp_all add: devnet_request_def)
  have rc: "rc_miner t = JStr (key_address E (ds_miner S))" "rc_user t = JStr (key_address E (ds_user S))"
    "rc_prompt_hash t = JStr (hex0x ?nb)"
    by (simp_all add: t_def devnet_receipt_for_def)
  have "dict_get_or (dv_balances d) (lower (key_address E (ds_user S))) 0 = 10 ^ 18 - devnet_charge"
    if "dv_balances d = dv_balances ?d" for d :: devnet
    using that by (simp add: devnet_paid_def dict_get_or_def)
  then have refused: "devnet_infer E S d (devnet_request E S t sig) =
      Inr (miner_says (if b then ''prompt hash mismatch'' else ''bad signature''))" if "dv_balances d = dv_balances ?d" for d
    using that other
    by (simp add: devnet_infer_def read fields rc b devnet_hashes PRICE_PER_REQUEST_def PRICE_PER_BYTE_def del: rbind_Inr_iff)
  have target: "jget (devnet_request E S t sig) (lit ''target_miner'') JNull = Inr (JStr (key_address E (ds_miner S)))"
    by (simp add: devnet_request_def dict_get_or_def)
  have d: "dv_index ?d = devnet_listed E S" "dv_inflight ?d = 0" "dv_bucket ?d = (1700000000, 5)"
    by (simp_all add: devnet_paid_def)
  have "devnet_proxied E S order ''/infer'' (devnet_request E S t sig) ?d =
      (devnet_paid E S f 6, Inr (200, miner_says (if b then ''prompt hash mismatch'' else ''bad signature'')))"
    by (simp add: devnet_forwards [OF ok target d] devnet_dials [OF ok] refused)
      (simp add: devnet_paid_def devnet_after_def devnet_start_def)
  then show ?thesis
    unfolding devnet_tampering_def Let_def t
    by (simp add: http_json_def miner_says_def)
qed

section \<open>An epoch\<close>

lemma devnet_leaf_root:
  assumes "devnet_ready E order S" and "0 \<le> x" and "x < 2 ^ 256"
  obtains h where "leaf_hash E (row_leaf DEVNET_BRAIN (key_address E (ds_miner S), x)) = Inr h" and "length h = 32"
    and "build_merkle_root E [row_leaf DEVNET_BRAIN (key_address E (ds_miner S), x)] = Inr (h, [h])"
proof -
  have "list_all (abi_in_range E) [AUint 256 DEVNET_BRAIN, AAddress (key_address E (ds_miner S)), AUint 256 x]"
    using assms ready_laws(2) [OF assms(1)] by (simp add: DEVNET_BRAIN_def)
  from ready_laws(4) [OF assms(1) this] obtain enc
    where "abi_encode E [AUint 256 DEVNET_BRAIN, AAddress (key_address E (ds_miner S)), AUint 256 x] = Inr enc" ..
  then have leaf: "leaf_hash E (row_leaf DEVNET_BRAIN (key_address E (ds_miner S), x)) = Inr (keccak E (keccak E enc))"
    by (simp add: leaf_hash_def row_leaf_def)
  then show ?thesis
    using ready_laws(5) [OF assms(1)]
    by (intro that) (simp_all add: build_merkle_root_def sorted_hashes_def climb.simps)
qed

lemma devnet_commit_digest:
  assumes "devnet_ready E order S" and "length h = 32"
  obtains d where "commitment_digest E DEVNET_CHAIN (ds_scoring S) 1 DEVNET_BRAIN (RBytes h) = Inr d"
    and "commitment_digest E DEVNET_CHAIN (ds_scoring S) 1 DEVNET_BRAIN (RStr (hex0x h)) = Inr d"
proof -
  obtain registry where r: "checksum E (ds_scoring S) = Inr registry" using assms(1) by (auto simp: devnet_ready_def)
  moreover have "checksum E registry = Inr registry"
    using assms(1) r by (auto simp: devnet_ready_def checksum_canonical_def checksum_def)
  ultimately have "list_all (abi_in_range E) (commitment_fields E DEVNET_CHAIN registry 1 DEVNET_BRAIN h)"
    using assms ready_laws(5) [OF assms(1)] by (simp add: commitment_fields_def DOMAIN_TAG_def DEVNET_CHAIN_def DEVNET_BRAIN_def)
  from ready_laws(4) [OF assms(1) this] show ?thesis
    using r assms(2) that by (auto simp: commitment_digest_def)
qed

lemma devnet_stake [simp]:
  "stake_of (devnet_stakes E S) b (key_address E (ds_v1 S)) = 3000" "stake_of (devnet_stakes E S) b (key_address E (ds_v2 S)) = 3000"
  "total_stake (devnet_stakes E S) b = 10000" "propose_fn (devnet_stakes E S) c = Inr (lit ''0xdevnet'')"
  by (simp_all add: devnet_stakes_def dict_get_or_def)

definition devnet_row :: "ethlib \<Rightarrow> devnet_setup \<Rightarrow> int \<Rightarrow> json" where
  "devnet_row E S x = JObj [(lit ''miner'', JStr (key_address E (ds_miner S))), (lit ''score'', JInt x)]"

lemma devnet_candidate_read:
  assumes ok: "devnet_ready E order S" and "0 \<le> x" and "x < 2 ^ 256"
  shows "\<exists>body. devnet_candidate E S key x = Inr body
    \<and> read_candidate E (fst (devnet_aggregator rep S)) (Some body) =
         Inr (1, DEVNET_BRAIN, key_address E key, [devnet_row E S x], key_address E key)"
proof -
  obtain h where h: "length h = 32" "build_merkle_root E [row_leaf DEVNET_BRAIN (key_address E (ds_miner S), x)] = Inr (h, [h])"
    by (rule devnet_leaf_root [OF assms])
  obtain d where d: "commitment_digest E DEVNET_CHAIN (ds_scoring S) 1 DEVNET_BRAIN (RBytes h) = Inr d"
      "commitment_digest E DEVNET_CHAIN (ds_scoring S) 1 DEVNET_BRAIN (RStr (hex0x h)) = Inr d"
    by (rule devnet_commit_digest [OF ok h(1)])
  have leaf: "row_leaf DEVNET_BRAIN (key_address E (ds_miner S), x) =
      \<lparr>leaf_brain_id = DEVNET_BRAIN, leaf_miner = key_address E (ds_miner S), leaf_score = x\<rparr>" by (simp add: row_leaf_def)
  show ?thesis
    using h(2) d ready_laws(1) [OF ok]
    by (simp add: devnet_candidate_def leaf sign_commitment_def flip: hex0x_def)
      (simp add: read_candidate_def request_json_def field_int_def field_str_def submitted_leaf_def recover_commitment_signer_def
        devnet_aggregator_def aggregator_command_def devnet_row_def)
qed

lemma devnet_rows_normal:
  assumes "devnet_ready E order S" and "0 \<le> x" and "x \<le> 1000000"
  shows "normalize_rows E [] [devnet_row E S x] = Inr [(key_address E (ds_miner S), x)]"
  using assms ready_laws(3) [OF assms(1)] by (simp add: devnet_row_def)

abbreviation devnet_votes :: "ethlib \<Rightarrow> devnet_setup \<Rightarrow> (pystr, score_map) dict" where
  "devnet_votes E S \<equiv> [(key_address E (ds_v1 S), [(key_address E (ds_miner S), 100)]),
     (key_address E (ds_v2 S), [(key_address E (ds_miner S), 300)])]"

lemma devnet_canonical:
  "canonical_rows (devnet_stakes E S) DEVNET_BRAIN 5001 (devnet_votes E S) = [(key_address E (ds_miner S), 100)]"
proof -
  have "weighted_votes (devnet_stakes E S) DEVNET_BRAIN (devnet_votes E S) (key_address E (ds_miner S)) = [(100, 3000), (300, 3000)]"
    by (simp add: weighted_votes_def votes_of_def)
  then show ?thesis
    by (simp add: canonical_rows_def scored_miners_def median_row_def List.map_filter_simps)
qed

lemma devnet_distinct:
  assumes "devnet_ready E order S"
  shows "key_address E (ds_v1 S) \<noteq> key_address E (ds_v2 S)" "lower (key_address E (ds_v1 S)) \<noteq> lower (key_address E (ds_v2 S))"
  using assms by (auto simp: devnet_ready_def)

lemma devnet_first_candidate:
  assumes ok: "devnet_ready E order S"
  shows "pool_add E MIN_QUORUM_BPS (devnet_stakes E S) new_pool 1 DEVNET_BRAIN (key_address E (ds_v1 S)) [devnet_row E S 100] =
    (\<lparr>contributions = [((1, DEVNET_BRAIN), [(key_address E (ds_v1 S), [(key_address E (ds_miner S), 100)])])], frozen = []\<rparr>, Inr None)"
  using devnet_rows_normal [OF ok, of 100] ready_laws(2) [OF ok]
  by (simp add: pool_add_def new_pool_def setdefault_def contributed_stake_def pool_need_def quorum_need_def MIN_QUORUM_BPS_def
      dict_get_or_def Let_def del: normalize_rows.simps)

lemma devnet_second_candidate:
  assumes ok: "devnet_ready E order S"
    and "build_merkle_root E [row_leaf DEVNET_BRAIN (key_address E (ds_miner S), 100)] = Inr (h, [h])"
  shows "\<exists>p. pool_add E MIN_QUORUM_BPS (devnet_stakes E S)
      \<lparr>contributions = [((1, DEVNET_BRAIN), [(key_address E (ds_v1 S), [(key_address E (ds_miner S), 100)])])], frozen = []\<rparr>
      1 DEVNET_BRAIN (key_address E (ds_v2 S)) [devnet_row E S 300] = (p, Inr (Some (hex0x h, [(key_address E (ds_miner S), 100)])))"
  using devnet_rows_normal [OF ok, of 300] ready_laws(2) [OF ok] devnet_distinct(1) [OF ok] assms(2)
  by (simp add: pool_add_def setdefault_def contributed_stake_def pool_need_def quorum_need_def MIN_QUORUM_BPS_def
      dict_get_or_def Let_def devnet_canonical freeze_def hex0x_def del: normalize_rows.simps)

lemma devnet_posted:
  assumes ok: "devnet_ready E order S" and h: "length h = 32" and "recovered = key_address E key"
  shows "\<exists>body sig. devnet_commitment E S (JStr (hex0x h)) signer key = Inr body
    \<and> read_commitment cfg (Some body) = Inr (1, DEVNET_BRAIN, hex0x h, signer, sig)
    \<and> recover_commitment_signer E DEVNET_CHAIN (ds_scoring S) 1 DEVNET_BRAIN (RStr (hex0x h)) sig = Inr recovered"
proof -
  obtain d where d: "commitment_digest E DEVNET_CHAIN (ds_scoring S) 1 DEVNET_BRAIN (RStr (hex0x h)) = Inr d"
    by (rule devnet_commit_digest [OF ok h])
  show ?thesis
    using d ready_laws(1) [OF ok] assms(3)
    by (simp add: devnet_commitment_def sign_commitment_def read_commitment_def request_json_def field_int_def field_str_def
        recover_commitment_signer_def)
qed

abbreviation devnet_cfg :: "devnet_setup \<Rightarrow> agg_config" where
  "devnet_cfg S \<equiv> \<lparr>chain_id = DEVNET_CHAIN, scoring_registry = ds_scoring S, min_quorum_bps = MIN_QUORUM_BPS\<rparr>"

lemma devnet_service [simp]:
  "agg_cfg (fst (devnet_aggregator rep S)) = devnet_cfg S" "pool_bps (fst (devnet_aggregator rep S)) = MIN_QUORUM_BPS"
  "snd (devnet_aggregator rep S) = \<lparr>agg = new_aggregator, pool = Some new_pool\<rparr>"
  by (simp_all add: devnet_aggregator_def aggregator_command_def new_service_def)

lemma http_ok [simp]: "http_status (Inr (n, j)) = n" "http_json (Inr (n, j)) = Inr j"
  by (simp_all add: http_status_def http_json_def)

lemma devnet_forged:
  assumes ok: "devnet_ready E order S" and h: "length h = 32"
  shows "devnet_commit E rep S 401 (JStr (hex0x h)) (key_address E (ds_v2 S)) (ds_v1 S) (s, []) = Inr (s, [])"
proof -
  obtain body sig where b: "devnet_commitment E S (JStr (hex0x h)) (key_address E (ds_v2 S)) (ds_v1 S) = Inr body"
    "read_commitment (fst (devnet_aggregator rep S)) (Some body) = Inr (1, DEVNET_BRAIN, hex0x h, key_address E (ds_v2 S), sig)"
    "recover_commitment_signer E DEVNET_CHAIN (ds_scoring S) 1 DEVNET_BRAIN (RStr (hex0x h)) sig = Inr (key_address E (ds_v1 S))"
    using devnet_posted [OF ok h refl] by blast
  then show ?thesis
    using devnet_distinct(2) [OF ok]
    by (simp add: devnet_commit_def commitments_def add_commitment_def error_response_def)
qed

lemma devnet_first_commitment:
  assumes ok: "devnet_ready E order S" and h: "length h = 32" and "agg s = new_aggregator"
  shows "\<exists>sig. devnet_commit E rep S 200 (JStr (hex0x h)) (key_address E (ds_v1 S)) (ds_v1 S) (s, []) =
    Inr (s\<lparr>agg := \<lparr>pending = [((1, DEVNET_BRAIN, hex0x h), [(key_address E (ds_v1 S), sig)])], proposed = {}\<rparr>\<rparr>, [])"
proof -
  obtain body sig where b: "devnet_commitment E S (JStr (hex0x h)) (key_address E (ds_v1 S)) (ds_v1 S) = Inr body"
    "read_commitment (fst (devnet_aggregator rep S)) (Some body) = Inr (1, DEVNET_BRAIN, hex0x h, key_address E (ds_v1 S), sig)"
    "recover_commitment_signer E DEVNET_CHAIN (ds_scoring S) 1 DEVNET_BRAIN (RStr (hex0x h)) sig = Inr (key_address E (ds_v1 S))"
    using devnet_posted [OF ok h refl] by blast
  let ?a = "\<lparr>pending = [((1, DEVNET_BRAIN, hex0x h), [(key_address E (ds_v1 S), with_0x sig)])], proposed = {}\<rparr>"
  have added: "add_commitment E (devnet_cfg S) (agg s) 1 DEVNET_BRAIN (RStr (hex0x h)) (key_address E (ds_v1 S)) sig = (?a, Inr True)"
    using b(3) ready_laws(2) [OF ok] assms(3)
    by (simp add: add_commitment_def new_aggregator_def Let_def setdefault_def dict_get_or_def)
  have low: "\<not> quorum_met (devnet_cfg S) (devnet_stakes E S) ?a 1 DEVNET_BRAIN (RStr (hex0x h))"
    by (simp add: quorum_met_def backing_stake_def signers_for_def dict_get_or_def quorum_need_def MIN_QUORUM_BPS_def)
  moreover have "best_root (devnet_stakes E S) ?a 1 DEVNET_BRAIN = Some (hex0x h)"
    by (simp add: best_root_def epoch_roots_def)
  ultimately have "try_propose (devnet_cfg S) (devnet_stakes E S) ?a 1 DEVNET_BRAIN = (?a, None, Inr None)"
    by (simp add: try_propose_def)
  then show ?thesis
    using b added low by (intro exI [of _ "with_0x sig"]) (simp add: devnet_commit_def commitments_def commitment_response_def)
qed

lemma devnet_second_commitment:
  assumes ok: "devnet_ready E order S" and h: "length h = 32"
    and s: "agg s = \<lparr>pending = [((1, DEVNET_BRAIN, hex0x h), [(key_address E (ds_v1 S), sig1)])], proposed = {}\<rparr>"
  shows "\<exists>s' signers sigs. devnet_commit E rep S 200 (JStr (hex0x h)) (key_address E (ds_v2 S)) (ds_v2 S) (s, []) =
      Inr (s', [(1, DEVNET_BRAIN, h, signers, sigs)]) \<and> set signers = {key_address E (ds_v1 S), key_address E (ds_v2 S)}"
proof -
  let ?a1 = "key_address E (ds_v1 S)" and ?a2 = "key_address E (ds_v2 S)"
  obtain body sig where b: "devnet_commitment E S (JStr (hex0x h)) ?a2 (ds_v2 S) = Inr body"
    "read_commitment (fst (devnet_aggregator rep S)) (Some body) = Inr (1, DEVNET_BRAIN, hex0x h, ?a2, sig)"
    "recover_commitment_signer E DEVNET_CHAIN (ds_scoring S) 1 DEVNET_BRAIN (RStr (hex0x h)) sig = Inr ?a2"
    using devnet_posted [OF ok h refl] by blast
  let ?a = "\<lparr>pending = [((1, DEVNET_BRAIN, hex0x h), [(?a1, sig1), (?a2, with_0x sig)])], proposed = {}\<rparr>"
  have added: "add_commitment E (devnet_cfg S) (agg s) 1 DEVNET_BRAIN (RStr (hex0x h)) ?a2 sig = (?a, Inr True)"
    using b(3) ready_laws(2) [OF ok] devnet_distinct(1) [OF ok]
    by (simp add: s add_commitment_def Let_def setdefault_def dict_get_or_def)
  have keys: "dict_keys (signers_for ?a 1 DEVNET_BRAIN (RStr (hex0x h))) = [?a1, ?a2]"
    by (simp add: signers_for_def dict_get_or_def)
  have met: "quorum_met (devnet_cfg S) (devnet_stakes E S) a' 1 DEVNET_BRAIN (RStr (hex0x h))"
    if "agg_state.pending a' = agg_state.pending ?a" for a' :: agg_state
    using that by (simp add: quorum_met_def backing_stake_def signers_for_def dict_get_or_def quorum_need_def MIN_QUORUM_BPS_def)
  have best: "best_root (devnet_stakes E S) ?a 1 DEVNET_BRAIN = Some (hex0x h)"
    by (simp add: best_root_def epoch_roots_def)
  obtain n1 n2 where nums: "py_int_text 16 ?a1 = Inr n1" "py_int_text 16 ?a2 = Inr n2"
    using ok ready_laws(3) [OF ok] by (meson devnet_ready_def checksum_canonical_def)
  obtain signers sigs where asm: "assemble ?a 1 DEVNET_BRAIN (RStr (hex0x h)) = Inr (signers, sigs)"
    by (simp add: assemble_def keys nums Let_def)
  have signers: "set signers = {?a1, ?a2}"
    using mset_eq_setD [OF assemble_sorted(1) [OF asm]] keys by (simp add: keys)
  let ?c = "(1, DEVNET_BRAIN, h, signers, sigs)"
  have "fromhex (drop 2 (hex0x h)) = Inr h" by simp
  then have "try_propose (devnet_cfg S) (devnet_stakes E S) ?a 1 DEVNET_BRAIN =
      (?a\<lparr>proposed := {(1, DEVNET_BRAIN)}\<rparr>, Some ?c, Inr (Some (lit ''0xdevnet'')))"
    using met [of ?a] asm by (simp add: try_propose_def best)
  then show ?thesis
    using b added met [of "?a\<lparr>proposed := {(1, DEVNET_BRAIN)}\<rparr>"] signers
    by (simp add: devnet_commit_def commitments_def commitment_response_def)
qed

lemma epoch_passes:
  assumes ok: "devnet_ready E order S"
  shows "\<exists>h signers sigs. devnet_epoch E rep S = Inr [(1, DEVNET_BRAIN, h, signers, sigs)]
    \<and> leaf_hash E (row_leaf DEVNET_BRAIN (key_address E (ds_miner S), 100)) = Inr h
    \<and> set signers = {key_address E (ds_v1 S), key_address E (ds_v2 S)}"
proof -
  let ?cfg = "fst (devnet_aggregator rep S)" and ?cv = "devnet_stakes E S"
  obtain h where h: "leaf_hash E (row_leaf DEVNET_BRAIN (key_address E (ds_miner S), 100)) = Inr h" "length h = 32"
    "build_merkle_root E [row_leaf DEVNET_BRAIN (key_address E (ds_miner S), 100)] = Inr (h, [h])"
    by (rule devnet_leaf_root [OF ok, of 100]) simp_all
  obtain c1 where c1: "devnet_candidate E S (ds_v1 S) 100 = Inr c1"
    "read_candidate E ?cfg (Some c1) = Inr (1, DEVNET_BRAIN, key_address E (ds_v1 S), [devnet_row E S 100], key_address E (ds_v1 S))"
    using devnet_candidate_read [OF ok, of 100] by auto
  obtain c2 where c2: "devnet_candidate E S (ds_v2 S) 300 = Inr c2"
    "read_candidate E ?cfg (Some c2) = Inr (1, DEVNET_BRAIN, key_address E (ds_v2 S), [devnet_row E S 300], key_address E (ds_v2 S))"
    using devnet_candidate_read [OF ok, of 300] by auto
  obtain p where p: "pool_add E MIN_QUORUM_BPS ?cv
      \<lparr>contributions = [((1, DEVNET_BRAIN), [(key_address E (ds_v1 S), [(key_address E (ds_miner S), 100)])])], frozen = []\<rparr>
      1 DEVNET_BRAIN (key_address E (ds_v2 S)) [devnet_row E S 300] = (p, Inr (Some (hex0x h, [(key_address E (ds_miner S), 100)])))"
    using devnet_second_candidate [OF ok h(3)] by blast
  define s1 where "s1 = \<lparr>agg = new_aggregator, pool = Some \<lparr>contributions =
      [((1, DEVNET_BRAIN), [(key_address E (ds_v1 S), [(key_address E (ds_miner S), 100)])])], frozen = []\<rparr>\<rparr>"
  define s2 where "s2 = \<lparr>agg = new_aggregator, pool = Some p\<rparr>"
  have first: "submit_candidate E ?cfg ?cv (snd (devnet_aggregator rep S)) (Some c1) = (s1, Inr (candidate_response None))"
    using c1(2) devnet_first_candidate [OF ok] by (simp add: submit_candidate_def s1_def)
  have second: "submit_candidate E ?cfg ?cv s1 (Some c2) = (s2, Inr (candidate_response (Some (hex0x h, [(key_address E (ds_miner S), 100)]))))"
    using c2(2) p by (simp add: submit_candidate_def s1_def s2_def)
  obtain sig1 where v1: "devnet_commit E rep S 200 (JStr (hex0x h)) (key_address E (ds_v1 S)) (ds_v1 S) (s2, []) =
    Inr (s2\<lparr>agg := \<lparr>pending = [((1, DEVNET_BRAIN, hex0x h), [(key_address E (ds_v1 S), sig1)])], proposed = {}\<rparr>\<rparr>, [])"
    using devnet_first_commitment [OF ok h(2), of s2] by (auto simp: s2_def)
  obtain s3 signers sigs where v2: "devnet_commit E rep S 200 (JStr (hex0x h)) (key_address E (ds_v2 S)) (ds_v2 S)
      (s2\<lparr>agg := \<lparr>pending = [((1, DEVNET_BRAIN, hex0x h), [(key_address E (ds_v1 S), sig1)])], proposed = {}\<rparr>\<rparr>, []) =
      Inr (s3, [(1, DEVNET_BRAIN, h, signers, sigs)])" "set signers = {key_address E (ds_v1 S), key_address E (ds_v2 S)}"
    using devnet_second_commitment [OF ok h(2), of "s2\<lparr>agg := \<lparr>pending = [((1, DEVNET_BRAIN, hex0x h),
      [(key_address E (ds_v1 S), sig1)])], proposed = {}\<rparr>\<rparr>" sig1 rep] by auto
  have "devnet_epoch E rep S = Inr [(1, DEVNET_BRAIN, h, signers, sigs)]"
    unfolding devnet_epoch_def Let_def
    by (simp add: c1(1) first candidate_response_def del: devnet_service)
      (simp add: c2(1) second candidate_response_def devnet_forged [OF ok h(2)] v1 v2(1) del: devnet_service)
  with h(1) v2(2) show ?thesis by blast
qed

section \<open>The restart\<close>

lemma restart_passes: "devnet_restart E S = Inr ()"
  by (simp add: devnet_restart_def cursor_events_def save_state_def state_json_def cursor_value_def dict_get_or_def devnet_member_def
      replace_membership_def event_fields_def is_miner_def apply_event_def new_index_def Let_def)

section \<open>Properties\<close>

text \<open>
  C35. The smoke test passes, whatever keys, addresses and URL it runs with: on libraries that keep their
  documented laws, every assertion of the script holds in order. A stranger's announcement is
  refused and the miner's listed; the inference goes through gateway and miner and its settlement
  charges the user the metered price once; the tampered receipt is refused; the two candidates
  freeze the lower median, a forged commitment is refused, and the two validators' commitments
  submit one proposal with the root of the canonical row, signed by both; the restart rebuilds
  the membership.
\<close>
theorem devnet_script_passes:
  assumes "devnet_ready E order S"
  shows "\<exists>d h signers sigs. devnet_main E rep num order S = Inr (d, [(1, DEVNET_BRAIN, h, signers, sigs)])
    \<and> dv_balances d = [(lower (key_address E (ds_user S)), 10 ^ 18 - 220)] \<and> length (dv_settled d) = 1 \<and> dv_inflight d = 0
    \<and> leaf_hash E (row_leaf DEVNET_BRAIN (key_address E (ds_miner S), 100)) = Inr h
    \<and> set signers = {key_address E (ds_v1 S), key_address E (ds_v2 S)}"
proof -
  obtain h signers sigs where epoch: "devnet_epoch E rep S = Inr [(1, DEVNET_BRAIN, h, signers, sigs)]"
    "leaf_hash E (row_leaf DEVNET_BRAIN (key_address E (ds_miner S), 100)) = Inr h"
    "set signers = {key_address E (ds_v1 S), key_address E (ds_v2 S)}"
    using epoch_passes [OF assms] by blast
  define pre where "pre = devnet_receipt_for E S (hello_hash E) (sentinel_hash E (hello_hash E) 42) (10 ^ 12)"
  have pre: "devnet_preauth E S = Inr pre" by (simp add: pre_def devnet_preauth_is)
  have "length (hello_hash E) = 32" "length (sentinel_hash E (hello_hash E) 42) = 32"
    using ready_laws(5) [OF assms] by (simp_all add: hello_hash_def sentinel_hash_def)
  then obtain sig where sig: "devnet_sign E S pre = Inr sig"
    using devnet_signed [OF assms, of "hello_hash E" "sentinel_hash E (hello_hash E) 42" "10 ^ 12"] by (auto simp: pre_def)
  have "devnet_main E rep num order S = Inr (devnet_paid E S (devnet_final E S) 6, [(1, DEVNET_BRAIN, h, signers, sigs)])"
    using inference_passes [OF assms pre sig] tampering_passes [OF assms pre sig]
    by (simp add: devnet_main_def discovery_passes [OF assms] pre sig epoch(1) restart_passes del: rbind_Inr_iff)
  with epoch(2,3) show ?thesis
    by (simp add: devnet_paid_def PRICE_PER_REQUEST_def PRICE_PER_BYTE_def)
qed

definition demo_setup :: devnet_setup where
  "demo_setup = \<lparr>ds_market = hex0x [51], ds_scoring = hex0x [171], ds_user = [1], ds_miner = [2], ds_v1 = [3], ds_v2 = [4],
     ds_other = [5], ds_url = lit ''http://m'', ds_clock = 1700000000\<rparr>"

lemma zero_neq_numeral_byte: "(0 :: byte) \<noteq> 153"
  by simp

lemma demo_setup_ready: "devnet_ready demo_eth sorted_list_of_set demo_setup"
proof -
  have "signatures_recover demo_eth"
    by (auto simp: signatures_recover_def demo_recover_def strip_0x_def)
  moreover have "text_hash demo_eth (lit ''hello'') \<noteq> Inr (ox @ concat (replicate 32 (lit ''99'')))"
  proof -
    have "hd (hello_hash demo_eth) = 0" "hd (replicate 32 (153 :: byte)) = 153"
      by (simp_all add: hello_hash_def demo_hash_def)
    then have "hello_hash demo_eth \<noteq> replicate 32 153" by (metis (mono_tags) zero_neq_numeral_byte)
    then show ?thesis
      using devnet_hashes(1) [of demo_eth] to_hex_nines [of 32] by (auto simp flip: to_hex_nines simp: hex0x_def)
  qed
  moreover have "\<exists>bs. utf8_encode (lit ''http://m'') = Inr bs"
    by (simp add: lit_def utf8_encode_def utf8_char_def)
  ultimately show ?thesis
    using demo_libraries demo_checksum_canonical sorted_list_enumerates
    by (simp add: devnet_ready_def demo_setup_def demo_key_def) (simp add: rstrip_slash_def lit_def)
qed

theorem devnet_script_passes_witness:
  "\<exists>d proposals. devnet_main demo_eth (\<lambda>_. []) (\<lambda>_. JInt 0) sorted_list_of_set demo_setup = Inr (d, proposals)
     \<and> dv_balances d = [(hex0x [1], 999999999999999780)]"
  using devnet_script_passes [OF demo_setup_ready, of "\<lambda>_. []" "\<lambda>_. JInt 0"]
  by (auto simp: demo_setup_def demo_key_def)

end
