(* ===== verification/GatewayApp.thy ===== *)
theory GatewayApp imports Gateway
begin

text \<open>
  The HTTP face of \<open>gateway/src/basedai_gateway/server.py\<close>: the routes \<open>make_app\<close> adds, the rate limiter in
  front of them per address, and the closures that read the Brain's number and the body before they
  call the handlers of theory Gateway. A request carries the outcome of \<open>request.json()\<close>, in which the
  framework's size limit and its decoder are already decided; a proxied request is answered in a
  second event. The text of a score in a listing is an argument.
\<close>

section \<open>Routes\<close>

definition DEFAULT_MAX_INFLIGHT :: int where "DEFAULT_MAX_INFLIGHT = 64"

definition DEFAULT_RATE_LIMIT :: int where "DEFAULT_RATE_LIMIT = 240"

definition RATE_WINDOW :: int where "RATE_WINDOW = 60"

datatype gw_route = ListMiners | Announce | Infer | Settle | Scores

text \<open>\<open>add_get\<close> serves \<open>HEAD\<close> as well.\<close>

definition gw_routes :: "(pystr \<times> pystr, gw_route) dict" where
  "gw_routes =
     [((lit ''GET'', lit ''/miners''), ListMiners), ((lit ''HEAD'', lit ''/miners''), ListMiners),
      ((lit ''POST'', lit ''/announce''), Announce), ((lit ''POST'', lit ''/infer''), Infer),
      ((lit ''POST'', lit ''/settle''), Settle), ((lit ''POST'', lit ''/scores''), Scores)]"

text \<open>A path \<open>/brains/{id}/...\<close>: the identifier is one segment without braces.\<close>

definition brain_path :: "pystr \<Rightarrow> (pystr \<times> pystr) option" where
  "brain_path path =
     (if \<not> startswith path (lit ''/brains/'') then None
      else let rest = drop 8 path; b = takeWhile (\<lambda>c. c \<noteq> 47) rest
           in if b = [] \<or> 123 \<in> set b \<or> 125 \<in> set b then None
              else Some (b, dropWhile (\<lambda>c. c \<noteq> 47) rest))"

definition resolve_route :: "pystr \<Rightarrow> pystr \<Rightarrow> nat + (gw_route \<times> pystr)" where
  "resolve_route method path =
     (case brain_path path of
        None \<Rightarrow> Inl 404
      | Some (b, action) \<Rightarrow>
          (case dict_get gw_routes (method, action) of
             Some r \<Rightarrow> Inr (r, b)
           | None \<Rightarrow> Inl (if action \<in> set (map snd (dict_keys gw_routes)) then 405 else 404)))"

section \<open>Requests\<close>

record gw_config =
  gc_max_inflight :: int
  gc_rate_limit :: int
  gc_rate_window :: int

definition gw_defaults :: gw_config where
  "gw_defaults = \<lparr>gc_max_inflight = DEFAULT_MAX_INFLIGHT, gc_rate_limit = DEFAULT_RATE_LIMIT, gc_rate_window = RATE_WINDOW\<rparr>"

record gw_request =
  gr_remote :: "pystr option"
  gr_method :: pystr
  gr_path :: pystr
  gr_json :: "json res"

record gateway_app =
  ga_gateway :: gateway
  ga_hits :: "pystr \<Rightarrow> int \<times> int"

definition new_app :: "int \<Rightarrow> gateway_app" where
  "new_app endpoint_ttl = \<lparr>ga_gateway = new_gateway endpoint_ttl, ga_hits = (\<lambda>_. (0, 0))\<rparr>"

text \<open>What a handler comes to: an answer or an escaping exception, or a dial with its path and body.\<close>

datatype gw_outcome = Answer "reply res" | Dial pystr pystr json

definition miners_json :: "(real \<Rightarrow> json) \<Rightarrow> (pystr \<times> pystr \<times> real) list \<Rightarrow> json" where
  "miners_json num ms =
     JList (map (\<lambda>(a, url, sc). JObj [(lit ''address'', JStr a), (lit ''url'', JStr url), (lit ''score'', num sc)]) ms)"

definition list_miners_route :: "(real \<Rightarrow> json) \<Rightarrow> moment \<Rightarrow> gateway \<Rightarrow> pystr \<Rightarrow> reply res" where
  "list_miners_route num mo g brain_text =
     rbind (py_int_text 10 brain_text) (\<lambda>b. Inr (200, miners_json num (miners_of (set_order mo) (ix g) b (Some (now mo)))))"

definition read_request :: "pystr \<Rightarrow> json res \<Rightarrow> (int \<times> json) res" where
  "read_request brain_text body = rbind (py_int_text 10 brain_text) (\<lambda>b. rbind body (\<lambda>j. Inr (b, j)))"

definition announce_route ::
    "ethlib \<Rightarrow> (json \<Rightarrow> pystr) \<Rightarrow> moment \<Rightarrow> gateway \<Rightarrow> pystr \<Rightarrow> json res \<Rightarrow> gateway \<times> gw_outcome" where
  "announce_route E rep mo g brain_text body =
     (case read_request brain_text body of
        Inl e \<Rightarrow> (g, Answer (Inl e))
      | Inr (b, j) \<Rightarrow> (case announce E rep mo (ix g) b j of (mi, r) \<Rightarrow> (g\<lparr>ix := mi\<rparr>, Answer r)))"

definition proxy_route :: "gw_config \<Rightarrow> moment \<Rightarrow> gateway \<Rightarrow> pystr \<Rightarrow> pystr \<Rightarrow> json res \<Rightarrow> gateway \<times> gw_outcome" where
  "proxy_route cfg mo g path brain_text body =
     (case read_request brain_text body of
        Inl e \<Rightarrow> (g, Answer (Inl e))
      | Inr (b, j) \<Rightarrow>
          (case proxy_begin (gc_max_inflight cfg) mo (ix g) (inflight g) b j of
             (n, Inl e) \<Rightarrow> (g\<lparr>inflight := n\<rparr>, Answer (Inl e))
           | (n, Inr (Answered r)) \<Rightarrow> (g\<lparr>inflight := n\<rparr>, Answer (Inr r))
           | (n, Inr (Dialled url)) \<Rightarrow>
               (g\<lparr>inflight := n, dialling := add_mset url (dialling g)\<rparr>, Dial url path j)))"

definition scores_route :: "ethlib \<Rightarrow> score_verifier option \<Rightarrow> gateway \<Rightarrow> pystr \<Rightarrow> json res \<Rightarrow> gateway \<times> gw_outcome" where
  "scores_route E verify g brain_text body =
     (if verify = None then (g, Answer (Inr (reply_error 503 (lit ''scoring not configured''))))
      else case read_request brain_text body of
        Inl e \<Rightarrow> (g, Answer (Inl e))
      | Inr (b, j) \<Rightarrow> (case submit_scores E verify (ix g) b j of (mi, r) \<Rightarrow> (g\<lparr>ix := mi\<rparr>, Answer r)))"

definition handle_route ::
    "ethlib \<Rightarrow> (json \<Rightarrow> pystr) \<Rightarrow> (real \<Rightarrow> json) \<Rightarrow> gw_config \<Rightarrow> score_verifier option \<Rightarrow> moment \<Rightarrow> gateway \<Rightarrow> gw_request
       \<Rightarrow> gateway \<times> gw_outcome" where
  "handle_route E rep num cfg verify mo g q =
     (case resolve_route (gr_method q) (gr_path q) of
        Inl status \<Rightarrow> (g, Answer (Inr (status, JNull)))
      | Inr (ListMiners, b) \<Rightarrow> (g, Answer (list_miners_route num mo g b))
      | Inr (Announce, b) \<Rightarrow> announce_route E rep mo g b (gr_json q)
      | Inr (Infer, b) \<Rightarrow> proxy_route cfg mo g (lit ''/infer'') b (gr_json q)
      | Inr (Settle, b) \<Rightarrow> proxy_route cfg mo g (lit ''/settle'') b (gr_json q)
      | Inr (Scores, b) \<Rightarrow> scores_route E verify g b (gr_json q))"

text \<open>The middleware counts per address, requests without a route included.\<close>

definition app_request ::
    "ethlib \<Rightarrow> (json \<Rightarrow> pystr) \<Rightarrow> (real \<Rightarrow> json) \<Rightarrow> gw_config \<Rightarrow> score_verifier option \<Rightarrow> moment \<Rightarrow> gateway_app \<Rightarrow> gw_request
       \<Rightarrow> gateway_app \<times> gw_outcome" where
  "app_request E rep num cfg verify mo s q =
     (let ip = (case gr_remote q of None \<Rightarrow> lit ''unknown'' | Some a \<Rightarrow> if a = [] then lit ''unknown'' else a)
      in case rate_limit_mw (gc_rate_limit cfg) (gc_rate_window cfg) (now mo) (ga_hits s ip) of
           (bucket, admitted) \<Rightarrow>
             let s' = s\<lparr>ga_hits := (ga_hits s)(ip := bucket)\<rparr>
             in if \<not> admitted then (s', Answer (Inr (reply_error 429 (lit ''rate limit exceeded''))))
                else case handle_route E rep num cfg verify mo (ga_gateway s) q of
                  (g, out) \<Rightarrow> (s'\<lparr>ga_gateway := g\<rparr>, out))"

text \<open>The end of a dial, whatever the miner's answer.\<close>

definition app_response :: "pystr \<Rightarrow> reply res \<Rightarrow> gateway_app \<Rightarrow> gateway_app \<times> reply res" where
  "app_response url outcome s =
     (case proxy_end (inflight (ga_gateway s)) outcome of (n, r) \<Rightarrow>
        (s\<lparr>ga_gateway := (ga_gateway s)\<lparr>inflight := n, dialling := dialling (ga_gateway s) - {#url#}\<rparr>\<rparr>, r))"

section \<open>The application refines the gateway\<close>

inductive app_reachable ::
    "ethlib \<Rightarrow> (json \<Rightarrow> pystr) \<Rightarrow> (real \<Rightarrow> json) \<Rightarrow> gw_config \<Rightarrow> score_verifier option \<Rightarrow> gateway_app \<Rightarrow> bool"
  for E :: ethlib and rep :: "json \<Rightarrow> pystr" and num :: "real \<Rightarrow> json" and cfg :: gw_config and verify :: "score_verifier option"
  where
  started: "app_reachable E rep num cfg verify (new_app endpoint_ttl)"
| requested: "app_reachable E rep num cfg verify s \<Longrightarrow> app_reachable E rep num cfg verify (fst (app_request E rep num cfg verify mo s q))"
| responded: "app_reachable E rep num cfg verify s \<Longrightarrow> url \<in># dialling (ga_gateway s)
    \<Longrightarrow> app_reachable E rep num cfg verify (fst (app_response url outcome s))"
| polled: "app_reachable E rep num cfg verify s
    \<Longrightarrow> app_reachable E rep num cfg verify (s\<lparr>ga_gateway := (ga_gateway s)\<lparr>ix := fst (replace_membership (ix (ga_gateway s)) evs)\<rparr>\<rparr>)"

lemma handle_route_step:
  assumes "handle_route E rep num cfg verify mo g q = (g', out)"
  shows "g' = g \<or> gw_step E (gc_max_inflight cfg) g g'"
proof -
  have ann: "g' = g \<or> gw_step E (gc_max_inflight cfg) g g'" if "announce_route E rep mo g b body = (g', out)" for b body
    using that by (auto simp: announce_route_def split: sum.splits prod.splits intro: gw_step.announced)
  have sco: "g' = g \<or> gw_step E (gc_max_inflight cfg) g g'" if "scores_route E verify g b body = (g', out)" for b body
    using that by (auto simp: scores_route_def split: if_splits sum.splits prod.splits intro: gw_step.scored)
  have prx: "g' = g \<or> gw_step E (gc_max_inflight cfg) g g'" if "proxy_route cfg mo g path b body = (g', out)" for path b body
    using that
    by (auto simp: proxy_route_def split: sum.splits prod.splits proxied.splits intro: gw_step.answered gw_step.dialled)
  show ?thesis
    using assms ann sco prx by (auto simp: handle_route_def split: sum.splits prod.splits gw_route.splits)
qed

lemma app_gateway_reachable:
  "app_reachable E rep num cfg verify s \<Longrightarrow> gw_reachable E (gc_max_inflight cfg) (ga_gateway s)"
proof (induction rule: app_reachable.induct)
  case (requested s mo q)
  obtain g out where h: "handle_route E rep num cfg verify mo (ga_gateway s) q = (g, out)"
    by (cases "handle_route E rep num cfg verify mo (ga_gateway s) q")
  have "ga_gateway (fst (app_request E rep num cfg verify mo s q)) \<in> {ga_gateway s, g}"
    by (simp add: app_request_def Let_def h split: prod.splits)
  with handle_route_step [OF h] requested.IH show ?case by (auto intro: gw_reachable.step)
next
  case (responded s url outcome)
  then show ?case
    by (auto simp: app_response_def split: prod.splits intro!: gw_reachable.step [OF responded.IH] gw_step.completed)
next
  case (polled s evs)
  then show ?case
    by (auto intro!: gw_reachable.step [OF polled.IH] gw_step.polled prod.collapse [symmetric])
qed (simp add: new_app_def gw_reachable.start)

section \<open>Properties\<close>

definition remote_key :: "gw_request \<Rightarrow> pystr" where
  "remote_key q = (case gr_remote q of None \<Rightarrow> lit ''unknown'' | Some a \<Rightarrow> if a = [] then lit ''unknown'' else a)"

lemma app_request_alt:
  "app_request E rep num cfg verify mo s q =
     (case rate_limit_mw (gc_rate_limit cfg) (gc_rate_window cfg) (now mo) (ga_hits s (remote_key q)) of
        (bucket, admitted) \<Rightarrow>
          (case if admitted then handle_route E rep num cfg verify mo (ga_gateway s) q
                else (ga_gateway s, Answer (Inr (reply_error 429 (lit ''rate limit exceeded'')))) of
             (g, out) \<Rightarrow> (\<lparr>ga_gateway = g, ga_hits = (ga_hits s)(remote_key q := bucket)\<rparr>, out)))"
  by (simp add: app_request_def remote_key_def Let_def split: prod.splits)

lemma proxy_route_Dial:
  assumes "proxy_route cfg mo g path brain_text body = (g', Dial url path' j)"
  obtains b n where "py_int_text 10 brain_text = Inr b" and "body = Inr j" and "path' = path"
    and "proxy_begin (gc_max_inflight cfg) mo (ix g) (inflight g) b j = (n, Inr (Dialled url))"
    and "g' = g\<lparr>inflight := n, dialling := add_mset url (dialling g)\<rparr>"
  using assms by (auto simp: proxy_route_def read_request_def split: sum.splits prod.splits proxied.splits)

lemma proxy_route_ix: "proxy_route cfg mo g path b body = (g', out) \<Longrightarrow> ix g' = ix g"
  by (auto simp: proxy_route_def split: sum.splits prod.splits proxied.splits)

lemma no_other_dial:
  "announce_route E rep mo g b body \<noteq> (g', Dial url path j)" "scores_route E verify g b body \<noteq> (g', Dial url path j)"
  by (auto simp: announce_route_def scores_route_def split: sum.splits prod.splits)

lemma resolve_methods:
  assumes "resolve_route method path = Inr (r, b)"
  shows "r \<noteq> ListMiners \<Longrightarrow> method = lit ''POST''"
  using assms by (auto simp: resolve_route_def gw_routes_def split: option.splits if_splits)

lemma handle_route_Dial:
  assumes "handle_route E rep num cfg verify mo g q = (g', Dial url path j)"
  obtains b n where "gr_method q = lit ''POST''" and "gr_json q = Inr j" and "path \<in> {lit ''/infer'', lit ''/settle''}"
    and "proxy_begin (gc_max_inflight cfg) mo (ix g) (inflight g) b j = (n, Inr (Dialled url))"
    and "g' = g\<lparr>inflight := n, dialling := add_mset url (dialling g)\<rparr>"
proof -
  obtain r b where r: "resolve_route (gr_method q) (gr_path q) = Inr (r, b)"
    using assms by (auto simp: handle_route_def split: sum.splits)
  have p: "\<exists>path'. r \<noteq> ListMiners \<and> path' \<in> {lit ''/infer'', lit ''/settle''} \<and> proxy_route cfg mo g path' b (gr_json q) = (g', Dial url path j)"
    using assms no_other_dial by (cases r) (auto simp: handle_route_def r)
  then obtain path' where path': "r \<noteq> ListMiners" "path' \<in> {lit ''/infer'', lit ''/settle''}"
    "proxy_route cfg mo g path' b (gr_json q) = (g', Dial url path j)" by blast
  from proxy_route_Dial [OF path'(3)] obtain i n where "gr_json q = Inr j" "path = path'"
    "proxy_begin (gc_max_inflight cfg) mo (ix g) (inflight g) i j = (n, Inr (Dialled url))"
    "g' = g\<lparr>inflight := n, dialling := add_mset url (dialling g)\<rparr>" by metis
  with that path'(1,2) resolve_methods [OF r] show ?thesis by blast
qed

lemma handle_route_ix:
  assumes "handle_route E rep num cfg verify mo g q = (g', out)"
    and "\<And>b. resolve_route (gr_method q) (gr_path q) \<notin> {Inr (Announce, b), Inr (Scores, b)}"
  shows "ix g' = ix g"
proof (cases "resolve_route (gr_method q) (gr_path q)")
  case (Inr rb)
  obtain r b where rb: "rb = (r, b)" by (cases rb)
  show ?thesis
    using assms Inr rb by (cases r) (auto simp: handle_route_def dest: proxy_route_ix)
qed (use assms in \<open>simp add: handle_route_def\<close>)

text \<open>
  C21. The gateway's HTTP face: whatever requests arrive, in whatever order, with any paths, methods and
  bodies, the application stays a reachable state of the gateway machine; a request touches only its
  own address's counter, and a refused one nothing else; only announcements and score submissions
  change the index; and only a POST to an infer or settle path makes the gateway dial, always a
  guarded URL signed by the miner it is stored for, within the bound on concurrent dials.
\<close>
theorem http_requests_stay_in_bounds:
  assumes "app_reachable E rep num cfg verify s" and "enumerates (set_order mo)"
    and "app_request E rep num cfg verify mo s q = (s', out)"
  shows "gw_reachable E (gc_max_inflight cfg) (ga_gateway s')
    \<and> (\<forall>a. a \<noteq> remote_key q \<longrightarrow> ga_hits s' a = ga_hits s a)
    \<and> (\<not> snd (rate_limit_mw (gc_rate_limit cfg) (gc_rate_window cfg) (now mo) (ga_hits s (remote_key q))) \<longrightarrow> ga_gateway s' = ga_gateway s)
    \<and> ((\<forall>b. resolve_route (gr_method q) (gr_path q) \<notin> {Inr (Announce, b), Inr (Scores, b)}) \<longrightarrow> ix (ga_gateway s') = ix (ga_gateway s))
    \<and> (\<forall>url path j. out = Dial url path j \<longrightarrow>
         gr_method q = lit ''POST'' \<and> gr_json q = Inr j \<and> path \<in> {lit ''/infer'', lit ''/settle''} \<and> url_guard mo url = Inr None
         \<and> inflight (ga_gateway s') = inflight (ga_gateway s) + 1 \<and> inflight (ga_gateway s') \<le> gc_max_inflight cfg
         \<and> (\<exists>b a ep sig recovered. endpoints (ix (ga_gateway s)) (b, a) = Some ep \<and> ep_url ep = url
              \<and> recover_announce E b url (ep_ts ep) sig = Inr recovered \<and> lower recovered = a))"
proof -
  let ?g = "ga_gateway s"
  obtain bucket admitted where rl: "rate_limit_mw (gc_rate_limit cfg) (gc_rate_window cfg) (now mo) (ga_hits s (remote_key q)) = (bucket, admitted)"
    by (cases "rate_limit_mw (gc_rate_limit cfg) (gc_rate_window cfg) (now mo) (ga_hits s (remote_key q))")
  obtain g where s': "s' = \<lparr>ga_gateway = g, ga_hits = (ga_hits s)(remote_key q := bucket)\<rparr>"
    and h: "(if admitted then handle_route E rep num cfg verify mo ?g q
        else (?g, Answer (Inr (reply_error 429 (lit ''rate limit exceeded''))))) = (g, out)"
    using assms(3) by (auto simp: app_request_alt rl split: prod.splits)
  have reach: "gw_reachable E (gc_max_inflight cfg) ?g" by (rule app_gateway_reachable [OF assms(1)])
  have "gw_reachable E (gc_max_inflight cfg) (ga_gateway s')"
    using app_gateway_reachable [OF app_reachable.requested [OF assms(1), of mo q]] assms(3) by simp
  moreover have "ix g = ix ?g" if "\<forall>b. resolve_route (gr_method q) (gr_path q) \<notin> {Inr (Announce, b), Inr (Scores, b)}"
    using that h handle_route_ix by (auto split: if_splits)
  moreover have "gr_method q = lit ''POST'' \<and> gr_json q = Inr j \<and> path \<in> {lit ''/infer'', lit ''/settle''} \<and> url_guard mo url = Inr None
         \<and> inflight g = inflight ?g + 1 \<and> inflight g \<le> gc_max_inflight cfg
         \<and> (\<exists>b a ep sig recovered. endpoints (ix ?g) (b, a) = Some ep \<and> ep_url ep = url
              \<and> recover_announce E b url (ep_ts ep) sig = Inr recovered \<and> lower recovered = a)"
    if "out = Dial url path j" for url path j
  proof -
    have "handle_route E rep num cfg verify mo ?g q = (g, Dial url path j)" using h that by (auto split: if_splits)
    then obtain b n where d: "gr_method q = lit ''POST''" "gr_json q = Inr j" "path \<in> {lit ''/infer'', lit ''/settle''}"
      "proxy_begin (gc_max_inflight cfg) mo (ix ?g) (inflight ?g) b j = (n, Inr (Dialled url))"
      "g = ?g\<lparr>inflight := n, dialling := add_mset url (dialling ?g)\<rparr>"
      by (rule handle_route_Dial)
    note signed = dial_is_signed [OF reach assms(2) d(4)]
    have "\<exists>b a ep sig recovered. endpoints (ix ?g) (b, a) = Some ep \<and> ep_url ep = url
              \<and> recover_announce E b url (ep_ts ep) sig = Inr recovered \<and> lower recovered = a"
      using signed by blast
    with d signed show ?thesis by simp
  qed
  ultimately show ?thesis using h by (auto simp: s' rl)
qed

section \<open>A concrete run\<close>

definition demo_request :: gw_request where
  "demo_request = \<lparr>gr_remote = None, gr_method = lit ''POST'', gr_path = lit ''/brains/8/infer'', gr_json = Inr (JObj [])\<rparr>"

lemma demo_route: "resolve_route (lit ''POST'') (lit ''/brains/8/infer'') = Inr (Infer, lit ''8'')"
  by (simp add: resolve_route_def brain_path_def gw_routes_def lit_def startswith_def)

theorem http_requests_stay_in_bounds_witness:
  "gw_reachable demo_eth 64 (ga_gateway (fst (app_request demo_eth (\<lambda>_. []) (\<lambda>_. JNull) gw_defaults None demo_moment (new_app 600) demo_request)))
   \<and> ix (ga_gateway (fst (app_request demo_eth (\<lambda>_. []) (\<lambda>_. JNull) gw_defaults None demo_moment (new_app 600) demo_request))) = new_index 600"
proof -
  obtain s' out where r: "app_request demo_eth (\<lambda>_. []) (\<lambda>_. JNull) gw_defaults None demo_moment (new_app 600) demo_request = (s', out)"
    by (cases "app_request demo_eth (\<lambda>_. []) (\<lambda>_. JNull) gw_defaults None demo_moment (new_app 600) demo_request")
  have "enumerates (set_order demo_moment)" using sorted_list_enumerates by simp
  from http_requests_stay_in_bounds [OF app_reachable.started this r] r show ?thesis
    by (simp add: demo_request_def demo_route gw_defaults_def DEFAULT_MAX_INFLIGHT_def new_app_def new_gateway_def)
qed

end
