(* ===== verification/SolidityCheck.thy ===== *)
theory SolidityCheck imports Json
begin

text \<open>
  \<open>check_balance\<close> and \<open>strip_strings_and_comments\<close> of \<open>scripts/check_solidity.py\<close>: the structural check
  the repository runs over its contracts. A text is a list of code points; an index loop over it is a
  recursion over the rest of the text.
\<close>

section \<open>Blanking strings and comments\<close>

definition blank :: "nat \<Rightarrow> nat" where
  "blank c = (if c = 10 then 10 else 32)"

text \<open>
  The inner loops return what they emit and the rest of the text. The block comment loop stops at
  \<open>*/\<close> or at the last character, which it does not read.
\<close>

fun block_comment :: "pystr \<Rightarrow> pystr \<times> pystr" where
  "block_comment (c # d # cs) =
     (if c = 42 \<and> d = 47 then ([], c # d # cs)
      else (case block_comment (d # cs) of (out, rest) \<Rightarrow> (blank c # out, rest)))"
| "block_comment cs = ([], cs)"

fun string_body :: "nat \<Rightarrow> pystr \<Rightarrow> pystr \<times> pystr" where
  "string_body q [] = ([], [])"
| "string_body q (c # cs) =
     (if c = q then ([], c # cs)
      else if c = 92 \<and> cs \<noteq> [] then
        (case string_body q (tl cs) of (out, rest) \<Rightarrow> (32 # 32 # out, rest))
      else (case string_body q cs of (out, rest) \<Rightarrow> (blank c # out, rest)))"

lemma block_comment_split:
  "length (fst (block_comment cs)) + length (snd (block_comment cs)) = length cs
   \<and> snd (block_comment cs) = drop (length (fst (block_comment cs))) cs"
proof (induction cs rule: block_comment.induct)
  case (1 c d cs)
  show ?case
  proof (cases "c = 42 \<and> d = 47")
    case False
    then show ?thesis using 1 by (cases "block_comment (d # cs)") simp
  qed simp
qed simp_all

lemma string_body_split:
  "length (fst (string_body q cs)) + length (snd (string_body q cs)) = length cs
   \<and> snd (string_body q cs) = drop (length (fst (string_body q cs))) cs"
proof (induction q cs rule: string_body.induct)
  case (2 q c cs)
  consider "c = q" | "c \<noteq> q" "c = 92" "cs \<noteq> []" | "c \<noteq> q" "c \<noteq> 92 \<or> cs = []" by blast
  then show ?case
  proof cases
    case 2
    then obtain d ds where "cs = d # ds" by (cases cs) auto
    with 2 "2.IH"(1) show ?thesis by (cases "string_body q ds") simp
  next
    case 3
    then have "\<not> (c = 92 \<and> cs \<noteq> [])" by blast
    with 3 "2.IH"(2) show ?thesis by (cases "string_body q cs") simp
  qed simp
qed simp

lemma block_comment_shrinks: "(out, rest) = block_comment cs \<Longrightarrow> length rest \<le> length cs"
  using block_comment_split [of cs] by (metis le_add2 snd_conv)

lemma string_body_shrinks: "(out, rest) = string_body q cs \<Longrightarrow> length rest \<le> length cs"
  using string_body_split [of q cs] by (metis le_add2 snd_conv)

function strip_text :: "pystr \<Rightarrow> pystr" where
  "strip_text [] = []"
| "strip_text (c # cs) =
     (if c = 47 \<and> cs \<noteq> [] \<and> hd cs = 47 then
        map (\<lambda>_. 32) (takeWhile (\<lambda>x. x \<noteq> 10) (c # cs)) @ strip_text (dropWhile (\<lambda>x. x \<noteq> 10) cs)
      else if c = 47 \<and> cs \<noteq> [] \<and> hd cs = 42 then
        (case block_comment (tl cs) of (out, rest) \<Rightarrow>
           32 # 32 # out @ 32 # 32 # strip_text (drop 2 rest))
      else if c = 34 \<or> c = 39 then
        (case string_body c cs of (out, rest) \<Rightarrow>
           32 # out @ (if rest = [] then [] else 32 # strip_text (tl rest)))
      else c # strip_text cs)"
  by pat_completeness auto
termination
  by (relation "measure length")
    (auto dest!: block_comment_shrinks string_body_shrinks simp: less_Suc_eq_le
      intro: length_dropWhile_le le_trans [OF diff_le_self])

declare strip_text.simps(2) [simp del]

section \<open>Brackets\<close>

definition closer :: "nat \<Rightarrow> nat option" where
  "closer c = (if c = 123 then Some 125 else if c = 40 then Some 41 else if c = 91 then Some 93 else None)"

definition is_closer :: "nat \<Rightarrow> bool" where
  "is_closer c \<longleftrightarrow> c = 125 \<or> c = 41 \<or> c = 93"

definition place :: "pystr \<Rightarrow> nat \<Rightarrow> pystr" where
  "place path line = path @ lit '':'' @ nat_digits line @ lit '': ''"

definition unmatched :: "pystr \<Rightarrow> nat \<Rightarrow> nat \<Rightarrow> pystr" where
  "unmatched path line ch = place path line @ lit ''unmatched '' @ [39, ch, 39]"

definition wrong_closer :: "pystr \<Rightarrow> nat \<Rightarrow> nat \<Rightarrow> nat \<times> nat \<Rightarrow> pystr" where
  "wrong_closer path line ch op =
     place path line @ lit ''expected '' @ [39, the (closer (fst op)), 39] @ lit '' to close '' @ [39, fst op, 39]
       @ lit '' from line '' @ nat_digits (snd op) @ lit '', got '' @ [39, ch, 39]"

definition unclosed :: "pystr \<Rightarrow> nat \<times> nat \<Rightarrow> pystr" where
  "unclosed path op = place path (snd op) @ lit ''unclosed '' @ [39, fst op, 39]"

text \<open>The scan: line number, stack of (opener, line) with its top first, and the errors.\<close>

fun scan :: "pystr \<Rightarrow> pystr \<Rightarrow> nat \<Rightarrow> (nat \<times> nat) list \<Rightarrow> pystr list" where
  "scan path [] line stack = map (unclosed path) (rev stack)"
| "scan path (c # cs) line stack =
     (if c = 10 then scan path cs (line + 1) stack
      else if closer c \<noteq> None then scan path cs line ((c, line) # stack)
      else if is_closer c then
        (case stack of
           [] \<Rightarrow> unmatched path line c # scan path cs line []
         | op # rest \<Rightarrow>
             (if closer (fst op) \<noteq> Some c then [wrong_closer path line c op] else []) @ scan path cs line rest)
      else scan path cs line stack)"

definition check_balance :: "pystr \<Rightarrow> pystr \<Rightarrow> pystr list" where
  "check_balance t path = scan path (strip_text t) 1 []"

section \<open>Correctness of the scan\<close>

text \<open>The bracket language over texts in which every other character is ignored.\<close>

inductive balanced :: "pystr \<Rightarrow> bool" where
  balanced_Nil: "balanced []"
| balanced_other: "closer c = None \<Longrightarrow> \<not> is_closer c \<Longrightarrow> balanced s \<Longrightarrow> balanced (c # s)"
| balanced_nest: "closer c = Some d \<Longrightarrow> balanced s \<Longrightarrow> balanced t \<Longrightarrow> balanced (c # s @ d # t)"

text \<open>A text that closes the openers of a stack, and is balanced in between.\<close>

fun closes :: "nat list \<Rightarrow> pystr \<Rightarrow> bool" where
  "closes [] s = balanced s"
| "closes (c # cs) s = (\<exists>u d t. balanced u \<and> closer c = Some d \<and> s = u @ d # t \<and> closes cs t)"

lemma closer_not_closer: "closer c = Some d \<Longrightarrow> is_closer d \<and> \<not> is_closer c \<and> closer d = None \<and> c \<noteq> 10 \<and> d \<noteq> 10"
  by (auto simp: closer_def is_closer_def split: if_splits)

lemma newline_other: "closer 10 = None" "\<not> is_closer 10"
  by (simp_all add: closer_def is_closer_def)

lemma closes_Cons_I:
  "balanced u \<Longrightarrow> closer c = Some d \<Longrightarrow> closes cs t \<Longrightarrow> s = u @ d # t \<Longrightarrow> closes (c # cs) s"
  by auto

lemma closes_ConsE:
  assumes "closes (c # cs) s"
  obtains u d t where "balanced u" and "closer c = Some d" and "s = u @ d # t" and "closes cs t"
  using assms by auto

declare closes.simps(2) [simp del]

lemma closes_other:
  assumes "closer c = None" and "\<not> is_closer c" and "closes st s"
  shows "closes st (c # s)"
proof (cases st)
  case Nil
  with assms show ?thesis by (simp add: balanced_other)
next
  case (Cons o1 st')
  with assms(3) obtain u d t where u: "balanced u" "closer o1 = Some d" "s = u @ d # t" "closes st' t"
    by (blast elim: closes_ConsE)
  show ?thesis
    unfolding Cons by (rule closes_Cons_I [OF balanced_other [OF assms(1,2) u(1)] u(2,4)]) (simp add: u(3))
qed

lemma closes_open:
  assumes "closes (c # st) s" and "closer c = Some d"
  shows "closes st (c # s)"
proof -
  from assms obtain u t where u: "balanced u" "s = u @ d # t" "closes st t" by (auto elim: closes_ConsE)
  show ?thesis
  proof (cases st)
    case Nil
    with u assms(2) show ?thesis by (simp add: balanced_nest)
  next
    case (Cons o1 st')
    with u(3) obtain v e w where v: "balanced v" "closer o1 = Some e" "t = v @ e # w" "closes st' w"
      by (blast elim: closes_ConsE)
    show ?thesis
      unfolding Cons by (rule closes_Cons_I [OF balanced_nest [OF assms(2) u(1) v(1)] v(2,4)]) (simp add: u(2) v(3))
  qed
qed

lemma scan_closes: "scan path s line stack = [] \<Longrightarrow> closes (map fst stack) s"
proof (induction s arbitrary: line stack)
  case Nil
  then show ?case by (simp add: balanced_Nil)
next
  case (Cons c s)
  consider "c = 10" | d where "closer c = Some d" | "is_closer c" "closer c = None" "c \<noteq> 10"
    | "closer c = None" "\<not> is_closer c" "c \<noteq> 10"
    by (cases "closer c") (auto simp: is_closer_def)
  then show ?case
  proof cases
    case 1
    with Cons show ?thesis using closes_other [of c] newline_other by (auto)
  next
    case (2 d)
    then have "c \<noteq> 10" by (auto dest: closer_not_closer)
    with 2 Cons.prems have "scan path s line ((c, line) # stack) = []" by simp
    from Cons.IH [OF this] 2 show ?thesis using closes_open by (simp del: closes.simps)
  next
    case 3
    with Cons.prems obtain op rest where "stack = op # rest" "closer (fst op) = Some c" "scan path s line rest = []"
      by (cases stack) (auto split: if_splits)
    with Cons.IH show ?thesis by (auto intro!: closes_Cons_I [OF balanced_Nil])
  next
    case 4
    with Cons show ?thesis using closes_other [of c] by (auto)
  qed
qed

lemma balanced_scan:
  "balanced s \<Longrightarrow> \<exists>line'. scan path (s @ t) line stack = scan path t line' stack"
proof (induction arbitrary: line stack t rule: balanced.induct)
  case balanced_Nil
  then show ?case by auto
next
  case (balanced_other c s)
  then show ?case by (cases "c = 10") simp_all
next
  case (balanced_nest c d s u)
  obtain l1 where l1: "scan path (s @ d # u @ t) line ((c, line) # stack) = scan path (d # u @ t) l1 ((c, line) # stack)"
    using balanced_nest.IH(1) [of "d # u @ t" line "(c, line) # stack"] by auto
  obtain l2 where "scan path (u @ t) l1 stack = scan path t l2 stack"
    using balanced_nest.IH(2) [of t l1 stack] by auto
  with l1 balanced_nest.hyps(1) closer_not_closer [of c d] show ?case
    by (intro exI [of _ l2]) simp
qed

text \<open>
  The bracket check is exact: it reports nothing exactly when the text, with strings and comments
  blanked, belongs to the language of properly nested braces, parentheses and brackets.
\<close>
theorem check_balance_exact:
  "check_balance t path = [] \<longleftrightarrow> balanced (strip_text t)"
proof
  assume "check_balance t path = []"
  then show "balanced (strip_text t)" using scan_closes [of path "strip_text t" 1 "[]"] by (simp add: check_balance_def)
next
  assume "balanced (strip_text t)"
  from balanced_scan [OF this, of path "[]" 1 "[]"] show "check_balance t path = []"
    by (auto simp: check_balance_def)
qed

section \<open>Correctness of the blanking\<close>

text \<open>
  One text is the other with some characters replaced by spaces, followed by at most two spaces (an
  unterminated block comment writes its closing spaces all the same).
\<close>

definition same_or_space :: "pystr \<Rightarrow> pystr \<Rightarrow> bool" where
  "same_or_space = list_all2 (\<lambda>c x. x = c \<or> x = 32)"

definition blanks :: "pystr \<Rightarrow> pystr \<Rightarrow> bool" where
  "blanks t s \<longleftrightarrow> same_or_space t (take (length t) s)
     \<and> (drop (length t) s = [] \<or> drop (length t) s = [32] \<or> drop (length t) s = [32, 32])"

lemma same_or_space_simps [simp]:
  "same_or_space [] []"
  "same_or_space (c # cs) (x # xs) \<longleftrightarrow> (x = c \<or> x = 32) \<and> same_or_space cs xs"
  by (simp_all add: same_or_space_def)

lemma same_or_space_length: "same_or_space a b \<Longrightarrow> length b = length a"
  by (auto simp: same_or_space_def dest: list_all2_lengthD)

lemma same_or_space_refl: "same_or_space a a"
  by (induction a) simp_all

lemma same_or_space_spaces: "same_or_space a (map (\<lambda>_. 32) a)"
  by (induction a) simp_all

lemma blanks_append:
  assumes "same_or_space a b" and "blanks t s"
  shows "blanks (a @ t) (b @ s)"
  using assms same_or_space_length [OF assms(1)]
  by (auto simp: blanks_def same_or_space_def intro: list_all2_appendI)

lemma blanks_Cons: "x = c \<or> x = 32 \<Longrightarrow> blanks t s \<Longrightarrow> blanks (c # t) (x # s)"
  using blanks_append [of "[c]" "[x]" t s] by simp

lemma block_comment_blanks:
  "same_or_space (take (length (fst (block_comment cs))) cs) (fst (block_comment cs))"
proof (induction cs rule: block_comment.induct)
  case (1 c d cs)
  show ?case
  proof (cases "c = 42 \<and> d = 47")
    case False
    then show ?thesis using 1 by (cases "block_comment (d # cs)") (simp add: blank_def)
  qed simp
qed simp_all

lemma string_body_blanks:
  "same_or_space (take (length (fst (string_body q cs))) cs) (fst (string_body q cs))"
proof (induction q cs rule: string_body.induct)
  case (2 q c cs)
  consider "c = q" | "c \<noteq> q" "c = 92" "cs \<noteq> []" | "c \<noteq> q" "c \<noteq> 92 \<or> cs = []" by blast
  then show ?case
  proof cases
    case 2
    then obtain d ds where "cs = d # ds" by (cases cs) auto
    with 2 "2.IH"(1) show ?thesis by (cases "string_body q ds") simp
  next
    case 3
    then have "\<not> (c = 92 \<and> cs \<noteq> [])" by blast
    with 3 "2.IH"(2) show ?thesis by (cases "string_body q cs") (auto simp: blank_def)
  qed simp
qed simp

lemma block_comment_append: "block_comment cs = (out, rest) \<Longrightarrow> cs = take (length out) cs @ rest"
  using block_comment_split [of cs] by simp

lemma string_body_append: "string_body q cs = (out, rest) \<Longrightarrow> cs = take (length out) cs @ rest"
  using string_body_split [of q cs] by simp

text \<open>What is left of a block comment: nothing, its last character, or its end and more.\<close>

lemma block_comment_rest:
  "block_comment cs = (out, rest) \<Longrightarrow> length rest \<le> 1 \<or> (\<exists>u. rest = 42 # 47 # u)"
proof (induction cs arbitrary: out rest rule: block_comment.induct)
  case (1 c d cs)
  show ?case
  proof (cases "c = 42 \<and> d = 47")
    case True
    with 1(2) show ?thesis by auto
  next
    case False
    with 1 show ?thesis by (cases "block_comment (d # cs)") simp
  qed
qed auto

lemma blanks_closing: "blanks (drop 2 rest) s \<Longrightarrow> length rest \<le> 1 \<Longrightarrow> s = [] \<Longrightarrow> blanks rest (32 # 32 # s)"
  by (cases rest) (auto simp: blanks_def)

text \<open>
  Blanking keeps every position: the cleaned text is the source with characters replaced by
  spaces, so that brackets, lines and columns that survive stay where they were; it is longer only
  by at most two spaces at its end.
\<close>
theorem strip_text_blanks_in_place: "blanks t (strip_text t)"
proof (induction t rule: strip_text.induct)
  case 1
  show ?case by (simp add: blanks_def)
next
  case (2 c cs)
  consider (line) "c = 47 \<and> cs \<noteq> [] \<and> hd cs = 47"
    | (block) "\<not> (c = 47 \<and> cs \<noteq> [] \<and> hd cs = 47)" "c = 47 \<and> cs \<noteq> [] \<and> hd cs = 42"
    | (string) "\<not> (c = 47 \<and> cs \<noteq> [] \<and> hd cs = 47)" "\<not> (c = 47 \<and> cs \<noteq> [] \<and> hd cs = 42)" "c = 34 \<or> c = 39"
    | (other) "\<not> (c = 47 \<and> cs \<noteq> [] \<and> hd cs = 47)" "\<not> (c = 47 \<and> cs \<noteq> [] \<and> hd cs = 42)" "\<not> (c = 34 \<or> c = 39)"
    by blast
  then show ?case
  proof cases
    case line
    have "blanks (takeWhile (\<lambda>x. x \<noteq> 10) (c # cs) @ dropWhile (\<lambda>x. x \<noteq> 10) cs)
            (map (\<lambda>_. 32) (takeWhile (\<lambda>x. x \<noteq> 10) (c # cs)) @ strip_text (dropWhile (\<lambda>x. x \<noteq> 10) cs))"
      by (rule blanks_append [OF same_or_space_spaces 2(1) [OF line]])
    with line show ?thesis by (simp add: strip_text.simps(2))
  next
    case block
    obtain out rest where b: "block_comment (tl cs) = (out, rest)" by fastforce
    have ih: "blanks (drop 2 rest) (strip_text (drop 2 rest))" by (rule 2(2) [OF block b [symmetric]])
    have tail: "blanks rest (32 # 32 # strip_text (drop 2 rest))"
      using block_comment_rest [OF b]
    proof
      assume "length rest \<le> 1"
      then show ?thesis using ih by (intro blanks_closing) auto
    qed (use ih in \<open>auto intro!: blanks_Cons\<close>)
    have "same_or_space (take (length out) (tl cs)) out" using block_comment_blanks [of "tl cs"] b by simp
    from blanks_append [OF this tail] have "blanks (tl cs) (out @ 32 # 32 # strip_text (drop 2 rest))"
      using block_comment_append [OF b] by simp
    with block b show ?thesis by (cases cs) (auto simp: strip_text.simps(2) intro!: blanks_Cons)
  next
    case string
    obtain out rest where b: "string_body c cs = (out, rest)" by fastforce
    have tail: "blanks rest (if rest = [] then [] else 32 # strip_text (tl rest))"
      using 2(3) [OF string b [symmetric]] by (cases rest) (auto simp: blanks_def [of "[]" "[]"] intro!: blanks_Cons)
    have "same_or_space (take (length out) cs) out" using string_body_blanks [of c cs] b by simp
    from blanks_append [OF this tail]
    have "blanks cs (out @ (if rest = [] then [] else 32 # strip_text (tl rest)))"
      using string_body_append [OF b] by simp
    with string b show ?thesis by (auto simp: strip_text.simps(2) intro!: blanks_Cons)
  next
    case other
    with 2(4) show ?thesis by (auto simp: strip_text.simps(2) intro!: blanks_Cons)
  qed
qed

text \<open>
  Newlines are not among the kept characters, as the comment on the function has it: the one after a
  backslash inside a string becomes a space, and the lines reported after it are too low.
\<close>
lemma escaped_newline_is_lost:
  "strip_text [34, 92, 10, 34, 40] = [32, 32, 32, 32, 40]"
  "check_balance [34, 92, 10, 34, 40] p = [unclosed p (40, 1)]"
  by (simp_all add: strip_text.simps(2) check_balance_def closer_def is_closer_def)

end
