(* ===== verification/SourceChecks.thy ===== *)
theory SourceChecks imports SolidityCheck
begin

text \<open>
  The rest of \<open>scripts/check_solidity.py\<close>: the imports, the pragmas, the phrase of \<open>BrainNFT.sol\<close>, and the
  verdict of \<open>main\<close> over the files. The regular expressions are written out as
  deterministic readers (each repetition is followed by a character it cannot itself match, apart
  from the one backtracking step noted at \<open>version\<close>); files, path resolution and existence are
  arguments.
\<close>

section \<open>The patterns\<close>

text \<open>\<open>\s+\<close>, and a literal.\<close>

definition spaces1 :: "pystr \<Rightarrow> pystr option" where
  "spaces1 cs = (if cs = [] \<or> \<not> is_space (hd cs) then None else Some (dropWhile is_space cs))"

definition literal :: "string \<Rightarrow> pystr \<Rightarrow> pystr option" where
  "literal k cs = (if startswith cs (lit k) then Some (drop (length k) cs) else None)"

text \<open>\<open>(?:\{[^}]+\}\s+from\s+)?\<close>.\<close>

definition names_from :: "pystr \<Rightarrow> pystr option" where
  "names_from cs =
     (if cs = [] \<or> hd cs \<noteq> 123 then Some cs
      else
        let names = takeWhile (\<lambda>c. c \<noteq> 125) (tl cs); rest = drop (length names) (tl cs)
        in if names = [] \<or> rest = [] then None
           else Option.bind (spaces1 (tl rest)) (\<lambda>r. Option.bind (literal ''from'' r) spaces1))"

text \<open>\<open>["']([^"']+)["'];\<close>: the target and what follows.\<close>

definition quoted :: "pystr \<Rightarrow> (pystr \<times> pystr) option" where
  "quoted cs =
     (if cs = [] \<or> (hd cs \<noteq> 34 \<and> hd cs \<noteq> 39) then None
      else
        let target = takeWhile (\<lambda>c. c \<noteq> 34 \<and> c \<noteq> 39) (tl cs); rest = drop (length target) (tl cs)
        in if target = [] then None
           else case rest of q # s # after \<Rightarrow> if s = 59 then Some (target, after) else None | _ \<Rightarrow> None)"

definition import_at :: "pystr \<Rightarrow> (pystr \<times> pystr) option" where
  "import_at cs =
     Option.bind (literal ''import'' cs) (\<lambda>a. Option.bind (spaces1 a) (\<lambda>b. Option.bind (names_from b) quoted))"

text \<open>\<open>([^;]+);\<close> after \<open>\s+\<close>: an empty version is possible only by giving back one of several spaces.\<close>

definition version :: "pystr \<Rightarrow> pystr option" where
  "version cs =
     (let sp = takeWhile is_space cs; rest = dropWhile is_space cs; v = takeWhile (\<lambda>c. c \<noteq> 59) rest
      in if sp = [] \<or> length v = length rest then None
         else if v \<noteq> [] then Some v
         else if 2 \<le> length sp then Some [last sp] else None)"

definition pragma_at :: "pystr \<Rightarrow> pystr option" where
  "pragma_at cs =
     Option.bind (literal ''pragma'' cs) (\<lambda>a. Option.bind (spaces1 a) (\<lambda>b. Option.bind (literal ''solidity'' b) version))"

fun first_pragma :: "pystr \<Rightarrow> pystr option" where
  "first_pragma [] = None"
| "first_pragma (c # cs) = (case pragma_at (c # cs) of Some v \<Rightarrow> Some v | None \<Rightarrow> first_pragma cs)"

fun contains :: "pystr \<Rightarrow> pystr \<Rightarrow> bool" where
  "contains sub [] = (sub = [])"
| "contains sub (c # cs) = (startswith (c # cs) sub \<or> contains sub cs)"

lemma length_dropWhile_tl: "length (dropWhile P (tl cs)) \<le> length cs"
  by (rule le_trans [OF length_dropWhile_le]) simp

lemma spaces1_shrinks: "spaces1 cs = Some r \<Longrightarrow> length r \<le> length cs"
  by (auto simp: spaces1_def length_dropWhile_le split: if_splits)

lemma literal_shrinks: "literal k cs = Some r \<Longrightarrow> length r + length k = length cs"
  by (auto simp: literal_def lit_def elim!: startswithE split: if_splits)

lemma names_from_shrinks: "names_from cs = Some r \<Longrightarrow> length r \<le> length cs"
  by (auto simp: names_from_def Let_def bind_eq_Some_conv split: if_splits
      dest!: spaces1_shrinks literal_shrinks)

lemma quoted_shrinks: "quoted cs = Some (t, r) \<Longrightarrow> length r \<le> length cs"
proof -
  assume q: "quoted cs = Some (t, r)"
  let ?rest = "drop (length (takeWhile (\<lambda>c. c \<noteq> 34 \<and> c \<noteq> 39) (tl cs))) (tl cs)"
  obtain q s where "?rest = q # s # r"
    using q by (auto simp: quoted_def Let_def split: if_splits list.splits)
  then have "length ?rest = Suc (Suc (length r))" by simp
  then show ?thesis by simp
qed

lemma import_at_shrinks: "import_at cs = Some (t, r) \<Longrightarrow> length r < length cs"
  by (auto simp: import_at_def bind_eq_Some_conv dest!: literal_shrinks spaces1_shrinks names_from_shrinks quoted_shrinks)

text \<open>\<open>re.finditer\<close>: from left to right, without overlaps.\<close>

function imports_of :: "pystr \<Rightarrow> pystr list" where
  "imports_of [] = []"
| "imports_of (c # cs) =
     (case import_at (c # cs) of
        Some (target, rest) \<Rightarrow> target # imports_of rest
      | None \<Rightarrow> imports_of cs)"
  by pat_completeness auto
termination
  by (relation "measure length") (auto dest!: import_at_shrinks)

section \<open>The checks\<close>

record source_file =
  sf_path :: pystr
  sf_text :: pystr
  sf_resolve :: "pystr \<Rightarrow> pystr"
  sf_exists :: "pystr \<Rightarrow> bool"

definition is_local :: "pystr \<Rightarrow> bool" where
  "is_local target \<longleftrightarrow> \<not> (startswith target (lit ''@openzeppelin/'') \<or> startswith target (lit ''forge-std/''))
     \<and> (startswith target (lit ''./'') \<or> startswith target (lit ''../''))"

definition missing_import :: "source_file \<Rightarrow> pystr \<Rightarrow> pystr" where
  "missing_import f target = sf_path f @ lit '': import '' @ [39] @ target @ [39] @ lit '' resolves to ''
     @ sf_resolve f target @ lit '' which does not exist''"

definition check_imports :: "source_file \<Rightarrow> pystr list" where
  "check_imports f =
     map (missing_import f)
       (filter (\<lambda>t. is_local t \<and> \<not> sf_exists f (sf_resolve f t)) (imports_of (sf_text f)))"

text \<open>The pragmas in order of their first file, each with its files.\<close>

definition pragmas :: "source_file list \<Rightarrow> (pystr, pystr list) dict" where
  "pragmas files =
     group_pairs (List.map_filter (\<lambda>f. map_option (\<lambda>v. (strip_ws v, sf_path f)) (first_pragma (sf_text f))) files)"

fun comma_join :: "pystr list \<Rightarrow> pystr" where
  "comma_join [] = []"
| "comma_join [p] = p"
| "comma_join (p # q # ps) = p @ lit '', '' @ comma_join (q # ps)"

definition find_pragma_mismatch :: "source_file list \<Rightarrow> pystr list" where
  "find_pragma_mismatch files =
     (if length (pragmas files) \<le> 1 then []
      else lit ''mixed pragma versions:'' #
        map (\<lambda>(p, fs). [32, 32, 39] @ p @ [39] @ lit '' in: '' @ comma_join (take 3 fs)) (pragmas files))"

definition reserved_phrase :: pystr where
  "reserved_phrase = lit ''candidate >= 47 && candidate <= 47''"

text \<open>\<open>check_brainNFT_allocate_logic\<close>: the text of the file, if it exists.\<close>

definition check_brainNFT :: "(pystr \<times> pystr) option \<Rightarrow> pystr list" where
  "check_brainNFT file =
     (case file of
        None \<Rightarrow> []
      | Some (path, content) \<Rightarrow>
          if contains reserved_phrase content
          then [path @ lit '': _allocateBrainId only skips ID 47 in a single comparison; ''
                @ lit ''no skip for IDs 0'' @ [8211] @ lit ''6 (also documented as reserved). ''
                @ lit ''If reserved IDs are pre-minted, this is fine; if not, IDs 0'' @ [8211] @ lit ''6 will be ''
                @ lit ''allocated by the burn/stake path.'']
          else [])"

definition solidity_errors :: "source_file list \<Rightarrow> (pystr \<times> pystr) option \<Rightarrow> pystr list" where
  "solidity_errors files brain =
     concat (map (\<lambda>f. check_balance (sf_text f) (sf_path f) @ check_imports f) files)
       @ find_pragma_mismatch files @ check_brainNFT brain"

text \<open>\<open>main\<close> once the directory is found: its exit status.\<close>

definition check_solidity_main :: "source_file list \<Rightarrow> (pystr \<times> pystr) option \<Rightarrow> int" where
  "check_solidity_main files brain = (if solidity_errors files brain \<noteq> [] then 1 else 0)"

section \<open>What a clean run means\<close>

lemma pragma_keys: "fst ` set (pragmas files) = {strip_ws v | f v. f \<in> set files \<and> first_pragma (sf_text f) = Some v}"
proof -
  have "fst ` set (List.map_filter (\<lambda>f. map_option (\<lambda>v. (strip_ws v, sf_path f)) (first_pragma (sf_text f))) files)
      = {strip_ws v | f v. f \<in> set files \<and> first_pragma (sf_text f) = Some v}"
    by (force simp: List.map_filter_def)
  then show ?thesis by (simp add: pragmas_def set_keys_group_pairs)
qed

lemma length_le_1_iff: "distinct xs \<Longrightarrow> length xs \<le> 1 \<longleftrightarrow> (\<forall>x \<in> set xs. \<forall>y \<in> set xs. x = y)"
proof (cases xs)
  case (Cons a ys)
  then show "distinct xs \<Longrightarrow> ?thesis" by (cases ys) auto
qed simp

lemma pragma_mismatch_iff:
  "find_pragma_mismatch files = [] \<longleftrightarrow>
     (\<forall>f \<in> set files. \<forall>g \<in> set files. \<forall>v w. first_pragma (sf_text f) = Some v \<longrightarrow>
        first_pragma (sf_text g) = Some w \<longrightarrow> strip_ws v = strip_ws w)"
proof -
  have "distinct (map fst (pragmas files))"
    unfolding pragmas_def by (rule alist_dict.ok_distinct [OF group_pairs_ok])
  from length_le_1_iff [OF this] have "length (pragmas files) \<le> 1 \<longleftrightarrow>
      (\<forall>x \<in> fst ` set (pragmas files). \<forall>y \<in> fst ` set (pragmas files). x = y)" by simp
  moreover have "find_pragma_mismatch files = [] \<longleftrightarrow> length (pragmas files) \<le> 1"
    by (simp add: find_pragma_mismatch_def)
  ultimately show ?thesis unfolding pragma_keys by blast
qed

text \<open>
  The structural check of the contracts passes exactly when in every file the braces, parentheses
  and brackets outside strings and comments are properly nested, every local import it recognises
  resolves to an existing file, all files that declare a compiler version declare the same, and
  \<open>BrainNFT.sol\<close>, if present, does not contain the reserved comparison.
\<close>
theorem clean_run_exact:
  "check_solidity_main files brain = 0 \<longleftrightarrow>
     (\<forall>f \<in> set files. balanced (strip_text (sf_text f))
        \<and> (\<forall>t \<in> set (imports_of (sf_text f)). is_local t \<longrightarrow> sf_exists f (sf_resolve f t)))
     \<and> (\<forall>f \<in> set files. \<forall>g \<in> set files. \<forall>v w. first_pragma (sf_text f) = Some v \<longrightarrow>
          first_pragma (sf_text g) = Some w \<longrightarrow> strip_ws v = strip_ws w)
     \<and> (\<forall>path content. brain = Some (path, content) \<longrightarrow> \<not> contains reserved_phrase content)"
proof -
  have "check_imports f = [] \<longleftrightarrow> (\<forall>t \<in> set (imports_of (sf_text f)). is_local t \<longrightarrow> sf_exists f (sf_resolve f t))" for f
    by (auto simp: check_imports_def filter_empty_conv)
  moreover have "check_brainNFT brain = [] \<longleftrightarrow> (\<forall>path content. brain = Some (path, content) \<longrightarrow> \<not> contains reserved_phrase content)"
    by (auto simp: check_brainNFT_def split: option.splits)
  moreover have "check_solidity_main files brain = 0 \<longleftrightarrow> solidity_errors files brain = []"
    by (simp add: check_solidity_main_def)
  ultimately show ?thesis
    by (auto simp: solidity_errors_def check_balance_exact pragma_mismatch_iff)
qed

theorem clean_run_exact_witness:
  "check_solidity_main [\<lparr>sf_path = [], sf_text = lit ''{}'', sf_resolve = id, sf_exists = (\<lambda>_. False)\<rparr>] None = 0
   \<and> check_solidity_main [\<lparr>sf_path = [], sf_text = lit ''import './a';'', sf_resolve = id, sf_exists = (\<lambda>_. False)\<rparr>] None \<noteq> 0"
proof -
  have chars: "lit ''{}'' = [123, 125]" "lit ''import './a';'' = [105, 109, 112, 111, 114, 116, 32, 39, 46, 47, 97, 39, 59]"
    by (simp_all add: lit_def of_char_def)
  have "balanced [123, 125]" using balanced_nest [of 123 125 "[]" "[]"] by (simp add: closer_def balanced_Nil)
  moreover have "strip_text [123, 125] = [123, 125]" by (simp add: strip_text.simps(2))
  moreover have "imports_of [123, 125] = []"
    by (simp add: import_at_def literal_def startswith_def lit_def of_char_def)
  moreover have "imports_of (lit ''import './a';'') = [lit ''./a'']"
    unfolding chars
    by (simp add: import_at_def literal_def startswith_def lit_def of_char_def spaces1_def names_from_def quoted_def is_space_def)
  moreover have "is_local (lit ''./a'')" by (simp add: is_local_def startswith_def lit_def of_char_def)
  ultimately show ?thesis
    using clean_run_exact [of "[\<lparr>sf_path = [], sf_text = lit ''{}'', sf_resolve = id, sf_exists = (\<lambda>_. False)\<rparr>]" None]
      clean_run_exact [of "[\<lparr>sf_path = [], sf_text = lit ''import './a';'', sf_resolve = id, sf_exists = (\<lambda>_. False)\<rparr>]" None]
    by (auto simp: chars(1))
qed

end
