(* ===== verification/OverrideCheck.thy ===== *)
theory OverrideCheck imports SourceChecks
begin

text \<open>
  \<open>scripts/check_overrides.py\<close>: contracts and functions found in the blanked text of each file by
  regular expressions, and the two checks over them. The expressions are written out as readers, as
  in theory SourceChecks, with the backtracking steps that can succeed; word characters are those of
  ASCII, which is all that Solidity allows outside strings and comments. Listing and reading the files
  is the argument.
\<close>

section \<open>The patterns\<close>

definition is_word :: "nat \<Rightarrow> bool" where
  "is_word c \<longleftrightarrow> 48 \<le> c \<and> c \<le> 57 \<or> 65 \<le> c \<and> c \<le> 90 \<or> 97 \<le> c \<and> c \<le> 122 \<or> c = 95"

text \<open>\<open>strip\<close>: the loop is that of \<open>strip_strings_and_comments\<close>, statement by statement.\<close>

definition strip_sol :: "pystr \<Rightarrow> pystr" where
  "strip_sol t = strip_text t"

definition spaces0 :: "pystr \<Rightarrow> pystr" where
  "spaces0 cs = dropWhile is_space cs"

definition char_at :: "nat \<Rightarrow> pystr \<Rightarrow> pystr option" where
  "char_at c cs = (if cs = [] \<or> hd cs \<noteq> c then None else Some (tl cs))"

text \<open>\<open>(\w+)\<close>.\<close>

definition word1 :: "pystr \<Rightarrow> (pystr \<times> pystr) option" where
  "word1 cs = (if cs = [] \<or> \<not> is_word (hd cs) then None else Some (takeWhile is_word cs, dropWhile is_word cs))"

text \<open>\<open>\([^)]*\)\<close> from its opening parenthesis: what is inside and what follows.\<close>

definition parens :: "pystr \<Rightarrow> (pystr \<times> pystr) option" where
  "parens cs =
     Option.bind (char_at 40 cs) (\<lambda>r.
       let inner = takeWhile (\<lambda>c. c \<noteq> 41) r; rest = drop (length inner) r
       in if rest = [] then None else Some (inner, tl rest))"

text \<open>\<open>str.split\<close> at a character.\<close>

fun split_on :: "nat \<Rightarrow> pystr \<Rightarrow> pystr list" where
  "split_on s [] = [[]]"
| "split_on s (c # cs) =
     (if c = s then [] # split_on s cs
      else (case split_on s cs of [] \<Rightarrow> [[c]] | p # ps \<Rightarrow> (c # p) # ps))"

section \<open>Contracts\<close>

text \<open>\<open>(contract|interface|abstract\s+contract|library)\<close>, as the text after it.\<close>

definition kind_at :: "pystr \<Rightarrow> pystr option" where
  "kind_at cs =
     (case literal ''contract'' cs of
        Some r \<Rightarrow> Some r
      | None \<Rightarrow> (case literal ''interface'' cs of
          Some r \<Rightarrow> Some r
        | None \<Rightarrow> (case Option.bind (literal ''abstract'' cs) (\<lambda>r. Option.bind (spaces1 r) (literal ''contract'')) of
            Some r \<Rightarrow> Some r
          | None \<Rightarrow> literal ''library'' cs)))"

text \<open>
  \<open>\s+is\s+([^\{]+)\<close>: the names up to the brace; an inheritance list of spaces only keeps the last one,
  which the preceding repetition gives back.
\<close>

definition inherits_at :: "pystr \<Rightarrow> (pystr \<times> pystr) option" where
  "inherits_at cs =
     Option.bind (spaces1 cs) (\<lambda>r. Option.bind (literal ''is'' r) (\<lambda>a.
       let sp = takeWhile is_space a; rest = dropWhile is_space a;
           names = takeWhile (\<lambda>c. c \<noteq> 123) rest; brace = drop (length names) rest
       in if sp = [] \<or> brace = [] then None
          else if names \<noteq> [] then Some (names, tl brace)
          else if 2 \<le> length sp then Some ([last sp], tl brace) else None))"

definition inheritance :: "pystr \<Rightarrow> (pystr \<times> pystr) option" where
  "inheritance cs =
     (case inherits_at cs of
        Some x \<Rightarrow> Some x
      | None \<Rightarrow> map_option (\<lambda>r. ([], r)) (char_at 123 (spaces0 cs)))"

record contract_decl =
  cd_kind :: pystr
  cd_name :: pystr
  cd_parents :: "pystr list"

text \<open>The parents: each name up to its constructor arguments.\<close>

definition parent_names :: "pystr \<Rightarrow> pystr list" where
  "parent_names t =
     filter (\<lambda>p. p \<noteq> [])
       (map (\<lambda>p. strip_ws (hd (split_on 40 (strip_ws p)))) (filter (\<lambda>p. strip_ws p \<noteq> []) (split_on 44 t)))"

definition contract_at :: "pystr \<Rightarrow> (contract_decl \<times> pystr) option" where
  "contract_at cs =
     Option.bind (kind_at cs) (\<lambda>k. Option.bind (spaces1 k) (\<lambda>a. Option.bind (word1 a) (\<lambda>(name, b).
       Option.bind (inheritance b) (\<lambda>(names, rest).
         Some (\<lparr>cd_kind = strip_ws (take (length cs - length k) cs), cd_name = name, cd_parents = parent_names names\<rparr>, rest)))))"

lemma char_at_shrinks: "char_at c cs = Some r \<Longrightarrow> length r < length cs"
  by (cases cs) (auto simp: char_at_def split: if_splits)

lemma word1_shrinks: "word1 cs = Some (w, r) \<Longrightarrow> length r \<le> length cs"
  by (auto simp: word1_def length_dropWhile_le split: if_splits)

lemma kind_at_shrinks: "kind_at cs = Some r \<Longrightarrow> length r < length cs"
  by (auto simp: kind_at_def bind_eq_Some_conv split: option.splits dest!: literal_shrinks spaces1_shrinks)

lemma length_tl_drop_le: "length ys \<le> n \<Longrightarrow> length (tl (drop k ys)) \<le> n"
  by simp

lemma inherits_at_shrinks: "inherits_at cs = Some (t, r) \<Longrightarrow> length r \<le> length cs"
proof -
  assume "inherits_at cs = Some (t, r)"
  then obtain a b where a: "spaces1 cs = Some a" "literal ''is'' a = Some b"
    and r: "r = tl (drop (length (takeWhile (\<lambda>c. c \<noteq> 123) (dropWhile is_space b))) (dropWhile is_space b))"
    unfolding inherits_at_def Let_def bind_eq_Some_conv by (force split: if_splits)
  have "length (dropWhile is_space b) \<le> length cs"
    using spaces1_shrinks [OF a(1)] literal_shrinks [OF a(2)] length_dropWhile_le [of is_space b] by linarith
  then show ?thesis unfolding r by (rule length_tl_drop_le)
qed

lemma inheritance_shrinks: "inheritance cs = Some (t, r) \<Longrightarrow> length r \<le> length cs"
  using length_dropWhile_le [of is_space cs]
  by (auto simp: inheritance_def spaces0_def split: option.splits dest!: inherits_at_shrinks char_at_shrinks)

lemma contract_at_shrinks: "contract_at cs = Some (d, r) \<Longrightarrow> length r < length cs"
  by (fastforce simp: contract_at_def bind_eq_Some_conv dest!: kind_at_shrinks spaces1_shrinks word1_shrinks inheritance_shrinks)

text \<open>\<open>\b\<close> before a letter: the character before it, if any, is not a word character.\<close>

function contracts_from :: "bool \<Rightarrow> pystr \<Rightarrow> contract_decl list" where
  "contracts_from after_word [] = []"
| "contracts_from after_word (c # cs) =
     (case (if after_word then None else contract_at (c # cs)) of
        Some (d, rest) \<Rightarrow> d # contracts_from False rest
      | None \<Rightarrow> contracts_from (is_word c) cs)"
  by pat_completeness auto
termination
  by (relation "measure (length \<circ> snd)") (auto split: if_splits dest!: contract_at_shrinks)

definition find_contracts :: "pystr \<Rightarrow> contract_decl list" where
  "find_contracts t = contracts_from False t"

section \<open>Functions\<close>

text \<open>One of the modifiers after the parameter list; none of them is a prefix of another.\<close>

fun keyword_at :: "string list \<Rightarrow> pystr \<Rightarrow> pystr option" where
  "keyword_at [] cs = None"
| "keyword_at (k # ks) cs = (case literal k cs of Some r \<Rightarrow> Some r | None \<Rightarrow> keyword_at ks cs)"

definition modifier_at :: "pystr \<Rightarrow> pystr option" where
  "modifier_at cs =
     (case keyword_at [''public'', ''external'', ''internal'', ''private'', ''view'', ''pure'', ''payable'', ''virtual'',
                       ''nonReentrant''] cs of
        Some r \<Rightarrow> Some r
      | None \<Rightarrow>
          (case literal ''override'' cs of
             Some r \<Rightarrow> Some (case parens r of None \<Rightarrow> r | Some (_, rest) \<Rightarrow> rest)
           | None \<Rightarrow>
               (case Option.bind (literal ''onlyRole'' cs) parens of
                  Some (_, rest) \<Rightarrow> Some rest
                | None \<Rightarrow> map_option snd (Option.bind (literal ''returns'' cs) (\<lambda>r. parens (spaces0 r))))))"

lemma parens_shrinks: "parens cs = Some (t, r) \<Longrightarrow> length r < length cs"
  by (auto simp: parens_def Let_def bind_eq_Some_conv dest!: char_at_shrinks split: if_splits)

lemma keyword_at_shrinks: "[] \<notin> set ks \<Longrightarrow> keyword_at ks cs = Some r \<Longrightarrow> length r < length cs"
proof (induction ks)
  case (Cons k ks)
  show ?case
  proof (cases "literal k cs")
    case (Some x)
    with Cons.prems have "length r + length k = length cs" "k \<noteq> []" using literal_shrinks [OF Some] by auto
    then show ?thesis by (cases k) auto
  qed (use Cons in simp)
qed simp

lemma spaces0_shrinks: "length (spaces0 x) \<le> length x"
  by (simp add: spaces0_def length_dropWhile_le)

lemma modifier_at_shrinks:
  assumes "modifier_at cs = Some r"
  shows "length r < length cs"
proof -
  have inside: "length rest < length cs" if "literal k cs = Some x" "parens (spaces0 x) = Some (inner, rest) \<or> parens x = Some (inner, rest)"
    for k x inner rest
    using literal_shrinks [OF that(1)] that(2) spaces0_shrinks [of x] parens_shrinks by fastforce
  consider (key) "keyword_at [''public'', ''external'', ''internal'', ''private'', ''view'', ''pure'', ''payable'', ''virtual'',
        ''nonReentrant''] cs = Some r"
    | (override) x where "literal ''override'' cs = Some x" "r = x \<or> (\<exists>inner. parens x = Some (inner, r))"
    | (listed) k x inner where "literal k cs = Some x" "parens x = Some (inner, r) \<or> parens (spaces0 x) = Some (inner, r)"
    using assms unfolding modifier_at_def by (auto simp: bind_eq_Some_conv split: option.splits prod.splits)
  then show ?thesis
  proof cases
    case key
    then show ?thesis by (rule keyword_at_shrinks [rotated]) simp
  next
    case (override x)
    then show ?thesis using literal_shrinks [OF override(1)] inside [OF override(1)] by auto
  next
    case (listed k x inner)
    with inside show ?thesis by blast
  qed
qed

text \<open>\<open>((?:\s*(?:...))*)\<close>: the text after the last modifier.\<close>

function after_modifiers :: "pystr \<Rightarrow> pystr" where
  "after_modifiers cs = (case modifier_at (spaces0 cs) of None \<Rightarrow> cs | Some r \<Rightarrow> after_modifiers r)"
  by pat_completeness auto
termination
proof (relation "measure length")
  fix cs r
  assume "modifier_at (spaces0 cs) = Some r"
  then show "(r, cs) \<in> measure length"
    using spaces0_shrinks [of cs] by (auto dest!: modifier_at_shrinks)
qed simp

declare after_modifiers.simps [simp del]

text \<open>\<open>\bv\b\<close> anywhere, and \<open>override\s*\(([^)]*)\)\<close> anywhere.\<close>

fun has_word :: "string \<Rightarrow> bool \<Rightarrow> pystr \<Rightarrow> bool" where
  "has_word v after_word [] = False"
| "has_word v after_word (c # cs) =
     (\<not> after_word \<and> (case literal v (c # cs) of None \<Rightarrow> False | Some r \<Rightarrow> r = [] \<or> \<not> is_word (hd r))
      \<or> has_word v (is_word c) cs)"

fun override_list :: "pystr \<Rightarrow> pystr option" where
  "override_list [] = None"
| "override_list (c # cs) =
     (case Option.bind (literal ''override'' (c # cs)) (\<lambda>r. parens (spaces0 r)) of
        Some (inner, _) \<Rightarrow> Some inner
      | None \<Rightarrow> override_list cs)"

record function_decl =
  fd_name :: pystr
  fd_visibility :: "string option"
  fd_override_parents :: "pystr list"
  fd_is_override :: bool

definition modifiers_of :: "pystr \<Rightarrow> pystr \<Rightarrow> function_decl" where
  "modifiers_of name mods =
     \<lparr>fd_name = name,
      fd_visibility = List.find (\<lambda>v. has_word v False mods) [''external'', ''public'', ''internal'', ''private''],
      fd_override_parents = (case override_list mods of None \<Rightarrow> []
        | Some inner \<Rightarrow> filter (\<lambda>p. p \<noteq> []) (map strip_ws (split_on 44 inner))),
      fd_is_override = contains (lit ''override'') mods\<rparr>"

definition function_at :: "pystr \<Rightarrow> (function_decl \<times> pystr) option" where
  "function_at cs =
     Option.bind (literal ''function'' cs) (\<lambda>a. Option.bind (spaces1 a) (\<lambda>b. Option.bind (word1 b) (\<lambda>(name, c).
       Option.bind (parens (spaces0 c)) (\<lambda>(_, d).
         let start = spaces0 d; rest = after_modifiers start
         in Some (modifiers_of name (take (length start - length rest) start), rest)))))"

lemma after_modifiers_shrinks: "length (after_modifiers cs) \<le> length cs"
proof (induction cs rule: after_modifiers.induct)
  case (1 cs)
  have "length (after_modifiers r) \<le> length cs" if "modifier_at (spaces0 cs) = Some r" for r
    using 1 [OF that] modifier_at_shrinks [OF that] spaces0_shrinks [of cs] by simp
  then show ?case by (subst after_modifiers.simps) (simp split: option.splits)
qed

lemma function_at_shrinks: "function_at cs = Some (d, r) \<Longrightarrow> length r < length cs"
proof -
  assume "function_at cs = Some (d, r)"
  then obtain a b name c inner e where s: "literal ''function'' cs = Some a" "spaces1 a = Some b" "word1 b = Some (name, c)"
      "parens (spaces0 c) = Some (inner, e)" "r = after_modifiers (spaces0 e)"
    by (auto simp: function_at_def Let_def bind_eq_Some_conv)
  from spaces0_shrinks [of c] spaces0_shrinks [of e] after_modifiers_shrinks [of "spaces0 e"] literal_shrinks [OF s(1)] spaces1_shrinks [OF s(2)]
    word1_shrinks [OF s(3)] parens_shrinks [OF s(4)]
  show ?thesis unfolding s(5) by linarith
qed

function find_functions :: "pystr \<Rightarrow> function_decl list" where
  "find_functions [] = []"
| "find_functions (c # cs) =
     (case function_at (c # cs) of
        Some (d, rest) \<Rightarrow> d # find_functions rest
      | None \<Rightarrow> find_functions cs)"
  by pat_completeness auto
termination
  by (relation "measure length") (auto dest!: function_at_shrinks)

text \<open>\<open>find_state_vars\<close> counts braces and returns the empty list it started with.\<close>

definition find_state_vars :: "pystr \<Rightarrow> pystr list" where
  "find_state_vars t = []"

section \<open>The checks\<close>

record solidity_text =
  st_path :: pystr
  st_content :: pystr

record contract_info =
  ci_path :: pystr
  ci_kind :: pystr
  ci_parents :: "pystr list"
  ci_functions :: "function_decl list"

text \<open>Every contract of a file gets all the functions of the file; a later one of the same name replaces it.\<close>

definition contracts_in :: "solidity_text \<Rightarrow> (pystr \<times> contract_info) list" where
  "contracts_in f =
     (let t = strip_sol (st_content f)
      in map (\<lambda>d. (cd_name d, \<lparr>ci_path = st_path f, ci_kind = cd_kind d, ci_parents = cd_parents d,
                             ci_functions = find_functions t\<rparr>)) (find_contracts t))"

definition contract_map :: "solidity_text list \<Rightarrow> (pystr, contract_info) dict" where
  "contract_map files = foldl (\<lambda>m (k, v). dict_set k v m) [] (concat (map contracts_in files))"

definition function_names :: "contract_info \<Rightarrow> pystr set" where
  "function_names c = fd_name ` set (ci_functions c)"

definition missing_functions :: "contract_info \<Rightarrow> contract_info \<Rightarrow> pystr list" where
  "missing_functions iface c =
     sorted_list_of_set (set (map fd_name (ci_functions iface)) - set (map fd_name (ci_functions c)))"

definition is_interface :: "contract_info \<Rightarrow> bool" where
  "is_interface c \<longleftrightarrow> ci_kind c = lit ''interface''"

text \<open>Check 1: the functions of an interface among those of the contracts that inherit it.\<close>

definition inheritance_errors :: "pystr \<Rightarrow> contract_info \<Rightarrow> pystr \<Rightarrow> contract_info \<Rightarrow> pystr list" where
  "inheritance_errors name iface cname c =
     (if \<not> is_interface c \<and> name \<in> set (ci_parents c) \<and> missing_functions iface c \<noteq> []
      then [ci_path c @ lit '': contract '' @ cname @ lit '' inherits '' @ name @ lit '' but does not implement: ''
              @ comma_join (missing_functions iface c)]
      else [])"

definition interface_errors :: "(pystr, contract_info) dict \<Rightarrow> pystr list" where
  "interface_errors cs =
     concat (map (\<lambda>(name, iface). if is_interface iface then concat (map (\<lambda>(cname, c). inheritance_errors name iface cname c) cs)
                                 else []) cs)"

definition oz_parents :: "pystr list" where
  "oz_parents = map lit [''ERC20'', ''ERC20Permit'', ''ERC20Votes'', ''ERC721'', ''ERC721Enumerable'', ''AccessControl'',
     ''Governor'', ''GovernorSettings'', ''GovernorCountingSimple'', ''GovernorTimelockControl'', ''Nonces'', ''Context'']"

text \<open>Check 2: the names in \<open>override(...)\<close> are known.\<close>

definition unknown_parents :: "(pystr, contract_info) dict \<Rightarrow> pystr \<Rightarrow> contract_info \<Rightarrow> function_decl \<Rightarrow> pystr list" where
  "unknown_parents cs cname c f =
     filter (\<lambda>op. op \<notin> set (ci_parents c) \<and> op \<noteq> cname \<and> op \<notin> set (dict_keys cs) \<and> op \<notin> set oz_parents)
       (fd_override_parents f)"

definition unknown_parent :: "pystr \<Rightarrow> contract_info \<Rightarrow> function_decl \<Rightarrow> pystr \<Rightarrow> pystr" where
  "unknown_parent cname c f op =
     ci_path c @ lit '': function '' @ fd_name f @ lit '' in '' @ cname @ lit '' declares override('' @ op
       @ lit '', ...) but '' @ op @ lit '' is not a known parent''"

definition override_errors :: "(pystr, contract_info) dict \<Rightarrow> pystr list" where
  "override_errors cs =
     concat (map (\<lambda>(cname, c).
       if is_interface c \<or> ci_kind c = lit ''library'' then []
       else concat (map (\<lambda>f. map (unknown_parent cname c f) (unknown_parents cs cname c f)) (ci_functions c))) cs)"

text \<open>\<open>main\<close> after its argument check, over the files in sorted order: the errors and the exit status.\<close>

definition override_check :: "solidity_text list \<Rightarrow> pystr list" where
  "override_check files = (let cs = contract_map files in interface_errors cs @ override_errors cs)"

definition check_overrides_main :: "solidity_text list option \<Rightarrow> int" where
  "check_overrides_main files =
     (case files of None \<Rightarrow> 2 | Some fs \<Rightarrow> if override_check fs \<noteq> [] then 1 else 0)"

section \<open>What a clean run means\<close>

lemma concat_map_Nil: "concat (map f xs) = [] \<longleftrightarrow> (\<forall>x \<in> set xs. f x = [])"
  by simp

lemma interface_errors_Nil:
  "interface_errors cs = [] \<longleftrightarrow>
     (\<forall>(name, iface) \<in> set cs. \<forall>(cname, c) \<in> set cs. is_interface iface \<longrightarrow> inheritance_errors name iface cname c = [])"
  unfolding interface_errors_def concat_map_Nil split_beta if_split [of "\<lambda>x. x = []"] by auto

lemma override_errors_Nil:
  "override_errors cs = [] \<longleftrightarrow> (\<forall>(cname, c) \<in> set cs. \<not> is_interface c \<and> ci_kind c \<noteq> lit ''library'' \<longrightarrow>
      (\<forall>f \<in> set (ci_functions c). \<forall>op \<in> set (fd_override_parents f).
         op \<in> set (ci_parents c) \<or> op = cname \<or> op \<in> set (dict_keys cs) \<or> op \<in> set oz_parents))"
proof -
  have "unknown_parents cs cname c f = [] \<longleftrightarrow> (\<forall>op \<in> set (fd_override_parents f).
      op \<in> set (ci_parents c) \<or> op = cname \<or> op \<in> set (dict_keys cs) \<or> op \<in> set oz_parents)" for cname c f
    unfolding unknown_parents_def filter_empty_conv by blast
  then show ?thesis unfolding override_errors_def concat_map_Nil split_beta by simp
qed

lemma missing_functions_empty: "missing_functions iface c = [] \<longleftrightarrow> function_names iface \<subseteq> function_names c"
  by (auto simp: missing_functions_def function_names_def)

text \<open>
  A clean run means exactly this: every contract that names an interface among its own parents has,
  somewhere in its file, a function for each function of the interface's file, and every name in an
  override list is a direct parent, the contract itself, a contract of the tree or one of the listed
  library contracts.
\<close>
theorem override_check_exact:
  "check_overrides_main (Some files) = 0 \<longleftrightarrow>
     (\<forall>(name, iface) \<in> set (contract_map files). \<forall>(cname, c) \<in> set (contract_map files).
        is_interface iface \<longrightarrow> \<not> is_interface c \<longrightarrow> name \<in> set (ci_parents c) \<longrightarrow>
          function_names iface \<subseteq> function_names c)
     \<and> (\<forall>(cname, c) \<in> set (contract_map files). \<not> is_interface c \<and> ci_kind c \<noteq> lit ''library'' \<longrightarrow>
          (\<forall>f \<in> set (ci_functions c). \<forall>op \<in> set (fd_override_parents f).
             op \<in> set (ci_parents c) \<or> op = cname \<or> op \<in> set (dict_keys (contract_map files)) \<or> op \<in> set oz_parents))"
proof -
  have "interface_errors cs = [] \<longleftrightarrow> (\<forall>(name, iface) \<in> set cs. \<forall>(cname, c) \<in> set cs.
      is_interface iface \<longrightarrow> \<not> is_interface c \<longrightarrow> name \<in> set (ci_parents c) \<longrightarrow> function_names iface \<subseteq> function_names c)" for cs
    unfolding interface_errors_Nil inheritance_errors_def missing_functions_empty split_beta by (simp, blast)
  moreover have "check_overrides_main (Some files) = 0 \<longleftrightarrow>
      interface_errors (contract_map files) = [] \<and> override_errors (contract_map files) = []"
    by (simp add: check_overrides_main_def override_check_def Let_def)
  ultimately show ?thesis by (simp add: override_errors_Nil)
qed

lemma contract_map_from: "(k, c) \<in> set (contract_map files) \<Longrightarrow> \<exists>f \<in> set files. (k, c) \<in> set (contracts_in f)"
proof -
  have "dict_ok (foldl (\<lambda>m (k, v). dict_set k v m) d xs)
      \<and> (dict_get (foldl (\<lambda>m (k, v). dict_set k v m) d xs) k = Some c \<longrightarrow> dict_get d k = Some c \<or> (k, c) \<in> set xs)"
    if "dict_ok d" for d and xs :: "(pystr \<times> contract_info) list"
    using that
  proof (induction xs arbitrary: d)
    case (Cons p xs)
    obtain k' v where p: "p = (k', v)" by (cases p)
    from Cons.IH [OF alist_dict.ok_put [OF Cons.prems, of k' v]] show ?case
      by (auto simp: p alist_dict.look_put split: if_splits)
  qed simp
  from this [of "[]" "concat (map contracts_in files)"]
  show "(k, c) \<in> set (contract_map files) \<Longrightarrow> ?thesis"
    by (auto simp: contract_map_def)
qed

text \<open>
  The check cannot see an unimplemented interface in the interface's own file: its functions count as
  the contract's, so a single file passes the first check whatever its contracts leave out.
\<close>
theorem same_file_interface_passes:
  "interface_errors (contract_map [f]) = []"
proof -
  have "ci_functions c = find_functions (strip_sol (st_content f))" if "(k, c) \<in> set (contract_map [f])" for k c
    using contract_map_from [OF that] by (auto simp: contracts_in_def Let_def)
  then have "missing_functions a b = []" if "(k, a) \<in> set (contract_map [f])" "(l, b) \<in> set (contract_map [f])" for k l a b
    using that by (simp add: missing_functions_def)
  then show ?thesis by (auto simp: interface_errors_Nil inheritance_errors_def)
qed

end
