(* ===== verification/ConfigFile.thy ===== *)
theory ConfigFile imports Config Json
begin

text \<open>
  Loading a configuration file: the sections of \<open>config.py\<close> of the miner and of the validator with their
  required fields and defaults, on top of the substitution and the validators of theory Config. The
  conversion of one value to a text, an integer or a number is pydantic's and stays a parameter. A
  missing field, a value that does not convert and a failed validator are one \<open>ValidationError\<close>, which
  is a \<open>ValueError\<close>; fields the classes do not name are ignored.
\<close>

section \<open>Fields\<close>

record 'a pydantic =
  co_text :: "'a yaml \<Rightarrow> pystr res"
  co_int :: "'a yaml \<Rightarrow> int res"
  co_float :: "'a yaml \<Rightarrow> rat res"
  co_none :: "'a yaml \<Rightarrow> bool"

text \<open>Values are refused with a \<open>ValueError\<close>, texts are texts, and a text is not \<open>None\<close>.\<close>

definition pydantic_ok :: "'a pydantic \<Rightarrow> bool" where
  "pydantic_ok P \<longleftrightarrow>
     (\<forall>t e. co_text P t = Inl e \<longrightarrow> e = ValueError) \<and> (\<forall>t e. co_int P t = Inl e \<longrightarrow> e = ValueError)
     \<and> (\<forall>t e. co_float P t = Inl e \<longrightarrow> e = ValueError)
     \<and> (\<forall>s. co_text P (YText s) = Inr s \<and> \<not> co_none P (YText s))"

type_synonym 'a fields = "((pystr + 'a) \<times> 'a yaml) list"

text \<open>A field with its conversion and its default; without one it is required.\<close>

definition cfg_field :: "'a fields \<Rightarrow> string \<Rightarrow> ('a yaml \<Rightarrow> 'b res) \<Rightarrow> 'b option \<Rightarrow> 'b res" where
  "cfg_field d k co dflt =
     (case map_of d (Inl (lit k)) of
        Some v \<Rightarrow> co v
      | None \<Rightarrow> (case dflt of None \<Rightarrow> Inl ValueError | Some x \<Rightarrow> Inr x))"

definition optional :: "'a pydantic \<Rightarrow> ('a yaml \<Rightarrow> 'b res) \<Rightarrow> 'a yaml \<Rightarrow> 'b option res" where
  "optional P co v = (if co_none P v then Inr None else rbind (co v) (\<lambda>x. Inr (Some x)))"

fun texts :: "'a pydantic \<Rightarrow> 'a yaml \<Rightarrow> pystr list res" where
  "texts P (YSeq xs) = map_res (co_text P) xs"
| "texts P _ = Inl ValueError"

text \<open>A nested section.\<close>

fun section_of :: "('a fields \<Rightarrow> 'b res) \<Rightarrow> 'a yaml \<Rightarrow> 'b res" where
  "section_of build (YMap d) = build d"
| "section_of build _ = Inl ValueError"

section \<open>Sections\<close>

record model_section =
  md_name :: pystr
  md_revision :: "pystr option"
  md_quantization :: "pystr option"
  md_max_model_len :: int
  md_gpu_memory :: rat
  md_tensor_parallel :: int

record p2p_section =
  pp_listen :: "pystr list"
  pp_bootstrap :: "pystr list"
  pp_prefix :: pystr

record gateway_section =
  gs_gateway_url :: "pystr option"
  gs_public_url :: "pystr option"
  gs_host :: pystr
  gs_port :: int
  gs_interval :: int

record scoring_section =
  sc_challenge_interval :: int
  sc_challenges_per_epoch :: int
  sc_eval_set_path :: "pystr option"
  sc_aggregator_url :: "pystr option"
  sc_gateway_url :: "pystr option"
  sc_max_fee :: int

definition miner_chain_section :: "'a pydantic \<Rightarrow> 'a fields \<Rightarrow> chain_config res" where
  "miner_chain_section P d =
     rbind (cfg_field d ''rpc_url'' (co_text P) None) (\<lambda>u.
     rbind (cfg_field d ''chain_id'' (co_int P) (Some 57073)) (\<lambda>i.
     rbind (map_res (\<lambda>k. cfg_field d k (co_text P) None) [''based_token'', ''subnet_registry'', ''market'', ''scoring_registry''])
       (\<lambda>as. miner_chain \<lparr>cfg_rpc_url = u, cfg_chain_id = i, cfg_contracts = as\<rparr>)))"

definition validator_chain_section :: "'a pydantic \<Rightarrow> 'a fields \<Rightarrow> chain_config res" where
  "validator_chain_section P d =
     rbind (cfg_field d ''rpc_url'' (co_text P) None) (\<lambda>u.
     rbind (cfg_field d ''chain_id'' (co_int P) (Some 57073)) (\<lambda>i.
     rbind (map_res (\<lambda>k. cfg_field d k (co_text P) None) [''based_token'', ''subnet_registry'', ''scoring_registry'', ''staking_vault''])
       (\<lambda>as. validator_chain \<lparr>cfg_rpc_url = u, cfg_chain_id = i, cfg_contracts = as\<rparr>)))"

definition wallet_section :: "'a pydantic \<Rightarrow> 'a fields \<Rightarrow> pystr res" where
  "wallet_section P d = cfg_field d ''private_key'' (co_text P) None"

definition model_section_of :: "'a pydantic \<Rightarrow> 'a fields \<Rightarrow> model_section res" where
  "model_section_of P d =
     rbind (cfg_field d ''name'' (co_text P) None) (\<lambda>name.
     rbind (cfg_field d ''revision'' (optional P (co_text P)) (Some None)) (\<lambda>revision.
     rbind (cfg_field d ''quantization'' (optional P (co_text P)) (Some None)) (\<lambda>quantization.
     rbind (cfg_field d ''max_model_len'' (co_int P) (Some 8192)) (\<lambda>max_len.
     rbind (cfg_field d ''gpu_memory_utilization'' (co_float P) (Some (9 / 10))) (\<lambda>gpu.
     rbind (cfg_field d ''tensor_parallel_size'' (co_int P) (Some 1)) (\<lambda>tensor.
       Inr \<lparr>md_name = name, md_revision = revision, md_quantization = quantization, md_max_model_len = max_len,
            md_gpu_memory = gpu, md_tensor_parallel = tensor\<rparr>))))))"

definition default_p2p :: p2p_section where
  "default_p2p = \<lparr>pp_listen = [lit ''/ip4/0.0.0.0/tcp/0''], pp_bootstrap = [], pp_prefix = lit ''basedai/v1''\<rparr>"

definition p2p_section_of :: "'a pydantic \<Rightarrow> 'a fields \<Rightarrow> p2p_section res" where
  "p2p_section_of P d =
     rbind (cfg_field d ''listen_addrs'' (texts P) (Some (pp_listen default_p2p))) (\<lambda>listen.
     rbind (cfg_field d ''bootstrap_peers'' (texts P) (Some (pp_bootstrap default_p2p))) (\<lambda>bootstrap.
     rbind (cfg_field d ''gossip_topic_prefix'' (co_text P) (Some (pp_prefix default_p2p))) (\<lambda>prefix.
       Inr \<lparr>pp_listen = listen, pp_bootstrap = bootstrap, pp_prefix = prefix\<rparr>)))"

definition default_gateway :: gateway_section where
  "default_gateway = \<lparr>gs_gateway_url = None, gs_public_url = None, gs_host = lit ''0.0.0.0'', gs_port = 8801, gs_interval = 120\<rparr>"

definition gateway_section_of :: "'a pydantic \<Rightarrow> 'a fields \<Rightarrow> gateway_section res" where
  "gateway_section_of P d =
     rbind (cfg_field d ''gateway_url'' (optional P (co_text P)) (Some (gs_gateway_url default_gateway))) (\<lambda>gateway_url.
     rbind (cfg_field d ''public_url'' (optional P (co_text P)) (Some (gs_public_url default_gateway))) (\<lambda>public_url.
     rbind (cfg_field d ''http_listen_host'' (co_text P) (Some (gs_host default_gateway))) (\<lambda>host.
     rbind (cfg_field d ''http_listen_port'' (co_int P) (Some (gs_port default_gateway))) (\<lambda>port.
     rbind (cfg_field d ''announce_interval_seconds'' (co_int P) (Some (gs_interval default_gateway))) (\<lambda>interval.
       Inr \<lparr>gs_gateway_url = gateway_url, gs_public_url = public_url, gs_host = host, gs_port = port, gs_interval = interval\<rparr>)))))"

definition default_scoring :: scoring_section where
  "default_scoring = \<lparr>sc_challenge_interval = 60, sc_challenges_per_epoch = 60, sc_eval_set_path = None,
     sc_aggregator_url = None, sc_gateway_url = None, sc_max_fee = 0\<rparr>"

definition scoring_section_of :: "'a pydantic \<Rightarrow> 'a fields \<Rightarrow> scoring_section res" where
  "scoring_section_of P d =
     rbind (cfg_field d ''challenge_interval_seconds'' (co_int P) (Some (sc_challenge_interval default_scoring))) (\<lambda>interval.
     rbind (cfg_field d ''challenges_per_epoch'' (co_int P) (Some (sc_challenges_per_epoch default_scoring))) (\<lambda>per_epoch.
     rbind (cfg_field d ''eval_set_path'' (optional P (co_text P)) (Some (sc_eval_set_path default_scoring))) (\<lambda>path.
     rbind (cfg_field d ''aggregator_url'' (optional P (co_text P)) (Some (sc_aggregator_url default_scoring))) (\<lambda>aggregator.
     rbind (cfg_field d ''gateway_url'' (optional P (co_text P)) (Some (sc_gateway_url default_scoring))) (\<lambda>gateway.
     rbind (cfg_field d ''max_registration_fee'' (co_int P) (Some (sc_max_fee default_scoring))) (\<lambda>max_fee.
       Inr \<lparr>sc_challenge_interval = interval, sc_challenges_per_epoch = per_epoch, sc_eval_set_path = path,
            sc_aggregator_url = aggregator, sc_gateway_url = gateway, sc_max_fee = max_fee\<rparr>))))))"

section \<open>Files\<close>

record miner_file =
  mf_brain_id :: int
  mf_chain :: chain_config
  mf_key :: pystr
  mf_model :: model_section
  mf_p2p :: p2p_section
  mf_gateway :: gateway_section
  mf_batch_size :: int
  mf_batch_interval :: int
  mf_max_fee :: int

record validator_file =
  vf_brain_id :: int
  vf_chain :: chain_config
  vf_key :: pystr
  vf_p2p :: p2p_section
  vf_scoring :: scoring_section

definition miner_file_of :: "'a pydantic \<Rightarrow> 'a fields \<Rightarrow> miner_file res" where
  "miner_file_of P d =
     rbind (cfg_field d ''brain_id'' (co_int P) None) (\<lambda>brain_id.
     rbind (cfg_field d ''chain'' (section_of (miner_chain_section P)) None) (\<lambda>chain.
     rbind (cfg_field d ''wallet'' (section_of (wallet_section P)) None) (\<lambda>key.
     rbind (cfg_field d ''model'' (section_of (model_section_of P)) None) (\<lambda>model.
     rbind (cfg_field d ''p2p'' (section_of (p2p_section_of P)) (Some default_p2p)) (\<lambda>p2p.
     rbind (cfg_field d ''gateway'' (section_of (gateway_section_of P)) (Some default_gateway)) (\<lambda>gateway.
     rbind (cfg_field d ''receipt_batch_size'' (co_int P) (Some 50)) (\<lambda>size.
     rbind (cfg_field d ''receipt_batch_interval_seconds'' (co_int P) (Some 300)) (\<lambda>interval.
     rbind (cfg_field d ''max_registration_fee'' (co_int P) (Some 0)) (\<lambda>max_fee.
       Inr \<lparr>mf_brain_id = brain_id, mf_chain = chain, mf_key = key, mf_model = model, mf_p2p = p2p, mf_gateway = gateway,
            mf_batch_size = size, mf_batch_interval = interval, mf_max_fee = max_fee\<rparr>)))))))))"

definition validator_file_of :: "'a pydantic \<Rightarrow> 'a fields \<Rightarrow> validator_file res" where
  "validator_file_of P d =
     rbind (cfg_field d ''brain_id'' (co_int P) None) (\<lambda>brain_id.
     rbind (cfg_field d ''chain'' (section_of (validator_chain_section P)) None) (\<lambda>chain.
     rbind (cfg_field d ''wallet'' (section_of (wallet_section P)) None) (\<lambda>key.
     rbind (cfg_field d ''p2p'' (section_of (p2p_section_of P)) (Some default_p2p)) (\<lambda>p2p.
     rbind (cfg_field d ''scoring'' (section_of (scoring_section_of P)) (Some default_scoring)) (\<lambda>scoring.
       Inr \<lparr>vf_brain_id = brain_id, vf_chain = chain, vf_key = key, vf_p2p = p2p, vf_scoring = scoring\<rparr>)))))"

text \<open>\<open>cls(**_expand_env(raw))\<close>: only a mapping with text keys can be spread into keyword arguments.\<close>

definition is_text_key :: "pystr + 'a \<Rightarrow> bool" where
  "is_text_key k = (case k of Inl _ \<Rightarrow> True | Inr _ \<Rightarrow> False)"

fun keywords_of :: "'a yaml \<Rightarrow> 'a fields res" where
  "keywords_of (YMap d) = (if list_all (\<lambda>p. is_text_key (fst p)) d then Inr d else Inl TypeError)"
| "keywords_of _ = Inl TypeError"

definition miner_from_file :: "'a pydantic \<Rightarrow> (pystr \<Rightarrow> pystr res) \<Rightarrow> 'a yaml \<Rightarrow> miner_file res" where
  "miner_from_file P env raw = rbind (expand_env env raw) (\<lambda>t. rbind (keywords_of t) (miner_file_of P))"

definition validator_from_file :: "'a pydantic \<Rightarrow> (pystr \<Rightarrow> pystr res) \<Rightarrow> 'a yaml \<Rightarrow> validator_file res" where
  "validator_from_file P env raw = rbind (expand_env env raw) (\<lambda>t. rbind (keywords_of t) (validator_file_of P))"

section \<open>What a loaded file guarantees\<close>

lemma cfg_field_Inr:
  "cfg_field d k co dflt = Inr x \<longleftrightarrow>
     (case map_of d (Inl (lit k)) of Some v \<Rightarrow> co v = Inr x | None \<Rightarrow> dflt = Some x)"
  by (auto simp: cfg_field_def split: option.splits)

lemma required_field: "cfg_field d k co None = Inr x \<Longrightarrow> \<exists>v. map_of d (Inl (lit k)) = Some v \<and> co v = Inr x"
  by (auto simp: cfg_field_Inr split: option.splits)

lemma absent_field: "map_of d (Inl (lit k)) = None \<Longrightarrow> cfg_field d k co (Some x) = Inr x"
  by (simp add: cfg_field_def)

lemma section_of_Inr: "section_of build t = Inr x \<longleftrightarrow> (\<exists>d. t = YMap d \<and> build d = Inr x)"
  by (cases t) auto

text \<open>Substitution keeps the keys of a mapping.\<close>

lemma expand_env_keys:
  assumes "expand_env env (YMap d) = Inr t"
  shows "\<exists>d'. t = YMap d' \<and> map fst d' = map fst d"
proof -
  have "map_res (\<lambda>p. rbind (expand_env env (snd p)) (\<lambda>v. Inr (fst p, v))) d = Inr d' \<Longrightarrow> map fst d' = map fst d" for d'
    by (induction d arbitrary: d') auto
  with assms show ?thesis by auto
qed

lemma map_of_keys: "map fst d' = map fst d \<Longrightarrow> map_of d' k = None \<longleftrightarrow> map_of d k = None"
  by (simp add: map_of_eq_None_iff) (metis list.set_map)

definition safe_rpc :: "pystr \<Rightarrow> bool" where
  "safe_rpc u \<longleftrightarrow> startswith u (lit ''https://'') \<or> startswith u (lit ''http://localhost'') \<or> startswith u (lit ''http://127.'')"

text \<open>\<open>0x\<close> and forty digits, not all zero, but for a newline at the end.\<close>

definition contract_text :: "pystr \<Rightarrow> bool" where
  "contract_text a \<longleftrightarrow> (\<exists>h. length h = 40 \<and> list_all is_hex h \<and> (a = ox @ h \<and> h \<noteq> replicate 40 48 \<or> a = ox @ h @ [10]))"

lemma validator_chain_safe:
  assumes "validator_chain c = Inr c'"
  shows "c' = c \<and> safe_rpc (cfg_rpc_url c) \<and> list_all contract_text (cfg_contracts c)"
proof -
  have "list_all contract_text as" if "map_res valid_addr as = Inr bs" for as bs
    using that by (induction as arbitrary: bs) (auto simp: valid_addr_exact contract_text_def)
  with assms chain_accepted(2) [OF assms] show ?thesis
    by (auto simp: validator_chain_def https_rpc_def safe_rpc_def split: if_splits)
qed

lemma miner_chain_safe:
  assumes "miner_chain c = Inr c'"
  shows "c' = c \<and> safe_rpc (cfg_rpc_url c) \<and> list_all contract_text (cfg_contracts c) \<and> 0 < cfg_chain_id c"
  using assms validator_chain_safe [of c c'] by (simp add: chain_accepted(1))

lemma chain_sections:
  "miner_chain_section P d = Inr c \<Longrightarrow>
     safe_rpc (cfg_rpc_url c) \<and> list_all contract_text (cfg_contracts c) \<and> length (cfg_contracts c) = 4 \<and> 0 < cfg_chain_id c"
  "validator_chain_section P d = Inr c \<Longrightarrow>
     safe_rpc (cfg_rpc_url c) \<and> list_all contract_text (cfg_contracts c) \<and> length (cfg_contracts c) = 4"
  by (auto simp: miner_chain_section_def validator_chain_section_def dest!: miner_chain_safe validator_chain_safe)

lemma loaded_chain:
  "miner_from_file P env (YMap d) = Inr c \<Longrightarrow>
     safe_rpc (cfg_rpc_url (mf_chain c)) \<and> list_all contract_text (cfg_contracts (mf_chain c))
     \<and> length (cfg_contracts (mf_chain c)) = 4 \<and> 0 < cfg_chain_id (mf_chain c)"
  "validator_from_file P env (YMap d) = Inr v \<Longrightarrow>
     safe_rpc (cfg_rpc_url (vf_chain v)) \<and> list_all contract_text (cfg_contracts (vf_chain v))
     \<and> length (cfg_contracts (vf_chain v)) = 4"
proof -
  assume "miner_from_file P env (YMap d) = Inr c"
  then have "\<exists>e. miner_chain_section P e = Inr (mf_chain c)"
    by (auto simp: miner_from_file_def miner_file_of_def section_of_Inr dest!: required_field)
  then show "safe_rpc (cfg_rpc_url (mf_chain c)) \<and> list_all contract_text (cfg_contracts (mf_chain c))
     \<and> length (cfg_contracts (mf_chain c)) = 4 \<and> 0 < cfg_chain_id (mf_chain c)"
    using chain_sections(1) by blast
next
  assume "validator_from_file P env (YMap d) = Inr v"
  then have "\<exists>e. validator_chain_section P e = Inr (vf_chain v)"
    by (auto simp: validator_from_file_def validator_file_of_def section_of_Inr dest!: required_field)
  then show "safe_rpc (cfg_rpc_url (vf_chain v)) \<and> list_all contract_text (cfg_contracts (vf_chain v))
     \<and> length (cfg_contracts (vf_chain v)) = 4"
    using chain_sections(2) by blast
qed

text \<open>
  A configuration file that loads is safe to start from, for a miner and for a validator: every
  environment variable it names was set, the four required entries are there, the node is reached
  over TLS or on an address that starts like a local one, the four contracts have the form of an
  address and are not the zero address (a newline at the end apart), a miner's chain number is
  positive, and a miner whose file has no gateway section has no gateway and no public URL.
\<close>
theorem loaded_config_is_safe:
  "(\<forall>c. miner_from_file P env (YMap d) = Inr c \<longrightarrow>
      (\<forall>n \<in> placeholders (YMap d). \<exists>v. env n = Inr v)
    \<and> (\<forall>k \<in> {''brain_id'', ''chain'', ''wallet'', ''model''}. map_of d (Inl (lit k)) \<noteq> None)
    \<and> safe_rpc (cfg_rpc_url (mf_chain c)) \<and> 0 < cfg_chain_id (mf_chain c)
    \<and> length (cfg_contracts (mf_chain c)) = 4 \<and> list_all contract_text (cfg_contracts (mf_chain c))
    \<and> (map_of d (Inl (lit ''gateway'')) = None \<longrightarrow> mf_gateway c = default_gateway))
   \<and> (\<forall>c. validator_from_file P env (YMap d) = Inr c \<longrightarrow>
      (\<forall>n \<in> placeholders (YMap d). \<exists>v. env n = Inr v)
    \<and> (\<forall>k \<in> {''brain_id'', ''chain'', ''wallet''}. map_of d (Inl (lit k)) \<noteq> None)
    \<and> safe_rpc (cfg_rpc_url (vf_chain c))
    \<and> length (cfg_contracts (vf_chain c)) = 4 \<and> list_all contract_text (cfg_contracts (vf_chain c))
    \<and> (map_of d (Inl (lit ''scoring'')) = None \<longrightarrow> vf_scoring c = default_scoring))"
proof (intro conjI allI impI)
  note keyword = keywords_of.simps(1)
  have expanded: "\<exists>d'. expand_env env (YMap d) = Inr (YMap d') \<and> map fst d' = map fst d"
    if "expand_env env (YMap d) = Inr t" for t
    using expand_env_keys [OF that] that by auto
  {
    fix c assume c: "miner_from_file P env (YMap d) = Inr c"
    then obtain d' where d': "expand_env env (YMap d) = Inr (YMap d')" "map fst d' = map fst d" "miner_file_of P d' = Inr c"
      using expanded by (auto simp: miner_from_file_def split: if_splits simp del: expand_env.simps)
    note keys = map_of_keys [OF d'(2)]
    show "\<forall>n \<in> placeholders (YMap d). \<exists>v. env n = Inr v" using d'(1) unfolding expand_env_Inr by blast
    show "\<forall>k \<in> {''brain_id'', ''chain'', ''wallet'', ''model''}. map_of d (Inl (lit k)) \<noteq> None"
      using d'(3) by (auto simp: miner_file_of_def simp flip: keys dest!: required_field)
    show "safe_rpc (cfg_rpc_url (mf_chain c))" "0 < cfg_chain_id (mf_chain c)"
      "length (cfg_contracts (mf_chain c)) = 4" "list_all contract_text (cfg_contracts (mf_chain c))"
      using loaded_chain(1) [OF c] by blast+
    show "mf_gateway c = default_gateway" if "map_of d (Inl (lit ''gateway'')) = None"
      using d'(3) by (auto simp: miner_file_of_def absent_field [OF keys [THEN iffD2, OF that]])
  }
  {
    fix c assume c: "validator_from_file P env (YMap d) = Inr c"
    then obtain d' where d': "expand_env env (YMap d) = Inr (YMap d')" "map fst d' = map fst d" "validator_file_of P d' = Inr c"
      using expanded by (auto simp: validator_from_file_def split: if_splits simp del: expand_env.simps)
    note keys = map_of_keys [OF d'(2)]
    show "\<forall>n \<in> placeholders (YMap d). \<exists>v. env n = Inr v" using d'(1) unfolding expand_env_Inr by blast
    show "\<forall>k \<in> {''brain_id'', ''chain'', ''wallet''}. map_of d (Inl (lit k)) \<noteq> None"
      using d'(3) by (auto simp: validator_file_of_def simp flip: keys dest!: required_field)
    show "safe_rpc (cfg_rpc_url (vf_chain c))"
      "length (cfg_contracts (vf_chain c)) = 4" "list_all contract_text (cfg_contracts (vf_chain c))"
      using loaded_chain(2) [OF c] by blast+
    show "vf_scoring c = default_scoring" if "map_of d (Inl (lit ''scoring'')) = None"
      using d'(3) by (auto simp: validator_file_of_def absent_field [OF keys [THEN iffD2, OF that]])
  }
qed

section \<open>The shipped example\<close>

text \<open>The values that are neither texts nor containers in a concrete file, and a conversion that takes them as they are.\<close>

datatype demo_atom = ANull | AInt int | ANum rat

definition demo_pydantic :: "demo_atom pydantic" where
  "demo_pydantic =
     \<lparr>co_text = (\<lambda>t. case t of YText s \<Rightarrow> Inr s | _ \<Rightarrow> Inl ValueError),
      co_int = (\<lambda>t. case t of YAtom (AInt i) \<Rightarrow> Inr i | _ \<Rightarrow> Inl ValueError),
      co_float = (\<lambda>t. case t of YAtom (ANum q) \<Rightarrow> Inr q | _ \<Rightarrow> Inl ValueError),
      co_none = (\<lambda>t. t = YAtom ANull)\<rparr>"

abbreviation demo_entry :: "string \<Rightarrow> demo_atom yaml \<Rightarrow> (pystr + demo_atom) \<times> demo_atom yaml" where
  "demo_entry k v \<equiv> (Inl (lit k), v)"

definition demo_address :: "nat \<Rightarrow> pystr" where
  "demo_address c = ox @ replicate 40 c"

text \<open>\<open>miner/config.example.yaml\<close>, and an environment that sets the variables it names.\<close>

definition EXAMPLE_MINER :: "demo_atom fields" where
  "EXAMPLE_MINER =
     [demo_entry ''brain_id'' (YAtom (AInt 8)),
      demo_entry ''chain'' (YMap
        [demo_entry ''rpc_url'' (YText (lit ''${INK_RPC}'')),
         demo_entry ''chain_id'' (YAtom (AInt 57073)),
         demo_entry ''based_token'' (YText (demo_address 49)),
         demo_entry ''subnet_registry'' (YText (demo_address 50)),
         demo_entry ''market'' (YText (demo_address 51)),
         demo_entry ''scoring_registry'' (YText (demo_address 52))]),
      demo_entry ''wallet'' (YMap [demo_entry ''private_key'' (YText (lit ''${MINER_PRIVATE_KEY}''))]),
      demo_entry ''model'' (YMap
        [demo_entry ''name'' (YText (lit ''meta-llama/Llama-3-8b-instruct'')),
         demo_entry ''revision'' (YText (lit ''main'')),
         demo_entry ''quantization'' (YText (lit ''awq'')),
         demo_entry ''max_model_len'' (YAtom (AInt 8192)),
         demo_entry ''gpu_memory_utilization'' (YAtom (ANum (9 / 10))),
         demo_entry ''tensor_parallel_size'' (YAtom (AInt 1))]),
      demo_entry ''p2p'' (YMap
        [demo_entry ''listen_addrs'' (YSeq [YText (lit ''/ip4/0.0.0.0/tcp/4001'')]),
         demo_entry ''bootstrap_peers'' (YSeq [YText (lit ''/dns/bootstrap.basedai.network/tcp/4001/p2p/12D3KooW...'')]),
         demo_entry ''gossip_topic_prefix'' (YText (lit ''basedai/v1''))]),
      demo_entry ''gateway'' (YMap
        [demo_entry ''gateway_url'' (YText (lit ''${BASEDAI_GATEWAY_URL}'')),
         demo_entry ''public_url'' (YText (lit ''${MINER_PUBLIC_URL}'')),
         demo_entry ''http_listen_host'' (YText (lit ''0.0.0.0'')),
         demo_entry ''http_listen_port'' (YAtom (AInt 8801)),
         demo_entry ''announce_interval_seconds'' (YAtom (AInt 120))]),
      demo_entry ''receipt_batch_size'' (YAtom (AInt 50)),
      demo_entry ''receipt_batch_interval_seconds'' (YAtom (AInt 300))]"

definition demo_environ :: "pystr \<Rightarrow> pystr res" where
  "demo_environ n =
     (if n = lit ''INK_RPC'' then Inr (lit ''https://rpc'')
      else if n = lit ''MINER_PRIVATE_KEY'' then Inr (lit ''k'')
      else if n = lit ''BASEDAI_GATEWAY_URL'' then Inr (lit ''https://gw'')
      else if n = lit ''MINER_PUBLIC_URL'' then Inr (lit ''https://me'') else Inl KeyError)"

lemma demo_pydantic_simps [simp]:
  "co_text demo_pydantic (YText s) = Inr s" "co_int demo_pydantic (YAtom (AInt i)) = Inr i"
  "co_float demo_pydantic (YAtom (ANum q)) = Inr q" "co_none demo_pydantic (YText s) = False"
  by (simp_all add: demo_pydantic_def)

lemma demo_placeholders:
  "is_placeholder (lit ''${INK_RPC}'')" "placeholder_name (lit ''${INK_RPC}'') = lit ''INK_RPC''"
  "is_placeholder (lit ''${MINER_PRIVATE_KEY}'')" "placeholder_name (lit ''${MINER_PRIVATE_KEY}'') = lit ''MINER_PRIVATE_KEY''"
  "is_placeholder (lit ''${BASEDAI_GATEWAY_URL}'')" "placeholder_name (lit ''${BASEDAI_GATEWAY_URL}'') = lit ''BASEDAI_GATEWAY_URL''"
  "is_placeholder (lit ''${MINER_PUBLIC_URL}'')" "placeholder_name (lit ''${MINER_PUBLIC_URL}'') = lit ''MINER_PUBLIC_URL''"
  by code_simp+

lemma demo_plain_texts:
  "\<not> is_placeholder (demo_address c)" "\<not> is_placeholder (lit ''meta-llama/Llama-3-8b-instruct'')" "\<not> is_placeholder (lit ''main'')"
  "\<not> is_placeholder (lit ''awq'')" "\<not> is_placeholder (lit ''/ip4/0.0.0.0/tcp/4001'')"
  "\<not> is_placeholder (lit ''/dns/bootstrap.basedai.network/tcp/4001/p2p/12D3KooW...'')" "\<not> is_placeholder (lit ''basedai/v1'')"
  "\<not> is_placeholder (lit ''0.0.0.0'')"
  by (simp_all add: is_placeholder_def startswith_def demo_address_def ox_def) code_simp+

lemma demo_environ_simps:
  "demo_environ (lit ''INK_RPC'') = Inr (lit ''https://rpc'')" "demo_environ (lit ''MINER_PRIVATE_KEY'') = Inr (lit ''k'')"
  "demo_environ (lit ''BASEDAI_GATEWAY_URL'') = Inr (lit ''https://gw'')" "demo_environ (lit ''MINER_PUBLIC_URL'') = Inr (lit ''https://me'')"
  by code_simp+

lemma demo_address_valid: "c \<in> {49, 50, 51, 52} \<Longrightarrow> valid_addr (demo_address c) = Inr (demo_address c)"
proof -
  assume c: "c \<in> {49, 50, 51, 52}"
  then have "is_hex c" by (auto simp: is_hex_def hex_digit_def)
  then have "list_all is_hex (replicate 40 c)" unfolding list_all_iff by (metis in_set_replicate)
  moreover have "replicate 40 c \<noteq> replicate 40 48" using c by (auto simp: replicate_eq_replicate)
  ultimately show ?thesis
    unfolding valid_addr_exact demo_address_def by (intro conjI refl exI [of _ "replicate 40 c"] disjI1) simp_all
qed

lemma example_loads:
  "\<exists>c. miner_from_file demo_pydantic demo_environ (YMap EXAMPLE_MINER) = Inr c
     \<and> gs_gateway_url (mf_gateway c) = Some (lit ''https://gw'') \<and> gs_public_url (mf_gateway c) = Some (lit ''https://me'')
     \<and> mf_brain_id c = 8 \<and> mf_max_fee c = 0 \<and> md_revision (mf_model c) = Some (lit ''main'')
     \<and> cfg_contracts (mf_chain c) = map demo_address [49, 50, 51, 52]"
proof -
  have rpc: "https_rpc (lit ''https://rpc'') = Inr (lit ''https://rpc'')" by code_simp
  show ?thesis
    by (simp add: miner_from_file_def EXAMPLE_MINER_def demo_placeholders demo_plain_texts demo_environ_simps is_text_key_def
        miner_file_of_def cfg_field_def miner_chain_section_def miner_chain_def positive_chain_def rpc demo_address_valid
        wallet_section_def model_section_of_def p2p_section_of_def gateway_section_of_def optional_def del: rbind_Inr_iff)
qed

theorem loaded_config_is_safe_witness:
  "\<exists>c. miner_from_file demo_pydantic demo_environ (YMap EXAMPLE_MINER) = Inr c \<and> safe_rpc (cfg_rpc_url (mf_chain c))"
  using loaded_config_is_safe [of demo_pydantic demo_environ EXAMPLE_MINER] example_loads by blast

end
