(* ===== verification/Abis.thy ===== *)
theory Abis imports Market Vault
begin

text \<open>
  The contract interfaces the services write down in their own code, against the interfaces of the
  contracts: \<open>_MARKET_ABI\<close> and \<open>_REGISTRY_ABI\<close> of \<open>miner/.../runtime.py\<close>, \<open>_ABIS\<close> and \<open>_load_contract\<close> of
  \<open>validator/.../runtime.py\<close>, the ABIs of \<open>CommitmentAggregator.from_chain\<close>, of both \<open>cli.py\<close> and of the
  client, and the event ABI of \<open>ChainPoller\<close>. A call is the contract's address with the four-byte
  selector and the encoded arguments; a contract runs the function whose selector the data starts
  with. The encoder of the arguments is \<open>web3\<close>'s and stays a parameter, and so do the functions the
  contracts inherit from the OpenZeppelin library.
\<close>

section \<open>Interfaces\<close>

datatype abi_type =
    TUint nat | TAddress | TBool | TBytes32 | TBytes | TString | TArray abi_type | TTuple "abi_type list"

fun commas :: "pystr list \<Rightarrow> pystr" where
  "commas [] = []"
| "commas [x] = x"
| "commas (x # y # xs) = x @ 44 # commas (y # xs)"

text \<open>The canonical name of a type, as it stands in a signature.\<close>

fun type_text :: "abi_type \<Rightarrow> pystr" where
  "type_text (TUint w) = lit ''uint'' @ nat_digits w"
| "type_text TAddress = lit ''address''"
| "type_text TBool = lit ''bool''"
| "type_text TBytes32 = lit ''bytes32''"
| "type_text TBytes = lit ''bytes''"
| "type_text TString = lit ''string''"
| "type_text (TArray t) = type_text t @ lit ''[]''"
| "type_text (TTuple ts) = lit ''('' @ commas (map type_text ts) @ lit '')''"

record abi_fn =
  fn_name :: pystr
  fn_view :: bool
  fn_inputs :: "abi_type list"
  fn_outputs :: "abi_type list"

abbreviation view_fn :: "string \<Rightarrow> abi_type list \<Rightarrow> abi_type list \<Rightarrow> abi_fn" where
  "view_fn n ins outs \<equiv> \<lparr>fn_name = lit n, fn_view = True, fn_inputs = ins, fn_outputs = outs\<rparr>"

abbreviation tx_fn :: "string \<Rightarrow> abi_type list \<Rightarrow> abi_fn" where
  "tx_fn n ins \<equiv> \<lparr>fn_name = lit n, fn_view = False, fn_inputs = ins, fn_outputs = []\<rparr>"

definition signature :: "abi_fn \<Rightarrow> pystr" where
  "signature f = fn_name f @ type_text (TTuple (fn_inputs f))"

definition selector :: "ethlib \<Rightarrow> abi_fn \<Rightarrow> bytes" where
  "selector E f = take 4 (keccak E (map of_nat (signature f)))"

section \<open>The interfaces the services write down\<close>

definition RECEIPT_TYPE :: abi_type where
  "RECEIPT_TYPE = TTuple [TAddress, TAddress, TUint 256, TBytes32, TBytes32, TUint 256, TUint 64, TUint 256]"

definition MARKET_ABI :: "abi_fn list" where
  "MARKET_ABI =
     [view_fn ''balances'' [TAddress] [TUint 256],
      view_fn ''usedNonces'' [TAddress, TUint 256] [TBool],
      tx_fn ''redeem'' [RECEIPT_TYPE, TBytes],
      view_fn ''pricePerByte'' [] [TUint 256],
      view_fn ''pricePerRequest'' [] [TUint 256]]"

definition REGISTRY_ABI :: "abi_fn list" where
  "REGISTRY_ABI =
     [view_fn ''isMiner'' [TUint 256, TAddress] [TBool],
      view_fn ''isValidator'' [TUint 256, TAddress] [TBool],
      tx_fn ''registerMiner'' [TUint 256, TUint 256]]"

definition VALIDATOR_ABIS :: "(pystr, abi_fn list) dict" where
  "VALIDATOR_ABIS =
     [(lit ''ScoringRegistry'', [view_fn ''currentEpoch'' [] [TUint 64]]),
      (lit ''SubnetRegistry'',
         [view_fn ''isValidator'' [TUint 256, TAddress] [TBool],
          view_fn ''minerCount'' [TUint 256] [TUint 256],
          tx_fn ''registerValidator'' [TUint 256, TUint 256]])]"

definition aggregator_staking_abi :: "abi_fn list" where
  "aggregator_staking_abi =
     [view_fn ''validatorStake'' [TUint 256, TAddress] [TUint 256],
      view_fn ''brainStake'' [TUint 256] [TUint 256]]"

definition aggregator_scoring_abi :: "abi_fn list" where
  "aggregator_scoring_abi =
     [tx_fn ''proposeEpoch'' [TUint 64, TUint 256, TBytes32, TArray TAddress, TArray TBytes]]"

definition verify_score_abi :: "abi_fn list" where
  "verify_score_abi = [view_fn ''verifyScore'' [TUint 64, TUint 256, TAddress, TUint 256, TArray TBytes32] [TBool]]"

definition current_epoch_abi :: "abi_fn list" where
  "current_epoch_abi = [view_fn ''currentEpoch'' [] [TUint 64]]"

definition client_erc20_abi :: "abi_fn list" where
  "client_erc20_abi =
     [\<lparr>fn_name = lit ''approve'', fn_view = False, fn_inputs = [TAddress, TUint 256], fn_outputs = [TBool]\<rparr>,
      view_fn ''balanceOf'' [TAddress] [TUint 256]]"

definition client_market_abi :: "abi_fn list" where
  "client_market_abi =
     [tx_fn ''deposit'' [TUint 256],
      tx_fn ''requestWithdraw'' [TUint 256],
      tx_fn ''withdraw'' [],
      view_fn ''balances'' [TAddress] [TUint 256],
      view_fn ''pricePerByte'' [] [TUint 256],
      view_fn ''pricePerRequest'' [] [TUint 256]]"

section \<open>Contract objects\<close>

record contract =
  ct_address :: pystr
  ct_abi :: "abi_fn list"

definition contract_at :: "ethlib \<Rightarrow> pystr \<Rightarrow> abi_fn list \<Rightarrow> contract res" where
  "contract_at E address abi = rbind (checksum E address) (\<lambda>a. Inr \<lparr>ct_address = a, ct_abi = abi\<rparr>)"

text \<open>\<open>_load_contract\<close>: a missing or empty interface is an error, never a contract without functions.\<close>

definition load_contract :: "ethlib \<Rightarrow> pystr \<Rightarrow> pystr \<Rightarrow> contract res" where
  "load_contract E name address =
     (case dict_get VALIDATOR_ABIS name of
        None \<Rightarrow> Inl ValueError
      | Some abi \<Rightarrow> if abi = [] then Inl ValueError else contract_at E address abi)"

text \<open>
  \<open>contract.functions.name(args)\<close>: an unknown name raises an \<open>AttributeError\<close>, a wrong number of
  arguments a validation error.
\<close>

definition abi_lookup :: "abi_fn list \<Rightarrow> pystr \<Rightarrow> nat \<Rightarrow> abi_fn res" where
  "abi_lookup abi name n =
     (case filter (\<lambda>f. fn_name f = name) abi of
        [] \<Rightarrow> Inl AttributeError
      | fs \<Rightarrow> (case filter (\<lambda>f. length (fn_inputs f) = n) fs of [] \<Rightarrow> Inl OtherError | f # _ \<Rightarrow> Inr f))"

definition call_data ::
    "ethlib \<Rightarrow> (abi_type list \<Rightarrow> 'v list \<Rightarrow> bytes res) \<Rightarrow> contract \<Rightarrow> pystr \<Rightarrow> 'v list \<Rightarrow> (pystr \<times> bytes) res" where
  "call_data E enc c name args =
     rbind (abi_lookup (ct_abi c) name (length args)) (\<lambda>f.
     rbind (enc (fn_inputs f) args) (\<lambda>bs. Inr (ct_address c, selector E f @ bs)))"

section \<open>The contracts' interfaces\<close>

definition market_interface :: "abi_fn list" where
  "market_interface =
     [view_fn ''PAUSER_ROLE'' [] [TBytes32],
      view_fn ''WITHDRAW_DELAY'' [] [TUint 64],
      view_fn ''MAX_RECEIPT_LIFETIME'' [] [TUint 64],
      view_fn ''BPS_DENOMINATOR'' [] [TUint 16],
      view_fn ''BASED'' [] [TAddress],
      view_fn ''REGISTRY'' [] [TAddress],
      view_fn ''REWARD_DISTRIBUTOR'' [] [TAddress],
      view_fn ''maxReservation'' [] [TUint 256],
      view_fn ''pricePerByte'' [] [TUint 256],
      view_fn ''pricePerRequest'' [] [TUint 256],
      view_fn ''balances'' [TAddress] [TUint 256],
      view_fn ''usedNonces'' [TAddress, TUint 256] [TBool],
      view_fn ''pendingWithdrawals'' [TAddress] [TUint 256, TUint 64],
      view_fn ''quote'' [TUint 256, TUint 256] [TUint 256],
      tx_fn ''pause'' [],
      tx_fn ''unpause'' [],
      tx_fn ''setMaxReservation'' [TUint 256],
      tx_fn ''setPricing'' [TUint 256, TUint 256],
      tx_fn ''deposit'' [TUint 256],
      tx_fn ''requestWithdraw'' [TUint 256],
      tx_fn ''cancelWithdraw'' [],
      tx_fn ''withdraw'' [],
      tx_fn ''redeem'' [RECEIPT_TYPE, TBytes],
      view_fn ''receiptDigest'' [RECEIPT_TYPE] [TBytes32]]"

definition subnet_interface :: "abi_fn list" where
  "subnet_interface =
     [view_fn ''MAX_VALIDATORS_PER_BRAIN'' [] [TUint 256],
      view_fn ''MAX_MINERS_PER_BRAIN'' [] [TUint 256],
      view_fn ''DEFAULT_REGISTRATION_FEE'' [] [TUint 256],
      view_fn ''DEFAULT_OWNER_SPLIT_BPS'' [] [TUint 16],
      view_fn ''DEFAULT_MINER_SHARE_BPS'' [] [TUint 16],
      view_fn ''MAX_OWNER_SPLIT_BPS'' [] [TUint 16],
      view_fn ''BURN_ADDRESS'' [] [TAddress],
      view_fn ''BRAIN_NFT'' [] [TAddress],
      view_fn ''BASED'' [] [TAddress],
      tx_fn ''activate'' [TUint 256, TBytes32, TString],
      tx_fn ''deactivate'' [TUint 256],
      tx_fn ''setModel'' [TUint 256, TBytes32, TString],
      tx_fn ''setRegistrationFee'' [TUint 256, TUint 256],
      tx_fn ''setEmissionSplit'' [TUint 256, TUint 16, TUint 16],
      tx_fn ''registerValidator'' [TUint 256, TUint 256],
      tx_fn ''deregisterValidator'' [TUint 256],
      tx_fn ''registerMiner'' [TUint 256, TUint 256],
      tx_fn ''deregisterMiner'' [TUint 256],
      view_fn ''getSubnet'' [TUint 256]
        [TTuple [TAddress, TBytes32, TString, TUint 256, TUint 16, TUint 16, TUint 64, TBool]],
      view_fn ''isValidator'' [TUint 256, TAddress] [TBool],
      view_fn ''isMiner'' [TUint 256, TAddress] [TBool],
      view_fn ''validatorCount'' [TUint 256] [TUint 256],
      view_fn ''minerCount'' [TUint 256] [TUint 256]]"

definition scoring_interface :: "abi_fn list" where
  "scoring_interface =
     [view_fn ''EPOCH_LENGTH'' [] [TUint 64],
      view_fn ''CHALLENGE_WINDOW'' [] [TUint 64],
      view_fn ''MIN_QUORUM_BPS'' [] [TUint 16],
      view_fn ''MAX_BRAINS'' [] [TUint 256],
      view_fn ''DOMAIN_TAG'' [] [TBytes32],
      view_fn ''STAKING'' [] [TAddress],
      view_fn ''GENESIS_TIMESTAMP'' [] [TUint 64],
      view_fn ''signedRoots'' [TUint 64, TUint 256, TAddress] [TBytes32],
      view_fn ''isCommitmentSigner'' [TUint 64, TUint 256, TAddress] [TBool],
      view_fn ''currentEpoch'' [] [TUint 64],
      view_fn ''getEpoch'' [TUint 64, TUint 256] [TTuple [TBytes32, TUint 64, TUint 64, TUint 32, TUint 256, TBool]],
      view_fn ''commitmentDigest'' [TUint 64, TUint 256, TBytes32] [TBytes32],
      tx_fn ''proposeEpoch'' [TUint 64, TUint 256, TBytes32, TArray TAddress, TArray TBytes],
      tx_fn ''finalizeEpoch'' [TUint 64, TUint 256],
      tx_fn ''challengeEquivocation'' [TUint 64, TUint 256, TBytes32, TBytes, TBytes32, TBytes, TAddress],
      view_fn ''verifyScore'' [TUint 64, TUint 256, TAddress, TUint 256, TArray TBytes32] [TBool]]"

definition vault_interface :: "abi_fn list" where
  "vault_interface =
     [view_fn ''SLASHER_ROLE'' [] [TBytes32],
      view_fn ''REWARDER_ROLE'' [] [TBytes32],
      view_fn ''UNSTAKE_COOLDOWN'' [] [TUint 64],
      view_fn ''CENTRALIZATION_CAP_BPS'' [] [TUint 16],
      view_fn ''BURN_ADDRESS'' [] [TAddress],
      view_fn ''BASED'' [] [TAddress],
      view_fn ''clock'' [] [TUint 48],
      view_fn ''CLOCK_MODE'' [] [TString],
      tx_fn ''stake'' [TUint 256, TAddress, TUint 256],
      tx_fn ''requestUnstake'' [TUint 256, TAddress, TUint 256],
      tx_fn ''claimUnstake'' [TUint 256, TAddress],
      tx_fn ''slash'' [TUint 256, TAddress, TUint 256, TBytes32],
      tx_fn ''notifyReward'' [TUint 256, TAddress, TUint 256],
      view_fn ''totalStaked'' [] [TUint 256],
      view_fn ''brainStake'' [TUint 256] [TUint 256],
      view_fn ''validatorStake'' [TUint 256, TAddress] [TUint 256],
      view_fn ''stakerBalance'' [TUint 256, TAddress, TAddress] [TUint 256],
      view_fn ''pendingBalance'' [TUint 256, TAddress, TAddress] [TUint 256],
      view_fn ''effectiveBrainStake'' [TUint 256] [TUint 256],
      view_fn ''getPastBrainStake'' [TUint 256, TUint 48] [TUint 256],
      view_fn ''getPastTotalStaked'' [TUint 48] [TUint 256]]"

text \<open>The function a call runs: the one whose selector the data starts with.\<close>

definition dispatch :: "ethlib \<Rightarrow> abi_fn list \<Rightarrow> bytes \<Rightarrow> abi_fn option" where
  "dispatch E fns data = find (\<lambda>f. selector E f = take 4 data) fns"

section \<open>The calls\<close>

text \<open>The calls the programs make, with the number of their arguments, on each contract object.\<close>

definition miner_market_calls :: "(string \<times> nat) list" where
  "miner_market_calls = [(''pricePerByte'', 0), (''pricePerRequest'', 0), (''usedNonces'', 2), (''balances'', 1), (''redeem'', 2)]"

definition miner_registry_calls :: "(string \<times> nat) list" where
  "miner_registry_calls = [(''isMiner'', 2), (''registerMiner'', 2), (''isValidator'', 2)]"

definition client_market_calls :: "(string \<times> nat) list" where
  "client_market_calls =
     [(''balances'', 1), (''deposit'', 1), (''requestWithdraw'', 1), (''withdraw'', 0), (''pricePerByte'', 0), (''pricePerRequest'', 0)]"

definition service_calls :: "(abi_fn list \<times> abi_fn list \<times> (string \<times> nat) list) list" where
  "service_calls =
     [(MARKET_ABI, market_interface, miner_market_calls),
      (REGISTRY_ABI, subnet_interface, miner_registry_calls),
      (the (dict_get VALIDATOR_ABIS (lit ''ScoringRegistry'')), scoring_interface, [(''currentEpoch'', 0)]),
      (the (dict_get VALIDATOR_ABIS (lit ''SubnetRegistry'')), subnet_interface,
         [(''isValidator'', 2), (''registerValidator'', 2)]),
      (aggregator_staking_abi, vault_interface, [(''validatorStake'', 2), (''brainStake'', 1)]),
      (aggregator_scoring_abi, scoring_interface, [(''proposeEpoch'', 5)]),
      (current_epoch_abi, scoring_interface, [(''currentEpoch'', 0)]),
      (verify_score_abi, scoring_interface, [(''verifyScore'', 5)]),
      (client_market_abi, market_interface, client_market_calls)]"

section \<open>Events\<close>

text \<open>The inputs of an event with their names; all are indexed.\<close>

record abi_event =
  ae_name :: pystr
  ae_inputs :: "(pystr \<times> abi_type) list"

fun contains_text :: "pystr \<Rightarrow> pystr \<Rightarrow> bool" where
  "contains_text t [] = (t = [])"
| "contains_text t (c # cs) = (startswith (c # cs) t \<or> contains_text t cs)"

definition POLLER_EVENTS :: "pystr list" where
  "POLLER_EVENTS =
     [lit ''MinerRegistered'', lit ''MinerDeregistered'', lit ''ValidatorRegistered'', lit ''ValidatorDeregistered'']"

definition POLLER_ABI :: "abi_event list" where
  "POLLER_ABI = map (\<lambda>n. \<lparr>ae_name = n, ae_inputs =
     [(lit ''brainId'', TUint 256),
      (if contains_text (lit ''Validator'') n then lit ''validator'' else lit ''miner'', TAddress)]\<rparr>) POLLER_EVENTS"

definition registry_events :: "abi_event list" where
  "registry_events =
     [\<lparr>ae_name = lit ''ValidatorRegistered'', ae_inputs = [(lit ''brainId'', TUint 256), (lit ''validator'', TAddress)]\<rparr>,
      \<lparr>ae_name = lit ''ValidatorDeregistered'', ae_inputs = [(lit ''brainId'', TUint 256), (lit ''validator'', TAddress)]\<rparr>,
      \<lparr>ae_name = lit ''MinerRegistered'', ae_inputs = [(lit ''brainId'', TUint 256), (lit ''miner'', TAddress)]\<rparr>,
      \<lparr>ae_name = lit ''MinerDeregistered'', ae_inputs = [(lit ''brainId'', TUint 256), (lit ''miner'', TAddress)]\<rparr>]"

section \<open>Every call reaches its function\<close>

text \<open>A call site that the interface it is made on resolves to a function of the contract.\<close>

definition call_declared :: "abi_fn list \<Rightarrow> abi_fn list \<Rightarrow> string \<times> nat \<Rightarrow> bool" where
  "call_declared abi iface c = (case abi_lookup abi (lit (fst c)) (snd c) of Inl e \<Rightarrow> False | Inr f \<Rightarrow> f \<in> set iface)"

lemma calls_declared:
  "list_all (\<lambda>(abi, iface, calls). list_all (call_declared abi iface) calls) service_calls"
  by code_simp

lemma poller_decodes_registry_events: "set POLLER_ABI = set registry_events"
proof -
  have "list_all (\<lambda>ev. ev \<in> set registry_events) POLLER_ABI" "list_all (\<lambda>ev. ev \<in> set POLLER_ABI) registry_events"
    by code_simp+
  then show ?thesis by (auto simp: list_all_iff)
qed

lemma length_selector: "keccak_width E \<Longrightarrow> length (selector E f) = 4"
  by (simp add: selector_def keccak_width_def)

lemma dispatch_selector:
  assumes "keccak_width E" and "distinct (map (selector E) fns)" and "f \<in> set fns"
  shows "dispatch E fns (selector E f @ bs) = Some f"
proof -
  have "find (\<lambda>g. selector E g = selector E f) fns = Some f"
    using assms(2,3) by (induction fns) auto
  then show ?thesis by (simp add: dispatch_def length_selector [OF assms(1)])
qed

lemma load_contract_Inr:
  "load_contract E name address = Inr c \<longleftrightarrow>
     (\<exists>abi. dict_get VALIDATOR_ABIS name = Some abi \<and> abi \<noteq> [] \<and> contract_at E address abi = Inr c)"
  by (auto simp: load_contract_def split: option.splits)

lemma abi_lookup_Inr:
  assumes "abi_lookup abi n k = Inr f"
  shows "f \<in> set abi \<and> fn_name f = n \<and> length (fn_inputs f) = k"
proof -
  let ?fs = "filter (\<lambda>f. fn_name f = n) abi"
  obtain g gs where fs: "?fs = g # gs" using assms by (cases ?fs) (simp_all add: abi_lookup_def)
  then obtain hs where "filter (\<lambda>f. length (fn_inputs f) = k) ?fs = f # hs"
    using assms by (auto simp: abi_lookup_def split: list.splits if_splits)
  then have "f \<in> set (filter (\<lambda>f. length (fn_inputs f) = k) ?fs)" by simp
  then show ?thesis by simp
qed

section \<open>Properties\<close>

text \<open>
  C39. The services and the contracts speak the same interface: every call a program makes resolves in the
  interface it carries, its data is the selector and the encoded arguments, and the contract at the
  other end runs the function of that very name, with the same argument types, result types and
  mutability, as long as the compiler's condition holds that the contract's selectors differ; and
  the validator's contract objects never have an empty interface.
\<close>
theorem services_call_declared_functions:
  assumes "(abi, iface, calls) \<in> set service_calls" and "(name, length args) \<in> set calls"
    and "keccak_width E" and "distinct (map (selector E) (iface @ inherited))"
  shows "\<exists>f. abi_lookup abi (lit name) (length args) = Inr f \<and> f \<in> set iface \<and> fn_name f = lit name
    \<and> (\<forall>bs. enc (fn_inputs f) args = Inr bs \<longrightarrow>
         call_data E enc \<lparr>ct_address = a, ct_abi = abi\<rparr> (lit name) args = Inr (a, selector E f @ bs)
         \<and> dispatch E (iface @ inherited) (selector E f @ bs) = Some f)
    \<and> (\<forall>n address c. load_contract E n address = Inr c \<longrightarrow> ct_abi c \<noteq> [])"
proof -
  have "call_declared abi iface (name, length args)"
    using calls_declared assms(1,2) by (force simp: list_all_iff)
  then obtain f where f: "abi_lookup abi (lit name) (length args) = Inr f" "f \<in> set iface"
    by (auto simp: call_declared_def split: sum.splits)
  have "fn_name f = lit name" using abi_lookup_Inr [OF f(1)] by simp
  moreover have "dispatch E (iface @ inherited) (selector E f @ bs) = Some f" for bs
    using f(2) by (intro dispatch_selector [OF assms(3,4)]) simp
  moreover have "ct_abi c \<noteq> []" if "load_contract E n address = Inr c" for n address c
    using that by (auto simp: load_contract_Inr contract_at_def)
  ultimately show ?thesis using f by (intro exI [of _ f]) (simp add: call_data_def)
qed

definition abi_eth :: ethlib where
  "abi_eth = demo_eth\<lparr>keccak := \<lambda>bs. sum_list bs # replicate 31 0\<rparr>"

lemma abi_selector: "selector abi_eth f = [of_nat (sum_list (signature f)), 0, 0, 0]"
proof -
  have "sum_list (map of_nat ns) = (of_nat (sum_list ns) :: byte)" for ns by (induction ns) simp_all
  then show ?thesis by (simp add: selector_def abi_eth_def numeral_eq_Suc)
qed

lemma scoring_selectors: "distinct (map (selector abi_eth) scoring_interface)"
proof -
  have d: "distinct (map (\<lambda>f. sum_list (signature f) mod 256) scoring_interface)" by code_simp
  have low: "a mod 256 = b mod 256" if "(of_nat a :: byte) = of_nat b" for a b
  proof -
    have "unat (of_nat a :: byte) = unat (of_nat b :: byte)" using that by simp
    then show ?thesis by (simp add: unat_of_nat)
  qed
  have "inj_on (selector abi_eth) (set scoring_interface)"
  proof (rule inj_onI)
    fix f g assume fg: "f \<in> set scoring_interface" "g \<in> set scoring_interface" "selector abi_eth f = selector abi_eth g"
    from fg(3) have "(of_nat (sum_list (signature f)) :: byte) = of_nat (sum_list (signature g))"
      unfolding abi_selector by (rule list.inject [THEN iffD1, THEN conjunct1])
    from low [OF this] d fg(1,2) show "f = g" unfolding distinct_map inj_on_def by blast
  qed
  with d show ?thesis unfolding distinct_map by blast
qed

theorem services_call_declared_functions_witness:
  "\<exists>f. call_data abi_eth (\<lambda>_ _. Inr []) \<lparr>ct_address = [], ct_abi = current_epoch_abi\<rparr> (lit ''currentEpoch'') ([] :: unit list) =
       Inr ([], selector abi_eth f)
     \<and> dispatch abi_eth scoring_interface (selector abi_eth f) = Some f \<and> fn_outputs f = [TUint 64]"
proof -
  have "(current_epoch_abi, scoring_interface, [(''currentEpoch'', 0)]) \<in> set service_calls"
    by (simp add: service_calls_def)
  moreover have "keccak_width abi_eth" by (simp add: keccak_width_def abi_eth_def)
  moreover have "(''currentEpoch'', length ([] :: unit list)) \<in> set [(''currentEpoch'', 0)]" by simp
  moreover have "distinct (map (selector abi_eth) (scoring_interface @ []))" using scoring_selectors by simp
  ultimately obtain f where f: "abi_lookup current_epoch_abi (lit ''currentEpoch'') (length ([] :: unit list)) = Inr f"
    "call_data abi_eth (\<lambda>_ _. Inr []) \<lparr>ct_address = [], ct_abi = current_epoch_abi\<rparr> (lit ''currentEpoch'') ([] :: unit list) =
       Inr ([], selector abi_eth f @ [])"
    "dispatch abi_eth (scoring_interface @ []) (selector abi_eth f @ []) = Some f"
    using services_call_declared_functions [of current_epoch_abi scoring_interface "[(''currentEpoch'', 0)]" "''currentEpoch''"
        "[] :: unit list" abi_eth "[]" "\<lambda>_ _. Inr []" "[]"] by blast
  from f(1) have "fn_outputs f = [TUint 64]" by (auto simp: abi_lookup_def current_epoch_abi_def)
  with f(2,3) show ?thesis by (metis append_Nil2)
qed

end
