(* ===== verification/Engine.thy ===== *)
theory Engine imports Miner
begin

text \<open>
  \<open>inference.py\<close> around \<open>generate\<close>: the choice of the backend when the engine starts, and how the
  transformers fallback calls the model. The models, tokenizers and vLLM are the environment's.
\<close>

text \<open>The keyword arguments of \<open>InferenceEngine\<close>; an absent one is \<open>None\<close>.\<close>

record engine_kwargs =
  kw_revision :: "pystr option"
  kw_quantization :: "pystr option"
  kw_max_model_len :: "int option"
  kw_gpu_memory :: "rat option"
  kw_tensor_parallel :: "int option"

record engine_args =
  ea_model :: pystr
  ea_revision :: "pystr option"
  ea_quantization :: "pystr option"
  ea_max_model_len :: int
  ea_gpu_memory :: rat
  ea_tensor_parallel :: int

datatype backend = Vllm engine_args | Transformers pystr "pystr option"

text \<open>\<open>kwargs.get(k, default)\<close>.\<close>

definition kwarg :: "'a option \<Rightarrow> 'a \<Rightarrow> 'a" where
  "kwarg v x = (case v of None \<Rightarrow> x | Some y \<Rightarrow> y)"

definition engine_start :: "bool \<Rightarrow> pystr \<Rightarrow> engine_kwargs \<Rightarrow> backend" where
  "engine_start vllm_installed model_name kw =
     (if \<not> vllm_installed then Transformers model_name (kw_revision kw)
      else Vllm \<lparr>ea_model = model_name, ea_revision = kw_revision kw, ea_quantization = kw_quantization kw,
                 ea_max_model_len = kwarg (kw_max_model_len kw) 8192,
                 ea_gpu_memory = kwarg (kw_gpu_memory kw) (9 / 10),
                 ea_tensor_parallel = kwarg (kw_tensor_parallel kw) 1\<rparr>)"

text \<open>The model's revision, whichever backend is chosen.\<close>

fun pinned_revision :: "backend \<Rightarrow> pystr option" where
  "pinned_revision (Vllm a) = ea_revision a"
| "pinned_revision (Transformers m r) = r"

lemma revision_is_pinned: "pinned_revision (engine_start v m kw) = kw_revision kw"
  by (simp add: engine_start_def)

text \<open>\<open>_generate_sync\<close>: the arguments of \<open>model.generate\<close>.\<close>

record sampling =
  max_new_tokens :: int
  sp_temperature :: rat
  sp_top_p :: rat
  do_sample :: bool

definition fallback_sampling :: "inference_request \<Rightarrow> sampling" where
  "fallback_sampling req = \<lparr>max_new_tokens = iq_max_tokens req, sp_temperature = iq_temperature req,
     sp_top_p = iq_top_p req, do_sample = (0 < iq_temperature req)\<rparr>"

definition fallback_generate ::
    "(pystr \<Rightarrow> 'tokens res) \<Rightarrow> ('tokens \<Rightarrow> sampling \<Rightarrow> 'tokens res) \<Rightarrow> ('tokens \<Rightarrow> pystr) \<Rightarrow> inference_request \<Rightarrow> pystr res" where
  "fallback_generate tokenizer model decode req =
     rbind (tokenizer (iq_prompt req)) (\<lambda>inputs.
     rbind (model inputs (fallback_sampling req)) (\<lambda>outputs. Inr (decode outputs)))"

text \<open>
  What makes challenges comparable between miners: whatever seed a validator picks, a challenge is
  decoded without sampling and the fallback's answer does not depend on the seed; a paid request
  is sampled.
\<close>
theorem challenges_are_greedy:
  "\<not> do_sample (fallback_sampling ((new_inference_request prompt)\<lparr>iq_temperature := 0, iq_seed := Some seed\<rparr>))"
  "fallback_generate tokenizer model decode ((new_inference_request prompt)\<lparr>iq_temperature := 0, iq_seed := Some seed\<rparr>) =
   fallback_generate tokenizer model decode ((new_inference_request prompt)\<lparr>iq_temperature := 0, iq_seed := Some seed'\<rparr>)"
  "do_sample (fallback_sampling (new_inference_request prompt))"
  by (simp_all add: fallback_sampling_def fallback_generate_def new_inference_request_def)

end
