(* ===== verification/Startup.thy ===== *)
theory Startup imports ConfigFile Abis Engine Transport Session Validator
begin

text \<open>
  How the programs come up: the constructors of \<open>Miner\<close>, \<open>Validator\<close> and \<open>BasedClient\<close> from a loaded
  configuration, the contract objects they hold, the reading of the eval set, the client's balance
  views, and the rounds of the loops that \<open>run\<close> starts. \<open>Account.from_key\<close> and reading a file are
  parameters; opening sockets and waiting are the libraries'.
\<close>

section \<open>The miner\<close>

text \<open>The configuration as the handlers of theory Miner read it; the contracts stand in the order of the fields.\<close>

definition miner_runtime :: "miner_file \<Rightarrow> miner_config" where
  "miner_runtime c =
     \<lparr>mc_brain_id = mf_brain_id c, mc_market = cfg_contracts (mf_chain c) ! 2, mc_chain_id = cfg_chain_id (mf_chain c),
      mc_key = mf_key c, mc_max_fee = mf_max_fee c\<rparr>"

definition engine_kwargs_of :: "model_section \<Rightarrow> engine_kwargs" where
  "engine_kwargs_of m =
     \<lparr>kw_revision = md_revision m, kw_quantization = md_quantization m, kw_max_model_len = Some (md_max_model_len m),
      kw_gpu_memory = Some (md_gpu_memory m), kw_tensor_parallel = Some (md_tensor_parallel m)\<rparr>"

record 'h miner_service =
  ms_engine :: "pystr \<times> engine_kwargs"
  ms_node :: "'h p2p_node"
  ms_market :: contract
  ms_registry :: contract
  ms_batcher :: batcher

definition miner_topic :: "miner_file \<Rightarrow> pystr" where
  "miner_topic c = pp_prefix (mf_p2p c) @ lit ''/brain/'' @ int_text (mf_brain_id c)"

definition miner_init :: "ethlib \<Rightarrow> (pystr \<Rightarrow> unit res) \<Rightarrow> miner_file \<Rightarrow> 'h miner_service res" where
  "miner_init E from_key c =
     rbind (from_key (mf_key c)) (\<lambda>_.
     rbind (contract_at E (cfg_contracts (mf_chain c) ! 2) MARKET_ABI) (\<lambda>market.
     rbind (contract_at E (cfg_contracts (mf_chain c) ! 1) REGISTRY_ABI) (\<lambda>registry.
       Inr \<lparr>ms_engine = (md_name (mf_model c), engine_kwargs_of (mf_model c)),
            ms_node = new_node (pp_listen (mf_p2p c)) (pp_bootstrap (mf_p2p c)) (miner_topic c),
            ms_market = market, ms_registry = registry, ms_batcher = new_batcher (nat (mf_batch_size c))\<rparr>)))"

text \<open>
  \<open>_announce_loop\<close>: one announcement a round, at the times \<open>ts\<close>; the results, and the exception that ends
  the loop, if any.
\<close>

fun announce_loop :: "(int \<Rightarrow> bool res) \<Rightarrow> int list \<Rightarrow> bool list \<times> pyexc option" where
  "announce_loop once [] = ([], None)"
| "announce_loop once (t # ts) =
     (case once t of
        Inl e \<Rightarrow> ([], Some e)
      | Inr ok \<Rightarrow> (case announce_loop once ts of (oks, e) \<Rightarrow> (ok # oks, e)))"

section \<open>The validator\<close>

definition load_eval_set :: "(pystr \<Rightarrow> pystr option) \<Rightarrow> (pystr \<Rightarrow> json res) \<Rightarrow> pystr option \<Rightarrow> json res" where
  "load_eval_set files loads path =
     (case configured path of
        None \<Rightarrow> Inr (JList [])
      | Some p \<Rightarrow> (case files p of None \<Rightarrow> Inr (JList []) | Some text \<Rightarrow> loads text))"

definition validator_runtime :: "validator_file \<Rightarrow> validator_config" where
  "validator_runtime c =
     \<lparr>vc_brain_id = vf_brain_id c, vc_key = vf_key c, vc_chain_id = cfg_chain_id (vf_chain c),
      vc_scoring_registry = cfg_contracts (vf_chain c) ! 2, vc_max_fee = sc_max_fee (vf_scoring c),
      vc_gateway_url = sc_gateway_url (vf_scoring c), vc_aggregator_url = sc_aggregator_url (vf_scoring c)\<rparr>"

record validator_service =
  vs_observations :: "raw_observation list"
  vs_eval_set :: json
  vs_scoring :: contract
  vs_registry :: contract

definition validator_init ::
    "ethlib \<Rightarrow> (pystr \<Rightarrow> unit res) \<Rightarrow> (pystr \<Rightarrow> pystr option) \<Rightarrow> (pystr \<Rightarrow> json res) \<Rightarrow> validator_file \<Rightarrow> validator_service res" where
  "validator_init E from_key files loads c =
     rbind (from_key (vf_key c)) (\<lambda>_.
     rbind (load_eval_set files loads (sc_eval_set_path (vf_scoring c))) (\<lambda>eval_set.
     rbind (load_contract E (lit ''ScoringRegistry'') (cfg_contracts (vf_chain c) ! 2)) (\<lambda>scoring.
     rbind (load_contract E (lit ''SubnetRegistry'') (cfg_contracts (vf_chain c) ! 1)) (\<lambda>registry.
       Inr \<lparr>vs_observations = [], vs_eval_set = eval_set, vs_scoring = scoring, vs_registry = registry\<rparr>))))"

text \<open>\<open>_challenge_loop\<close>: a round appends its observation, if any; every exception is logged.\<close>

definition challenge_round :: "validator_service \<Rightarrow> raw_observation option res \<Rightarrow> validator_service" where
  "challenge_round s r =
     (case r of Inr (Some ro) \<Rightarrow> s\<lparr>vs_observations := vs_observations s @ [ro]\<rparr> | _ \<Rightarrow> s)"

definition challenge_loop :: "validator_service \<Rightarrow> raw_observation option res list \<Rightarrow> validator_service" where
  "challenge_loop = foldl challenge_round"

text \<open>The typed view of an eval set whose items are objects with a text as prompt, as theory Validator takes it.\<close>

fun eval_item_of :: "json \<Rightarrow> eval_item option" where
  "eval_item_of (JObj d) =
     (case (dict_get d (lit ''prompt''), dict_get_or d (lit ''reference'') JNull) of
        (Some (JStr p), JStr r) \<Rightarrow> Some \<lparr>ei_prompt = p, ei_reference = Some r\<rparr>
      | (Some (JStr p), JNull) \<Rightarrow> Some \<lparr>ei_prompt = p, ei_reference = None\<rparr>
      | _ \<Rightarrow> None)"
| "eval_item_of _ = None"

fun eval_items :: "json \<Rightarrow> eval_item list option" where
  "eval_items (JList js) = those (map eval_item_of js)"
| "eval_items _ = None"

section \<open>The client\<close>

record client_settings =
  cs_rpc_url :: pystr
  cs_chain_id :: int
  cs_based :: pystr
  cs_subnet_registry :: pystr
  cs_market :: pystr
  cs_gateway_url :: pystr
  cs_private_key :: "pystr option"

text \<open>\<open>Account.from_key(key) if key else None\<close>.\<close>

definition client_init :: "(pystr \<Rightarrow> unit res) \<Rightarrow> client_settings \<Rightarrow> client_config res" where
  "client_init from_key s =
     (let cfg = \<lparr>cc_chain_id = cs_chain_id s, cc_market = cs_market s, cc_key = configured (cs_private_key s)\<rparr>
      in case configured (cs_private_key s) of None \<Rightarrow> Inr cfg | Some k \<Rightarrow> rbind (from_key k) (\<lambda>_. Inr cfg))"

text \<open>\<open>balance\<close> and \<open>spending_balance\<close>; \<open>call\<close> is a view call on a contract object.\<close>

definition client_balance ::
    "ethlib \<Rightarrow> client_settings \<Rightarrow> client_config \<Rightarrow> (contract \<Rightarrow> pystr \<Rightarrow> pystr list \<Rightarrow> int res) \<Rightarrow> int res" where
  "client_balance E s cfg call =
     rbind (require_account cfg) (\<lambda>_.
     rbind (contract_at E (cs_based s) client_erc20_abi) (\<lambda>token.
       call token (lit ''balanceOf'') [key_address E (the (cc_key cfg))]))"

definition client_spending_balance ::
    "ethlib \<Rightarrow> client_settings \<Rightarrow> client_config \<Rightarrow> (contract \<Rightarrow> pystr \<Rightarrow> pystr list \<Rightarrow> int res) \<Rightarrow> int res" where
  "client_spending_balance E s cfg call =
     rbind (require_account cfg) (\<lambda>_.
     rbind (contract_at E (cs_market s) client_market_abi) (\<lambda>market.
       call market (lit ''balances'') [key_address E (the (cc_key cfg))]))"

section \<open>Properties\<close>

text \<open>Every \<open>0x\<close> text of forty hexadecimal digits is an address that has a checksummed form.\<close>

definition checksum_accepts :: "ethlib \<Rightarrow> bool" where
  "checksum_accepts E \<longleftrightarrow> (\<forall>h. length h = 40 \<and> list_all is_hex h \<longrightarrow> (\<exists>a. checksum E (ox @ h) = Inr a))"

lemma contract_text_checksum:
  assumes "checksum_accepts E" and "contract_text a" and "10 \<notin> set a"
  shows "\<exists>b. checksum E a = Inr b"
proof -
  obtain h where h: "length h = 40" "list_all is_hex h" "a = ox @ h \<or> a = ox @ h @ [10]"
    using assms(2) by (auto simp: contract_text_def)
  then have "a = ox @ h" using assms(3) by auto
  with h(1,2) assms(1) show ?thesis by (auto simp: checksum_accepts_def)
qed

lemma announce_loop_total:
  assumes "\<And>t. t \<in> set ts \<Longrightarrow> \<exists>ok. once t = Inr ok"
  shows "\<exists>oks. announce_loop once ts = (oks, None) \<and> length oks = length ts"
  using assms
proof (induction ts)
  case (Cons t ts)
  then obtain ok oks where "once t = Inr ok" "announce_loop once ts = (oks, None)" "length oks = length ts"
    by (metis list.set_intros)
  then show ?case by simp
qed simp

lemma announce_once_total:
  assumes "abi_total E" and "keccak_width E" and "0 \<le> b" and "b < 2 ^ 256" and "0 \<le> t" and "t < 2 ^ 256"
    and "utf8_encode url = Inr bs"
  shows "\<exists>ok. announce_once E key gateway b url t post = Inr ok"
proof -
  have "list_all (abi_in_range E) [ABytes32 (MINER_ANNOUNCE_TAG E), AUint 256 b, AString url, AUint 256 t]"
    using assms by (simp add: MINER_ANNOUNCE_TAG_def keccak_width_def)
  then obtain enc where "abi_encode E [ABytes32 (MINER_ANNOUNCE_TAG E), AUint 256 b, AString url, AUint 256 t] = Inr enc"
    using assms(1) unfolding abi_total_def by blast
  then show ?thesis by (simp add: announce_once_def miner_sign_announce_def miner_announce_digest_def)
qed

lemma load_contract_starts:
  assumes "checksum E a = Inr b" and "name \<in> {lit ''ScoringRegistry'', lit ''SubnetRegistry''}"
  shows "\<exists>abi. abi \<noteq> [] \<and> load_contract E name a = Inr \<lparr>ct_address = b, ct_abi = abi\<rparr>"
  using assms by (auto simp: load_contract_def VALIDATOR_ABIS_def contract_at_def)

lemma loaded_address:
  assumes "checksum_accepts E" and "miner_from_file P env (YMap d) = Inr c"
    and "\<forall>a \<in> set (cfg_contracts (mf_chain c)). 10 \<notin> set a" and "i < 4"
  shows "\<exists>b. checksum E (cfg_contracts (mf_chain c) ! i) = Inr b"
proof -
  have safe: "length (cfg_contracts (mf_chain c)) = 4" "list_all contract_text (cfg_contracts (mf_chain c))"
    using loaded_chain(1) [OF assms(2)] by blast+
  then have "cfg_contracts (mf_chain c) ! i \<in> set (cfg_contracts (mf_chain c))" using assms(4) by simp
  then show ?thesis using contract_text_checksum [OF assms(1)] safe(2) assms(3) by (metis list_all_iff)
qed

text \<open>
  A miner starts from its file: when the configuration loads, the key is one, and no address ends in a
  newline, the constructor succeeds, with contract objects at the configured addresses that have the
  miner's interfaces, an empty queue, and an engine that will pin the configured model revision on
  either backend; \<open>run\<close> announces the miner exactly when both URLs are configured, and the announcing
  loop outlives every failure of the gateway.
\<close>
theorem loaded_miner_starts:
  assumes "checksum_accepts E" and "abi_total E" and "keccak_width E"
    and "miner_from_file P env (YMap d) = Inr c" and "from_key (mf_key c) = Inr ()"
    and "\<forall>a \<in> set (cfg_contracts (mf_chain c)). 10 \<notin> set a"
    and "0 \<le> mf_brain_id c" and "mf_brain_id c < 2 ^ 256" and "\<forall>t \<in> set ts. 0 \<le> t \<and> t < 2 ^ 256"
    and "gs_public_url (mf_gateway c) = Some url" and "utf8_encode url = Inr bs"
  shows "\<exists>s. miner_init E from_key c = Inr s
    \<and> checksum E (mc_market (miner_runtime c)) = Inr (ct_address (ms_market s)) \<and> ct_abi (ms_market s) = MARKET_ABI
    \<and> checksum E (cfg_contracts (mf_chain c) ! 1) = Inr (ct_address (ms_registry s)) \<and> ct_abi (ms_registry s) = REGISTRY_ABI
    \<and> batcher.pending (ms_batcher s) = []
    \<and> pinned_revision (engine_start vllm (fst (ms_engine s)) (snd (ms_engine s))) = md_revision (mf_model c)
    \<and> (\<forall>reg eng lis infer challenge settle node routes tasks.
         miner_run reg eng (Inr (ms_node s)) lis (gs_gateway_url (mf_gateway c)) (Some url) infer challenge settle
           = Inr (node, routes, tasks) \<longrightarrow>
         AnnounceLoop \<in> set tasks \<longleftrightarrow> http_enabled (gs_gateway_url (mf_gateway c)) (Some url))
    \<and> (\<exists>oks. announce_loop (\<lambda>t. announce_once E (mf_key c) gateway (mf_brain_id c) url t (post t)) ts = (oks, None)
         \<and> length oks = length ts)"
proof -
  note address = loaded_address [OF assms(1,4,6)]
  from address [of 2] address [of 1] obtain m r where mr: "checksum E (cfg_contracts (mf_chain c) ! 2) = Inr m"
    "checksum E (cfg_contracts (mf_chain c) ! 1) = Inr r" by auto
  have loop: "\<exists>oks. announce_loop (\<lambda>t. announce_once E (mf_key c) gateway (mf_brain_id c) url t (post t)) ts = (oks, None)
      \<and> length oks = length ts"
    using assms(2,3,7-11) announce_once_total by (intro announce_loop_total) blast
  have tasks: "AnnounceLoop \<in> set tasks \<longleftrightarrow> http_enabled g (Some url)"
    if "miner_run reg eng (Inr (new_node l b tp)) lis g (Some url) infer challenge settle = Inr (node, routes, tasks)"
    for reg eng lis g infer challenge settle node routes tasks l b tp
    using settlement_needs_http [OF that] by (simp add: new_node_def)
  show ?thesis
    using loop mr assms(5)
    by (simp add: miner_init_def contract_at_def miner_runtime_def new_batcher_def revision_is_pinned engine_kwargs_of_def)
      (blast dest: tasks)
qed

definition wide_eth :: ethlib where
  "wide_eth = demo_eth\<lparr>to_checksum_address := (\<lambda>j. case j of JStr s \<Rightarrow> if address_match s then Inr s else Inl ValueError | _ \<Rightarrow> Inl TypeError),
     abi_encode := (\<lambda>vs. Inr [])\<rparr>"

lemma wide_laws: "checksum_accepts wide_eth" "abi_total wide_eth" "keccak_width wide_eth"
  by (simp_all add: checksum_accepts_def abi_total_def keccak_width_def wide_eth_def checksum_def address_match_def)

theorem loaded_miner_starts_witness:
  "\<exists>c s. miner_from_file demo_pydantic demo_environ (YMap EXAMPLE_MINER) = Inr c
     \<and> miner_init wide_eth (\<lambda>_. Inr ()) c = Inr (s :: unit miner_service)
     \<and> pinned_revision (engine_start True (fst (ms_engine s)) (snd (ms_engine s))) = Some (lit ''main'')"
proof -
  obtain c where c: "miner_from_file demo_pydantic demo_environ (YMap EXAMPLE_MINER) = Inr c"
    "gs_public_url (mf_gateway c) = Some (lit ''https://me'')" "mf_brain_id c = 8" "md_revision (mf_model c) = Some (lit ''main'')"
    "cfg_contracts (mf_chain c) = map demo_address [49, 50, 51, 52]"
    using example_loads by blast
  have "\<forall>a \<in> set (cfg_contracts (mf_chain c)). 10 \<notin> set a" by (auto simp: c(5) demo_address_def ox_def)
  moreover obtain bs where "utf8_encode (lit ''https://me'') = Inr bs"
    by (simp add: lit_def utf8_encode_def utf8_char_def)
  ultimately show ?thesis
    using loaded_miner_starts [OF wide_laws c(1), of "\<lambda>_. Inr ()" "[]" "lit ''https://me''" bs True "[]" "\<lambda>_ _ _. Inr 200"] c
    by (auto 0 3)
qed

end
