(* ===== verification/Generators.thy ===== *)
theory Generators imports Startup
begin

text \<open>
  \<open>scripts/gen_eval_set.py\<close>, the validators' eval set, and \<open>scripts/generate_deployment_manifest.py\<close>, the
  record of an audit candidate. Both build JSON and print it: \<open>json.dumps\<close> is a parameter, and so are
  the commands the manifest runs, the files it reads, SHA-256 and the clock. A path is its text.
\<close>

section \<open>The eval set\<close>

definition EVAL_PROMPTS :: "(pystr \<times> pystr) list" where
  "EVAL_PROMPTS =
     [(lit ''What is 2 + 2? Reply with just the number.'', lit ''4''),
      (lit ''What is the capital of France? Reply with just the city name.'', lit ''Paris''),
      (lit ''Reply with the single word: PING'', lit ''PING''),
      (lit ''What year did the first humans land on the Moon? Reply with just the year.'', lit ''1969''),
      (lit ''What is the chemical symbol for gold? Reply with just the symbol.'', lit ''Au''),
      (lit ''How many days are in a non-leap year? Reply with just the number.'', lit ''365''),
      (lit ''What is the largest ocean on Earth? Reply with just the name.'', lit ''Pacific''),
      (lit ''What is H2O commonly known as? Reply with just the word.'', lit ''water'')]"

definition eval_entry :: "pystr \<times> pystr \<Rightarrow> json" where
  "eval_entry p = JObj [(lit ''prompt'', JStr (fst p)), (lit ''reference'', JStr (snd p))]"

text \<open>The file written, its text, and the line printed.\<close>

definition gen_eval_set :: "(json \<Rightarrow> pystr) \<Rightarrow> pystr list \<Rightarrow> pystr \<times> pystr \<times> pystr" where
  "gen_eval_set dumps argv =
     (let out = (if 1 < length argv then argv ! 1 else lit ''eval_set.json'')
      in (out, dumps (JList (map eval_entry EVAL_PROMPTS)),
          lit ''Wrote '' @ int_text (int (length EVAL_PROMPTS)) @ lit '' prompts to '' @ out))"

section \<open>The manifest\<close>

definition SOURCES :: "pystr list" where
  "SOURCES =
     [lit ''contracts/src/tokens/BrainNFT.sol'', lit ''contracts/src/tokens/BrainNFTL2.sol'',
      lit ''contracts/src/tokens/BrainBridgeAdapter.sol'', lit ''contracts/src/staking/StakingVault.sol'',
      lit ''contracts/src/subnet/SubnetRegistry.sol'', lit ''contracts/src/market/ComputeUnitMarket.sol'',
      lit ''contracts/src/reward/RewardDistributor.sol'', lit ''contracts/src/scoring/ScoringRegistry.sol'',
      lit ''contracts/src/governance/BasedGovernor.sol'', lit ''contracts/script/DeployMainnet.s.sol'',
      lit ''contracts/script/Deploy.s.sol'']"

text \<open>The world: \<open>check_output\<close>, \<open>read_bytes\<close> below the root, the digest, and the formatted time.\<close>

record manifest_world =
  mw_output :: "pystr list \<Rightarrow> pystr res"
  mw_bytes :: "pystr \<Rightarrow> bytes res"
  mw_sha256 :: "bytes \<Rightarrow> pystr"
  mw_now :: pystr

definition run_command :: "manifest_world \<Rightarrow> string list \<Rightarrow> pystr res" where
  "run_command w args = rbind (mw_output w (map lit args)) (\<lambda>out. Inr (strip_ws out))"

definition file_sha256 :: "manifest_world \<Rightarrow> pystr \<Rightarrow> pystr res" where
  "file_sha256 w path = rbind (mw_bytes w path) (\<lambda>bs. Inr (mw_sha256 w bs))"

text \<open>\<open>str.splitlines()\<close>: CR LF is one boundary.\<close>

definition is_line_break :: "nat \<Rightarrow> bool" where
  "is_line_break c \<longleftrightarrow> 10 \<le> c \<and> c \<le> 13 \<or> 28 \<le> c \<and> c \<le> 30 \<or> c = 133 \<or> c = 8232 \<or> c = 8233"

fun splitlines_aux :: "pystr \<Rightarrow> pystr \<Rightarrow> pystr list" where
  "splitlines_aux line [] = (if line = [] then [] else [rev line])"
| "splitlines_aux line (c # cs) =
     (if c = 13 \<and> cs \<noteq> [] \<and> hd cs = 10 then rev line # splitlines_aux [] (tl cs)
      else if is_line_break c then rev line # splitlines_aux [] cs
      else splitlines_aux (c # line) cs)"

definition splitlines :: "pystr \<Rightarrow> pystr list" where
  "splitlines s = splitlines_aux [] s"

definition first_line :: "pystr \<Rightarrow> pystr res" where
  "first_line s = (case splitlines s of [] \<Rightarrow> Inl IndexError | l # _ \<Rightarrow> Inr l)"

definition VALIDATION_COMMANDS :: "pystr list" where
  "VALIDATION_COMMANDS =
     [lit ''cd contracts && forge fmt --check && forge build --sizes && FOUNDRY_PROFILE=ci forge test -vvv'',
      lit ''cd miner && ruff check src tests && PYTHONPATH=src pytest -v'',
      lit ''cd validator && ruff check src tests && PYTHONPATH=src pytest -v'',
      lit ''cd gateway && ruff check src tests && PYTHONPATH=src pytest -v'',
      lit ''cd client/python && ruff check basedai_client tests && PYTHONPATH=. pytest -v'',
      lit ''cd client/typescript && npm ci && npm run lint && npm run typecheck && npm test'',
      lit ''PYTHONPATH=client/python:gateway/src:miner/src:validator/src python scripts/devnet_e2e.py'']"

definition network_entry :: "int \<Rightarrow> json" where
  "network_entry chain = JObj [(lit ''chain_id'', JInt chain), (lit ''contracts'', JObj [])]"

definition source_checksums :: "manifest_world \<Rightarrow> (pystr \<times> json) list res" where
  "source_checksums w = map_res (\<lambda>src. rbind (file_sha256 w src) (\<lambda>h. Inr (src, JStr h))) SOURCES"

definition manifest :: "manifest_world \<Rightarrow> json res" where
  "manifest w =
     rbind (run_command w [''git'', ''rev-parse'', ''HEAD'']) (\<lambda>commit.
     rbind (rbind (run_command w [''forge'', ''--version'']) first_line) (\<lambda>forge.
     rbind (run_command w [''python3'', ''--version'']) (\<lambda>python.
     rbind (run_command w [''node'', ''--version'']) (\<lambda>node.
     rbind (run_command w [''npm'', ''--version'']) (\<lambda>npm.
     rbind (run_command w [''git'', ''submodule'', ''status'', ''--recursive'']) (\<lambda>submodules.
     rbind (source_checksums w) (\<lambda>digests.
       Inr (JObj
         [(lit ''schema'', JStr (lit ''basedai.deployment-manifest.v1'')),
          (lit ''audit_commit'', JStr commit),
          (lit ''audit_tag'', JStr []),
          (lit ''generated_at_utc'', JStr (mw_now w)),
          (lit ''toolchain'', JObj [(lit ''forge'', JStr forge), (lit ''python'', JStr python), (lit ''node'', JStr node),
                                    (lit ''npm'', JStr npm), (lit ''solc'', JStr (lit ''0.8.24''))]),
          (lit ''submodules'', JList (map JStr (splitlines submodules))),
          (lit ''source_checksums_sha256'', JObj digests),
          (lit ''networks'', JObj [(lit ''ethereum_l1'', network_entry 1), (lit ''ink_l2'', network_entry 57073)]),
          (lit ''roles'', JList []),
          (lit ''validation_commands'', JList (map JStr VALIDATION_COMMANDS))]))))))))"

text \<open>\<open>json.dumps(..., sort_keys=True)\<close>: the keys of every object in order.\<close>

fun sort_json :: "json \<Rightarrow> json" where
  "sort_json (JObj d) = JObj (sort_key fst (map (\<lambda>p. (fst p, sort_json (snd p))) d))"
| "sort_json (JList js) = JList (map sort_json js)"
| "sort_json j = j"

definition manifest_main :: "(json \<Rightarrow> pystr) \<Rightarrow> manifest_world \<Rightarrow> pystr res" where
  "manifest_main dumps w = rbind (manifest w) (\<lambda>m. Inr (dumps (sort_json m)))"

section \<open>The eval set is usable\<close>

lemma eval_items_entries:
  "eval_items (JList (map eval_entry ps)) = Some (map (\<lambda>p. \<lparr>ei_prompt = fst p, ei_reference = Some (snd p)\<rparr>) ps)"
  by (induction ps) (simp_all add: eval_entry_def dict_get_or_def)

text \<open>Each reference is one word, so the quality of an answer is decided by that word.\<close>

definition single_word :: "pystr \<Rightarrow> bool" where
  "single_word r \<longleftrightarrow> length (split_ws (lower r)) = 1"

lemma references_single: "list_all (single_word \<circ> snd) EVAL_PROMPTS"
  by (simp add: EVAL_PROMPTS_def single_word_def split_ws_def lit_def lower_char_def is_space_def)

lemma prompts_short: "list_all (\<lambda>p. length (fst p) \<le> 100) EVAL_PROMPTS"
  by (simp add: EVAL_PROMPTS_def lit_def)

lemma jaccard_single:
  assumes "single_word r" and "reference_text ob = Some r"
  shows "jaccard ob = (if hd (split_ws (lower r)) \<in> token_set (response_text ob)
    then double (1 / real (card (token_set (response_text ob)))) else 0)"
proof -
  obtain w where w: "split_ws (lower r) = [w]" using assms(1) by (auto simp: single_word_def length_Suc_conv)
  let ?a = "token_set (response_text ob)"
  have b: "token_set (the (reference_text ob)) = {w}" using assms(2) w by (simp add: token_set_def)
  show ?thesis
  proof (cases "w \<in> ?a")
    case True
    then have "?a \<inter> {w} = {w}" "?a \<union> {w} = ?a" by auto
    with True w b show ?thesis by (auto simp: jaccard_def Let_def)
  next
    case False
    then have "?a \<inter> {w} = {}" by auto
    then show ?thesis using False w b double_nat [of 0] by (simp add: jaccard_def Let_def)
  qed
qed

lemma EVAL_nth:
  assumes "j < length EVAL_PROMPTS"
  shows "single_word (snd (EVAL_PROMPTS ! j))" "length (fst (EVAL_PROMPTS ! j)) \<le> 100"
proof -
  have "EVAL_PROMPTS ! j \<in> set EVAL_PROMPTS" using assms by simp
  with references_single prompts_short show "single_word (snd (EVAL_PROMPTS ! j))" "length (fst (EVAL_PROMPTS ! j)) \<le> 100"
    unfolding list_all_iff comp_def by blast+
qed

text \<open>
  The generated eval set is what the validator challenges with: a validator whose configuration names the
  file the script wrote starts with exactly its prompts and references, whichever entry it draws
  gives a challenge a miner takes (a text within the prompt limit), and an answer's quality is the
  inverse of the number of its distinct words when the one reference word is among them, and
  nothing otherwise.
\<close>
theorem generated_eval_set_is_used:
  assumes "gen_eval_set dumps argv = (p, text, msg)" and "loads (dumps (JList (map eval_entry EVAL_PROMPTS))) =
      Inr (JList (map eval_entry EVAL_PROMPTS))"
    and "files p = Some text" and "p \<noteq> []" and "sc_eval_set_path (vf_scoring c) = Some p"
    and "validator_init E from_key files loads c = Inr s" and "j < 8"
  shows "\<exists>items. eval_items (vs_eval_set s) = Some items \<and> length items = 8
    \<and> pick_eval items j = (fst (EVAL_PROMPTS ! j), Some (snd (EVAL_PROMPTS ! j)))
    \<and> prompt_ok (JStr (fst (pick_eval items j)))
    \<and> (\<forall>ob. reference_text ob = snd (pick_eval items j) \<longrightarrow>
         jaccard ob = (if hd (split_ws (lower (snd (EVAL_PROMPTS ! j)))) \<in> token_set (response_text ob)
                       then double (1 / real (card (token_set (response_text ob)))) else 0))"
proof -
  have len: "length EVAL_PROMPTS = 8" by (simp add: EVAL_PROMPTS_def)
  have "load_eval_set files loads (Some p) = Inr (JList (map eval_entry EVAL_PROMPTS))"
    using assms(1-4) by (auto simp: load_eval_set_def configured_def gen_eval_set_def Let_def)
  then have set: "vs_eval_set s = JList (map eval_entry EVAL_PROMPTS)"
    using assms(5,6) by (auto simp: validator_init_def)
  let ?items = "map (\<lambda>p. \<lparr>ei_prompt = fst p, ei_reference = Some (snd p)\<rparr>) EVAL_PROMPTS"
  have ne: "?items \<noteq> []" using len by (metis length_0_conv length_map zero_neq_numeral)
  have pick: "pick_eval ?items j = (fst (EVAL_PROMPTS ! j), Some (snd (EVAL_PROMPTS ! j)))"
    using ne assms(7) len by (simp add: pick_eval_def)
  have j: "j < length EVAL_PROMPTS" using assms(7) len by simp
  have "prompt_ok (JStr (fst (EVAL_PROMPTS ! j)))"
    using EVAL_nth(2) [OF j] by (simp add: MAX_PROMPT_CHARS_def)
  moreover have "eval_items (vs_eval_set s) = Some ?items" using set eval_items_entries by metis
  moreover have "length ?items = 8" using len by simp
  moreover have "\<forall>ob. reference_text ob = Some (snd (EVAL_PROMPTS ! j)) \<longrightarrow>
      jaccard ob = (if hd (split_ws (lower (snd (EVAL_PROMPTS ! j)))) \<in> token_set (response_text ob)
        then double (1 / real (card (token_set (response_text ob)))) else 0)"
    using jaccard_single [OF EVAL_nth(1) [OF j]] by blast
  ultimately show ?thesis
    by (intro exI [of _ ?items] conjI) (simp_all only: pick fst_conv snd_conv)
qed

definition demo_validator :: validator_file where
  "demo_validator =
     \<lparr>vf_brain_id = 8, vf_chain = \<lparr>cfg_rpc_url = lit ''https://rpc'', cfg_chain_id = 57073,
         cfg_contracts = map demo_address [49, 50, 51, 52]\<rparr>, vf_key = lit ''k'', vf_p2p = default_p2p,
      vf_scoring = default_scoring\<lparr>sc_eval_set_path := Some (lit ''eval_set.json'')\<rparr>\<rparr>"

theorem generated_eval_set_is_used_witness:
  "\<exists>s items. validator_init wide_eth (\<lambda>_. Inr ()) (\<lambda>_. Some (lit ''{}'')) (\<lambda>_. Inr (JList (map eval_entry EVAL_PROMPTS)))
       demo_validator = Inr s
     \<and> eval_items (vs_eval_set s) = Some items \<and> snd (pick_eval items 1) = Some (lit ''Paris'')"
proof -
  have sums: "\<exists>b. checksum wide_eth (demo_address d) = Inr b" if "d \<in> {49, 50, 51, 52}" for d
    using demo_address_valid [OF that] by (auto simp: demo_address_def wide_eth_def checksum_def valid_addr_def split: if_splits)
  obtain s where s: "validator_init wide_eth (\<lambda>_. Inr ()) (\<lambda>_. Some (lit ''{}''))
      (\<lambda>_. Inr (JList (map eval_entry EVAL_PROMPTS))) demo_validator = Inr s"
    using sums [of 50] sums [of 51] load_contract_starts [of wide_eth "demo_address 50" _ "lit ''SubnetRegistry''"]
      load_contract_starts [of wide_eth "demo_address 51" _ "lit ''ScoringRegistry''"]
    by (auto simp: validator_init_def demo_validator_def load_eval_set_def configured_def numeral_2_eq_2)
  have "gen_eval_set (\<lambda>_. lit ''{}'') [] = (lit ''eval_set.json'', lit ''{}'', snd (snd (gen_eval_set (\<lambda>_. lit ''{}'') [])))"
    by (simp add: gen_eval_set_def Let_def)
  from generated_eval_set_is_used [OF this _ _ _ _ s, of 1] s show ?thesis
    by (auto simp: demo_validator_def EVAL_PROMPTS_def)
qed

section \<open>The manifest pins the sources\<close>

lemma map_res_pairs:
  assumes "map_res (\<lambda>s. rbind (f s) (\<lambda>h. Inr (s, JStr h))) xs = Inr d" and "x \<in> set xs" and "distinct xs"
  shows "\<exists>h. f x = Inr h \<and> dict_get d x = Some (JStr h)"
  using assms
proof (induction xs arbitrary: d)
  case (Cons y xs)
  then obtain h e where split: "f y = Inr h" "map_res (\<lambda>s. rbind (f s) (\<lambda>h. Inr (s, JStr h))) xs = Inr e" "d = (y, JStr h) # e"
    by auto
  show ?case
  proof (cases "x = y")
    case True
    with split show ?thesis by simp
  next
    case False
    with Cons.prems Cons.IH [OF split(2)] split(3) show ?thesis by simp
  qed
qed simp

lemma SOURCES_distinct: "distinct SOURCES"
  by (simp add: SOURCES_def)

lemma manifest_sums:
  "manifest w = Inr m \<Longrightarrow> \<exists>digests. source_checksums w = Inr digests \<and> jkey m (lit ''source_checksums_sha256'') = Inr (JObj digests)"
  by (auto simp: manifest_def)

text \<open>
  A manifest pins the sources: two runs whose manifests have the same checksums read, for every listed
  contract and deployment script, files with the same digest, so the same bytes unless SHA-256
  collides on them; and no manifest is printed when a listed file cannot be read.
\<close>
theorem manifest_pins_sources:
  assumes "manifest w = Inr m" and "manifest w' = Inr m'" and "mw_sha256 w' = mw_sha256 w"
    and "jkey m (lit ''source_checksums_sha256'') = jkey m' (lit ''source_checksums_sha256'')" and "src \<in> set SOURCES"
  shows "\<exists>bs bs'. mw_bytes w src = Inr bs \<and> mw_bytes w' src = Inr bs'
    \<and> mw_sha256 w bs = mw_sha256 w bs'
    \<and> (\<forall>v e. mw_bytes v src = Inl e \<longrightarrow> (\<exists>e'. manifest_main dumps v = Inl e'))"
proof -
  have digests: "\<exists>h. file_sha256 v src = Inr h \<and> dict_get s src = Some (JStr h)"
    if "source_checksums v = Inr s" for v s
    using map_res_pairs [OF that [unfolded source_checksums_def] assms(5) SOURCES_distinct] .
  obtain s where s: "source_checksums w = Inr s" "jkey m (lit ''source_checksums_sha256'') = Inr (JObj s)"
    using manifest_sums [OF assms(1)] by blast
  obtain s' where s': "source_checksums w' = Inr s'" "jkey m' (lit ''source_checksums_sha256'') = Inr (JObj s')"
    using manifest_sums [OF assms(2)] by blast
  have "s = s'" using s(2) s'(2) assms(4) by simp
  with digests [OF s(1)] digests [OF s'(1)] obtain bs bs' where "mw_bytes w src = Inr bs" "mw_bytes w' src = Inr bs'"
    "mw_sha256 w bs = mw_sha256 w' bs'"
    by (auto simp: file_sha256_def)
  moreover have "\<exists>e'. manifest_main dumps v = Inl e'" if "mw_bytes v src = Inl e" for v e
  proof (cases "manifest v")
    case (Inr mv)
    then obtain sv where "source_checksums v = Inr sv" using manifest_sums by blast
    with digests that show ?thesis by (fastforce simp: file_sha256_def)
  qed (simp add: manifest_main_def)
  ultimately show ?thesis using assms(3) by (auto 0 3)
qed

definition demo_manifest_world :: manifest_world where
  "demo_manifest_world =
     \<lparr>mw_output = \<lambda>_. Inr (lit ''1''), mw_bytes = \<lambda>p. Inr [of_nat (length p)], mw_sha256 = map unat, mw_now = lit ''now''\<rparr>"

theorem manifest_pins_sources_witness:
  "\<exists>m. manifest demo_manifest_world = Inr m \<and> mw_bytes demo_manifest_world (hd SOURCES) = Inr [33]"
proof -
  have line: "first_line (lit ''1'') = Inr (lit ''1'')" by code_simp
  have stripped: "strip_ws (lit ''1'') = lit ''1''" by code_simp
  obtain m where m: "manifest demo_manifest_world = Inr m"
    by (auto simp: manifest_def run_command_def source_checksums_def file_sha256_def demo_manifest_world_def line stripped
      simp del: rbind_Inr_iff)
  have "hd SOURCES \<in> set SOURCES" by (simp add: SOURCES_def)
  from manifest_pins_sources [OF m m refl refl this] m show ?thesis
    by (auto simp: demo_manifest_world_def SOURCES_def lit_def)
qed

end
