(* ===== verification/Subnet.thy ===== *)
theory Subnet imports Poller Validator Vault
begin

text \<open>
  \<open>contracts/src/subnet/SubnetRegistry.sol\<close>: the membership and the fees the services rely on, with the
  events the gateway rebuilds its index from. Addresses are values in the contract and stand here as
  their checksummed texts. A reverted call is a \<open>subnet_error\<close>. The owner the BrainNFT names and
  whether the token's \<open>safeTransferFrom\<close> succeeds are part of the call's environment. Arguments are
  taken in the range of their Solidity types.
\<close>

section \<open>The contract\<close>

definition MAX_VALIDATORS_PER_BRAIN :: int where "MAX_VALIDATORS_PER_BRAIN = 256"

definition MAX_MINERS_PER_BRAIN :: int where "MAX_MINERS_PER_BRAIN = 1792"

definition DEFAULT_REGISTRATION_FEE :: int where "DEFAULT_REGISTRATION_FEE = 100 * 10 ^ 18"

definition DEFAULT_OWNER_SPLIT_BPS :: int where "DEFAULT_OWNER_SPLIT_BPS = 800"

definition DEFAULT_MINER_SHARE_BPS :: int where "DEFAULT_MINER_SHARE_BPS = 7609"

definition MAX_OWNER_SPLIT_BPS :: int where "MAX_OWNER_SPLIT_BPS = 1500"

datatype subnet_error =
    NotBrainOwner | NoSuchBrain | SubnetInactive | SubnetAlreadyActive | AlreadyRegistered | NotRegistered
  | CapacityReached | InvalidSplit | FeeExceedsMax | FeeTransferFailed | SubnetPanic

record subnet =
  sn_owner :: pystr
  sn_model_hash :: bytes
  sn_model_uri :: pystr
  sn_fee :: int
  sn_owner_bps :: int
  sn_miner_bps :: int
  sn_created :: int
  sn_active :: bool

record member_info =
  mb_registered_at :: int
  mb_last_epoch :: int
  mb_active :: bool

record subnet_registry =
  sr_subnets :: "int \<Rightarrow> subnet"
  sr_validators :: "int \<Rightarrow> pystr \<Rightarrow> member_info"
  sr_miners :: "int \<Rightarrow> pystr \<Rightarrow> member_info"
  sr_validator_count :: "int \<Rightarrow> int"
  sr_miner_count :: "int \<Rightarrow> int"

definition no_member :: member_info where
  "no_member = \<lparr>mb_registered_at = 0, mb_last_epoch = 0, mb_active = False\<rparr>"

definition new_subnets :: subnet_registry where
  "new_subnets =
     \<lparr>sr_subnets = (\<lambda>_. \<lparr>sn_owner = zero_address, sn_model_hash = replicate 32 0, sn_model_uri = [], sn_fee = 0,
                         sn_owner_bps = 0, sn_miner_bps = 0, sn_created = 0, sn_active = False\<rparr>),
      sr_validators = (\<lambda>_ _. no_member), sr_miners = (\<lambda>_ _. no_member),
      sr_validator_count = (\<lambda>_. 0), sr_miner_count = (\<lambda>_. 0)\<rparr>"

text \<open>
  The sender, the time, \<open>ownerOf\<close> (\<open>None\<close> when it reverts) and whether the token moves an amount from
  the sender to the burn address.
\<close>

record subnet_env =
  se_sender :: pystr
  se_time :: int
  se_owner_of :: "int \<Rightarrow> pystr option"
  se_pays :: "int \<Rightarrow> bool"

datatype subnet_log =
    SubnetActivated int pystr bytes | SubnetDeactivated int | SubnetConfigured int bytes pystr
  | RegistrationFeeUpdated int int | EmissionSplitUpdated int int int | Membership member_kind int pystr

type_synonym subnet_result = "subnet_error + (subnet_registry \<times> subnet_log list)"

definition only_owner :: "subnet_env \<Rightarrow> int \<Rightarrow> subnet_error + unit" where
  "only_owner env b =
     (case se_owner_of env b of
        None \<Rightarrow> Inl NoSuchBrain
      | Some owner \<Rightarrow> if owner \<noteq> se_sender env then Inl NotBrainOwner else Inr ())"

definition only_active :: "subnet_registry \<Rightarrow> int \<Rightarrow> subnet_error + unit" where
  "only_active r b = (if \<not> sn_active (sr_subnets r b) then Inl SubnetInactive else Inr ())"

definition activate :: "subnet_env \<Rightarrow> subnet_registry \<Rightarrow> int \<Rightarrow> bytes \<Rightarrow> pystr \<Rightarrow> subnet_result" where
  "activate env r b model_hash uri =
     rbind (only_owner env b) (\<lambda>_.
       if sn_active (sr_subnets r b) then Inl SubnetAlreadyActive
       else Inr (r\<lparr>sr_subnets := (sr_subnets r)(b :=
                  \<lparr>sn_owner = se_sender env, sn_model_hash = model_hash, sn_model_uri = uri,
                   sn_fee = DEFAULT_REGISTRATION_FEE, sn_owner_bps = DEFAULT_OWNER_SPLIT_BPS,
                   sn_miner_bps = DEFAULT_MINER_SHARE_BPS, sn_created = se_time env mod 2 ^ 64, sn_active = True\<rparr>)\<rparr>,
                 [SubnetActivated b (se_sender env) model_hash]))"

definition deactivate :: "subnet_env \<Rightarrow> subnet_registry \<Rightarrow> int \<Rightarrow> subnet_result" where
  "deactivate env r b =
     rbind (only_owner env b) (\<lambda>_.
       Inr (r\<lparr>sr_subnets := (sr_subnets r)(b := (sr_subnets r b)\<lparr>sn_active := False\<rparr>)\<rparr>, [SubnetDeactivated b]))"

definition set_model :: "subnet_env \<Rightarrow> subnet_registry \<Rightarrow> int \<Rightarrow> bytes \<Rightarrow> pystr \<Rightarrow> subnet_result" where
  "set_model env r b model_hash uri =
     rbind (only_owner env b) (\<lambda>_. rbind (only_active r b) (\<lambda>_.
       Inr (r\<lparr>sr_subnets := (sr_subnets r)(b := (sr_subnets r b)\<lparr>sn_model_hash := model_hash, sn_model_uri := uri\<rparr>)\<rparr>,
            [SubnetConfigured b model_hash uri])))"

definition set_registration_fee :: "subnet_env \<Rightarrow> subnet_registry \<Rightarrow> int \<Rightarrow> int \<Rightarrow> subnet_result" where
  "set_registration_fee env r b fee =
     rbind (only_owner env b) (\<lambda>_. rbind (only_active r b) (\<lambda>_.
       Inr (r\<lparr>sr_subnets := (sr_subnets r)(b := (sr_subnets r b)\<lparr>sn_fee := fee\<rparr>)\<rparr>, [RegistrationFeeUpdated b fee])))"

definition set_emission_split :: "subnet_env \<Rightarrow> subnet_registry \<Rightarrow> int \<Rightarrow> int \<Rightarrow> int \<Rightarrow> subnet_result" where
  "set_emission_split env r b owner_bps miner_bps =
     rbind (only_owner env b) (\<lambda>_. rbind (only_active r b) (\<lambda>_.
       if MAX_OWNER_SPLIT_BPS < owner_bps \<or> 10000 < miner_bps then Inl InvalidSplit
       else Inr (r\<lparr>sr_subnets := (sr_subnets r)(b := (sr_subnets r b)\<lparr>sn_owner_bps := owner_bps, sn_miner_bps := miner_bps\<rparr>)\<rparr>,
                 [EmissionSplitUpdated b owner_bps miner_bps])))"

definition pay_fee :: "subnet_env \<Rightarrow> subnet_registry \<Rightarrow> int \<Rightarrow> int \<Rightarrow> subnet_error + unit" where
  "pay_fee env r b max_fee =
     (let fee = sn_fee (sr_subnets r b)
      in if max_fee < fee then Inl FeeExceedsMax
         else if 0 < fee \<and> \<not> se_pays env fee then Inl FeeTransferFailed else Inr ())"

definition registered_now :: "subnet_env \<Rightarrow> member_info" where
  "registered_now env = \<lparr>mb_registered_at = se_time env mod 2 ^ 64, mb_last_epoch = 0, mb_active = True\<rparr>"

definition register_validator :: "subnet_env \<Rightarrow> subnet_registry \<Rightarrow> int \<Rightarrow> int \<Rightarrow> subnet_result" where
  "register_validator env r b max_fee =
     rbind (only_active r b) (\<lambda>_.
       if mb_active (sr_validators r b (se_sender env)) then Inl AlreadyRegistered
       else if MAX_VALIDATORS_PER_BRAIN \<le> sr_validator_count r b then Inl CapacityReached
       else let r' = r\<lparr>sr_validators := (sr_validators r)(b := (sr_validators r b)(se_sender env := registered_now env)),
                       sr_validator_count := (sr_validator_count r)(b := sr_validator_count r b + 1)\<rparr>
            in rbind (pay_fee env r' b max_fee) (\<lambda>_. Inr (r', [Membership ValidatorRegistered b (se_sender env)])))"

definition deregister_validator :: "subnet_env \<Rightarrow> subnet_registry \<Rightarrow> int \<Rightarrow> subnet_result" where
  "deregister_validator env r b =
     (if \<not> mb_active (sr_validators r b (se_sender env)) then Inl NotRegistered
      else if sr_validator_count r b \<le> 0 then Inl SubnetPanic
      else Inr (r\<lparr>sr_validators := (sr_validators r)(b := (sr_validators r b)(se_sender env :=
                    (sr_validators r b (se_sender env))\<lparr>mb_active := False\<rparr>)),
                  sr_validator_count := (sr_validator_count r)(b := sr_validator_count r b - 1)\<rparr>,
                [Membership ValidatorDeregistered b (se_sender env)]))"

definition register_miner :: "subnet_env \<Rightarrow> subnet_registry \<Rightarrow> int \<Rightarrow> int \<Rightarrow> subnet_result" where
  "register_miner env r b max_fee =
     rbind (only_active r b) (\<lambda>_.
       if mb_active (sr_miners r b (se_sender env)) then Inl AlreadyRegistered
       else if MAX_MINERS_PER_BRAIN \<le> sr_miner_count r b then Inl CapacityReached
       else let r' = r\<lparr>sr_miners := (sr_miners r)(b := (sr_miners r b)(se_sender env := registered_now env)),
                       sr_miner_count := (sr_miner_count r)(b := sr_miner_count r b + 1)\<rparr>
            in rbind (pay_fee env r' b max_fee) (\<lambda>_. Inr (r', [Membership MinerRegistered b (se_sender env)])))"

definition deregister_miner :: "subnet_env \<Rightarrow> subnet_registry \<Rightarrow> int \<Rightarrow> subnet_result" where
  "deregister_miner env r b =
     (if \<not> mb_active (sr_miners r b (se_sender env)) then Inl NotRegistered
      else if sr_miner_count r b \<le> 0 then Inl SubnetPanic
      else Inr (r\<lparr>sr_miners := (sr_miners r)(b := (sr_miners r b)(se_sender env :=
                    (sr_miners r b (se_sender env))\<lparr>mb_active := False\<rparr>)),
                  sr_miner_count := (sr_miner_count r)(b := sr_miner_count r b - 1)\<rparr>,
                [Membership MinerDeregistered b (se_sender env)]))"

text \<open>The views. \<open>getSubnet\<close> names the live owner of an active Brain, the stored one if the lookup reverts.\<close>

definition get_subnet :: "(int \<Rightarrow> pystr option) \<Rightarrow> subnet_registry \<Rightarrow> int \<Rightarrow> subnet" where
  "get_subnet owner_of r b =
     (let s = sr_subnets r b
      in if sn_active s then (case owner_of b of None \<Rightarrow> s | Some live \<Rightarrow> s\<lparr>sn_owner := live\<rparr>) else s)"

definition chain_is_validator :: "subnet_registry \<Rightarrow> int \<Rightarrow> pystr \<Rightarrow> bool" where
  "chain_is_validator r b who = mb_active (sr_validators r b who)"

definition chain_is_miner :: "subnet_registry \<Rightarrow> int \<Rightarrow> pystr \<Rightarrow> bool" where
  "chain_is_miner r b who = mb_active (sr_miners r b who)"

section \<open>Histories\<close>

datatype subnet_op =
    Activate int bytes pystr | Deactivate int | SetModel int bytes pystr | SetFee int int | SetSplit int int int
  | RegisterValidator int int | DeregisterValidator int | RegisterMiner int int | DeregisterMiner int

fun subnet_call :: "subnet_env \<Rightarrow> subnet_registry \<Rightarrow> subnet_op \<Rightarrow> subnet_result" where
  "subnet_call env r (Activate b h uri) = activate env r b h uri"
| "subnet_call env r (Deactivate b) = deactivate env r b"
| "subnet_call env r (SetModel b h uri) = set_model env r b h uri"
| "subnet_call env r (SetFee b fee) = set_registration_fee env r b fee"
| "subnet_call env r (SetSplit b o_bps m_bps) = set_emission_split env r b o_bps m_bps"
| "subnet_call env r (RegisterValidator b max_fee) = register_validator env r b max_fee"
| "subnet_call env r (DeregisterValidator b) = deregister_validator env r b"
| "subnet_call env r (RegisterMiner b max_fee) = register_miner env r b max_fee"
| "subnet_call env r (DeregisterMiner b) = deregister_miner env r b"

text \<open>A transaction with the position its log would have; a reverted one leaves nothing.\<close>

record subnet_tx =
  tx_block :: int
  tx_log :: int
  tx_env :: subnet_env
  tx_op :: subnet_op

definition member_logs :: "subnet_tx \<Rightarrow> subnet_log list \<Rightarrow> member_event list" where
  "member_logs t logs =
     concat (map (\<lambda>l. case l of
         Membership k b a \<Rightarrow> [\<lparr>ev_kind = k, ev_brain = b, ev_member = a, ev_block = tx_block t, ev_log = tx_log t\<rparr>]
       | _ \<Rightarrow> []) logs)"

definition run_tx :: "subnet_registry \<times> member_event list \<Rightarrow> subnet_tx \<Rightarrow> subnet_registry \<times> member_event list" where
  "run_tx s t =
     (case subnet_call (tx_env t) (fst s) (tx_op t) of
        Inl e \<Rightarrow> s
      | Inr (r, logs) \<Rightarrow> (r, snd s @ member_logs t logs))"

definition history :: "subnet_tx list \<Rightarrow> subnet_registry \<times> member_event list" where
  "history txs = foldl run_tx (new_subnets, []) txs"

text \<open>The contract's state after the blocks below \<open>n\<close>.\<close>

definition registry_at :: "int \<Rightarrow> subnet_tx list \<Rightarrow> subnet_registry" where
  "registry_at n txs = fst (history (filter (\<lambda>t. tx_block t < n) txs))"

definition ordered_txs :: "subnet_tx list \<Rightarrow> bool" where
  "ordered_txs txs \<longleftrightarrow> sorted_wrt (\<lambda>t u. LogPos (tx_block t) (tx_log t) < LogPos (tx_block u) (tx_log u)) txs"

definition valid_senders :: "ethlib \<Rightarrow> subnet_tx list \<Rightarrow> bool" where
  "valid_senders E txs \<longleftrightarrow> (\<forall>t \<in> set txs. checksum E (se_sender (tx_env t)) = Inr (se_sender (tx_env t)))"

lemmas subnet_ops = activate_def deactivate_def set_model_def set_registration_fee_def set_emission_split_def
  register_validator_def deregister_validator_def register_miner_def deregister_miner_def
  only_owner_def only_active_def pay_fee_def registered_now_def

section \<open>Counts\<close>

text \<open>The counters are the numbers of active members, and stay within the caps.\<close>

definition active_members :: "(pystr \<Rightarrow> member_info) \<Rightarrow> pystr set" where
  "active_members f = {a. mb_active (f a)}"

lemma active_members_upd [simp]:
  "active_members (f(a := i)) = (if mb_active i then insert a (active_members f) else active_members f - {a})"
  "a \<in> active_members f \<longleftrightarrow> mb_active (f a)"
  by (auto simp: active_members_def)

definition count_ok :: "int \<Rightarrow> (pystr \<Rightarrow> member_info) \<Rightarrow> int \<Rightarrow> bool" where
  "count_ok cap f n \<longleftrightarrow> finite (active_members f) \<and> n = int (card (active_members f)) \<and> n \<le> cap"

lemma count_ok_insert:
  "count_ok cap f n \<Longrightarrow> \<not> mb_active (f a) \<Longrightarrow> mb_active i \<Longrightarrow> n < cap \<Longrightarrow> count_ok cap (f(a := i)) (n + 1)"
  unfolding count_ok_def by (subst active_members_upd(1))+ (auto simp del: active_members_upd(1))

lemma count_ok_remove:
  assumes "count_ok cap f n" and "mb_active (f a)" and "\<not> mb_active i"
  shows "count_ok cap (f(a := i)) (n - 1)"
proof -
  let ?A = "active_members f"
  have fin: "finite ?A" and n: "n = int (card ?A)" "n \<le> cap" using assms(1) unfolding count_ok_def by blast+
  have "card ?A = Suc (card (?A - {a}))" using fin assms(2) by (intro card.remove) simp_all
  then have "n - 1 = int (card (?A - {a}))" using n(1) by linarith
  moreover have "active_members (f(a := i)) = ?A - {a}" using assms(3) by simp
  ultimately show ?thesis using fin n(2) unfolding count_ok_def by (metis finite_Diff diff_le_eq le_add_same_cancel1 order_trans zero_le_one)
qed

definition counts_ok :: "subnet_registry \<Rightarrow> bool" where
  "counts_ok r \<longleftrightarrow> (\<forall>b. count_ok MAX_MINERS_PER_BRAIN (sr_miners r b) (sr_miner_count r b)
     \<and> count_ok MAX_VALIDATORS_PER_BRAIN (sr_validators r b) (sr_validator_count r b))"

lemma counts_ok_call:
  assumes "counts_ok r" and "subnet_call env r op = Inr (r', logs)"
  shows "counts_ok r'"
proof -
  note ok = assms(1) [unfolded counts_ok_def, rule_format, THEN conjunct1] assms(1) [unfolded counts_ok_def, rule_format, THEN conjunct2]
  show ?thesis
  proof (cases op)
    case (RegisterMiner b max_fee)
    with assms(2) obtain "\<not> mb_active (sr_miners r b (se_sender env))" "sr_miner_count r b < MAX_MINERS_PER_BRAIN"
      and r': "r' = r\<lparr>sr_miners := (sr_miners r)(b := (sr_miners r b)(se_sender env := registered_now env)),
                       sr_miner_count := (sr_miner_count r)(b := sr_miner_count r b + 1)\<rparr>"
      by (auto simp: register_miner_def Let_def split: if_splits)
    with count_ok_insert [OF ok(1) this(1), of "registered_now env"] ok show ?thesis
      by (simp add: counts_ok_def registered_now_def)
  next
    case (RegisterValidator b max_fee)
    with assms(2) obtain "\<not> mb_active (sr_validators r b (se_sender env))" "sr_validator_count r b < MAX_VALIDATORS_PER_BRAIN"
      and r': "r' = r\<lparr>sr_validators := (sr_validators r)(b := (sr_validators r b)(se_sender env := registered_now env)),
                       sr_validator_count := (sr_validator_count r)(b := sr_validator_count r b + 1)\<rparr>"
      by (auto simp: register_validator_def Let_def split: if_splits)
    with count_ok_insert [OF ok(2) this(1), of "registered_now env"] ok show ?thesis
      by (simp add: counts_ok_def registered_now_def)
  next
    case (DeregisterMiner b)
    with assms(2) count_ok_remove [OF ok(1), of b "se_sender env"] ok show ?thesis
      by (auto simp: deregister_miner_def counts_ok_def split: if_splits)
  next
    case (DeregisterValidator b)
    with assms(2) count_ok_remove [OF ok(2), of b "se_sender env"] ok show ?thesis
      by (auto simp: deregister_validator_def counts_ok_def split: if_splits)
  qed (use assms(2) ok in \<open>auto simp: counts_ok_def activate_def deactivate_def set_model_def set_registration_fee_def
      set_emission_split_def split: if_splits\<close>)
qed

lemma counts_ok_history: "counts_ok (fst (history txs))"
proof (induction txs rule: rev_induct)
  case Nil
  then show ?case
    by (simp add: history_def counts_ok_def count_ok_def active_members_def new_subnets_def no_member_def MAX_MINERS_PER_BRAIN_def MAX_VALIDATORS_PER_BRAIN_def)
next
  case (snoc t txs)
  then show ?case
    by (auto simp: history_def run_tx_def dest: counts_ok_call split: sum.splits)
qed

section \<open>The events tell the membership\<close>

definition mirrors :: "ethlib \<Rightarrow> subnet_registry \<Rightarrow> member_event list \<Rightarrow> bool" where
  "mirrors E r evs \<longleftrightarrow> (\<forall>b a. checksum E a = Inr a \<longrightarrow>
     last_registers True evs b a = chain_is_miner r b a \<and> last_registers False evs b a = chain_is_validator r b a)"

text \<open>A call emits at most one membership event, and that event says what the call did to its sender.\<close>

lemma call_effect:
  assumes "subnet_call env r op = Inr (r', logs)"
  shows "(\<forall>b a. chain_is_miner r' b a = (if Membership MinerRegistered b a \<in> set logs then True
            else if Membership MinerDeregistered b a \<in> set logs then False else chain_is_miner r b a))
    \<and> (\<forall>b a. chain_is_validator r' b a = (if Membership ValidatorRegistered b a \<in> set logs then True
            else if Membership ValidatorDeregistered b a \<in> set logs then False else chain_is_validator r b a))
    \<and> (\<forall>k b a. Membership k b a \<in> set logs \<longrightarrow> a = se_sender env) \<and> length logs = 1"
  using assms
  by (cases op)
    (auto simp: subnet_ops chain_is_miner_def chain_is_validator_def Let_def split: if_splits option.splits)

lemma mirrors_call:
  assumes "mirrors E r evs" and "subnet_call (tx_env t) r (tx_op t) = Inr (r', logs)"
    and "checksum_canonical E" and "checksum E (se_sender (tx_env t)) = Inr (se_sender (tx_env t))"
  shows "mirrors E r' (evs @ member_logs t logs)"
proof -
  let ?s = "se_sender (tx_env t)"
  have same: "lower ?s = lower a \<longleftrightarrow> a = ?s" if "checksum E a = Inr a" for a
    using assms(3,4) that unfolding checksum_canonical_def checksum_def by metis
  note effect = call_effect [OF assms(2)]
  obtain l where l: "logs = [l]" using effect by (auto simp: length_Suc_conv)
  show ?thesis
  proof (cases l)
    case (Membership k b a)
    then have "a = ?s" using effect l by simp
    with assms(1) effect l Membership same show ?thesis
      by (cases k) (auto simp: mirrors_def member_logs_def last_registers_snoc concerns_def)
  qed (use assms(1) effect l in \<open>simp_all add: mirrors_def member_logs_def\<close>)
qed

lemma mirrors_history:
  assumes "checksum_canonical E" and "valid_senders E txs"
  shows "mirrors E (fst (history txs)) (snd (history txs))"
  using assms(2)
proof (induction txs rule: rev_induct)
  case Nil
  then show ?case
    by (simp add: history_def mirrors_def last_registers_def chain_is_miner_def chain_is_validator_def new_subnets_def no_member_def)
next
  case (snoc t txs)
  then have "mirrors E (fst (history txs)) (snd (history txs))" by (simp add: valid_senders_def)
  then show ?case
    using mirrors_call [OF _ _ assms(1)] snoc.prems
    by (auto simp: history_def run_tx_def valid_senders_def split: sum.splits)
qed

lemma run_tx_appends:
  "\<exists>new. snd (run_tx s t) = snd s @ new \<and> (\<forall>e \<in> set new. ev_block e = tx_block t)"
proof (cases "subnet_call (tx_env t) (fst s) (tx_op t)")
  case (Inr x)
  have "\<forall>e \<in> set (member_logs t logs). ev_block e = tx_block t" for logs
    by (auto simp: member_logs_def split: subnet_log.splits)
  with Inr show ?thesis by (cases x) (simp add: run_tx_def)
qed (simp add: run_tx_def)

lemma run_txs_extend:
  "\<exists>rest. snd (foldl run_tx s txs) = snd s @ rest \<and> (\<forall>e \<in> set rest. ev_block e \<in> tx_block ` set txs)"
proof (induction txs rule: rev_induct)
  case (snoc t txs)
  then obtain rest where "snd (foldl run_tx s txs) = snd s @ rest" "\<forall>e \<in> set rest. ev_block e \<in> tx_block ` set txs" by blast
  moreover obtain new where "snd (run_tx (foldl run_tx s txs) t) = snd (foldl run_tx s txs) @ new"
    "\<forall>e \<in> set new. ev_block e = tx_block t"
    using run_tx_appends by blast
  ultimately show ?case by (intro exI [of _ "rest @ new"]) auto
qed simp

lemma history_below:
  assumes "ordered_txs txs"
  shows "events_lt n (snd (history txs)) = snd (history (filter (\<lambda>t. tx_block t < n) txs))"
proof -
  let ?P = "\<lambda>t. tx_block t < n"
  have split: "txs = filter ?P txs @ filter (Not \<circ> ?P) txs"
    using assms
  proof (induction txs)
    case (Cons t txs)
    then have later: "tx_block t \<le> tx_block u" if "u \<in> set txs" for u
      using that by (auto simp: ordered_txs_def less_log_pos_def)
    show ?case
    proof (cases "tx_block t < n")
      case False
      then have "filter ?P txs = []" using later by (fastforce simp: filter_empty_conv)
      with Cons False show ?thesis by (auto simp: ordered_txs_def filter_id_conv)
    next
      case True
      with Cons show ?thesis by (simp add: ordered_txs_def)
    qed
  qed simp
  let ?first = "history (filter ?P txs)"
  have "history txs = foldl run_tx ?first (filter (Not \<circ> ?P) txs)"
    unfolding history_def by (subst split) simp
  then obtain rest where rest: "snd (history txs) = snd ?first @ rest" "\<forall>e \<in> set rest. \<not> ev_block e < n"
    using run_txs_extend [of ?first "filter (Not \<circ> ?P) txs"] by fastforce
  have "\<forall>e \<in> set (snd ?first). ev_block e < n"
    using run_txs_extend [of "(new_subnets, [])" "filter ?P txs"] by (fastforce simp: history_def)
  with rest show ?thesis by (simp add: events_lt_def filter_empty_conv)
qed

section \<open>What the services see of it\<close>

text \<open>
  The registry answers the views, and a registration transaction raises when the contract reverts:
  \<open>build_transaction\<close> estimates its gas.
\<close>

definition sees :: "subnet_registry \<Rightarrow> miner_view \<Rightarrow> miner_view" where
  "sees r mv = mv\<lparr>view_is_miner := (\<lambda>b a. Inr (chain_is_miner r b a)),
                  view_is_validator := (\<lambda>b a. Inr (chain_is_validator r b a))\<rparr>"

definition send_registration :: "(int \<Rightarrow> int \<Rightarrow> subnet_result) \<Rightarrow> int \<Rightarrow> int \<Rightarrow> unit res" where
  "send_registration register b max_fee = (case register b max_fee of Inl e \<Rightarrow> Inl OtherError | Inr _ \<Rightarrow> Inr ())"

definition after_registration :: "(int \<Rightarrow> int \<Rightarrow> subnet_result) \<Rightarrow> subnet_registry \<Rightarrow> int \<Rightarrow> int \<Rightarrow> subnet_registry" where
  "after_registration register r b max_fee = (case register b max_fee of Inl e \<Rightarrow> r | Inr (r', _) \<Rightarrow> r')"

text \<open>The Brain takes a member: it is active, has room, and the fee is within the cap and paid.\<close>

definition takes_member :: "subnet_env \<Rightarrow> subnet_registry \<Rightarrow> int \<Rightarrow> int \<Rightarrow> int \<Rightarrow> int \<Rightarrow> bool" where
  "takes_member env r b members room max_fee \<longleftrightarrow>
     sn_active (sr_subnets r b) \<and> members < room \<and> sn_fee (sr_subnets r b) \<le> max_fee
     \<and> (sn_fee (sr_subnets r b) \<le> 0 \<or> se_pays env (sn_fee (sr_subnets r b)))"

lemma pay_fee_Inr: "pay_fee env r b max_fee = Inr u \<longleftrightarrow>
    sn_fee (sr_subnets r b) \<le> max_fee \<and> (sn_fee (sr_subnets r b) \<le> 0 \<or> se_pays env (sn_fee (sr_subnets r b)))"
  by (auto simp: pay_fee_def Let_def)

lemma register_miner_Inr:
  "(\<exists>x. register_miner env r b max_fee = Inr x) \<longleftrightarrow>
     \<not> chain_is_miner r b (se_sender env) \<and> takes_member env r b (sr_miner_count r b) MAX_MINERS_PER_BRAIN max_fee"
  by (auto simp: register_miner_def only_active_def chain_is_miner_def takes_member_def Let_def pay_fee_Inr)

lemma register_validator_Inr:
  "(\<exists>x. register_validator env r b max_fee = Inr x) \<longleftrightarrow>
     \<not> chain_is_validator r b (se_sender env)
     \<and> takes_member env r b (sr_validator_count r b) MAX_VALIDATORS_PER_BRAIN max_fee"
  by (auto simp: register_validator_def only_active_def chain_is_validator_def takes_member_def Let_def pay_fee_Inr)

lemma registered_is_miner:
  assumes "register_miner env r b max_fee = Inr (r', logs)"
  shows "chain_is_miner r' b (se_sender env)"
  using assms
  by (auto simp: register_miner_def Let_def chain_is_miner_def registered_now_def split: if_splits)

section \<open>Properties\<close>

text \<open>
  C15. The gateway's index mirrors the contract: whatever transactions, reverted ones among them, made the
  chain's history, and whatever chain the poller followed before, a poll leaves the index with
  exactly the miners and validators the registry contract has after the blocks polled, for every
  Brain and every address.
\<close>
theorem gateway_mirrors_registry:
  assumes "checksum_canonical E" and "ordered_txs txs" and "valid_senders E txs"
    and "follows p L H lo" and "serves ch number (snd (history txs)) H'" and "same_past L H (snd (history txs)) H' lo"
    and "0 \<le> next_block p" and "0 \<le> reorg_buffer cfg" and "next_block p \<le> number - confirmations cfg"
    and "checksum E a = Inr a"
  shows "\<exists>p' ix' saved n. poll_once cfg ch p ix = (p', ix', Some saved, Inr n)
    \<and> next_block p' = number - confirmations cfg + 1
    \<and> is_miner ix' b a = chain_is_miner (registry_at (next_block p') txs) b a
    \<and> is_validator ix' b a = chain_is_validator (registry_at (next_block p') txs) b a"
proof -
  obtain p' ix' saved n where poll: "poll_once cfg ch p ix = (p', ix', Some saved, Inr n)"
    "next_block p' = number - confirmations cfg + 1"
    "is_miner ix' b a = last_registers True (events_lt (next_block p') (snd (history txs))) b a"
    "is_validator ix' b a = last_registers False (events_lt (next_block p') (snd (history txs))) b a"
    using poll_reaches_canonical_chain [OF assms(4-9), of ix] by metis
  let ?txs = "filter (\<lambda>t. tx_block t < next_block p') txs"
  have "valid_senders E ?txs" using assms(3) by (simp add: valid_senders_def)
  from mirrors_history [OF assms(1) this] assms(10)
  have "last_registers True (snd (history ?txs)) b a = chain_is_miner (registry_at (next_block p') txs) b a"
    "last_registers False (snd (history ?txs)) b a = chain_is_validator (registry_at (next_block p') txs) b a"
    by (simp_all add: mirrors_def registry_at_def)
  with poll history_below [OF assms(2)] show ?thesis by metis
qed

text \<open>
  C16. The caps hold and no slot is lost: in every history the counters the contract checks are the numbers of
  active members, at most 1792 miners and 256 validators of a Brain, so a deregistration never
  underflows and always makes room for another member.
\<close>
theorem member_counts_are_exact:
  "sr_miner_count (fst (history txs)) b = int (card {a. chain_is_miner (fst (history txs)) b a})
   \<and> sr_validator_count (fst (history txs)) b = int (card {a. chain_is_validator (fst (history txs)) b a})
   \<and> card {a. chain_is_miner (fst (history txs)) b a} \<le> 1792
   \<and> card {a. chain_is_validator (fst (history txs)) b a} \<le> 256
   \<and> deregister_miner env (fst (history txs)) b \<noteq> Inl SubnetPanic
   \<and> deregister_validator env (fst (history txs)) b \<noteq> Inl SubnetPanic"
proof -
  let ?r = "fst (history txs)"
  have ok: "count_ok MAX_MINERS_PER_BRAIN (sr_miners ?r b) (sr_miner_count ?r b)"
    "count_ok MAX_VALIDATORS_PER_BRAIN (sr_validators ?r b) (sr_validator_count ?r b)"
    using counts_ok_history [of txs] unfolding counts_ok_def by blast+
  have pos: "0 < n" if "count_ok cap f n" and "mb_active (f a)" for cap f n a
    using that by (auto simp: count_ok_def card_gt_0_iff active_members_def)
  have "deregister_miner env ?r b \<noteq> Inl SubnetPanic" "deregister_validator env ?r b \<noteq> Inl SubnetPanic"
    using pos [OF ok(1)] pos [OF ok(2)] by (auto simp: deregister_miner_def deregister_validator_def)
  with ok show ?thesis
    by (simp add: count_ok_def chain_is_miner_def chain_is_validator_def active_members_def
        MAX_MINERS_PER_BRAIN_def MAX_VALIDATORS_PER_BRAIN_def)
qed

text \<open>\<open>int(getattr(config, "max_registration_fee", 0)) or (1 << 255)\<close>.\<close>

definition fee_cap :: "int \<Rightarrow> int" where
  "fee_cap configured_fee = (if configured_fee \<noteq> 0 then configured_fee else 2 ^ 255)"

lemma registration_alt:
  "snd (verify_registration E cfg (sees r mv) send (sees r' mv')) =
     (if chain_is_miner r (mc_brain_id cfg) (miner_address E cfg) then Inr True
      else rbind (send (mc_brain_id cfg) (fee_cap (mc_max_fee cfg)))
        (\<lambda>_. Inr (chain_is_miner r' (mc_brain_id cfg) (miner_address E cfg))))"
  "validator_registration E vcfg (Inr known) send =
     (if known then None
      else case send (vc_brain_id vcfg) (fee_cap (vc_max_fee vcfg)) of
        Inl e \<Rightarrow> None | Inr _ \<Rightarrow> Some (vc_brain_id vcfg, fee_cap (vc_max_fee vcfg)))"
  by (simp_all only: verify_registration_def validator_registration_def sees_def fee_cap_def Let_def)
    (auto split: bool.splits)

text \<open>The two halves: a miner's check of its registration, and what a validator sends.\<close>

lemma takes_member_sender: "takes_member (env\<lparr>se_sender := a\<rparr>) = takes_member env"
  by (intro ext) (simp add: takes_member_def)

lemma miner_registration_exact:
  "snd (verify_registration E cfg (sees r mv)
          (send_registration (register_miner (env\<lparr>se_sender := miner_address E cfg\<rparr>) r))
          (sees (after_registration (register_miner (env\<lparr>se_sender := miner_address E cfg\<rparr>) r) r (mc_brain_id cfg)
                  (fee_cap (mc_max_fee cfg))) mv')) =
     (if chain_is_miner r (mc_brain_id cfg) (miner_address E cfg)
         \<or> takes_member env r (mc_brain_id cfg) (sr_miner_count r (mc_brain_id cfg)) MAX_MINERS_PER_BRAIN
             (fee_cap (mc_max_fee cfg))
      then Inr True else Inl OtherError)"
proof -
  let ?m = "env\<lparr>se_sender := miner_address E cfg\<rparr>"
  note can = register_miner_Inr [of ?m r "mc_brain_id cfg" "fee_cap (mc_max_fee cfg)", unfolded takes_member_sender, simplified]
  show ?thesis
  proof (cases "register_miner ?m r (mc_brain_id cfg) (fee_cap (mc_max_fee cfg))")
    case (Inl e)
    with can show ?thesis by (auto simp: registration_alt send_registration_def)
  next
    case (Inr x)
    then obtain r' logs where r': "register_miner ?m r (mc_brain_id cfg) (fee_cap (mc_max_fee cfg)) = Inr (r', logs)"
      by (cases x) simp
    with can registered_is_miner [OF r'] show ?thesis
      by (auto simp: registration_alt send_registration_def after_registration_def)
  qed
qed

lemma validator_registration_exact:
  "validator_registration E vcfg (Inr (chain_is_validator r (vc_brain_id vcfg) (validator_address E vcfg)))
       (send_registration (register_validator (env\<lparr>se_sender := validator_address E vcfg\<rparr>) r)) =
     (if \<not> chain_is_validator r (vc_brain_id vcfg) (validator_address E vcfg)
         \<and> takes_member env r (vc_brain_id vcfg) (sr_validator_count r (vc_brain_id vcfg)) MAX_VALIDATORS_PER_BRAIN
             (fee_cap (vc_max_fee vcfg))
      then Some (vc_brain_id vcfg, fee_cap (vc_max_fee vcfg)) else None)"
  using register_validator_Inr [of "env\<lparr>se_sender := validator_address E vcfg\<rparr>" r "vc_brain_id vcfg"
      "fee_cap (vc_max_fee vcfg)", unfolded takes_member_sender, simplified]
  by (cases "register_validator (env\<lparr>se_sender := validator_address E vcfg\<rparr>) r (vc_brain_id vcfg) (fee_cap (vc_max_fee vcfg))")
    (auto simp: registration_alt send_registration_def)

text \<open>
  When a service can register itself: a miner's check succeeds exactly when the contract has it already, or
  the Brain is active, has room, and the fee is within the configured cap and moved by the token,
  otherwise it raises and the miner does not start. The same conditions decide whether a validator
  that is not yet registered sends its registration. Neither service approves the fee anywhere,
  so where the token asks for an allowance, a positive fee keeps every fresh miner from starting.
\<close>
theorem auto_registration_exact:
  "snd (verify_registration E cfg (sees r mv)
          (send_registration (register_miner (env\<lparr>se_sender := miner_address E cfg\<rparr>) r))
          (sees (after_registration (register_miner (env\<lparr>se_sender := miner_address E cfg\<rparr>) r) r (mc_brain_id cfg)
                  (fee_cap (mc_max_fee cfg))) mv')) =
     (if chain_is_miner r (mc_brain_id cfg) (miner_address E cfg)
         \<or> takes_member env r (mc_brain_id cfg) (sr_miner_count r (mc_brain_id cfg)) MAX_MINERS_PER_BRAIN
             (fee_cap (mc_max_fee cfg))
      then Inr True else Inl OtherError)
   \<and> validator_registration E vcfg (Inr (chain_is_validator r (vc_brain_id vcfg) (validator_address E vcfg)))
       (send_registration (register_validator (env\<lparr>se_sender := validator_address E vcfg\<rparr>) r)) =
     (if \<not> chain_is_validator r (vc_brain_id vcfg) (validator_address E vcfg)
         \<and> takes_member env r (vc_brain_id vcfg) (sr_validator_count r (vc_brain_id vcfg)) MAX_VALIDATORS_PER_BRAIN
             (fee_cap (vc_max_fee vcfg))
      then Some (vc_brain_id vcfg, fee_cap (vc_max_fee vcfg)) else None)"
  using miner_registration_exact validator_registration_exact by blast

section \<open>A concrete history\<close>

definition demo_env :: subnet_env where
  "demo_env = \<lparr>se_sender = hex0x [7], se_time = 0, se_owner_of = (\<lambda>_. Some (hex0x [7])), se_pays = (\<lambda>_. True)\<rparr>"

text \<open>A Brain is activated in block 1, and a miner registers in block 2.\<close>

definition demo_txs :: "subnet_tx list" where
  "demo_txs = [\<lparr>tx_block = 1, tx_log = 0, tx_env = demo_env, tx_op = Activate 8 [] []\<rparr>,
               \<lparr>tx_block = 2, tx_log = 0, tx_env = demo_env, tx_op = RegisterMiner 8 (2 ^ 255)\<rparr>]"

lemma demo_history:
  "snd (history demo_txs) = [\<lparr>ev_kind = MinerRegistered, ev_brain = 8, ev_member = hex0x [7], ev_block = 2, ev_log = 0\<rparr>]"
  "chain_is_miner (registry_at 4 demo_txs) 8 (hex0x [7])"
  by (simp_all add: history_def registry_at_def demo_txs_def demo_env_def run_tx_def subnet_ops new_subnets_def no_member_def
      chain_is_miner_def member_logs_def Let_def MAX_MINERS_PER_BRAIN_def DEFAULT_REGISTRATION_FEE_def)

abbreviation demo_hash_of :: "int \<Rightarrow> pystr" where
  "demo_hash_of n \<equiv> lit ''0xa''"

theorem gateway_mirrors_registry_witness:
  "\<exists>p' ix' saved n. poll_once \<lparr>confirmations = 2, reorg_buffer = 1\<rparr> (demo_serving (snd (history demo_txs)) demo_hash_of)
       \<lparr>p_events = [], p_hashes = [], next_block = 0\<rparr> (new_index 600) = (p', ix', Some saved, Inr n)
     \<and> is_miner ix' 8 (hex0x [7])"
proof -
  let ?L = "snd (history demo_txs)" and ?p = "\<lparr>p_events = [], p_hashes = [], next_block = 0\<rparr>"
  let ?cfg = "\<lparr>confirmations = 2, reorg_buffer = 1\<rparr>"
  have "ordered_txs demo_txs" "valid_senders demo_eth demo_txs"
    by (simp_all add: ordered_txs_def valid_senders_def demo_txs_def demo_env_def less_log_pos_def)
  moreover have "follows ?p ?L demo_hash_of 0" "serves (demo_serving ?L demo_hash_of) 5 ?L demo_hash_of"
    "same_past ?L demo_hash_of ?L demo_hash_of 0"
    by (simp_all add: demo_history follows_def serves_def same_past_def events_lt_def)
  ultimately show ?thesis
    using gateway_mirrors_registry [of demo_eth demo_txs ?p ?L demo_hash_of 0 "demo_serving ?L demo_hash_of" 5 demo_hash_of
        ?cfg "hex0x [7]" "new_index 600" 8] demo_checksum_canonical demo_history(2)
    by fastforce
qed

end
