(* ===== verification/Fees.thy ===== *)
theory Fees imports Subnet Registry
begin

text \<open>
  What becomes of a payment: the fee split of \<open>_settle\<close> and the administration of
  \<open>contracts/src/market/ComputeUnitMarket.sol\<close>, and \<open>contracts/src/reward/RewardDistributor.sol\<close>, which collects
  the validators' share and pushes it into the stake of theory Vault. The split is that of the Brain in
  the registry of theory Subnet. The token is the environment's: it decides whether a transfer
  succeeds, and the transfers made are recorded as sender, recipient and amount, so a contract's
  holdings are what it received less what it sent. The allowance \<open>distribute\<close> gives the vault is the
  amount it may push and is reset afterwards; approvals are not modelled beyond that, nor are roles,
  which are arguments.
\<close>

section \<open>Transfers\<close>

type_synonym transfer = "pystr \<times> pystr \<times> int"

text \<open>Addresses are values: a transfer is recorded with its ends in lower case.\<close>

definition moved :: "pystr \<Rightarrow> pystr \<Rightarrow> int \<Rightarrow> transfer" where
  "moved sender recipient amount = (lower sender, lower recipient, amount)"

definition net_of :: "pystr \<Rightarrow> transfer \<Rightarrow> int" where
  "net_of c t = (case t of (sender, recipient, amount) \<Rightarrow>
     (if recipient = lower c then amount else 0) - (if sender = lower c then amount else 0))"

definition held_by :: "pystr \<Rightarrow> transfer list \<Rightarrow> int" where
  "held_by c ts = sum_list (map (net_of c) ts)"

text \<open>The addresses of the contracts, and the environment of a transaction.\<close>

record contract_addresses =
  at_market :: pystr
  at_distributor :: pystr
  at_vault :: pystr

datatype chain_role = Pauser | MarketAdmin | MarketRole | Slasher | Rewarder

record fee_env =
  fe_sender :: pystr
  fe_time :: int
  fe_owner_of :: "int \<Rightarrow> pystr option"
  fe_moves :: "pystr \<Rightarrow> pystr \<Rightarrow> int \<Rightarrow> bool"
  fe_role :: "chain_role \<Rightarrow> pystr \<Rightarrow> bool"

datatype fee_error =
    FeeTransferRefused | FeePanic | NotMarket | ZeroAmount | NothingToDistribute | IncompleteValidatorSet
  | ValidatorsNotSorted | NotAValidator | NoValidatorStake | RewardRefused vault_error

definition checked_fee :: "int \<Rightarrow> fee_error + int" where
  "checked_fee x = (if is_uint256 x then Inr x else Inl FeePanic)"

definition fee_transfer :: "fee_env \<Rightarrow> pystr \<Rightarrow> pystr \<Rightarrow> int \<Rightarrow> fee_error + transfer" where
  "fee_transfer env sender recipient amount =
     (if fe_moves env sender recipient amount then Inr (moved sender recipient amount) else Inl FeeTransferRefused)"

section \<open>The split of a payment\<close>

definition BPS_DENOMINATOR :: int where "BPS_DENOMINATOR = 10000"

definition BURN_ADDRESS :: pystr where "BURN_ADDRESS = lit ''0x000000000000000000000000000000000000dEaD''"

definition record_fees :: "bool \<Rightarrow> (int \<Rightarrow> int) \<Rightarrow> int \<Rightarrow> int \<Rightarrow> fee_error + (int \<Rightarrow> int)" where
  "record_fees is_market fees b amount =
     (if \<not> is_market then Inl NotMarket
      else if amount = 0 then Inl ZeroAmount
      else rbind (checked_fee (fees b + amount)) (\<lambda>x. Inr (fees(b := x))))"

text \<open>The shares of owner, miner and validators, before a missing owner is folded into the miner.\<close>

definition split_amounts :: "subnet \<Rightarrow> int \<Rightarrow> fee_error + (int \<times> int \<times> int)" where
  "split_amounts sn amount =
     rbind (checked_fee (amount * sn_owner_bps sn)) (\<lambda>x.
     rbind (checked_fee (amount - x div BPS_DENOMINATOR)) (\<lambda>node_share.
     rbind (checked_fee (node_share * sn_miner_bps sn)) (\<lambda>y.
     rbind (checked_fee (node_share - y div BPS_DENOMINATOR)) (\<lambda>validator_amount.
       Inr (x div BPS_DENOMINATOR, y div BPS_DENOMINATOR, validator_amount)))))"

text \<open>\<open>_settle\<close>: the pending fees of the distributor afterwards, and the transfers, in order.\<close>

definition settle_fees ::
    "contract_addresses \<Rightarrow> fee_env \<Rightarrow> subnet_registry \<Rightarrow> (int \<Rightarrow> int) \<Rightarrow> int \<Rightarrow> pystr \<Rightarrow> int
      \<Rightarrow> fee_error + ((int \<Rightarrow> int) \<times> transfer list)" where
  "settle_fees ca env reg fees b payee amount =
     (let sn = get_subnet (fe_owner_of env) reg b; pay = fee_transfer env (at_market ca)
      in if \<not> sn_active sn then rbind (pay payee amount) (\<lambda>t. Inr (fees, [t]))
         else rbind (split_amounts sn amount) (\<lambda>(owner_amount, miner_amount, validator_amount).
           let owned = 0 < owner_amount \<and> sn_owner sn \<noteq> zero_address
           in rbind (if owned then rbind (pay (sn_owner sn) owner_amount) (\<lambda>t. Inr [t]) else Inr []) (\<lambda>to_owner.
              rbind (if owned then Inr miner_amount else checked_fee (miner_amount + owner_amount)) (\<lambda>miner_total.
              rbind (if 0 < validator_amount
                     then rbind (pay (at_distributor ca) validator_amount) (\<lambda>t.
                          rbind (record_fees (fe_role env MarketRole (at_market ca)) fees b validator_amount) (\<lambda>fees'.
                            Inr (fees', [t])))
                     else Inr (fees, [])) (\<lambda>(fees', to_validators).
              rbind (pay payee miner_total) (\<lambda>t. Inr (fees', to_owner @ to_validators @ [t])))))))"

text \<open>\<open>redeem\<close> with its settlement: a reverted settlement reverts the redemption.\<close>

definition redeem_and_settle ::
    "ethlib \<Rightarrow> contract_addresses \<Rightarrow> int \<Rightarrow> fee_env \<Rightarrow> subnet_registry \<Rightarrow> (int \<Rightarrow> int) \<Rightarrow> market \<Rightarrow> receipt_tuple \<Rightarrow> json
      \<Rightarrow> (market \<times> (int \<Rightarrow> int) \<times> transfer list) call" where
  "redeem_and_settle E ca chain env reg fees m tu sig =
     (let paid = settle_fees ca env reg fees (fst (snd (snd tu))) (fst (snd tu)) (tuple_amount tu)
      in rbind (market_redeem E (at_market ca) chain (case paid of Inl _ \<Rightarrow> False | Inr _ \<Rightarrow> True) (fe_time env) m
                  (fe_sender env) tu sig) (\<lambda>m'.
         case paid of Inl _ \<Rightarrow> Inl TransferFailed | Inr (fees', ts) \<Rightarrow> Inr (m', fees', ts)))"

section \<open>The distribution of the validators' share\<close>

text \<open>
  The first loop of \<open>distribute\<close>: ascending addresses above the one before, registered on the Brain, with
  their stakes and the sum.
\<close>

fun read_stakes :: "subnet_registry \<Rightarrow> vault \<Rightarrow> int \<Rightarrow> int \<Rightarrow> int \<Rightarrow> pystr list \<Rightarrow> fee_error + ((pystr \<times> int) list \<times> int)" where
  "read_stakes reg v b low acc [] = Inr ([], acc)"
| "read_stakes reg v b low acc (a # as) =
     (if addr_num a \<le> low then Inl ValidatorsNotSorted
      else if \<not> chain_is_validator reg b a then Inl NotAValidator
      else rbind (checked_fee (acc + validator_stake v b a)) (\<lambda>acc'.
           rbind (read_stakes reg v b (addr_num a) acc' as) (\<lambda>(stakes, all_stake).
             Inr ((a, validator_stake v b a) # stakes, all_stake))))"

text \<open>The second loop: who has no stake, or a share of nothing, is passed over.\<close>

fun push_rewards ::
    "contract_addresses \<Rightarrow> fee_env \<Rightarrow> int \<Rightarrow> int \<Rightarrow> int \<Rightarrow> vault \<times> int \<times> transfer list \<Rightarrow> (pystr \<times> int) list
      \<Rightarrow> fee_error + (vault \<times> int \<times> transfer list)" where
  "push_rewards ca env b acc waiting s [] = Inr s"
| "push_rewards ca env b acc waiting (v, distributed, ts) ((a, n) # stakes) =
     (if n = 0 then push_rewards ca env b acc waiting (v, distributed, ts) stakes
      else rbind (checked_fee (waiting * n)) (\<lambda>x.
           let share = x div acc
           in if share = 0 then push_rewards ca env b acc waiting (v, distributed, ts) stakes
              else rbind (checked_fee (distributed + share)) (\<lambda>distributed'.
                   case notify_reward (fe_role env Rewarder (at_distributor ca))
                          (fe_moves env (at_distributor ca) (at_vault ca) share) v b a share of
                     Inl e \<Rightarrow> Inl (RewardRefused e)
                   | Inr v' \<Rightarrow> push_rewards ca env b acc waiting
                       (v', distributed', ts @ [moved (at_distributor ca) (at_vault ca) share]) stakes)))"

definition distribute ::
    "contract_addresses \<Rightarrow> fee_env \<Rightarrow> subnet_registry \<Rightarrow> vault \<Rightarrow> (int \<Rightarrow> int) \<Rightarrow> int \<Rightarrow> pystr list
      \<Rightarrow> fee_error + (vault \<times> (int \<Rightarrow> int) \<times> transfer list)" where
  "distribute ca env reg v fees b validators =
     (let waiting = fees b; n = sr_validator_count reg b
      in if waiting = 0 then Inl NothingToDistribute
         else if n = 0 \<or> int (length validators) \<noteq> n then Inl IncompleteValidatorSet
         else rbind (read_stakes reg v b 0 0 validators) (\<lambda>(stakes, acc).
           if acc = 0 then Inl NoValidatorStake
           else rbind (push_rewards ca env b acc waiting (v, 0, []) stakes) (\<lambda>(v', distributed, ts).
                rbind (checked_fee (waiting - distributed)) (\<lambda>dust. Inr (v', fees(b := dust), ts)))))"

section \<open>Administration\<close>

datatype admin_error = NotAuthorised | AlreadyPaused | NotPaused | PricingDisabled

definition market_pause :: "bool \<Rightarrow> market \<Rightarrow> admin_error + market" where
  "market_pause is_pauser m =
     (if \<not> is_pauser then Inl NotAuthorised else if mk_paused m then Inl AlreadyPaused else Inr (m\<lparr>mk_paused := True\<rparr>))"

definition market_unpause :: "bool \<Rightarrow> market \<Rightarrow> admin_error + market" where
  "market_unpause is_pauser m =
     (if \<not> is_pauser then Inl NotAuthorised else if \<not> mk_paused m then Inl NotPaused else Inr (m\<lparr>mk_paused := False\<rparr>))"

definition set_max_reservation :: "bool \<Rightarrow> market \<Rightarrow> int \<Rightarrow> admin_error + market" where
  "set_max_reservation is_admin m n = (if \<not> is_admin then Inl NotAuthorised else Inr (m\<lparr>mk_max_reservation := n\<rparr>))"

text \<open>The prices per byte and per request.\<close>

definition valid_prices :: "int \<Rightarrow> int \<Rightarrow> admin_error + (int \<times> int)" where
  "valid_prices per_byte per_request =
     (if 0 < per_byte \<or> 0 < per_request then Inr (per_byte, per_request) else Inl PricingDisabled)"

definition set_pricing :: "bool \<Rightarrow> int \<Rightarrow> int \<Rightarrow> admin_error + (int \<times> int)" where
  "set_pricing is_admin per_byte per_request =
     (if \<not> is_admin then Inl NotAuthorised else valid_prices per_byte per_request)"

definition new_market :: "int \<Rightarrow> int \<Rightarrow> int \<Rightarrow> admin_error + (market \<times> int \<times> int)" where
  "new_market cap per_byte per_request =
     rbind (valid_prices per_byte per_request) (\<lambda>prices.
       Inr (\<lparr>mk_balances = (\<lambda>_. 0), mk_used = (\<lambda>_ _. False), mk_withdrawals = (\<lambda>_. (0, 0)),
             mk_max_reservation = cap, mk_paused = False\<rparr>, prices))"

section \<open>Splits\<close>

text \<open>What the registry keeps of the splits: unsigned words within the caps.\<close>

definition unsigned_split :: "subnet_op \<Rightarrow> bool" where
  "unsigned_split op \<longleftrightarrow> (case op of SetSplit b o_bps m_bps \<Rightarrow> 0 \<le> o_bps \<and> 0 \<le> m_bps | _ \<Rightarrow> True)"

definition splits_ok :: "subnet_registry \<Rightarrow> bool" where
  "splits_ok r \<longleftrightarrow> (\<forall>b. 0 \<le> sn_owner_bps (sr_subnets r b) \<and> sn_owner_bps (sr_subnets r b) \<le> MAX_OWNER_SPLIT_BPS
     \<and> 0 \<le> sn_miner_bps (sr_subnets r b) \<and> sn_miner_bps (sr_subnets r b) \<le> 10000)"

lemma splits_ok_call:
  assumes "splits_ok r" and "unsigned_split op" and "subnet_call env r op = Inr (r', logs)"
  shows "splits_ok r'"
  using assms
  by (cases op) (auto simp: splits_ok_def unsigned_split_def subnet_ops Let_def DEFAULT_OWNER_SPLIT_BPS_def
      DEFAULT_MINER_SHARE_BPS_def MAX_OWNER_SPLIT_BPS_def split: if_splits)

lemma splits_ok_new: "splits_ok new_subnets"
  by (simp add: splits_ok_def new_subnets_def MAX_OWNER_SPLIT_BPS_def)

lemma splits_ok_history:
  assumes "\<forall>t \<in> set txs. unsigned_split (tx_op t)"
  shows "splits_ok (fst (history txs))"
proof -
  have "splits_ok (fst (foldl run_tx s txs))" if "splits_ok (fst s)" for s
    using that assms
  proof (induction txs arbitrary: s)
    case (Cons t txs)
    have "splits_ok (fst (run_tx s t))"
      using Cons.prems splits_ok_call [OF Cons.prems(1), of "tx_op t" "tx_env t"]
      by (auto simp: run_tx_def split: sum.splits)
    with Cons.IH [OF this] Cons.prems(2) show ?case by simp
  qed simp
  from this [of "(new_subnets, [])"] show ?thesis by (simp add: history_def splits_ok_new)
qed

lemma get_subnet_split [simp]:
  "sn_owner_bps (get_subnet owner_of r b) = sn_owner_bps (sr_subnets r b)"
  "sn_miner_bps (get_subnet owner_of r b) = sn_miner_bps (sr_subnets r b)"
  "sn_active (get_subnet owner_of r b) = sn_active (sr_subnets r b)"
  by (simp_all add: get_subnet_def Let_def split: option.splits)

lemma checked_fee_Inr [simp]: "checked_fee x = Inr y \<longleftrightarrow> y = x \<and> is_uint256 x"
  by (auto simp: checked_fee_def)

lemma fee_transfer_Inr [simp]:
  "fee_transfer env f t x = Inr y \<longleftrightarrow> y = moved f t x \<and> fe_moves env f t x"
  by (auto simp: fee_transfer_def)

text \<open>The amounts of an active Brain's split, with the share of an owner that is not there.\<close>

definition owner_part :: "subnet \<Rightarrow> int \<Rightarrow> int" where
  "owner_part sn amount = (if sn_owner sn = zero_address then 0 else amount * sn_owner_bps sn div 10000)"

definition validator_part :: "subnet \<Rightarrow> int \<Rightarrow> int" where
  "validator_part sn amount =
     (let node_share = amount - amount * sn_owner_bps sn div 10000
      in node_share - node_share * sn_miner_bps sn div 10000)"

definition parts :: "subnet \<Rightarrow> int \<Rightarrow> int \<times> int" where
  "parts sn amount = (if sn_active sn then (owner_part sn amount, validator_part sn amount) else (0, 0))"

definition split_transfers :: "contract_addresses \<Rightarrow> subnet \<Rightarrow> pystr \<Rightarrow> int \<Rightarrow> transfer list" where
  "split_transfers ca sn payee amount =
     (case parts sn amount of (to_owner, to_validators) \<Rightarrow>
        (if 0 < to_owner then [moved (at_market ca) (sn_owner sn) to_owner] else [])
        @ (if 0 < to_validators then [moved (at_market ca) (at_distributor ca) to_validators] else [])
        @ [moved (at_market ca) payee (amount - to_owner - to_validators)])"

lemma settle_fees_Inr:
  assumes "settle_fees ca env reg fees b payee amount = Inr (fees', ts)"
    and "0 \<le> sn_owner_bps (sr_subnets reg b)" and "0 \<le> amount"
  shows "ts = split_transfers ca (get_subnet (fe_owner_of env) reg b) payee amount
    \<and> fees' = fees(b := fees b + snd (parts (get_subnet (fe_owner_of env) reg b) amount))
    \<and> (sn_active (sr_subnets reg b) \<longrightarrow> 0 \<le> validator_part (get_subnet (fe_owner_of env) reg b) amount)"
proof (cases "sn_active (sr_subnets reg b)")
  case False
  with assms(1) show ?thesis
    by (auto simp: settle_fees_def Let_def split_transfers_def parts_def)
next
  case True
  let ?sn = "get_subnet (fe_owner_of env) reg b"
  define o_part where "o_part = amount * sn_owner_bps ?sn div 10000"
  define m_part where "m_part = (amount - o_part) * sn_miner_bps ?sn div 10000"
  define v_part where "v_part = amount - o_part - m_part"
  have o_nonneg: "0 \<le> o_part" using assms(2,3) by (simp add: o_part_def pos_imp_zdiv_nonneg_iff)
  have parts: "parts ?sn amount = (if sn_owner ?sn = zero_address then 0 else o_part, v_part)" "validator_part ?sn amount = v_part"
    using True by (simp_all add: parts_def owner_part_def validator_part_def Let_def o_part_def m_part_def v_part_def)
  have split: "split_amounts ?sn amount = Inr (o_part, m_part, v_part)" "0 \<le> v_part"
    using assms(1) True unfolding settle_fees_def split_amounts_def
    by (auto simp: Let_def BPS_DENOMINATOR_def o_part_def m_part_def v_part_def is_uint256_def split: prod.splits)
  from assms(1) True split o_nonneg have "ts = split_transfers ca ?sn payee amount \<and> fees' = fees(b := fees b + v_part)"
    unfolding settle_fees_def split_transfers_def parts(1)
    by (auto simp: Let_def record_fees_def v_part_def add.commute split: if_splits)
  with parts split(2) show ?thesis by simp
qed

lemma redeem_and_settle_Inr:
  "redeem_and_settle E ca chain env reg fees m tu sig = Inr (m', fees', ts) \<longleftrightarrow>
     settle_fees ca env reg fees (fst (snd (snd tu))) (fst (snd tu)) (tuple_amount tu) = Inr (fees', ts)
     \<and> market_redeem E (at_market ca) chain True (fe_time env) m (fe_sender env) tu sig = Inr m'"
  by (cases "settle_fees ca env reg fees (fst (snd (snd tu))) (fst (snd tu)) (tuple_amount tu)")
    (auto simp: redeem_and_settle_def split: prod.splits)

section \<open>Distributions\<close>

lemma read_stakes_Inr:
  assumes "read_stakes reg v b low acc as = Inr (stakes, all_stake)"
  shows "stakes = map (\<lambda>a. (a, validator_stake v b a)) as
    \<and> all_stake = acc + sum_list (map (validator_stake v b) as)
    \<and> sorted_wrt (<) (low # map addr_num as) \<and> (\<forall>a \<in> set as. chain_is_validator reg b a)"
  using assms
proof (induction as arbitrary: low acc stakes)
  case (Cons a as)
  then obtain rest where step: "low < addr_num a" "chain_is_validator reg b a"
    "read_stakes reg v b (addr_num a) (acc + validator_stake v b a) as = Inr (rest, all_stake)"
    "stakes = (a, validator_stake v b a) # rest"
    by (auto split: if_splits prod.splits)
  from Cons.IH [OF step(3)] step show ?case by auto
qed simp

lemma read_stakes_goes_through:
  assumes "sorted_wrt (<) (low # map addr_num as)" and "\<forall>a \<in> set as. chain_is_validator reg b a"
    and "\<forall>a. 0 \<le> validator_stake v b a" and "0 \<le> acc" and "acc + sum_list (map (validator_stake v b) as) < 2 ^ 256"
  shows "\<exists>stakes. read_stakes reg v b low acc as = Inr (stakes, acc + sum_list (map (validator_stake v b) as))"
  using assms
proof (induction as arbitrary: low acc)
  case (Cons a as)
  have "0 \<le> sum_list (map (validator_stake v b) as)" using Cons.prems(3) by (intro sum_list_nonneg) auto
  then have word: "is_uint256 (acc + validator_stake v b a)" using Cons.prems(3-5) by (simp add: is_uint256_def)
  have "\<exists>stakes. read_stakes reg v b (addr_num a) (acc + validator_stake v b a) as =
      Inr (stakes, acc + validator_stake v b a + sum_list (map (validator_stake v b) as))"
    using Cons.prems word by (intro Cons.IH) (auto simp: is_uint256_def add.assoc)
  with Cons.prems word show ?case by (auto simp: checked_fee_def add.assoc)
qed simp

lemma notify_reward_assets:
  assumes "notify_reward role tr v b a amount = Inr v'"
  shows "vt_assets v' = (vt_assets v)((b, a) := vt_assets v (b, a) + amount)"
    "vt_shares v' = vt_shares v" "tr" "role" "is_uint256 amount"
  using assms by (auto simp: notify_reward_def Let_def add_assets_Inr split: if_splits)

text \<open>A validator's reward, and the transfers of the rewards that are not zero.\<close>

definition reward :: "int \<Rightarrow> int \<Rightarrow> int \<Rightarrow> int" where
  "reward waiting all_stake n = waiting * n div all_stake"

definition reward_transfers :: "contract_addresses \<Rightarrow> int list \<Rightarrow> transfer list" where
  "reward_transfers ca rs = map (moved (at_distributor ca) (at_vault ca)) (filter (\<lambda>r. r \<noteq> 0) rs)"

lemma push_rewards_Inr:
  assumes "push_rewards ca env b T W (v, d, ts) (map (\<lambda>a. (a, f a)) as) = Inr (v', d', ts')"
    and "distinct as" and "vault_ok v"
  shows "d' = d + (\<Sum>a\<leftarrow>as. reward W T (f a)) \<and> ts' = ts @ reward_transfers ca (map (\<lambda>a. reward W T (f a)) as)
    \<and> vault_ok v' \<and> vt_total v' = vt_total v + (\<Sum>a\<leftarrow>as. reward W T (f a))
    \<and> (\<forall>a. vt_assets v' (b, a) = vt_assets v (b, a) + (if a \<in> set as then reward W T (f a) else 0))
    \<and> (\<forall>c a. c \<noteq> b \<longrightarrow> vt_assets v' (c, a) = vt_assets v (c, a))"
  using assms
proof (induction as arbitrary: v d ts)
  case (Cons a as)
  let ?r = "reward W T (f a)"
  show ?case
  proof (cases "?r = 0")
    case True
    then have "push_rewards ca env b T W (v, d, ts) (map (\<lambda>a. (a, f a)) as) = Inr (v', d', ts')"
      using Cons.prems(1) by (auto simp: reward_def split: if_splits)
    from Cons.IH [OF this] Cons.prems True show ?thesis by (auto simp: reward_transfers_def)
  next
    case False
    then have "f a \<noteq> 0" by (auto simp: reward_def)
    then obtain w where w: "notify_reward (fe_role env Rewarder (at_distributor ca))
        (fe_moves env (at_distributor ca) (at_vault ca) ?r) v b a ?r = Inr w"
      and rest: "push_rewards ca env b T W (w, d + ?r, ts @ [moved (at_distributor ca) (at_vault ca) ?r])
        (map (\<lambda>a. (a, f a)) as) = Inr (v', d', ts')"
      using Cons.prems(1) False by (auto simp: reward_def Let_def split: if_splits sum.splits)
    have ok: "vault_ok w" "vt_total w = vt_total v + ?r" using notify_reward_ok [OF Cons.prems(3) w] by simp_all
    have "a \<notin> set as" "distinct as" using Cons.prems(2) by simp_all
    with Cons.IH [OF rest _ ok(1)] ok(2) False notify_reward_assets(1) [OF w] show ?thesis
      by (auto simp: reward_transfers_def)
  qed
qed (simp add: reward_transfers_def)

text \<open>The rewards do not exceed what waits, and less than one unit for each validator stays.\<close>

lemma rewards_bound:
  assumes "0 < T" and "T = sum_list (map f as)" and "as \<noteq> []"
  shows "(\<Sum>a\<leftarrow>as. reward W T (f a)) \<le> W" "W < (\<Sum>a\<leftarrow>as. reward W T (f a)) + int (length as)"
proof -
  have low: "T * (\<Sum>a\<leftarrow>as. reward W T (f a)) \<le> W * sum_list (map f as)" for as
  proof (induction as)
    case (Cons a as)
    have "T * reward W T (f a) \<le> W * f a" using div_mult_le [OF assms(1), of "W * f a"] by (simp add: reward_def mult.commute)
    with Cons show ?case by (simp add: algebra_simps)
  qed simp
  have high: "W * sum_list (map f as) \<le> T * (\<Sum>a\<leftarrow>as. reward W T (f a)) + int (length as) * (T - 1)" for as
  proof (induction as)
    case (Cons a as)
    have "W * f a \<le> T * reward W T (f a) + (T - 1)"
    proof -
      have "W * f a = T * (W * f a div T) + W * f a mod T" by simp
      with pos_mod_bound [OF assms(1), of "W * f a"] show ?thesis unfolding reward_def by linarith
    qed
    with Cons show ?case by (simp add: algebra_simps)
  qed simp
  from low [of as] assms(1,2) have "T * (\<Sum>a\<leftarrow>as. reward W T (f a)) \<le> T * W" by (simp add: mult.commute)
  then show "(\<Sum>a\<leftarrow>as. reward W T (f a)) \<le> W" using assms(1) by simp
  define n where "n = int (length as)"
  define R where "R = (\<Sum>a\<leftarrow>as. reward W T (f a))"
  have "0 < n" using assms(3) by (simp add: n_def)
  moreover have "W * T \<le> T * R + n * (T - 1)" using high [of as] by (simp only: n_def R_def assms(2) [symmetric])
  ultimately have "T * W < T * (R + n)" by (simp add: algebra_simps)
  then have "T * W < T * ((\<Sum>a\<leftarrow>as. reward W T (f a)) + int (length as))" by (simp only: n_def R_def)
  then show "W < (\<Sum>a\<leftarrow>as. reward W T (f a)) + int (length as)" using assms(1) by simp
qed

lemma push_rewards_goes_through:
  assumes "vault_ok v" and "0 < T" and "0 \<le> W" and "0 \<le> d" and "distinct as"
    and "\<forall>a \<in> set as. a \<noteq> zero_address \<and> 0 \<le> f a \<and> W * f a < 2 ^ 256 \<and> (0 < f a \<longrightarrow> 0 < vt_shares v (b, a))"
    and "vt_total v + (\<Sum>a\<leftarrow>as. reward W T (f a)) < 2 ^ 256" and "d + (\<Sum>a\<leftarrow>as. reward W T (f a)) < 2 ^ 256"
    and "fe_role env Rewarder (at_distributor ca)" and "\<forall>x. fe_moves env (at_distributor ca) (at_vault ca) x"
  shows "\<exists>s. push_rewards ca env b T W (v, d, ts) (map (\<lambda>a. (a, f a)) as) = Inr s"
  using assms
proof (induction as arbitrary: v d ts)
  case (Cons a as)
  let ?r = "reward W T (f a)"
  have nonneg: "0 \<le> reward W T (f c)" if "c \<in> set (a # as)" for c
    using Cons.prems(2,3,6) that by (auto simp: reward_def pos_imp_zdiv_nonneg_iff)
  then have later: "0 \<le> (\<Sum>a\<leftarrow>as. reward W T (f a))" by (intro sum_list_nonneg) auto
  have word: "is_uint256 (W * f a)" using Cons.prems(3,6) by (simp add: is_uint256_def)
  show ?case
  proof (cases "f a = 0 \<or> ?r = 0")
    case True
    have "\<exists>s. push_rewards ca env b T W (v, d, ts) (map (\<lambda>a. (a, f a)) as) = Inr s"
      using Cons.prems True by (intro Cons.IH) (auto simp: reward_def)
    with True word show ?thesis by (auto simp: reward_def checked_fee_def Let_def)
  next
    case False
    have assets: "assets_ok v" using Cons.prems(1) by (simp add: vault_ok_iff)
    have r: "0 < ?r" using False nonneg [of a] by simp
    have total: "vt_total v + ?r < 2 ^ 256" "d + ?r < 2 ^ 256" using Cons.prems(7,8) later by simp_all
    note le = assets_le(1,2) [OF assets, of b a] assets_le(3) [OF assets, of b]
    have "\<exists>w. add_assets v (b, a) ?r = Inr w"
      using le r total(1) by (simp add: add_assets_Inr is_uint256_def)
    then obtain w where w: "notify_reward True True v b a ?r = Inr w"
      using Cons.prems(4,6) False r total le
      by (auto simp: notify_reward_def Let_def is_uint256_def)
    have ok: "vault_ok w" "vt_total w = vt_total v + ?r" using notify_reward_ok [OF Cons.prems(1) w] by simp_all
    have "\<exists>s. push_rewards ca env b T W (w, d + ?r, ts @ [moved (at_distributor ca) (at_vault ca) ?r])
        (map (\<lambda>a. (a, f a)) as) = Inr s"
      using Cons.prems ok r by (intro Cons.IH) (auto simp: notify_reward_assets(2) [OF w] add.assoc)
    with False word w total(2) Cons.prems(4,9,10) r show ?thesis
      by (auto simp: reward_def checked_fee_def Let_def is_uint256_def)
  qed
qed simp

section \<open>Properties\<close>

text \<open>
  C13. Where a payment goes: whatever the registry's history, a redemption takes exactly the receipt's amount
  from the user's account and pays it out whole. An inactive Brain's miner gets it all; otherwise the
  owner, if there is one, gets its share of at most 15 percent, the validators get their share of the
  rest, which is added to the Brain's pending fees as it is transferred to the distributor, and the
  miner gets what remains. With the default split that is at least 70 percent less two units, and
  the owner gets at most 8 percent.
\<close>
theorem redemption_is_split:
  assumes "redeem_and_settle E ca chain env (fst (history txs)) fees m (user, payee, b, ph, rh, amount, expiry, n) sig = Inr (m', fees', ts)"
    and "\<forall>t \<in> set txs. unsigned_split (tx_op t)" and "is_uint256 amount"
  shows "\<exists>to_owner to_validators to_miner. to_owner + to_validators + to_miner = amount
    \<and> 0 \<le> to_owner \<and> 10000 * to_owner \<le> 1500 * amount \<and> 0 \<le> to_validators \<and> 0 \<le> to_miner
    \<and> (to_owner, to_validators) = parts (get_subnet (fe_owner_of env) (fst (history txs)) b) amount
    \<and> ts = (if 0 < to_owner then [moved (at_market ca) (sn_owner (get_subnet (fe_owner_of env) (fst (history txs)) b)) to_owner] else [])
         @ (if 0 < to_validators then [moved (at_market ca) (at_distributor ca) to_validators] else [])
         @ [moved (at_market ca) payee to_miner]
    \<and> fees' = fees(b := fees b + to_validators)
    \<and> mk_balances m' = (mk_balances m)(lower user := mk_balances m (lower user) - amount)
    \<and> (sn_owner_bps (sr_subnets (fst (history txs)) b) = 800 \<and> sn_miner_bps (sr_subnets (fst (history txs)) b) = 7609 \<longrightarrow>
         7000 * amount \<le> 10000 * to_miner + 20000 \<and> 10000 * to_owner \<le> 800 * amount)"
proof -
  let ?r = "fst (history txs)"
  let ?sn = "get_subnet (fe_owner_of env) ?r b"
  have split: "0 \<le> sn_owner_bps ?sn" "sn_owner_bps ?sn \<le> 1500" "0 \<le> sn_miner_bps ?sn" "sn_miner_bps ?sn \<le> 10000"
    using splits_ok_history [OF assms(2)] by (simp_all add: splits_ok_def MAX_OWNER_SPLIT_BPS_def)
  have settled: "settle_fees ca env ?r fees b payee amount = Inr (fees', ts)"
    and redeemed: "market_redeem E (at_market ca) chain True (fe_time env) m (fe_sender env)
      (user, payee, b, ph, rh, amount, expiry, n) sig = Inr m'"
    using assms(1) by (simp_all add: redeem_and_settle_Inr del: market_redeem.simps)
  have amount: "0 \<le> amount" using assms(3) by (simp add: is_uint256_def)
  note out = settle_fees_Inr [OF settled split(1) [simplified] amount]
  obtain o_part v_part where parts: "parts ?sn amount = (o_part, v_part)" by (cases "parts ?sn amount")
  define S where "S = amount * sn_owner_bps ?sn div 10000"
  have S: "0 \<le> S" "10000 * S \<le> amount * sn_owner_bps ?sn" "amount * sn_owner_bps ?sn < 10000 * S + 10000"
    using amount split(1) by (simp_all add: S_def pos_imp_zdiv_nonneg_iff) 
  have cap: "10000 * S \<le> 1500 * amount" using S(2) mult_left_mono [OF split(2) amount] by simp
  define M where "M = (amount - S) * sn_miner_bps ?sn div 10000"
  have "0 \<le> amount - S" using cap amount by simp
  then have M: "0 \<le> M" "(amount - S) * sn_miner_bps ?sn < 10000 * M + 10000" "10000 * M \<le> (amount - S) * sn_miner_bps ?sn"
    using split(3) by (simp_all add: M_def pos_imp_zdiv_nonneg_iff)
  have o_part: "o_part = 0 \<or> o_part = S" and v_part: "v_part = (if sn_active ?sn then amount - S - M else 0)"
    using parts by (auto simp: parts_def owner_part_def validator_part_def Let_def S_def M_def split: if_splits)
  have pos: "0 \<le> v_part" using out parts by (auto simp: parts_def split: if_splits)
  have rest: "M \<le> amount - o_part - v_part \<or> o_part = 0 \<and> v_part = 0"
    using o_part S(1) v_part parts by (auto simp: parts_def split: if_splits)
  have default_share: "7000 * amount \<le> 10000 * (amount - o_part - v_part) + 20000 \<and> 10000 * o_part \<le> 800 * amount"
    if "sn_owner_bps ?sn = 800" "sn_miner_bps ?sn = 7609"
    using rest S M that o_part amount by auto
  have ts: "ts = (if 0 < o_part then [moved (at_market ca) (sn_owner ?sn) o_part] else [])
         @ (if 0 < v_part then [moved (at_market ca) (at_distributor ca) v_part] else [])
         @ [moved (at_market ca) payee (amount - o_part - v_part)]"
    using out by (simp add: split_transfers_def parts)
  have bal: "mk_balances m' = (mk_balances m)(lower user := mk_balances m (lower user) - amount)"
    using redeem_Inr [OF redeemed] by simp
  have fees': "fees' = fees(b := fees b + v_part)" using out parts by simp
  have "0 \<le> amount - o_part - v_part" "0 \<le> o_part" "10000 * o_part \<le> 1500 * amount"
    using rest M(1) amount o_part S(1) cap by auto
  then show ?thesis
    using ts bal fees' parts pos default_share
    by (intro exI [of _ o_part] exI [of _ v_part] exI [of _ "amount - o_part - v_part"]) simp
qed

lemma sorted_addresses_distinct:
  assumes "sorted_wrt (<) (low # map addr_num as)"
  shows "distinct as"
proof -
  have "sorted_wrt (<) (map addr_num as)" using assms by simp
  then have "distinct (map addr_num as)" by (simp add: strict_sorted_iff)
  then show ?thesis by (simp add: distinct_map)
qed

lemma validators_counted:
  "finite {a. chain_is_validator (fst (history txs)) b a}"
  "sr_validator_count (fst (history txs)) b = int (card {a. chain_is_validator (fst (history txs)) b a})"
  using counts_ok_history [of txs]
  by (simp_all add: counts_ok_def count_ok_def chain_is_validator_def active_members_def)

lemma distribute_Inr:
  assumes "distribute ca env reg v fees b validators = Inr (v', fees', ts)"
  obtains all_stake d where "fees b \<noteq> 0" and "sr_validator_count reg b = int (length validators)" and "validators \<noteq> []"
    and "read_stakes reg v b 0 0 validators = Inr (map (\<lambda>a. (a, validator_stake v b a)) validators, all_stake)" and "all_stake \<noteq> 0"
    and "push_rewards ca env b all_stake (fees b) (v, 0, []) (map (\<lambda>a. (a, validator_stake v b a)) validators) = Inr (v', d, ts)"
    and "fees' = fees(b := fees b - d)" and "0 \<le> fees b - d"
proof -
  obtain stakes all_stake where read: "read_stakes reg v b 0 0 validators = Inr (stakes, all_stake)"
    using assms by (auto simp: distribute_def Let_def split: if_splits prod.splits)
  have "stakes = map (\<lambda>a. (a, validator_stake v b a)) validators" using read_stakes_Inr [OF read] by simp
  moreover have count: "sr_validator_count reg b = int (length validators)" "sr_validator_count reg b \<noteq> 0"
    using assms by (auto simp: distribute_def Let_def split: if_splits)
  ultimately obtain d where d: "fees b \<noteq> 0"
    "read_stakes reg v b 0 0 validators = Inr (map (\<lambda>a. (a, validator_stake v b a)) validators, all_stake)" "all_stake \<noteq> 0"
    "push_rewards ca env b all_stake (fees b) (v, 0, []) (map (\<lambda>a. (a, validator_stake v b a)) validators) = Inr (v', d, ts)"
    "fees' = fees(b := fees b - d)" "0 \<le> fees b - d"
    using read assms by (auto simp: distribute_def Let_def is_uint256_def split: if_splits prod.splits)
  have ne: "validators \<noteq> []" using count by auto
  show ?thesis by (rule that [OF d(1) count(1) ne d(2-)])
qed

text \<open>
  C14. A distribution is complete and in proportion: in every history it takes the list of exactly the
  validators registered on the Brain, each once, adds to each one's stake the floor of the pending
  fees times its part of their joint stake, touches no other stake, sends the vault what it adds,
  and leaves pending what rounding keeps, which is less than one unit for each validator.
\<close>
theorem distribution_is_complete_and_pro_rata:
  assumes "distribute ca env (fst (history txs)) v fees b validators = Inr (v', fees', ts)" and "vault_reachable v"
  shows "distinct validators \<and> set validators = {a. chain_is_validator (fst (history txs)) b a}
    \<and> (\<forall>c a. validator_stake v' c a = validator_stake v c a
          + (if c = b \<and> a \<in> set validators
             then fees b * validator_stake v b a div (\<Sum>x \<in> set validators. validator_stake v b x) else 0))
    \<and> (\<forall>c. c \<noteq> b \<longrightarrow> fees' c = fees c) \<and> 0 \<le> fees' b \<and> fees' b < int (length validators)
    \<and> vt_total v' + fees' b = vt_total v + fees b
    \<and> sum_list (map (snd \<circ> snd) ts) = fees b - fees' b
    \<and> (\<forall>t \<in> set ts. fst t = lower (at_distributor ca) \<and> fst (snd t) = lower (at_vault ca))"
proof (rule distribute_Inr [OF assms(1)])
  let ?r = "fst (history txs)"
  fix T d
  assume count: "sr_validator_count ?r b = int (length validators)" "validators \<noteq> []"
    and read: "read_stakes ?r v b 0 0 validators = Inr (map (\<lambda>a. (a, validator_stake v b a)) validators, T)" and T: "T \<noteq> 0"
    and push: "push_rewards ca env b T (fees b) (v, 0, []) (map (\<lambda>a. (a, validator_stake v b a)) validators) = Inr (v', d, ts)"
    and fees': "fees' = fees(b := fees b - d)"  "0 \<le> fees b - d"
  note r = read_stakes_Inr [OF read]
  have dist: "distinct validators" using r sorted_addresses_distinct by blast
  have "card (set validators) = card {a. chain_is_validator ?r b a}"
    using dist count validators_counted(2) [of txs b] by (simp add: distinct_card)
  then have full: "set validators = {a. chain_is_validator ?r b a}"
    using r validators_counted(1) by (intro card_subset_eq) auto
  have ok: "vault_ok v" using vault_reachable_ok [OF assms(2)] by simp
  note p = push_rewards_Inr [OF push dist ok]
  have stakes: "0 \<le> validator_stake v b a" for a
    using ok assets_le(1) by (simp add: vault_ok_iff validator_stake_def)
  have sum: "T = sum_list (map (validator_stake v b) validators)" using r by simp
  have "0 \<le> sum_list (map (validator_stake v b) validators)" using stakes by (intro sum_list_nonneg) auto
  with T sum have pos: "0 < T" by simp
  have T_sum: "T = (\<Sum>x \<in> set validators. validator_stake v b x)" using sum dist by (simp add: sum_list_distinct_conv_sum_set)
  have "sum_list (map (snd \<circ> snd) (reward_transfers ca rs)) = sum_list rs" for rs
    by (induction rs) (auto simp: reward_transfers_def moved_def)
  moreover have "\<forall>t \<in> set (reward_transfers ca rs). fst t = lower (at_distributor ca) \<and> fst (snd t) = lower (at_vault ca)" for rs
    by (auto simp: reward_transfers_def moved_def)
  ultimately have sent: "sum_list (map (snd \<circ> snd) ts) = d"
    "\<forall>t \<in> set ts. fst t = lower (at_distributor ca) \<and> fst (snd t) = lower (at_vault ca)"
    using p by simp_all
  have "validator_stake v' c a = validator_stake v c a
          + (if c = b \<and> a \<in> set validators then reward (fees b) T (validator_stake v b a) else 0)" for c a
    using p by (cases "c = b") (auto simp: validator_stake_def)
  then show ?thesis
    using dist full sent p fees' rewards_bound(2) [OF pos sum count(2), of "fees b"] unfolding reward_def T_sum by simp
qed

lemma addr_num_zero: "addr_num zero_address = 0"
  by (simp add: addr_num_def zero_address_def) code_simp

text \<open>
  A distribution cannot be blocked: in every history, whoever lists the validators of a Brain in ascending
  order has its pending fees distributed, provided one of them has stake, no product or sum leaves its
  word, the distributor has the rewarder's role and the token moves its transfers. A validator without
  stake, or one whose share rounds to nothing, does not stand in the way.
\<close>
theorem distribution_goes_through:
  assumes "vault_reachable v" and "set validators = {a. chain_is_validator (fst (history txs)) b a}"
    and "sorted_wrt (<) (0 # map addr_num validators)"
    and "0 < fees b" and "a \<in> set validators" and "0 < validator_stake v b a"
    and "fees b * vt_total v < 2 ^ 256" and "vt_total v + fees b < 2 ^ 256"
    and "fe_role env Rewarder (at_distributor ca)" and "\<forall>x. fe_moves env (at_distributor ca) (at_vault ca) x"
  shows "\<exists>v' fees' ts. distribute ca env (fst (history txs)) v fees b validators = Inr (v', fees', ts)"
proof -
  let ?r = "fst (history txs)" and ?f = "validator_stake v b"
  have ok: "vault_ok v" "assets_ok v" using vault_reachable_ok [OF assms(1)] by (simp_all add: vault_ok_iff)
  have dist: "distinct validators" using assms(3) by (rule sorted_addresses_distinct)
  have stakes: "\<forall>c. 0 \<le> ?f c" using assets_le(1) [OF ok(2)] by (simp add: validator_stake_def)
  have le: "?f c \<le> vt_total v" for c
    using order_trans [OF assets_le(2,3) [OF ok(2)], of b c] by (simp add: validator_stake_def)
  let ?T = "sum_list (map ?f validators)"
  have "?T = (\<Sum>x \<in> set validators. ?f x)" using dist by (simp add: sum_list_distinct_conv_sum_set)
  also have "\<dots> \<le> vt_brain v b"
    using sum_map_ge [of "\<lambda>x. vt_assets v (b, x)" "set validators"] ok(2) assets_le(1) [OF ok(2)]
    by (simp add: assets_ok_def validator_stake_def)
  also have "\<dots> \<le> vt_total v" by (rule assets_le(3) [OF ok(2)])
  finally have T: "?T \<le> vt_total v" .
  have total: "0 \<le> vt_total v" using assets_le [OF ok(2), of b] by (meson order_trans)
  have "?f a \<le> ?T" using assms(5) stakes by (intro member_le_sum_list) auto
  with assms(6) have pos: "0 < ?T" by simp
  have ne: "validators \<noteq> []" using assms(5) by auto
  have "0 + ?T < 2 ^ 256" using T assms(4,8) by simp
  moreover have "\<forall>c \<in> set validators. chain_is_validator ?r b c" using assms(2) by blast
  ultimately have "\<exists>ss. read_stakes ?r v b 0 0 validators = Inr (ss, 0 + ?T)"
    by (intro read_stakes_goes_through [OF assms(3) _ stakes order.refl])
  then obtain ss where read: "read_stakes ?r v b 0 0 validators = Inr (ss, ?T)" unfolding add_0 ..
  then have ss: "ss = map (\<lambda>a. (a, ?f a)) validators" using read_stakes_Inr by blast
  have each: "c \<noteq> zero_address \<and> 0 \<le> ?f c \<and> fees b * ?f c < 2 ^ 256 \<and> (0 < ?f c \<longrightarrow> 0 < vt_shares v (b, c))"
    if "c \<in> set validators" for c
  proof -
    have "0 < addr_num c" using assms(3) that by auto
    moreover have "fees b * ?f c \<le> fees b * vt_total v" using le assms(4) by (intro mult_left_mono) simp_all
    moreover have "0 \<le> vt_shares v (b, c)"
      using held_le_shares [of v "(b, c)" c] shares_okD(3) [of v "(b, c)" c] ok(1) by (simp add: vault_ok_iff)
    moreover have "vt_shares v (b, c) = 0 \<longrightarrow> ?f c = 0" using ok(1) by (simp add: vault_ok_iff validator_stake_def)
    ultimately show ?thesis using stakes assms(7) addr_num_zero by force
  qed
  note bound = rewards_bound [OF pos refl ne, of "fees b"]
  have "\<exists>s. push_rewards ca env b ?T (fees b) (v, 0, []) (map (\<lambda>a. (a, ?f a)) validators) = Inr s"
  proof (rule push_rewards_goes_through [OF ok(1) pos _ order.refl dist _ _ _ assms(9,10)])
    show "0 \<le> fees b" using assms(4) by simp
    show "\<forall>c \<in> set validators. c \<noteq> zero_address \<and> 0 \<le> ?f c \<and> fees b * ?f c < 2 ^ 256 \<and> (0 < ?f c \<longrightarrow> 0 < vt_shares v (b, c))"
      using each by blast
    show "vt_total v + (\<Sum>a\<leftarrow>validators. reward (fees b) ?T (?f a)) < 2 ^ 256" using bound(1) assms(8) by simp
    show "0 + (\<Sum>a\<leftarrow>validators. reward (fees b) ?T (?f a)) < 2 ^ 256" using bound(1) assms(8) total by simp
  qed
  then obtain v' d ts where push: "push_rewards ca env b ?T (fees b) (v, 0, []) ss = Inr (v', d, ts)"
    unfolding ss by auto
  have "d = (\<Sum>a\<leftarrow>validators. reward (fees b) ?T (?f a))" using push_rewards_Inr [OF push [unfolded ss] dist ok(1)] by simp
  moreover have "0 \<le> (\<Sum>a\<leftarrow>validators. reward (fees b) ?T (?f a))"
    using pos assms(4) stakes by (intro sum_list_nonneg) (auto simp: reward_def pos_imp_zdiv_nonneg_iff)
  ultimately have "is_uint256 (fees b - d)" using bound(1) assms(4,8) total by (simp add: is_uint256_def)
  moreover have "sr_validator_count ?r b = int (length validators)"
    unfolding validators_counted(2) assms(2) [symmetric] using dist by (simp add: distinct_card)
  ultimately show ?thesis
    using assms(4) ne pos by (auto simp: distribute_def Let_def read push checked_fee_def)
qed

section \<open>Concrete payments\<close>

definition demo_addresses :: contract_addresses where
  "demo_addresses = \<lparr>at_market = hex0x [9], at_distributor = hex0x [10], at_vault = hex0x [11]\<rparr>"

definition demo_fee_env :: fee_env where
  "demo_fee_env = \<lparr>fe_sender = hex0x [8], fe_time = 100, fe_owner_of = (\<lambda>_. Some (hex0x [7])), fe_moves = (\<lambda>_ _ _. True),
     fe_role = (\<lambda>_ _. True)\<rparr>"

text \<open>A Brain is activated, and a validator registers.\<close>

definition demo_brain :: "int \<Rightarrow> subnet_tx list" where
  "demo_brain b = [\<lparr>tx_block = 1, tx_log = 0, tx_env = demo_env, tx_op = Activate b [] []\<rparr>,
               \<lparr>tx_block = 2, tx_log = 0, tx_env = demo_env\<lparr>se_sender := hex0x [1]\<rparr>, tx_op = RegisterValidator b (2 ^ 255)\<rparr>]"

lemma demo_brain_registry:
  "\<forall>t \<in> set (demo_brain b). unsigned_split (tx_op t)"
  "sr_subnets (fst (history (demo_brain b))) b = \<lparr>sn_owner = hex0x [7], sn_model_hash = [], sn_model_uri = [],
     sn_fee = DEFAULT_REGISTRATION_FEE, sn_owner_bps = 800, sn_miner_bps = 7609, sn_created = 0, sn_active = True\<rparr>"
  "chain_is_validator (fst (history (demo_brain b))) b a = (a = hex0x [1])"
  by (simp_all add: history_def demo_brain_def demo_env_def run_tx_def subnet_ops new_subnets_def no_member_def
      chain_is_validator_def member_logs_def Let_def MAX_VALIDATORS_PER_BRAIN_def DEFAULT_REGISTRATION_FEE_def unsigned_split_def
      DEFAULT_OWNER_SPLIT_BPS_def DEFAULT_MINER_SHARE_BPS_def)

lemma demo_settlement:
  "redeem_and_settle demo_eth demo_addresses 1 demo_fee_env (fst (history (demo_brain 3))) (\<lambda>_. 0) demo_market (demo_tuple 10)
     (demo_receipt_sig 10) =
   Inr (or_reverted demo_market (market_redeem demo_eth (hex0x [9]) 1 True 100 demo_market (hex0x [8]) (demo_tuple 10) (demo_receipt_sig 10)),
        (\<lambda>_. 0)(3 := 3), [moved (hex0x [9]) (hex0x [10]) 3, moved (hex0x [9]) (hex0x [8]) 7])"
  unfolding redeem_and_settle_Inr
  by (simp add: settle_fees_def split_amounts_def get_subnet_def demo_brain_registry demo_addresses_def demo_fee_env_def
      BPS_DENOMINATOR_def record_fees_def is_uint256_def checked_fee_def fee_transfer_def or_reverted_def
      demo_market_def demo_tuple_def demo_receipt_sig_def sentinel_hash_def demo_key_def MAX_RECEIPT_LIFETIME_def)

theorem redemption_is_split_witness:
  "\<exists>to_owner to_validators to_miner. to_owner + to_validators + to_miner = (10 :: int) \<and> 70000 \<le> 10000 * to_miner + 20000"
proof -
  have "is_uint256 10" by (simp add: is_uint256_def)
  from redemption_is_split [OF demo_settlement [unfolded demo_tuple_def] demo_brain_registry(1) this]
  show ?thesis unfolding demo_brain_registry(2) by auto
qed

theorem distribution_goes_through_witness:
  "\<exists>v' fees' ts. distribute demo_addresses demo_fee_env (fst (history (demo_brain 8))) demo_staked (\<lambda>_. 100) 8 [hex0x [1]]
     = Inr (v', fees', ts)"
  by (rule distribution_goes_through [OF demo_vault_reachable, of _ _ _ _ "hex0x [1]"])
    (simp_all add: demo_brain_registry demo_fee_env_def demo_staked_def validator_stake_def)

theorem distribution_is_complete_and_pro_rata_witness:
  "\<exists>v' fees' ts. distribute demo_addresses demo_fee_env (fst (history (demo_brain 8))) demo_staked (\<lambda>_. 100) 8 [hex0x [1]]
     = Inr (v', fees', ts) \<and> validator_stake v' 8 (hex0x [1]) = 250"
proof -
  have val: "chain_is_validator (fst (history (demo_brain 8))) 8 (hex0x [1])" by (simp add: demo_brain_registry)
  have count: "sr_validator_count (fst (history (demo_brain 8))) 8 = 1"
    using validators_counted(2) [of "demo_brain 8" 8] by (simp add: demo_brain_registry)
  have "\<exists>v' fees' ts. distribute demo_addresses demo_fee_env (fst (history (demo_brain 8))) demo_staked (\<lambda>_. 100) 8 [hex0x [1]]
     = Inr (v', fees', ts)"
    by (simp add: distribute_def count val Let_def checked_fee_def is_uint256_def validator_stake_def demo_staked_def notify_reward_def
        demo_fee_env_def add_assets_def checked_def hex0x_not_zero_address)
  then obtain v' fees' ts where d: "distribute demo_addresses demo_fee_env (fst (history (demo_brain 8))) demo_staked (\<lambda>_. 100) 8
      [hex0x [1]] = Inr (v', fees', ts)" by blast
  from distribution_is_complete_and_pro_rata [OF this demo_vault_reachable, THEN conjunct2, THEN conjunct2, THEN conjunct1]
  have "validator_stake v' 8 (hex0x [1]) = 250" by (simp add: validator_stake_def demo_staked_def)
  with d show ?thesis by blast
qed

end
