(* ===== verification/Custody.thy ===== *)
theory Custody imports Fees
begin

text \<open>
  The contracts that hold tokens, together: market, distributor and vault on one registry and one token,
  with every call anyone can make on them, in any order. A call that reverts changes nothing. The
  equivocation challenge of \<open>ScoringRegistry\<close> reaches the vault as the call \<open>VaultSlash\<close>.
\<close>

section \<open>The economy\<close>

record economy =
  ec_market :: market
  ec_prices :: "int \<times> int"
  ec_fees :: "int \<Rightarrow> int"
  ec_registry :: subnet_registry
  ec_vault :: vault
  ec_sent :: "transfer list"

definition new_economy :: "market \<times> int \<times> int \<Rightarrow> economy" where
  "new_economy mp = \<lparr>ec_market = fst mp, ec_prices = snd mp, ec_fees = (\<lambda>_. 0), ec_registry = new_subnets,
     ec_vault = new_vault, ec_sent = []\<rparr>"

datatype ec_call =
    MarketDeposit int | MarketRequestWithdraw int | MarketCancelWithdraw | MarketWithdraw
  | MarketRedeem receipt_tuple json | MarketPause | MarketUnpause | MarketSetReservation int | MarketSetPricing int int
  | DistributeFees int "pystr list"
  | VaultStake int pystr int | VaultRequestUnstake int pystr int | VaultClaim int pystr | VaultSlash int pystr int
  | VaultReward int pystr int
  | RegistryCall subnet_op
  | TokenTransfer pystr int

definition send :: "fee_env \<Rightarrow> economy \<Rightarrow> pystr \<Rightarrow> pystr \<Rightarrow> int \<Rightarrow> economy option" where
  "send env s sender recipient amount =
     (if fe_moves env sender recipient amount then Some (s\<lparr>ec_sent := ec_sent s @ [moved sender recipient amount]\<rparr>) else None)"

text \<open>The registration fee a call burns.\<close>

fun burned_fee :: "subnet_registry \<Rightarrow> subnet_op \<Rightarrow> int" where
  "burned_fee r (RegisterValidator b max_fee) = sn_fee (sr_subnets r b)"
| "burned_fee r (RegisterMiner b max_fee) = sn_fee (sr_subnets r b)"
| "burned_fee r op = 0"

fun ec_apply :: "ethlib \<Rightarrow> contract_addresses \<Rightarrow> int \<Rightarrow> fee_env \<Rightarrow> economy \<Rightarrow> ec_call \<Rightarrow> economy option" where
  "ec_apply E ca chain env s (MarketDeposit x) =
     (case market_deposit True (ec_market s) (fe_sender env) x of
        Inl e \<Rightarrow> None | Inr m \<Rightarrow> send env (s\<lparr>ec_market := m\<rparr>) (fe_sender env) (at_market ca) x)"
| "ec_apply E ca chain env s (MarketRequestWithdraw x) =
     (case market_request_withdraw (fe_time env) (ec_market s) (fe_sender env) x of
        Inl e \<Rightarrow> None | Inr m \<Rightarrow> Some (s\<lparr>ec_market := m\<rparr>))"
| "ec_apply E ca chain env s MarketCancelWithdraw =
     (case market_cancel_withdraw (ec_market s) (fe_sender env) of Inl e \<Rightarrow> None | Inr m \<Rightarrow> Some (s\<lparr>ec_market := m\<rparr>))"
| "ec_apply E ca chain env s MarketWithdraw =
     (case market_withdraw True (fe_time env) (ec_market s) (fe_sender env) of
        Inl e \<Rightarrow> None
      | Inr m \<Rightarrow> send env (s\<lparr>ec_market := m\<rparr>) (at_market ca) (fe_sender env)
          (mk_balances (ec_market s) (lower (fe_sender env)) - mk_balances m (lower (fe_sender env))))"
| "ec_apply E ca chain env s (MarketRedeem tu sig) =
     (case redeem_and_settle E ca chain env (ec_registry s) (ec_fees s) (ec_market s) tu sig of
        Inl e \<Rightarrow> None
      | Inr (m, fees, ts) \<Rightarrow> Some (s\<lparr>ec_market := m, ec_fees := fees, ec_sent := ec_sent s @ ts\<rparr>))"
| "ec_apply E ca chain env s MarketPause =
     (case market_pause (fe_role env Pauser (fe_sender env)) (ec_market s) of Inl e \<Rightarrow> None | Inr m \<Rightarrow> Some (s\<lparr>ec_market := m\<rparr>))"
| "ec_apply E ca chain env s MarketUnpause =
     (case market_unpause (fe_role env Pauser (fe_sender env)) (ec_market s) of Inl e \<Rightarrow> None | Inr m \<Rightarrow> Some (s\<lparr>ec_market := m\<rparr>))"
| "ec_apply E ca chain env s (MarketSetReservation n) =
     (case set_max_reservation (fe_role env MarketAdmin (fe_sender env)) (ec_market s) n of
        Inl e \<Rightarrow> None | Inr m \<Rightarrow> Some (s\<lparr>ec_market := m\<rparr>))"
| "ec_apply E ca chain env s (MarketSetPricing x y) =
     (case set_pricing (fe_role env MarketAdmin (fe_sender env)) x y of Inl e \<Rightarrow> None | Inr p \<Rightarrow> Some (s\<lparr>ec_prices := p\<rparr>))"
| "ec_apply E ca chain env s (DistributeFees b validators) =
     (case distribute ca env (ec_registry s) (ec_vault s) (ec_fees s) b validators of
        Inl e \<Rightarrow> None
      | Inr (v, fees, ts) \<Rightarrow> Some (s\<lparr>ec_vault := v, ec_fees := fees, ec_sent := ec_sent s @ ts\<rparr>))"
| "ec_apply E ca chain env s (VaultStake b a x) =
     (case stake True (ec_vault s) b a (fe_sender env) x of
        Inl e \<Rightarrow> None | Inr v \<Rightarrow> send env (s\<lparr>ec_vault := v\<rparr>) (fe_sender env) (at_vault ca) x)"
| "ec_apply E ca chain env s (VaultRequestUnstake b a x) =
     (case request_unstake (fe_time env) (ec_vault s) b a (fe_sender env) x of Inl e \<Rightarrow> None | Inr v \<Rightarrow> Some (s\<lparr>ec_vault := v\<rparr>))"
| "ec_apply E ca chain env s (VaultClaim b a) =
     (case claim_unstake True (fe_time env) (ec_vault s) b a (fe_sender env) of
        Inl e \<Rightarrow> None | Inr (v, paid) \<Rightarrow> send env (s\<lparr>ec_vault := v\<rparr>) (at_vault ca) (fe_sender env) paid)"
| "ec_apply E ca chain env s (VaultSlash b a x) =
     (case slash (fe_role env Slasher (fe_sender env)) True (ec_vault s) b a x of
        Inl e \<Rightarrow> None
      | Inr (v, burned) \<Rightarrow> if burned = 0 then Some s else send env (s\<lparr>ec_vault := v\<rparr>) (at_vault ca) BURN_ADDRESS burned)"
| "ec_apply E ca chain env s (VaultReward b a x) =
     (case notify_reward (fe_role env Rewarder (fe_sender env)) True (ec_vault s) b a x of
        Inl e \<Rightarrow> None | Inr v \<Rightarrow> send env (s\<lparr>ec_vault := v\<rparr>) (fe_sender env) (at_vault ca) x)"
| "ec_apply E ca chain env s (RegistryCall op) =
     (case subnet_call \<lparr>se_sender = fe_sender env, se_time = fe_time env, se_owner_of = fe_owner_of env,
                         se_pays = fe_moves env (fe_sender env) BURN_ADDRESS\<rparr> (ec_registry s) op of
        Inl e \<Rightarrow> None
      | Inr (r, logs) \<Rightarrow> if 0 < burned_fee (ec_registry s) op
          then send env (s\<lparr>ec_registry := r\<rparr>) (fe_sender env) BURN_ADDRESS (burned_fee (ec_registry s) op)
          else Some (s\<lparr>ec_registry := r\<rparr>))"
| "ec_apply E ca chain env s (TokenTransfer recipient x) = send env s (fe_sender env) recipient x"

definition ec_step :: "ethlib \<Rightarrow> contract_addresses \<Rightarrow> int \<Rightarrow> economy \<Rightarrow> fee_env \<times> ec_call \<Rightarrow> economy" where
  "ec_step E ca chain s tx = (case ec_apply E ca chain (fst tx) s (snd tx) of None \<Rightarrow> s | Some s' \<Rightarrow> s')"

definition ec_run :: "ethlib \<Rightarrow> contract_addresses \<Rightarrow> int \<Rightarrow> economy \<Rightarrow> (fee_env \<times> ec_call) list \<Rightarrow> economy" where
  "ec_run E ca chain = foldl (ec_step E ca chain)"

text \<open>The arguments of a call are unsigned words, and no contract is the sender of a call.\<close>

fun unsigned_call :: "ec_call \<Rightarrow> bool" where
  "unsigned_call (MarketDeposit x) = is_uint256 x"
| "unsigned_call (MarketRequestWithdraw x) = is_uint256 x"
| "unsigned_call (MarketRedeem tu sig) = is_uint256 (tuple_amount tu)"
| "unsigned_call (RegistryCall op) = unsigned_split op"
| "unsigned_call (TokenTransfer a x) = is_uint256 x"
| "unsigned_call c = True"

definition contracts_of :: "contract_addresses \<Rightarrow> pystr list" where
  "contracts_of ca = [lower (at_market ca), lower (at_distributor ca), lower (at_vault ca)]"

definition from_outside :: "contract_addresses \<Rightarrow> fee_env \<times> ec_call \<Rightarrow> bool" where
  "from_outside ca tx \<longleftrightarrow> lower (fe_sender (fst tx)) \<notin> set (contracts_of ca) \<and> unsigned_call (snd tx)"

section \<open>Solvency\<close>

lemma held_by_simps [simp]:
  "held_by c [] = 0" "held_by c (ts @ us) = held_by c ts + held_by c us" "held_by c (t # ts) = net_of c t + held_by c ts"
  by (simp_all add: held_by_def)

lemma net_moved [simp]:
  "net_of c (moved f t x) = (if lower t = lower c then x else 0) - (if lower f = lower c then x else 0)"
  by (simp add: net_of_def moved_def)

definition solvent :: "contract_addresses \<Rightarrow> economy \<Rightarrow> bool" where
  "solvent ca s \<longleftrightarrow>
     (\<forall>u. 0 \<le> mk_balances (ec_market s) u) \<and> finite_map (mk_balances (ec_market s))
     \<and> sum_map (mk_balances (ec_market s)) \<le> held_by (at_market ca) (ec_sent s)
     \<and> (\<forall>b. 0 \<le> ec_fees s b) \<and> finite_map (ec_fees s) \<and> sum_map (ec_fees s) \<le> held_by (at_distributor ca) (ec_sent s)
     \<and> vault_ok (ec_vault s) \<and> vt_total (ec_vault s) \<le> held_by (at_vault ca) (ec_sent s)
     \<and> splits_ok (ec_registry s) \<and> (0 < fst (ec_prices s) \<or> 0 < snd (ec_prices s))"

text \<open>A state is solvent when what each contract owes has not grown by more than it has received.\<close>

lemma solvent_step:
  assumes "solvent ca s" and "ec_sent s' = ec_sent s @ ts"
    and "mk_balances (ec_market s') = (mk_balances (ec_market s))(u := mk_balances (ec_market s) u + dm)"
    and "0 \<le> mk_balances (ec_market s) u + dm" and "dm \<le> held_by (at_market ca) ts"
    and "ec_fees s' = (ec_fees s)(b := ec_fees s b + df)" and "0 \<le> ec_fees s b + df" and "df \<le> held_by (at_distributor ca) ts"
    and "vault_ok (ec_vault s')" and "vt_total (ec_vault s') \<le> vt_total (ec_vault s) + held_by (at_vault ca) ts"
    and "splits_ok (ec_registry s')" and "0 < fst (ec_prices s') \<or> 0 < snd (ec_prices s')"
  shows "solvent ca s'"
proof -
  note old = assms(1) [unfolded solvent_def]
  have "finite_map (mk_balances (ec_market s'))" "sum_map (mk_balances (ec_market s')) = sum_map (mk_balances (ec_market s)) + dm"
    using old by (simp_all add: assms(3) finite_map_upd sum_map_upd)
  moreover have "finite_map (ec_fees s')" "sum_map (ec_fees s') = sum_map (ec_fees s) + df"
    using old by (simp_all add: assms(6) finite_map_upd sum_map_upd)
  ultimately show ?thesis using old assms(2-12) by (auto simp: solvent_def)
qed

text \<open>What the transfers of a settlement and of a distribution mean for the three contracts.\<close>

definition separate :: "contract_addresses \<Rightarrow> bool" where
  "separate ca \<longleftrightarrow> distinct (contracts_of ca)"

lemma separate_simps:
  assumes "separate ca"
  shows "lower (at_market ca) \<noteq> lower (at_distributor ca)" "lower (at_market ca) \<noteq> lower (at_vault ca)"
    "lower (at_distributor ca) \<noteq> lower (at_vault ca)" "lower (at_distributor ca) \<noteq> lower (at_market ca)"
    "lower (at_vault ca) \<noteq> lower (at_market ca)" "lower (at_vault ca) \<noteq> lower (at_distributor ca)"
  using assms by (auto simp: separate_def contracts_of_def)

lemma held_split_transfers:
  assumes "separate ca" and "lower payee \<notin> set (contracts_of ca)"
    and "0 \<le> fst (parts sn amount)" and "0 \<le> snd (parts sn amount)"
  shows "- amount \<le> held_by (at_market ca) (split_transfers ca sn payee amount)"
    "snd (parts sn amount) \<le> held_by (at_distributor ca) (split_transfers ca sn payee amount)"
    "0 \<le> held_by (at_vault ca) (split_transfers ca sn payee amount)"
  using assms(2-4)
  by (auto simp: split_transfers_def contracts_of_def separate_simps [OF assms(1)] split: prod.splits)

lemma held_reward_transfers:
  assumes "separate ca"
  shows "held_by (at_distributor ca) (reward_transfers ca rs) = - sum_list rs"
    "held_by (at_vault ca) (reward_transfers ca rs) = sum_list rs"
    "held_by (at_market ca) (reward_transfers ca rs) = 0"
  by (induction rs) (auto simp: reward_transfers_def separate_simps [OF assms])

lemma distribute_effect:
  assumes "distribute ca env reg v fees b validators = Inr (v', fees', ts)" and "vault_ok v"
  shows "\<exists>rs. ts = reward_transfers ca rs \<and> fees' = fees(b := fees b - sum_list rs) \<and> sum_list rs \<le> fees b
    \<and> vault_ok v' \<and> vt_total v' = vt_total v + sum_list rs"
proof (rule distribute_Inr [OF assms(1)])
  fix T d
  assume read: "read_stakes reg v b 0 0 validators = Inr (map (\<lambda>a. (a, validator_stake v b a)) validators, T)"
    and push: "push_rewards ca env b T (fees b) (v, 0, []) (map (\<lambda>a. (a, validator_stake v b a)) validators) = Inr (v', d, ts)"
    and "fees' = fees(b := fees b - d)"  "0 \<le> fees b - d"
  moreover have "distinct validators" using read_stakes_Inr [OF read] sorted_addresses_distinct by blast
  ultimately show ?thesis using push_rewards_Inr [OF push _ assms(2)] by auto
qed

lemma redeem_payee:
  "market_redeem E this chain tr t m sender tu sig = Inr m' \<Longrightarrow> lower (fst (snd tu)) = lower sender"
  by (cases tu) (auto split: if_splits)

lemma solvent_redeem:
  assumes "solvent ca s" and "separate ca" and "from_outside ca (env, MarketRedeem tu sig)"
    and "redeem_and_settle E ca chain env (ec_registry s) (ec_fees s) (ec_market s) tu sig = Inr (m, fees, ts)"
  shows "solvent ca (s\<lparr>ec_market := m, ec_fees := fees, ec_sent := ec_sent s @ ts\<rparr>)"
proof -
  let ?b = "fst (snd (snd tu))" and ?payee = "fst (snd tu)" and ?u = "fst (tuple_key tu)"
  let ?sn = "get_subnet (fe_owner_of env) (ec_registry s) ?b"
  have settled: "settle_fees ca env (ec_registry s) (ec_fees s) ?b ?payee (tuple_amount tu) = Inr (fees, ts)"
    and redeemed: "market_redeem E (at_market ca) chain True (fe_time env) (ec_market s) (fe_sender env) tu sig = Inr m"
    using assms(4) by (simp_all add: redeem_and_settle_Inr)
  have amount: "0 \<le> tuple_amount tu" and outside: "lower ?payee \<notin> set (contracts_of ca)"
    using assms(3) redeem_payee [OF redeemed] by (simp_all add: from_outside_def is_uint256_def)
  note old = assms(1) [unfolded solvent_def]
  have bps: "0 \<le> sn_owner_bps (sr_subnets (ec_registry s) ?b)" using old by (simp add: splits_ok_def)
  note out = settle_fees_Inr [OF settled bps amount]
  have v_part: "0 \<le> snd (parts ?sn (tuple_amount tu))" using out by (simp add: parts_def)
  have o_part: "0 \<le> fst (parts ?sn (tuple_amount tu))"
    using bps amount by (simp add: parts_def owner_part_def pos_imp_zdiv_nonneg_iff)
  show ?thesis
    by (rule solvent_step [OF assms(1), of _ ts ?u "- tuple_amount tu" ?b "snd (parts ?sn (tuple_amount tu))"])
      (use redeem_Inr [OF redeemed] out held_split_transfers [OF assms(2) outside o_part v_part] old v_part in auto)
qed

lemma solvent_distribute:
  assumes "solvent ca s" and "separate ca"
    and "distribute ca env (ec_registry s) (ec_vault s) (ec_fees s) b validators = Inr (v, fees, ts)"
  shows "solvent ca (s\<lparr>ec_vault := v, ec_fees := fees, ec_sent := ec_sent s @ ts\<rparr>)"
proof -
  note old = assms(1) [unfolded solvent_def]
  obtain rs where rs: "ts = reward_transfers ca rs" "fees = (ec_fees s)(b := ec_fees s b - sum_list rs)"
    "sum_list rs \<le> ec_fees s b" "vault_ok v" "vt_total v = vt_total (ec_vault s) + sum_list rs"
    using distribute_effect [OF assms(3)] old by blast
  show ?thesis
    by (rule solvent_step [OF assms(1), of _ ts u 0 b "- sum_list rs"])
      (use old rs held_reward_transfers [OF assms(2)] in auto)
qed

lemmas market_calls = market_deposit_def market_request_withdraw_def market_cancel_withdraw_def
  market_pause_def market_unpause_def set_max_reservation_def

text \<open>A call of the vault with its transfer.\<close>

lemma solvent_vault:
  assumes "solvent ca s" and "vault_ok v" and "vt_total v \<le> vt_total (ec_vault s) + held_by (at_vault ca) ts"
    and "0 \<le> held_by (at_market ca) ts" and "0 \<le> held_by (at_distributor ca) ts"
  shows "solvent ca (s\<lparr>ec_vault := v, ec_sent := ec_sent s @ ts\<rparr>)"
  by (rule solvent_step [OF assms(1), of _ ts u 0 b 0]) (use assms in \<open>auto simp: solvent_def\<close>)

lemma send_Some: "send env s f t x = Some s' \<longleftrightarrow> s' = s\<lparr>ec_sent := ec_sent s @ [moved f t x]\<rparr> \<and> fe_moves env f t x"
  by (auto simp: send_def)

lemma solvent_apply:
  assumes ok: "solvent ca s" and sep: "separate ca" and out: "from_outside ca (env, call)"
    and ap: "ec_apply E ca chain env s call = Some s'"
  shows "solvent ca s'"
proof -
  note old = ok [unfolded solvent_def]
  note sep_simps = separate_simps [OF sep]
  have sender: "lower (fe_sender env) \<noteq> lower (at_market ca)" "lower (fe_sender env) \<noteq> lower (at_distributor ca)"
    "lower (fe_sender env) \<noteq> lower (at_vault ca)"
    using out by (auto simp: from_outside_def contracts_of_def)
  have vault: "vault_ok (ec_vault s)" using old by blast
  show ?thesis
  proof (cases call)
    case (MarketDeposit x)
    show ?thesis
      by (rule solvent_step [OF ok, of _ "[moved (fe_sender env) (at_market ca) x]" "lower (fe_sender env)" x undefined 0])
        (use ap MarketDeposit out old sender sep_simps in
          \<open>auto simp: from_outside_def market_calls send_Some is_uint256_def split: sum.splits if_splits\<close>)
  next
    case MarketWithdraw
    then obtain m where m: "market_withdraw True (fe_time env) (ec_market s) (fe_sender env) = Inr m"
      and s': "send env (s\<lparr>ec_market := m\<rparr>) (at_market ca) (fe_sender env)
        (mk_balances (ec_market s) (lower (fe_sender env)) - mk_balances m (lower (fe_sender env))) = Some s'"
      using ap by (auto split: sum.splits)
    let ?u = "lower (fe_sender env)"
    let ?paid = "mk_balances (ec_market s) ?u - mk_balances m ?u"
    have upd: "mk_balances m = (mk_balances (ec_market s))(?u := mk_balances m ?u)" and rest: "0 \<le> mk_balances m ?u"
      using m by (auto simp: market_withdraw_def Let_def split: if_splits prod.splits)
    show ?thesis
      by (rule solvent_step [OF ok, of _ "[moved (at_market ca) (fe_sender env) ?paid]" ?u "- ?paid" undefined 0])
        (use s' upd rest old sender sep_simps in \<open>auto simp: send_Some\<close>)
  next
    case (MarketRedeem tu sig)
    with ap obtain m fees ts where r: "redeem_and_settle E ca chain env (ec_registry s) (ec_fees s) (ec_market s) tu sig = Inr (m, fees, ts)"
      and s': "s' = s\<lparr>ec_market := m, ec_fees := fees, ec_sent := ec_sent s @ ts\<rparr>"
      by (auto split: sum.splits)
    show ?thesis unfolding s' by (rule solvent_redeem [OF ok sep out [unfolded MarketRedeem] r])
  next
    case (DistributeFees b validators)
    with ap solvent_distribute [OF ok sep] show ?thesis by (auto split: sum.splits)
  next
    case (VaultStake b a x)
    with ap obtain v where v: "stake True (ec_vault s) b a (fe_sender env) x = Inr v"
      and s': "s' = s\<lparr>ec_vault := v, ec_sent := ec_sent s @ [moved (fe_sender env) (at_vault ca) x]\<rparr>"
      by (auto simp: send_Some split: sum.splits)
    show ?thesis
      unfolding s' by (rule solvent_vault [OF ok]) (use stake_ok [OF vault v] sender sep_simps in auto)
  next
    case (VaultClaim b a)
    with ap obtain v paid where v: "claim_unstake True (fe_time env) (ec_vault s) b a (fe_sender env) = Inr (v, paid)"
      and s': "s' = s\<lparr>ec_vault := v, ec_sent := ec_sent s @ [moved (at_vault ca) (fe_sender env) paid]\<rparr>"
      by (auto simp: send_Some split: sum.splits)
    show ?thesis
      unfolding s' by (rule solvent_vault [OF ok]) (use claim_unstake_ok [OF vault v] sender sep_simps in auto)
  next
    case (VaultSlash b a x)
    then obtain v burned where v: "slash (fe_role env Slasher (fe_sender env)) True (ec_vault s) b a x = Inr (v, burned)"
      and s': "burned = 0 \<and> s' = s \<or> burned \<noteq> 0 \<and> s' = s\<lparr>ec_vault := v, ec_sent := ec_sent s @ [moved (at_vault ca) BURN_ADDRESS burned]\<rparr>"
      using ap by (auto simp: send_Some split: sum.splits if_splits)
    have "0 \<le> burned" using v vault by (auto simp: slash_def Let_def is_uint256_def vault_ok_def split: if_splits)
    with s' ok show ?thesis
      by (auto intro!: solvent_vault [OF ok] simp: slash_ok [OF vault v] sep_simps)
  next
    case (VaultReward b a x)
    with ap obtain v where v: "notify_reward (fe_role env Rewarder (fe_sender env)) True (ec_vault s) b a x = Inr v"
      and s': "s' = s\<lparr>ec_vault := v, ec_sent := ec_sent s @ [moved (fe_sender env) (at_vault ca) x]\<rparr>"
      by (auto simp: send_Some split: sum.splits)
    show ?thesis
      unfolding s' by (rule solvent_vault [OF ok]) (use notify_reward_ok [OF vault v] sender sep_simps in auto)
  next
    case (VaultRequestUnstake b a x)
    with ap request_unstake_ok [OF vault] old show ?thesis by (auto simp: solvent_def split: sum.splits)
  next
    case (RegistryCall op)
    let ?x = "burned_fee (ec_registry s) op"
    from RegistryCall ap obtain r logs where r: "subnet_call \<lparr>se_sender = fe_sender env, se_time = fe_time env, se_owner_of = fe_owner_of env,
        se_pays = fe_moves env (fe_sender env) BURN_ADDRESS\<rparr> (ec_registry s) op = Inr (r, logs)"
      and s': "s' = s\<lparr>ec_registry := r\<rparr>
        \<or> 0 < ?x \<and> s' = s\<lparr>ec_registry := r, ec_sent := ec_sent s @ [moved (fe_sender env) BURN_ADDRESS ?x]\<rparr>"
      by (auto simp: send_Some split: sum.splits if_splits)
    have "splits_ok r" using splits_ok_call [OF _ _ r] old out RegistryCall by (auto simp: from_outside_def)
    with s' old sender show ?thesis by (auto simp: solvent_def)
  next
    case (TokenTransfer recipient x)
    with ap old sender out show ?thesis by (auto simp: solvent_def send_Some from_outside_def is_uint256_def)
  qed (use ap old in \<open>auto simp: solvent_def market_calls set_pricing_def valid_prices_def split: sum.splits if_splits\<close>)
qed

lemma solvent_run:
  assumes "solvent ca s" and "separate ca" and "list_all (from_outside ca) txs"
  shows "solvent ca (ec_run E ca chain s txs)"
  using assms
proof (induction txs arbitrary: s)
  case (Cons tx txs)
  have "solvent ca (ec_step E ca chain s tx)"
    using solvent_apply [OF Cons.prems(1,2), of "fst tx" "snd tx"] Cons.prems(1,3)
    by (auto simp: ec_step_def split: option.splits)
  with Cons show ?case by (simp add: ec_run_def)
qed (simp add: ec_run_def)

lemma solvent_new:
  assumes "new_market cap x y = Inr mp"
  shows "solvent ca (new_economy mp)"
  using assms
  by (auto simp: new_market_def valid_prices_def new_economy_def solvent_def vault_ok_new splits_ok_new split: if_splits)
    (simp_all add: new_vault_def)


text \<open>
  A deposit of 100, a redemption of 10 in a Brain with a validator that has stake, and a distribution: the
  validators' 3 end up in the vault.
\<close>

definition demo_txs_of :: "(pystr \<times> ec_call) list" where
  "demo_txs_of =
     [(hex0x [7], RegistryCall (Activate 3 [] [])), (hex0x [1], RegistryCall (RegisterValidator 3 (2 ^ 255))),
      (hex0x [1], VaultStake 3 (hex0x [1]) 50), (hex0x [7], MarketDeposit 100),
      (hex0x [8], MarketRedeem (demo_tuple 10) (demo_receipt_sig 10)), (hex0x [8], DistributeFees 3 [hex0x [1]])]"

definition demo_economy_txs :: "(fee_env \<times> ec_call) list" where
  "demo_economy_txs = map (\<lambda>(a, call). (demo_fee_env\<lparr>fe_sender := a\<rparr>, call)) demo_txs_of"

lemma demo_economy:
  "ec_fees (ec_run demo_eth demo_addresses 1 (new_economy (demo_market\<lparr>mk_balances := \<lambda>_. 0\<rparr>, 1, 1)) demo_economy_txs) 3 = 0
   \<and> vt_total (ec_vault (ec_run demo_eth demo_addresses 1 (new_economy (demo_market\<lparr>mk_balances := \<lambda>_. 0\<rparr>, 1, 1)) demo_economy_txs)) = 53"
  by (simp add: ec_run_def ec_step_def demo_economy_txs_def demo_txs_of_def new_economy_def demo_fee_env_def demo_addresses_def
      demo_market_def subnet_ops new_subnets_def no_member_def send_def stake_def new_vault_def assets_to_shares_def add_assets_def
      checked_def is_uint256_def Let_def hex0x_not_zero_address MAX_VALIDATORS_PER_BRAIN_def DEFAULT_REGISTRATION_FEE_def
      DEFAULT_OWNER_SPLIT_BPS_def DEFAULT_MINER_SHARE_BPS_def market_deposit_def redeem_and_settle_def settle_fees_def
      split_amounts_def get_subnet_def BPS_DENOMINATOR_def record_fees_def checked_fee_def fee_transfer_def
      demo_tuple_def demo_receipt_sig_def sentinel_hash_def demo_key_def MAX_RECEIPT_LIFETIME_def distribute_def
      chain_is_validator_def validator_stake_def notify_reward_def)


end
