(* ===== verification/Listing.thy ===== *)
theory Listing imports Gateway Startup
begin

text \<open>
  How long a miner stays in the gateway's list: the announcements of \<open>announce_once\<close> in the miner's
  \<open>http_server.py\<close> against the announce handler, the score submissions and the membership rebuilds that
  share the index with it, as a sequence of events in any order.
\<close>

section \<open>An announcement from both ends\<close>

text \<open>The two programs sign and check the same announcement.\<close>

lemma announce_digests_agree: "miner_announce_digest = announce_digest"
  by (intro ext) (simp add: miner_announce_digest_def announce_digest_def MINER_ANNOUNCE_TAG_def ANNOUNCE_TAG_def)

lemma listed_in_miners_of:
  assumes "enumerates order" and "finite (reg_miners mi b)" and "a \<in> reg_miners mi b"
    and "endpoints mi (b, a) = Some ep" and "is_fresh mi t ep"
  shows "(a, ep_url ep, ep_score ep) \<in> set (miners_of order mi b t)"
proof -
  have "a \<in> set (order (reg_miners mi b))" using assms(1-3) by (simp add: enumerates_def)
  moreover have "listed mi t b a = Some (a, ep_url ep, ep_score ep)" using assms(4,5) by (simp add: listed_def)
  ultimately show ?thesis by (force simp: miners_of_def set_map_filter)
qed

lemma own_announcement_stored:
  assumes "recovers_signer E" and "keys_checksummed E" and "miner_sign_announce E key b url ts = Inr sig"
    and "\<bar>now mo - ts\<bar> \<le> ANNOUNCE_MAX_AGE" and "url_guard mo url = Inr None" and "is_miner mi b (key_address E key)"
  shows "announce E rep mo mi b (announce_payload E key url ts sig) =
    (announce_endpoint mi b (key_address E key) url ts 0, Inr (200, JObj [(lit ''ok'', JBool True)]))"
proof -
  obtain digest where d: "announce_digest E b url ts = Inr digest" and sig: "sig = sign_message E key digest"
    using assms(3) by (auto simp: miner_sign_announce_def announce_digests_agree)
  have rec: "recover_announce E b url ts (JStr (with_0x sig)) = Inr (key_address E key)"
    using assms(1) by (simp add: recover_announce_def d sig recovers_signer_def)
  have read: "read_announce E rep (announce_payload E key url ts sig) = Inr (key_address E key, url, ts, JStr (with_0x sig))"
    using assms(2) by (simp add: read_announce_def announce_payload_def keys_checksummed_def checksum_def)
  show ?thesis using assms(4-6) by (simp add: announce_def read rec)
qed

section \<open>Events on the index\<close>

datatype listing_event =
    Posted moment int json
  | Scored "score_verifier option" int json
  | Rebuilt "member_event list"

fun listing_step :: "ethlib \<Rightarrow> (json \<Rightarrow> pystr) \<Rightarrow> member_index \<Rightarrow> listing_event \<Rightarrow> member_index" where
  "listing_step E rep mi (Posted mo b body) = fst (announce E rep mo mi b body)"
| "listing_step E rep mi (Scored verify b body) = fst (submit_scores E verify mi b body)"
| "listing_step E rep mi (Rebuilt evs) = fst (replace_membership mi (map event_json evs))"

text \<open>They are steps of the gateway machine.\<close>

lemma listing_step_gateway:
  "gw_step E max_inflight g (g\<lparr>ix := listing_step E rep (ix g) ev\<rparr>)"
  by (cases ev) (auto intro: gw_step.announced gw_step.scored gw_step.polled prod.collapse [symmetric])

text \<open>
  The miner stays registered, without a deregistration in the history (after one, a rebuild drops the
  endpoint, see \<open>rebuild_drops_reannounced_endpoint\<close>), and whatever is posted with a signature of its
  address carries its URL and a time not before \<open>t0\<close>.
\<close>

fun keeps_member :: "int \<Rightarrow> pystr \<Rightarrow> listing_event \<Rightarrow> bool" where
  "keeps_member b a (Rebuilt evs) =
     (last_registers True evs b a
      \<and> list_all (\<lambda>ev. \<not> (ev_kind ev = MinerDeregistered \<and> ev_brain ev = b \<and> lower (ev_member ev) = lower a)) evs)"
| "keeps_member b a ev = True"

fun own_posts :: "ethlib \<Rightarrow> (json \<Rightarrow> pystr) \<Rightarrow> int \<Rightarrow> pystr \<Rightarrow> pystr \<Rightarrow> int \<Rightarrow> listing_event \<Rightarrow> bool" where
  "own_posts E rep b a u t0 (Posted mo c body) =
     (case read_announce E rep body of
        Inl e \<Rightarrow> True
      | Inr (a', url, ts, sig) \<Rightarrow>
          (case recover_announce E c url ts sig of
             Inl e \<Rightarrow> True
           | Inr r \<Rightarrow> c \<noteq> b \<or> lower a' \<noteq> lower a \<or> lower r \<noteq> lower a \<or> url = u \<and> t0 \<le> ts))"
| "own_posts E rep b a u t0 ev = True"

definition stays :: "int \<Rightarrow> pystr \<Rightarrow> pystr \<Rightarrow> int \<Rightarrow> int \<Rightarrow> member_index \<Rightarrow> bool" where
  "stays b a u t0 endpoint_ttl mi \<longleftrightarrow> index_ok mi \<and> is_miner mi b a \<and> ttl mi = endpoint_ttl
     \<and> (\<exists>ep. endpoints mi (b, lower a) = Some ep \<and> ep_url ep = u \<and> t0 \<le> ep_ts ep)"

lemma apply_scores_inv:
  assumes "\<And>y a sc. P y \<Longrightarrow> P (set_score y b a sc)" and "P x"
  shows "P (fst (apply_scores E v epoch b x n es))"
  using assms(2)
proof (induction es arbitrary: x n)
  case (Cons e es)
  then show ?case using assms(1) by (auto split: sum.splits prod.splits bool.splits)
qed simp

lemma stays_score: "stays b a u t0 l y \<Longrightarrow> stays b a u t0 l (set_score y c a' sc)"
  by (auto simp: stays_def set_score_def is_miner_def index_ok_def split: option.splits)

lemma ttl_foldl: "ttl (foldl apply_typed x evs) = ttl x"
  by (induction evs arbitrary: x) (simp_all add: apply_typed_def apply_event_def Let_def)

lemma stays_step:
  assumes "stays b a u t0 l mi" and "keeps_member b a ev" and "own_posts E rep b a u t0 ev"
  shows "stays b a u t0 l (listing_step E rep mi ev)"
proof (cases ev)
  case (Posted mo c body)
  show ?thesis
  proof (cases rule: announce_cases [of E rep mo mi c body])
    case (stored a' url ts sig recovered)
    have "c \<noteq> b \<or> lower a' \<noteq> lower a \<or> url = u \<and> t0 \<le> ts" using assms(3) Posted stored by auto
    with assms(1) index_ok_announce [OF _ stored(7)] stored(7) Posted show ?thesis
      by (auto simp: stays_def announce_endpoint_def is_miner_def)
  qed (use assms Posted in simp)
next
  case (Scored verify c body)
  show ?thesis
    using submit_scores_index [of E verify mi c body] apply_scores_inv [of "stays b a u t0 l", OF stays_score assms(1)] assms(1) Scored
    by auto
next
  case (Rebuilt evs)
  let ?x = "mi\<lparr>reg_miners := (\<lambda>_. {}), reg_validators := (\<lambda>_. {})\<rparr>"
  have "is_miner (foldl apply_typed ?x evs) b a" using assms(2) Rebuilt members_foldl [of ?x] by simp
  moreover have "endpoints (foldl apply_typed ?x evs) (b, lower a) = endpoints mi (b, lower a)"
    using assms(2) Rebuilt by (auto simp: endpoints_foldl list_all_iff)
  moreover have "index_ok (foldl apply_typed ?x evs)"
    using index_ok_replace [of mi "map event_json evs"] by (simp add: replace_membership_json)
  ultimately show ?thesis
    using assms(1) Rebuilt by (simp add: stays_def replace_membership_json ttl_foldl)
qed

lemma stays_run:
  assumes "stays b a u t0 l mi" and "list_all (keeps_member b a) evs" and "list_all (own_posts E rep b a u t0) evs"
  shows "stays b a u t0 l (foldl (listing_step E rep) mi evs)"
  using assms by (induction evs arbitrary: mi) (auto intro: stays_step)

section \<open>Properties\<close>


text \<open>
  C20. An older announcement can be posted again: within ten minutes of its time the gateway accepts it from
  anyone who has seen it, answers that all is well, and replaces a newer endpoint by the older URL and
  time. The miner then leaves the list as soon as the old announcement is older than the lifetime,
  though its newer one is not, and requests that name it are routed to the old URL.
\<close>
theorem replayed_announcement_unlists:
  assumes "recovers_signer E" and "keys_checksummed E" and "miner_sign_announce E key b old_url ts = Inr sig"
    and "\<bar>now mo - ts\<bar> \<le> ANNOUNCE_MAX_AGE" and "url_guard mo old_url = Inr None"
    and "is_miner mi b (key_address E key)" and "index_ok mi" and "enumerates order"
    and "endpoints mi (b, lower (key_address E key)) = Some newer" and "t - ep_ts newer \<le> ttl mi"
    and "ttl mi \<noteq> 0" and "ttl mi < t - ts"
  shows "(lower (key_address E key), ep_url newer, ep_score newer) \<in> set (miners_of order mi b (Some t))
    \<and> snd (announce E rep mo mi b (announce_payload E key old_url ts sig)) = Inr (200, JObj [(lit ''ok'', JBool True)])
    \<and> (\<forall>url score. (lower (key_address E key), url, score) \<notin>
          set (miners_of order (listing_step E rep mi (Posted mo b (announce_payload E key old_url ts sig))) b (Some t)))
    \<and> endpoint_of (listing_step E rep mi (Posted mo b (announce_payload E key old_url ts sig))) b (key_address E key) = Some old_url"
proof -
  let ?a = "key_address E key"
  let ?mi = "announce_endpoint mi b ?a old_url ts 0"
  note stored = own_announcement_stored [OF assms(1-6)]
  have ok: "index_ok ?mi" using assms(7) by (simp add: index_ok_def announce_endpoint_def)
  have "(lower ?a, ep_url newer, ep_score newer) \<in> set (miners_of order mi b (Some t))"
    using miners_of_mem [OF assms(8,7)] assms(6,9,10) by (auto simp: is_miner_def is_fresh_def)
  moreover have "(lower ?a, url, score) \<notin> set (miners_of order ?mi b (Some t))" for url score
    using miners_of_mem [OF assms(8) ok] assms(11,12) by (auto simp: is_fresh_def announce_endpoint_def)
  moreover have "endpoint_of ?mi b ?a = Some old_url" by (simp add: endpoint_of_def announce_endpoint_def)
  ultimately show ?thesis using stored by simp
qed

section \<open>A concrete miner\<close>

lemma demo_signed: "\<exists>sig. miner_sign_announce demo_eth [7] 8 [104] ts = Inr sig" if "0 \<le> ts" "ts < 2 ^ 256"
  using that by (simp add: miner_sign_announce_def miner_announce_digest_def utf8_encode_def utf8_char_def)

lemma demo_member: "is_miner demo_members 8 (key_address demo_eth [7])" "ttl demo_members = 600" "index_ok demo_members"
  by (simp_all add: demo_members_def replace_membership_def apply_event_def is_miner_def new_index_def Let_def demo_key_def index_ok_def)


theorem replayed_announcement_unlists_witness:
  "\<exists>sig. endpoint_of (listing_step demo_eth (\<lambda>_. []) (announce_endpoint demo_members 8 (hex0x [7]) [105] 600 0)
     (Posted demo_moment 8 (announce_payload demo_eth [7] [104] 100 sig))) 8 (hex0x [7]) = Some [104]"
proof -
  let ?mi = "announce_endpoint demo_members 8 (hex0x [7]) [105] 600 0"
  obtain sig where sig: "miner_sign_announce demo_eth [7] 8 [104] 100 = Inr sig" using demo_signed [of 100] by auto
  have laws: "recovers_signer demo_eth" "keys_checksummed demo_eth" using demo_libraries by (simp_all add: libraries_ok_def)
  have "is_miner ?mi 8 (key_address demo_eth [7])" "index_ok ?mi" "ttl ?mi = 600"
    using demo_member by (simp_all add: index_ok_def announce_endpoint_def is_miner_def)
  with replayed_announcement_unlists [OF laws sig _ _ _ _ sorted_list_enumerates, of demo_moment ?mi _ 1000 "\<lambda>_. []"]
  show ?thesis by (auto simp: ANNOUNCE_MAX_AGE_def demo_key_def)
qed

end
