(* ===== verification/Commands.thy ===== *)
theory Commands imports Programs Startup Subnet
begin

text \<open>
  The programs of the three \<open>cli.py\<close> from their configuration files or arguments to the state in which
  they serve: \<open>run\<close> and \<open>register\<close> of the miner, \<open>run\<close> and \<open>aggregator\<close> of the validator, and the
  gateway. Parsing of options, reading of the files, logging and binding of sockets are arguments. A
  program that serves goes on until it is interrupted; what it does then are the machines and loops
  of theories MinerRun, Validator, Epochs, Startup, Service and Programs.
\<close>

section \<open>Ends of a program\<close>

text \<open>
  A coroutine run by \<open>asyncio.run\<close> ends the program with its exception, serves for ever, or is
  interrupted, which \<open>run\<close> of miner and validator turn into the exit code 0.
\<close>

datatype 'a program_end = Crashes pyexc | Exits int | Serves 'a

fun ended :: "'a res \<Rightarrow> 'a program_end" where
  "ended (Inl e) = Crashes e"
| "ended (Inr x) = Serves x"

definition asyncio_run :: "bool \<Rightarrow> 'a res \<Rightarrow> 'a program_end" where
  "asyncio_run interrupted r = (if interrupted then Exits 0 else ended r)"

section \<open>The miner's programs\<close>

text \<open>
  What a miner meets outside: the registry before and after its registration, the answer of the
  node to the transaction, the engine's backend, libp2p and the socket.
\<close>

record miner_world =
  mw_before :: miner_view
  mw_register :: "int \<Rightarrow> int \<Rightarrow> unit res"
  mw_after :: miner_view
  mw_vllm :: bool
  mw_backend :: "backend \<Rightarrow> unit res"
  mw_libp2p :: bool
  mw_listen :: "unit res"
  mw_connect :: "pystr \<Rightarrow> unit res"
  mw_bind :: "pystr \<Rightarrow> int \<Rightarrow> unit res"

text \<open>\<open>_serve_http\<close>: the routes, once the configured address is bound.\<close>

definition serve_http ::
    "(pystr \<Rightarrow> int \<Rightarrow> unit res) \<Rightarrow> gateway_section \<Rightarrow> 'h \<Rightarrow> 'h \<Rightarrow> 'h \<Rightarrow> (pystr \<times> pystr, 'h miner_route) dict res" where
  "serve_http bind gs infer challenge settle =
     rbind (bind (gs_host gs) (gs_port gs)) (\<lambda>_. Inr (miner_app infer challenge settle))"

definition miner_start ::
    "ethlib \<Rightarrow> miner_world \<Rightarrow> miner_file \<Rightarrow> 'h miner_service \<Rightarrow> 'h \<Rightarrow> 'h \<Rightarrow> 'h
      \<Rightarrow> ('h p2p_node \<times> (pystr \<times> pystr, 'h miner_route) dict \<times> miner_task list) res" where
  "miner_start E w c s infer challenge settle =
     miner_run (snd (verify_registration E (miner_runtime c) (mw_before w) (mw_register w) (mw_after w)))
       (mw_backend w (engine_start (mw_vllm w) (fst (ms_engine s)) (snd (ms_engine s))))
       (p2p_start (mw_libp2p w) (mw_listen w) (mw_connect w) (ms_node s))
       (rbind (serve_http (mw_bind w) (mf_gateway c) infer challenge settle) (\<lambda>_. Inr ()))
       (gs_gateway_url (mf_gateway c)) (gs_public_url (mf_gateway c)) infer challenge settle"

text \<open>The configuration and the constructor; their exceptions are outside of the \<open>try\<close> of \<open>run\<close>.\<close>

definition miner_setup ::
    "ethlib \<Rightarrow> (pystr \<Rightarrow> unit res) \<Rightarrow> miner_file res \<Rightarrow> (miner_file \<times> 'h miner_service) res" where
  "miner_setup E from_key loaded = rbind loaded (\<lambda>c. rbind (miner_init E from_key c) (\<lambda>s. Inr (c, s)))"

definition miner_program ::
    "ethlib \<Rightarrow> (pystr \<Rightarrow> unit res) \<Rightarrow> miner_world \<Rightarrow> bool \<Rightarrow> miner_file res \<Rightarrow> 'h \<Rightarrow> 'h \<Rightarrow> 'h
      \<Rightarrow> ('h p2p_node \<times> (pystr \<times> pystr, 'h miner_route) dict \<times> miner_task list) program_end" where
  "miner_program E from_key w interrupted loaded infer challenge settle =
     (case miner_setup E from_key loaded of
        Inl e \<Rightarrow> Crashes e
      | Inr (c, s) \<Rightarrow> asyncio_run interrupted (miner_start E w c s infer challenge settle))"

text \<open>\<open>register\<close>: the message printed, or that of the \<open>ClickException\<close>.\<close>

definition register_program ::
    "ethlib \<Rightarrow> (pystr \<Rightarrow> unit res) \<Rightarrow> miner_world \<Rightarrow> miner_file res \<Rightarrow> (pystr + pystr) program_end" where
  "register_program E from_key w loaded =
     (case miner_setup E from_key loaded :: (miner_file \<times> unit miner_service) res of
        Inl e \<Rightarrow> Crashes e
      | Inr (c, s) \<Rightarrow> ended (register_command E (miner_runtime c) (mw_before w) (mw_register w) (mw_after w)))"

section \<open>The validator's programs\<close>

datatype validator_task = ChallengeLoop | EpochLoop

text \<open>\<open>Validator.run\<close>: the registration sent, if any, and the two loops; nothing in it raises.\<close>

definition validator_run ::
    "ethlib \<Rightarrow> validator_config \<Rightarrow> bool res \<Rightarrow> (int \<Rightarrow> int \<Rightarrow> unit res) \<Rightarrow> validator_service
      \<Rightarrow> ((int \<times> int) option \<times> validator_service \<times> validator_task list) res" where
  "validator_run E cfg is_v send_register s =
     Inr (validator_registration E cfg is_v send_register, s, [ChallengeLoop, EpochLoop])"

definition validator_program ::
    "ethlib \<Rightarrow> (pystr \<Rightarrow> unit res) \<Rightarrow> (pystr \<Rightarrow> pystr option) \<Rightarrow> (pystr \<Rightarrow> json res) \<Rightarrow> bool res
      \<Rightarrow> (int \<Rightarrow> int \<Rightarrow> unit res) \<Rightarrow> bool \<Rightarrow> validator_file res
      \<Rightarrow> ((int \<times> int) option \<times> validator_service \<times> validator_task list) program_end" where
  "validator_program E from_key files loads is_v send_register interrupted loaded =
     (case rbind loaded (\<lambda>c. rbind (validator_init E from_key files loads c) (\<lambda>s. Inr (c, s))) of
        Inl e \<Rightarrow> Crashes e
      | Inr (c, s) \<Rightarrow> asyncio_run interrupted (validator_run E (validator_runtime c) is_v send_register s))"

text \<open>
  \<open>CommitmentAggregator.from_chain\<close>: the two contract objects, and the chain functions made of them,
  where \<open>call\<close> is a view call with a Brain and possibly an address, and \<open>send\<close> sends a proposal.
\<close>

record chain_aggregator =
  ca_config :: agg_config
  ca_staking :: contract
  ca_scoring :: contract
  ca_stake_of :: "int \<Rightarrow> pystr \<Rightarrow> int res"
  ca_total_stake :: "int \<Rightarrow> int res"
  ca_propose :: "proposal \<Rightarrow> pystr res"

definition chain_total_stake :: "(contract \<Rightarrow> pystr \<Rightarrow> int \<Rightarrow> pystr option \<Rightarrow> int res) \<Rightarrow> contract \<Rightarrow> int \<Rightarrow> int res" where
  "chain_total_stake call staking b = call staking (lit ''brainStake'') b None"

definition from_chain ::
    "ethlib \<Rightarrow> (contract \<Rightarrow> pystr \<Rightarrow> int \<Rightarrow> pystr option \<Rightarrow> int res)
      \<Rightarrow> (contract \<Rightarrow> int \<Rightarrow> int \<Rightarrow> byte list \<Rightarrow> pystr list \<Rightarrow> byte list list \<Rightarrow> pystr res)
      \<Rightarrow> int \<Rightarrow> pystr \<Rightarrow> pystr \<Rightarrow> chain_aggregator res" where
  "from_chain E call send chain registry vault =
     rbind (contract_at E vault aggregator_staking_abi) (\<lambda>staking.
     rbind (contract_at E registry aggregator_scoring_abi) (\<lambda>scoring.
       Inr \<lparr>ca_config = \<lparr>chain_id = chain, scoring_registry = registry, min_quorum_bps = MIN_QUORUM_BPS\<rparr>,
            ca_staking = staking, ca_scoring = scoring,
            ca_stake_of = chain_stake_of E (\<lambda>b a. call staking (lit ''validatorStake'') b (Some a)),
            ca_total_stake = chain_total_stake call staking,
            ca_propose = chain_propose (send scoring)\<rparr>))"

text \<open>The \<open>aggregator\<close> program: the chain-backed aggregator, the contract of the epoch gate, and the application.\<close>

definition aggregator_program ::
    "ethlib \<Rightarrow> (pystr \<Rightarrow> unit res) \<Rightarrow> (contract \<Rightarrow> pystr \<Rightarrow> int \<Rightarrow> pystr option \<Rightarrow> int res)
      \<Rightarrow> (contract \<Rightarrow> int \<Rightarrow> int \<Rightarrow> byte list \<Rightarrow> pystr list \<Rightarrow> byte list list \<Rightarrow> pystr res)
      \<Rightarrow> (json \<Rightarrow> pystr) \<Rightarrow> (pystr \<Rightarrow> int \<Rightarrow> unit res) \<Rightarrow> pystr \<Rightarrow> int \<Rightarrow> validator_file res
      \<Rightarrow> (chain_aggregator \<times> contract \<times> service_config \<times> service_state) program_end" where
  "aggregator_program E from_key call send rep bind at_host at_port loaded =
     ended (rbind loaded (\<lambda>c.
     rbind (from_key (vf_key c)) (\<lambda>_.
     rbind (from_chain E call send (cfg_chain_id (vf_chain c)) (cfg_contracts (vf_chain c) ! 2)
              (cfg_contracts (vf_chain c) ! 3)) (\<lambda>agg.
     rbind (contract_at E (cfg_contracts (vf_chain c) ! 2) current_epoch_abi) (\<lambda>scoring.
     rbind (bind at_host at_port) (\<lambda>_.
       case aggregator_command (cfg_chain_id (vf_chain c)) (cfg_contracts (vf_chain c) ! 2) rep of (cfg, app) \<Rightarrow>
         Inr (agg, scoring, cfg, app)))))))"

section \<open>The gateway's program\<close>

text \<open>A refused argument is a \<open>BadParameter\<close> of click, which exits with 2.\<close>

definition gateway_program ::
    "ethlib \<Rightarrow> (pystr \<Rightarrow> int \<Rightarrow> unit res) \<Rightarrow> pystr \<Rightarrow> pystr \<Rightarrow> pystr \<Rightarrow> cursor_file \<Rightarrow> pystr \<Rightarrow> int \<Rightarrow> int \<Rightarrow> int
      \<Rightarrow> (gateway_process \<times> (pystr \<times> abi_event list) \<times> contract) program_end" where
  "gateway_program E bind rpc_url subnet scoring store at_host at_port start_block endpoint_ttl =
     (case gateway_arguments rpc_url subnet scoring of
        Inl msg \<Rightarrow> Exits 2
      | Inr _ \<Rightarrow> ended (
          rbind (checksum E subnet) (\<lambda>a.
          rbind (start_gateway store start_block endpoint_ttl) (\<lambda>s.
          rbind (contract_at E scoring verify_score_abi) (\<lambda>sc.
          rbind (bind at_host at_port) (\<lambda>_. Inr (s, (a, POLLER_ABI), sc)))))))"

section \<open>A miner between its file and the registry\<close>

text \<open>A miner of configuration \<open>c\<close> that meets the registry contract in the state \<open>r\<close>.\<close>

definition at_registry :: "ethlib \<Rightarrow> subnet_env \<Rightarrow> subnet_registry \<Rightarrow> miner_config \<Rightarrow> miner_world \<Rightarrow> miner_world" where
  "at_registry E env r cfg w =
     (let register = register_miner (env\<lparr>se_sender := miner_address E cfg\<rparr>) r
      in w\<lparr>mw_before := sees r (mw_before w), mw_register := send_registration register,
           mw_after := sees (after_registration register r (mc_brain_id cfg) (fee_cap (mc_max_fee cfg))) (mw_after w)\<rparr>)"

definition may_mine :: "ethlib \<Rightarrow> subnet_env \<Rightarrow> subnet_registry \<Rightarrow> miner_config \<Rightarrow> bool" where
  "may_mine E env r cfg \<longleftrightarrow> chain_is_miner r (mc_brain_id cfg) (miner_address E cfg)
     \<or> takes_member env r (mc_brain_id cfg) (sr_miner_count r (mc_brain_id cfg)) MAX_MINERS_PER_BRAIN (fee_cap (mc_max_fee cfg))"

lemma registration_at_registry:
  "snd (verify_registration E cfg (mw_before (at_registry E env r cfg w)) (mw_register (at_registry E env r cfg w))
      (mw_after (at_registry E env r cfg w))) = (if may_mine E env r cfg then Inr True else Inl OtherError)"
  by (simp add: at_registry_def Let_def may_mine_def miner_registration_exact)

text \<open>Everything besides the registry works: the backend loads, libp2p listens if it is there, the socket binds.\<close>

definition world_works :: "miner_world \<Rightarrow> gateway_section \<Rightarrow> bool" where
  "world_works w gs \<longleftrightarrow> mw_backend w = (\<lambda>_. Inr ()) \<and> (mw_libp2p w \<longrightarrow> mw_listen w = Inr ())
     \<and> mw_bind w (gs_host gs) (gs_port gs) = Inr ()"

lemma world_at_registry: "world_works (at_registry E env r cfg w) gs = world_works w gs"
  by (simp add: world_works_def at_registry_def Let_def)

lemma miner_setup_loaded:
  assumes "checksum_accepts E" and "miner_from_file P env (YMap d) = Inr c" and "from_key (mf_key c) = Inr ()"
    and "\<forall>a \<in> set (cfg_contracts (mf_chain c)). 10 \<notin> set a"
  shows "\<exists>s. miner_setup E from_key (miner_from_file P env (YMap d)) = Inr (c, s)"
  using loaded_address [OF assms(1,2,4), of 2] loaded_address [OF assms(1,2,4), of 1] assms(2,3)
  by (auto simp: miner_setup_def miner_init_def contract_at_def)

lemma miner_start_cases:
  assumes "world_works w (mf_gateway c)"
    and "snd (verify_registration E (miner_runtime c) (mw_before w) (mw_register w) (mw_after w)) = registered"
  shows "(case registered of
       Inl e \<Rightarrow> miner_start E w c s i ch st = Inl e
     | Inr _ \<Rightarrow> \<exists>node routes. miner_start E w c s i ch st = Inr (node, routes, [ReceiptFlusher, Heartbeat]
         @ (if http_enabled (gs_gateway_url (mf_gateway c)) (gs_public_url (mf_gateway c)) then [AnnounceLoop] else [])))"
  using assms
  by (auto simp: miner_start_def miner_run_def world_works_def p2p_start_def serve_http_def Let_def split: sum.splits)


section \<open>A concrete miner\<close>

definition demo_world :: miner_world where
  "demo_world = \<lparr>mw_before = MinerRun.demo_view, mw_register = (\<lambda>_ _. Inl OtherError), mw_after = MinerRun.demo_view, mw_vllm = True,
     mw_backend = (\<lambda>_. Inr ()), mw_libp2p = False, mw_listen = Inl OtherError, mw_connect = (\<lambda>_. Inl OtherError),
     mw_bind = (\<lambda>_ _. Inr ())\<rparr>"


end
