(* ===== verification/TsClient.thy ===== *)
theory TsClient imports Session Poller Doubles
begin

text \<open>
  \<open>client/typescript/src/client.ts\<close> and \<open>receipt.ts\<close> beside the Python client: \<open>infer\<close> with its checks and
  signatures, and what becomes of the integers of a Python answer in JavaScript, where every JSON
  number is a double. The functions of viem that read texts as bytes are the record \<open>viem\<close>; Keccak,
  the ABI encoder and message signing are standards, so both clients share theory EthLib's. A
  JavaScript value is a JSON value whose numbers are floats, \<open>undefined\<close> is null, which no use here tells
  apart, and an exception is a value of \<open>pyexc\<close>: \<open>Error\<close> is \<open>RuntimeError\<close>, \<open>RangeError\<close> and \<open>SyntaxError\<close> are \<open>ValueError\<close>.
\<close>

section \<open>JavaScript values\<close>

text \<open>An integer as a double: 53 significant bits, ties to even.\<close>

fun bit_length :: "nat \<Rightarrow> nat" where
  "bit_length n = (if n = 0 then 0 else Suc (bit_length (n div 2)))"

declare bit_length.simps [simp del]

definition js_unit :: "int \<Rightarrow> int" where
  "js_unit n = 2 ^ (bit_length (nat \<bar>n\<bar>) - 53)"

definition div_half_even :: "int \<Rightarrow> int \<Rightarrow> int" where
  "div_half_even m u =
     (let q = m div u; r = m mod u
      in if 2 * r < u then q else if u < 2 * r then q + 1 else if even q then q else q + 1)"

definition js_integer :: "int \<Rightarrow> int" where
  "js_integer n = sgn n * (div_half_even \<bar>n\<bar> (js_unit n) * js_unit n)"

abbreviation js_num :: "int \<Rightarrow> json" where
  "js_num i \<equiv> JFloat (Finite (of_int i))"

definition js_double :: "int \<Rightarrow> json" where
  "js_double n =
     (if \<bar>js_integer n\<bar> < 2 ^ 1024 then js_num (js_integer n) else JFloat (if 0 < n then PosInf else NegInf))"

text \<open>\<open>JSON.parse\<close> of what Python's \<open>json.dumps\<close> writes; it refuses \<open>NaN\<close> and \<open>Infinity\<close>.\<close>

primrec js_value :: "json \<Rightarrow> json" where
  "js_value JNull = JNull"
| "js_value (JBool b) = JBool b"
| "js_value (JInt i) = js_double i"
| "js_value (JFloat f) = JFloat f"
| "js_value (JStr s) = JStr s"
| "js_value (JList xs) = JList (map js_value xs)"
| "js_value (JObj d) = JObj (map (map_prod id js_value) d)"

primrec js_readable :: "json \<Rightarrow> bool" where
  "js_readable JNull = True"
| "js_readable (JBool b) = True"
| "js_readable (JInt i) = True"
| "js_readable (JFloat f) = (case f of Finite q \<Rightarrow> True | _ \<Rightarrow> False)"
| "js_readable (JStr s) = True"
| "js_readable (JList xs) = list_all id (map js_readable xs)"
| "js_readable (JObj d) = list_all snd (map (map_prod id js_readable) d)"

definition js_parse :: "json \<Rightarrow> json res" where
  "js_parse j = (if js_readable j then Inr (js_value j) else Inl ValueError)"

text \<open>
  \<open>JSON.stringify\<close> of a number as Python reads it: a safe integer as an integer. The digits printed for
  larger ones are left open; Brains and expiries are safe integers.
\<close>

fun js_sent :: "json \<Rightarrow> json" where
  "js_sent (JFloat (Finite q)) = (if q \<in> \<int> \<and> \<bar>q\<bar> < 2 ^ 53 then JInt \<lfloor>q\<rfloor> else JFloat (Finite q))"
| "js_sent (JFloat f) = JNull"
| "js_sent j = j"

text \<open>Property access, \<open>toLowerCase\<close>, truth, and \<open>BigInt\<close>, where \<open>rep\<close> is the text of a value
  that is none.\<close>

fun js_prop :: "json \<Rightarrow> pystr \<Rightarrow> json res" where
  "js_prop (JObj d) k = Inr (dict_get_or d k JNull)"
| "js_prop JNull k = Inl TypeError"
| "js_prop j k = Inr JNull"

fun js_lower :: "json \<Rightarrow> pystr res" where
  "js_lower (JStr s) = Inr (lower s)"
| "js_lower _ = Inl TypeError"

fun js_true :: "json \<Rightarrow> bool" where
  "js_true JNull = False"
| "js_true (JBool b) = b"
| "js_true (JInt i) = (i \<noteq> 0)"
| "js_true (JFloat (Finite q)) = (q \<noteq> 0)"
| "js_true (JFloat f) = (f \<noteq> NaN)"
| "js_true (JStr s) = (s \<noteq> [])"
| "js_true _ = True"

definition js_digits :: "nat \<Rightarrow> pystr \<Rightarrow> int res" where
  "js_digits b ds =
     (if ds = [] \<or> 95 \<in> set ds then Inl ValueError
      else case digits_val b 0 False ds of None \<Rightarrow> Inl ValueError | Some n \<Rightarrow> Inr (int n))"

definition js_bigint_text :: "pystr \<Rightarrow> int res" where
  "js_bigint_text s =
     (let t = strip_ws s; p = lower (take 2 t)
      in if t = [] then Inr 0
         else if p = lit ''0x'' then js_digits 16 (drop 2 t)
         else if p = lit ''0o'' then js_digits 8 (drop 2 t)
         else if p = lit ''0b'' then js_digits 2 (drop 2 t)
         else if hd t = 45 then rbind (js_digits 10 (tl t)) (\<lambda>n. Inr (- n))
         else if hd t = 43 then js_digits 10 (tl t)
         else js_digits 10 t)"

fun js_bigint :: "(json \<Rightarrow> pystr) \<Rightarrow> json \<Rightarrow> int res" where
  "js_bigint rep JNull = Inl TypeError"
| "js_bigint rep (JBool b) = Inr (if b then 1 else 0)"
| "js_bigint rep (JInt i) = Inr i"
| "js_bigint rep (JFloat (Finite q)) = (if q \<in> \<int> then Inr \<lfloor>q\<rfloor> else Inl ValueError)"
| "js_bigint rep (JFloat f) = Inl ValueError"
| "js_bigint rep (JStr s) = js_bigint_text s"
| "js_bigint rep j = js_bigint_text (rep j)"

text \<open>\<open>TextEncoder\<close>: a lone surrogate becomes the replacement character.\<close>

definition js_utf8 :: "pystr \<Rightarrow> bytes" where
  "js_utf8 s = projr (utf8_encode (map (\<lambda>c. if 55296 \<le> c \<and> c \<le> 57343 then 65533 else c) s))"

fun js_text :: "(json \<Rightarrow> pystr) \<Rightarrow> json \<Rightarrow> pystr" where
  "js_text rep (JStr s) = s"
| "js_text rep j = rep j"

section \<open>The client\<close>

text \<open>\<open>toBytes\<close> and the encoder's reading of a \<open>bytes32\<close> argument.\<close>

record viem =
  to_bytes :: "json \<Rightarrow> bytes res"
  to_bytes32 :: "json \<Rightarrow> bytes res"

record ts_request =
  tq_brain_id :: int
  tq_prompt :: pystr
  tq_max_tokens :: "int option"
  tq_temperature :: "rat option"
  tq_budget :: int
  tq_expiry :: "int option"
  tq_reservation :: "int option"

text \<open>Amount and nonce are big integers, Brain and expiry numbers, and the rest is what came.\<close>

record ts_receipt =
  tr_user :: json
  tr_miner :: json
  tr_brain_id :: json
  tr_prompt_hash :: json
  tr_response_hash :: json
  tr_amount :: int
  tr_expiry :: json
  tr_nonce :: int

definition new_nonce :: "byte list \<Rightarrow> int" where
  "new_nonce bs = foldl (\<lambda>n b. n * 256 + uint b) 0 bs"

definition ts_digest :: "ethlib \<Rightarrow> viem \<Rightarrow> (json \<Rightarrow> pystr) \<Rightarrow> pystr \<Rightarrow> int \<Rightarrow> ts_receipt \<Rightarrow> bytes res" where
  "ts_digest E V rep market chain r =
     rbind (js_bigint rep (tr_brain_id r)) (\<lambda>brain_id.
     rbind (js_bigint rep (tr_expiry r)) (\<lambda>expiry.
     rbind (address_text (tr_user r)) (\<lambda>user.
     rbind (address_text (tr_miner r)) (\<lambda>m.
     rbind (to_bytes32 V (tr_prompt_hash r)) (\<lambda>ph.
     rbind (to_bytes32 V (tr_response_hash r)) (\<lambda>rh.
     rbind (abi_encode E
        [AAddress market, AUint 256 chain, AAddress user, AAddress m, AUint 256 brain_id, ABytes32 ph, ABytes32 rh,
         AUint 256 (tr_amount r), AUint 64 expiry, AUint 256 (tr_nonce r)]) (\<lambda>encoded.
       Inr (keccak E encoded))))))))"

definition ts_sign :: "ethlib \<Rightarrow> viem \<Rightarrow> (json \<Rightarrow> pystr) \<Rightarrow> client_config \<Rightarrow> pystr \<Rightarrow> ts_receipt \<Rightarrow> pystr res" where
  "ts_sign E V rep cfg key r =
     rbind (ts_digest E V rep (cc_market cfg) (cc_chain_id cfg) r) (\<lambda>digest. Inr (with_0x (sign_message E key digest)))"

definition ts_serialize :: "ts_receipt \<Rightarrow> json" where
  "ts_serialize r =
     JObj [(lit ''user'', tr_user r), (lit ''miner'', tr_miner r), (lit ''brain_id'', js_sent (tr_brain_id r)),
           (lit ''prompt_hash'', tr_prompt_hash r), (lit ''response_hash'', tr_response_hash r),
           (lit ''amount'', JStr (int_text (tr_amount r))), (lit ''expiry'', js_sent (tr_expiry r)),
           (lit ''nonce'', JStr (int_text (tr_nonce r)))]"

definition ts_same_text :: "json \<Rightarrow> json \<Rightarrow> bool res" where
  "ts_same_text a b = rbind (js_lower a) (\<lambda>x. rbind (js_lower b) (\<lambda>y. Inr (x = y)))"

text \<open>\<open>!==\<close> is a plain comparison here: one side is a finite number.\<close>

definition ts_assert_identity :: "ts_receipt \<Rightarrow> ts_receipt \<Rightarrow> unit res" where
  "ts_assert_identity preauth final =
     (let mismatch = Inl (RuntimeError (lit ''final receipt identity does not match preauthorization''))
      in rbind (ts_same_text (tr_user final) (tr_user preauth)) (\<lambda>u. if \<not> u then mismatch
         else rbind (ts_same_text (tr_miner final) (tr_miner preauth)) (\<lambda>m. if \<not> m then mismatch
         else if tr_brain_id final \<noteq> tr_brain_id preauth then mismatch
         else rbind (ts_same_text (tr_prompt_hash final) (tr_prompt_hash preauth)) (\<lambda>p. if \<not> p then mismatch
         else if tr_expiry final \<noteq> tr_expiry preauth then mismatch
         else if tr_nonce final \<noteq> tr_nonce preauth then mismatch
         else Inr ()))))"

text \<open>
  \<open>listMiners\<close>, and the first of the best-scored, as the sort leaves it at the front. Scores are numbers
  or missing; what a sort makes of other operands is left open.
\<close>

definition ts_list_miners :: "client_world \<Rightarrow> json res" where
  "ts_list_miners w = (case w_miners w of (status, body) \<Rightarrow> if raises_for_status status then Inr (JList []) else js_parse body)"

definition ts_score :: "json \<Rightarrow> rat res" where
  "ts_score m = rbind (js_prop m (lit ''score'')) (\<lambda>s.
     case s of JNull \<Rightarrow> Inr 0 | JFloat (Finite q) \<Rightarrow> Inr q | _ \<Rightarrow> Inl OtherError)"

fun ts_best :: "json \<Rightarrow> json list \<Rightarrow> json res" where
  "ts_best best [] = Inr best"
| "ts_best best (m # ms) =
     rbind (ts_score best) (\<lambda>x. rbind (ts_score m) (\<lambda>y. if x < y then ts_best m ms else ts_best best ms))"

fun ts_choose_miner :: "int \<Rightarrow> json \<Rightarrow> json res" where
  "ts_choose_miner b (JList (m # ms)) = ts_best m ms"
| "ts_choose_miner b (JList []) = Inl (RuntimeError (lit ''No miners available for brain '' @ int_text b))"
| "ts_choose_miner b (JStr []) = Inl (RuntimeError (lit ''No miners available for brain '' @ int_text b))"
| "ts_choose_miner b _ = Inl TypeError"

definition ts_reservation :: "ts_request \<Rightarrow> int" where
  "ts_reservation req =
     (let r = (case tq_reservation req of Some x \<Rightarrow> if 0 < x then x else DEFAULT_RESERVATION | None \<Rightarrow> DEFAULT_RESERVATION)
      in if tq_budget req < r then tq_budget req else r)"

definition ts_text_hash :: "ethlib \<Rightarrow> viem \<Rightarrow> json \<Rightarrow> pystr res" where
  "ts_text_hash E V j = rbind (to_bytes V j) (\<lambda>bs. Inr (hex0x (keccak E bs)))"

definition ts_prepare ::
    "ethlib \<Rightarrow> viem \<Rightarrow> (json \<Rightarrow> pystr) \<Rightarrow> client_config \<Rightarrow> pystr \<Rightarrow> client_world \<Rightarrow> ts_request \<Rightarrow> json
       \<Rightarrow> (json \<times> ts_receipt \<times> pystr) res" where
  "ts_prepare E V rep cfg key w req miner =
     rbind (ts_text_hash E V (JStr (tq_prompt req))) (\<lambda>prompt_hash.
     rbind (ts_text_hash E V (JStr (ox @ drop 2 prompt_hash @ (let d = hex_text (nat (w_nonce w)) in replicate (64 - length d) 48 @ d)))) (\<lambda>sentinel.
     rbind (js_prop miner (lit ''address'')) (\<lambda>address.
     let preauth = \<lparr>tr_user = JStr (key_address E key), tr_miner = address, tr_brain_id = js_num (tq_brain_id req),
                    tr_prompt_hash = JStr prompt_hash, tr_response_hash = JStr sentinel, tr_amount = ts_reservation req,
                    tr_expiry = js_num (case tq_expiry req of Some x \<Rightarrow> x | None \<Rightarrow> w_now w + 3600), tr_nonce = w_nonce w\<rparr> in
     rbind (ts_sign E V rep cfg key preauth) (\<lambda>sig. Inr (address, preauth, sig)))))"

definition ts_request_body :: "ts_request \<Rightarrow> json \<Rightarrow> ts_receipt \<Rightarrow> pystr \<Rightarrow> json" where
  "ts_request_body req address preauth sig =
     JObj [(lit ''prompt'', JStr (tq_prompt req)),
           (lit ''max_tokens'', JInt (case tq_max_tokens req of Some n \<Rightarrow> n | None \<Rightarrow> 256)),
           (lit ''temperature'', JFloat (Finite (case tq_temperature req of Some t \<Rightarrow> t | None \<Rightarrow> 7 / 10))),
           (lit ''budget'', JStr (int_text (tq_budget req))), (lit ''receipt'', ts_serialize preauth),
           (lit ''user_signature'', JStr sig), (lit ''target_miner'', address)]"

definition ts_read_final :: "(json \<Rightarrow> pystr) \<Rightarrow> json \<Rightarrow> ts_receipt res" where
  "ts_read_final rep fr =
     rbind (js_prop fr (lit ''user'')) (\<lambda>user.
     rbind (js_prop fr (lit ''miner'')) (\<lambda>m.
     rbind (js_prop fr (lit ''brain_id'')) (\<lambda>brain_id.
     rbind (js_prop fr (lit ''prompt_hash'')) (\<lambda>prompt_hash.
     rbind (js_prop fr (lit ''response_hash'')) (\<lambda>response_hash.
     rbind (rbind (js_prop fr (lit ''amount'')) (js_bigint rep)) (\<lambda>amount.
     rbind (js_prop fr (lit ''expiry'')) (\<lambda>expiry.
     rbind (rbind (js_prop fr (lit ''nonce'')) (js_bigint rep)) (\<lambda>n.
       Inr \<lparr>tr_user = user, tr_miner = m, tr_brain_id = brain_id, tr_prompt_hash = prompt_hash,
            tr_response_hash = response_hash, tr_amount = amount, tr_expiry = expiry, tr_nonce = n\<rparr>))))))))"

text \<open>The checks of the proposed final receipt, up to the counter-signature.\<close>

definition ts_check_final ::
    "(json \<Rightarrow> pystr) \<Rightarrow> client_world \<Rightarrow> ts_request \<Rightarrow> ts_receipt \<Rightarrow> json \<Rightarrow> json \<Rightarrow> json \<Rightarrow> ts_receipt res" where
  "ts_check_final rep w req preauth text response_hash fr =
     rbind (ts_read_final rep fr) (\<lambda>final_receipt.
     rbind (ts_assert_identity preauth final_receipt) (\<lambda>_.
     if tr_amount final_receipt > tq_budget req then Inl (RuntimeError (lit ''final amount exceeds budget''))
     else
       (case read_pricing w of (ppt, ppr) \<Rightarrow>
          if ppt \<le> 0 \<and> ppr \<le> 0 then Inl (RuntimeError (lit ''market pricing is disabled''))
          else
            let quoted = ppr + ppt * (int (length (js_utf8 (tq_prompt req))) + int (length (js_utf8 (js_text rep text))));
                expected = (if quoted < tq_budget req then quoted else tq_budget req) in
            if tr_amount final_receipt \<noteq> expected
            then Inl (RuntimeError (lit ''incorrect metered charge: amount '' @ int_text (tr_amount final_receipt)
                        @ lit '', expected '' @ int_text expected))
            else
              rbind (ts_same_text (tr_response_hash final_receipt) response_hash) (\<lambda>same.
              if \<not> same then Inl (RuntimeError (lit ''final receipt response hash does not match delivered text''))
              else Inr final_receipt))))"

record ts_response =
  tp_text :: json
  tp_miner :: json
  tp_prompt_hash :: json
  tp_response_hash :: json
  tp_tokens_in :: json
  tp_tokens_out :: json
  tp_amount :: int
  tp_miner_signature :: json

definition ts_make_response :: "json \<Rightarrow> json \<Rightarrow> int \<Rightarrow> ts_response res" where
  "ts_make_response address data charged =
     rbind (js_prop data (lit ''text'')) (\<lambda>text.
     rbind (js_prop data (lit ''prompt_hash'')) (\<lambda>prompt_hash.
     rbind (js_prop data (lit ''response_hash'')) (\<lambda>response_hash.
     rbind (js_prop data (lit ''tokens_in'')) (\<lambda>tokens_in.
     rbind (js_prop data (lit ''tokens_out'')) (\<lambda>tokens_out.
     rbind (js_prop data (lit ''miner_signature'')) (\<lambda>miner_signature.
       Inr \<lparr>tp_text = text, tp_miner = address, tp_prompt_hash = prompt_hash, tp_response_hash = response_hash,
            tp_tokens_in = tokens_in, tp_tokens_out = tokens_out, tp_amount = charged,
            tp_miner_signature = miner_signature\<rparr>))))))"

record ts_outcome =
  to_signed :: "ts_receipt list"
  to_posted :: "json list"
  to_result :: "ts_response res"

definition ts_settle_body :: "ts_receipt \<Rightarrow> pystr \<Rightarrow> json" where
  "ts_settle_body r sig = JObj [(lit ''receipt'', ts_serialize r), (lit ''user_signature'', JStr sig)]"

text \<open>\<open>infer\<close> from the parsed answer on; the settlement's own answer is ignored.\<close>

definition ts_delivered :: "ethlib \<Rightarrow> viem \<Rightarrow> json \<Rightarrow> (json \<times> json) res" where
  "ts_delivered E V data =
     rbind (js_prop data (lit ''text'')) (\<lambda>text.
     rbind (ts_text_hash E V text) (\<lambda>h.
     rbind (js_prop data (lit ''response_hash'')) (\<lambda>response_hash.
     rbind (js_lower response_hash) (\<lambda>rh.
       if lower h \<noteq> rh then Inl (RuntimeError (lit ''response hash does not match returned text''))
       else Inr (text, response_hash)))))"

definition ts_conclude ::
    "ethlib \<Rightarrow> viem \<Rightarrow> (json \<Rightarrow> pystr) \<Rightarrow> client_config \<Rightarrow> pystr \<Rightarrow> client_world \<Rightarrow> ts_request \<Rightarrow> json
       \<Rightarrow> ts_receipt \<Rightarrow> json list \<Rightarrow> json \<Rightarrow> ts_outcome" where
  "ts_conclude E V rep cfg key w req address preauth posted data =
     (case ts_delivered E V data of
        Inl e \<Rightarrow> \<lparr>to_signed = [preauth], to_posted = posted, to_result = Inl e\<rparr>
      | Inr (text, response_hash) \<Rightarrow>
          (case js_prop data (lit ''final_receipt'') of
             Inl e \<Rightarrow> \<lparr>to_signed = [preauth], to_posted = posted, to_result = Inl e\<rparr>
           | Inr fr \<Rightarrow>
               if \<not> js_true fr then
                 \<lparr>to_signed = [preauth], to_posted = posted, to_result = ts_make_response address data (tr_amount preauth)\<rparr>
               else
                 (case rbind (ts_check_final rep w req preauth text response_hash fr) (\<lambda>final.
                         rbind (ts_sign E V rep cfg key final) (\<lambda>sig. Inr (final, sig))) of
                    Inl e \<Rightarrow> \<lparr>to_signed = [preauth], to_posted = posted, to_result = Inl e\<rparr>
                  | Inr (final, sig) \<Rightarrow>
                      \<lparr>to_signed = [preauth, final], to_posted = posted @ [ts_settle_body final sig],
                       to_result = ts_make_response address data (tr_amount final)\<rparr>)))"

text \<open>An answer whose status is not a success throws; its message, with the answer's text, is \<open>OtherError\<close>.\<close>

definition ts_infer ::
    "ethlib \<Rightarrow> viem \<Rightarrow> (json \<Rightarrow> pystr) \<Rightarrow> client_config \<Rightarrow> client_world \<Rightarrow> ts_request \<Rightarrow> ts_outcome" where
  "ts_infer E V rep cfg w req =
     (case cc_key cfg of
        None \<Rightarrow> \<lparr>to_signed = [], to_posted = [],
                 to_result = Inl (RuntimeError (lit ''Client requires a private key for write operations''))\<rparr>
      | Some key \<Rightarrow>
          (case rbind (rbind (ts_list_miners w) (ts_choose_miner (tq_brain_id req))) (ts_prepare E V rep cfg key w req) of
             Inl e \<Rightarrow> \<lparr>to_signed = [], to_posted = [], to_result = Inl e\<rparr>
           | Inr (address, preauth, sig) \<Rightarrow>
               let body = ts_request_body req address preauth sig in
               (case rbind (answer_json (w_answer w body)) js_parse of
                  Inl e \<Rightarrow> \<lparr>to_signed = [preauth], to_posted = [body], to_result = Inl e\<rparr>
                | Inr data \<Rightarrow> ts_conclude E V rep cfg key w req address preauth [body] data)))"

text \<open>The account operations: the transactions sent, in order, also when a later step throws.\<close>

record ts_calls =
  write_contract :: "client_tx \<Rightarrow> pystr res"
  await_receipt :: "pystr \<Rightarrow> unit res"

definition ts_write :: "client_config \<Rightarrow> ts_calls \<Rightarrow> client_tx \<Rightarrow> client_tx list \<times> pystr res" where
  "ts_write cfg api tx =
     (if cc_key cfg = None then ([], Inl (RuntimeError (lit ''Client requires a private key for write operations'')))
      else case write_contract api tx of Inl e \<Rightarrow> ([], Inl e) | Inr h \<Rightarrow> ([tx], Inr h))"

definition ts_deposit :: "client_config \<Rightarrow> ts_calls \<Rightarrow> int \<Rightarrow> client_tx list \<times> pystr res" where
  "ts_deposit cfg api amount =
     (case ts_write cfg api (Approve (cc_market cfg) amount) of
        (sent, Inl e) \<Rightarrow> (sent, Inl e)
      | (sent, Inr approve_hash) \<Rightarrow>
          (case await_receipt api approve_hash of
             Inl e \<Rightarrow> (sent, Inl e)
           | Inr _ \<Rightarrow> (case ts_write cfg api (DepositTx amount) of (sent', h) \<Rightarrow> (sent @ sent', h))))"

definition ts_request_withdraw :: "client_config \<Rightarrow> ts_calls \<Rightarrow> int \<Rightarrow> client_tx list \<times> pystr res" where
  "ts_request_withdraw cfg api amount = ts_write cfg api (RequestWithdrawTx amount)"

definition ts_withdraw :: "client_config \<Rightarrow> ts_calls \<Rightarrow> client_tx list \<times> pystr res" where
  "ts_withdraw cfg api = ts_write cfg api WithdrawTx"

section \<open>Integers as doubles\<close>

lemma bit_length_le: "n < 2 ^ k \<Longrightarrow> bit_length n \<le> k"
proof (induction n arbitrary: k rule: bit_length.induct)
  case (1 n)
  show ?case
  proof (cases k)
    case (Suc j)
    with "1.prems" have "n div 2 < 2 ^ j" by (simp add: less_mult_imp_div_less)
    with "1.IH" [of j] Suc show ?thesis by (simp add: bit_length.simps [of n])
  next
    case 0
    with "1.prems" show ?thesis by (simp add: bit_length.simps [of 0])
  qed
qed

lemma bit_length_bounds: "0 < n \<Longrightarrow> 2 ^ (bit_length n - 1) \<le> n \<and> n < 2 ^ bit_length n \<and> 0 < bit_length n"
proof (induction n rule: bit_length.induct)
  case (1 n)
  show ?case
  proof (cases "n = 1")
    case False
    with 1 have IH: "2 ^ (bit_length (n div 2) - 1) \<le> n div 2" "n div 2 < 2 ^ bit_length (n div 2)" "0 < bit_length (n div 2)"
      by auto
    obtain j where j: "bit_length (n div 2) = Suc j" using IH(3) by (cases "bit_length (n div 2)") auto
    have "2 * (n div 2) \<le> n" "n < 2 * (n div 2) + 2" by simp_all
    then show ?thesis using IH "1.prems" by (simp add: bit_length.simps [of n] j)
  qed (simp add: bit_length.simps)
qed

lemma js_unit_pos: "0 < js_unit n"
  by (simp add: js_unit_def)

lemma js_unit_small: "\<bar>n\<bar> < 2 ^ 53 \<Longrightarrow> js_unit n = 1"
  using bit_length_le [of "nat \<bar>n\<bar>" 53] by (simp add: js_unit_def nat_less_iff)

lemma div_half_even_dvd: "0 < u \<Longrightarrow> div_half_even m u * u = m \<longleftrightarrow> u dvd m"
proof -
  assume u: "0 < u"
  have "div_half_even m u * u = m" if "u dvd m" using u that by (simp add: div_half_even_def Let_def)
  moreover have "u dvd m" if "div_half_even m u * u = m" using that by (metis dvd_triv_right)
  ultimately show ?thesis by blast
qed

text \<open>An integer survives the conversion exactly when it is a multiple of its unit.\<close>

lemma js_integer_exact_iff: "js_integer n = n \<longleftrightarrow> js_unit n dvd n"
proof -
  have "js_integer n = n \<longleftrightarrow> div_half_even \<bar>n\<bar> (js_unit n) * js_unit n = \<bar>n\<bar>"
    by (cases "n = 0") (auto simp: js_integer_def sgn_if div_half_even_def js_unit_def bit_length.simps [of 0])
  then show ?thesis using div_half_even_dvd [OF js_unit_pos] by simp
qed

lemma js_integer_small: "\<bar>n\<bar> < 2 ^ 53 \<Longrightarrow> js_integer n = n"
  by (simp add: js_integer_exact_iff js_unit_small)

text \<open>It is the rounding of theory Doubles.\<close>

lemma half_even_quotient: "0 < u \<Longrightarrow> half_even (of_int m / of_int u) = div_half_even m u"
proof -
  assume u: "0 < u"
  have q: "\<lfloor>real_of_int m / of_int u\<rfloor> = m div u" by (rule floor_divide_of_int_eq)
  have "real_of_int m = of_int (m div u) * of_int u + of_int (m mod u)"
    by (metis of_int_add of_int_mult div_mult_mod_eq)
  then have r: "real_of_int m / of_int u - of_int (m div u) = of_int (m mod u) / of_int u"
    using u by (simp add: field_simps)
  define x v where "x = real_of_int (m mod u)" and "v = real_of_int u"
  have v: "0 < v" and two: "2 * x = real_of_int (2 * (m mod u))" using u by (simp_all add: x_def v_def)
  have "(x / v < 1 / 2) = (2 * x < v)" "(1 / 2 < x / v) = (v < 2 * x)" using v by (simp_all add: field_simps)
  then have "(x / v < 1 / 2) = (2 * (m mod u) < u)" "(1 / 2 < x / v) = (u < 2 * (m mod u))"
    unfolding two v_def by (simp_all only: of_int_less_iff)
  then have "(of_int (m mod u) / of_int u < (1 / 2 :: real)) = (2 * (m mod u) < u)"
    "(1 / 2 < of_int (m mod u) / real_of_int u) = (u < 2 * (m mod u))" by (simp_all only: x_def v_def)
  then show ?thesis unfolding half_even_def div_half_even_def Let_def q r by simp
qed

lemma js_integer_double:
  assumes "0 < n"
  shows "real_of_int (js_integer n) = double (of_int n)"
proof (cases "n < 2 ^ 53")
  case True
  then have "nat n < 2 ^ 53" by (simp add: nat_less_iff)
  from double_nat [OF this] True assms show ?thesis by (simp add: js_integer_small)
next
  case False
  define k where "k = bit_length (nat n)"
  have b: "2 ^ (k - 1) \<le> nat n" "nat n < 2 ^ k" "0 < k" using bit_length_bounds [of "nat n"] assms by (simp_all add: k_def)
  have "53 < k"
  proof (rule ccontr)
    assume "\<not> 53 < k"
    then have "(2 :: nat) ^ k \<le> 2 ^ 53" by (intro power_increasing) simp_all
    with b(2) have "nat n < 2 ^ 53" by (rule less_le_trans)
    with False show False by (simp add: nat_less_iff)
  qed
  have lo: "2 ^ (k - 1) \<le> n" and hi: "n < 2 ^ k" using b assms by (simp_all add: le_nat_iff nat_less_iff)
  have "2 powr of_int (int k - 1) \<le> real_of_int n" "real_of_int n < 2 powr (of_int (int k - 1) + 1)"
  proof -
    have "real_of_int (2 ^ (k - 1)) \<le> of_int n" "of_int n < real_of_int (2 ^ k)"
      using lo hi by (simp_all only: of_int_le_iff of_int_less_iff)
    moreover have "2 powr of_int (int k - 1) = real_of_int (2 ^ (k - 1))" "2 powr (of_int (int k - 1) + 1) = real_of_int (2 ^ k)"
      using b(3) by (simp_all add: powr_realpow [symmetric] of_nat_diff)
    ultimately show "2 powr of_int (int k - 1) \<le> real_of_int n" "real_of_int n < 2 powr (of_int (int k - 1) + 1)" by simp_all
  qed
  moreover have u: "2 powr of_int (int k - 1 - 52) = real_of_int (js_unit n)"
    using \<open>53 < k\<close> assms by (simp add: js_unit_def k_def [symmetric] powr_realpow [symmetric] of_nat_diff)
  moreover have "half_even (of_int n / 2 powr of_int (int k - 1 - 52)) = div_half_even n (js_unit n)"
    unfolding u by (rule half_even_quotient [OF js_unit_pos])
  ultimately have "double (of_int n) = of_int (div_half_even n (js_unit n)) * 2 powr of_int (int k - 1 - 52)"
    by (intro double_value)
  then show ?thesis using assms unfolding u by (simp add: js_integer_def)
qed

section \<open>The two clients\<close>

text \<open>
  Documented behaviour of viem: a text that does not begin with \<open>0x\<close> is read as UTF-8, a hexadecimal one as
  the bytes it spells.
\<close>

definition viem_ok :: "viem \<Rightarrow> bool" where
  "viem_ok V \<longleftrightarrow> (\<forall>s bs. \<not> startswith s ox \<longrightarrow> utf8_encode s = Inr bs \<longrightarrow> to_bytes V (JStr s) = Inr bs)
     \<and> (\<forall>bs. to_bytes V (JStr (hex0x bs)) = Inr bs)
     \<and> (\<forall>bs. length bs = 32 \<longrightarrow> to_bytes32 V (JStr (hex0x bs)) = Inr bs)"

text \<open>A receipt of the Python client, and a request of the TypeScript client, as the other has it.\<close>

definition ts_of :: "json receipt \<Rightarrow> ts_receipt" where
  "ts_of r = \<lparr>tr_user = rc_user r, tr_miner = rc_miner r, tr_brain_id = js_num (rc_brain_id r),
     tr_prompt_hash = rc_prompt_hash r, tr_response_hash = rc_response_hash r, tr_amount = rc_amount r,
     tr_expiry = js_num (rc_expiry r), tr_nonce = rc_nonce r\<rparr>"

definition python_request :: "ts_request \<Rightarrow> client_request" where
  "python_request req = \<lparr>rq_brain_id = tq_brain_id req, rq_prompt = tq_prompt req, rq_budget = tq_budget req,
     rq_max_tokens = (case tq_max_tokens req of Some n \<Rightarrow> n | None \<Rightarrow> 256),
     rq_temperature = (case tq_temperature req of Some t \<Rightarrow> t | None \<Rightarrow> 7 / 10), rq_expiry = tq_expiry req,
     rq_reservation = (case tq_reservation req of Some x \<Rightarrow> x | None \<Rightarrow> 0)\<rparr>"

text \<open>A request that both read alike: no expiry or reservation of 0, and a prompt viem does not take for bytes.\<close>

definition plain_request :: "ts_request \<Rightarrow> bool" where
  "plain_request req \<longleftrightarrow> \<not> startswith (tq_prompt req) ox \<and> (\<exists>bs. utf8_encode (tq_prompt req) = Inr bs)
     \<and> tq_expiry req \<noteq> Some 0 \<and> (\<forall>x. tq_reservation req = Some x \<longrightarrow> 0 < x)"

lemma js_utf8_encode:
  assumes "utf8_encode s = Inr bs"
  shows "js_utf8 s = bs"
proof -
  obtain bss where "map_res utf8_char s = Inr bss" using assms by (auto simp: utf8_encode_def)
  then have "map (\<lambda>c. if 55296 \<le> c \<and> c \<le> 57343 then 65533 else c) s = s"
    by (induction s arbitrary: bss) (auto simp: utf8_char_def split: if_splits)
  with assms show ?thesis unfolding js_utf8_def by simp
qed

lemma js_bigint_num [simp]: "js_bigint rep (js_num i) = Inr i"
  by simp

lemma ts_reservation_python: "plain_request req \<Longrightarrow> ts_reservation req = reservation_of (python_request req)"
  by (auto simp: ts_reservation_def reservation_of_def python_request_def plain_request_def Let_def split: option.splits)

lemma ts_text_hash_text:
  assumes "viem_ok V" and "\<not> startswith s ox" and "utf8_encode s = Inr bs"
  shows "ts_text_hash E V (JStr s) = Inr (hex0x (keccak E bs))" "text_hash E s = Inr (hex0x (keccak E bs))"
  using assms by (simp_all add: ts_text_hash_def viem_ok_def text_hash_def keccak_text_def hex0x_def)

text \<open>
  Two differences: a prompt that is a hexadecimal literal is hashed as the bytes it spells, so that no miner
  accepts its hash, and an answer that is an error has no text to hash: the message is lost in a \<open>TypeError\<close>.
\<close>

lemma hex_prompt_is_hashed_as_bytes:
  assumes "viem_ok V" and "utf8_encode (hex0x bs) = Inr text_bytes"
  shows "ts_text_hash E V (JStr (hex0x bs)) = Inr (hex0x (keccak E bs))"
    "text_hash E (hex0x bs) = Inr (hex0x (keccak E text_bytes))"
  using assms by (simp_all add: ts_text_hash_def viem_ok_def text_hash_def keccak_text_def hex0x_def)

lemma error_answer_is_a_type_error:
  assumes "to_bytes V JNull = Inr bs"
  shows "ts_delivered E V (js_value (err_reply m)) = Inl TypeError"
  using assms by (simp add: ts_delivered_def err_reply_def dict_get_or_def ts_text_hash_def)

lemma ts_sign_python:
  assumes "viem_ok V" and "rc_prompt_hash r = JStr (hex0x ph)" and "rc_response_hash r = JStr (hex0x rh)"
    and "length ph = 32" and "length rh = 32"
  shows "ts_sign E V rep cfg key (ts_of r) = rbind (sign_receipt E cfg key r) (\<lambda>sig. Inr (with_0x sig))"
  using assms
  by (cases "address_text (rc_user r)"; cases "address_text (rc_miner r)")
    (auto simp: ts_sign_def ts_digest_def ts_of_def sign_receipt_def text_receipt_def receipt_digest_def receipt_fields_def
      viem_ok_def rbind_def split: sum.splits)

lemma ts_prepare_python:
  assumes "viem_ok V" and "keccak_width E" and "plain_request req" and "0 \<le> w_nonce w" and "w_nonce w < 2 ^ 256"
    and "jkey miner (lit ''address'') = Inr address"
  shows "ts_prepare E V rep cfg key w req miner =
    rbind (prepare E cfg key w (python_request req) miner) (\<lambda>(a, p, sig). Inr (a, ts_of p, with_0x sig))"
proof -
  obtain bs where bs: "utf8_encode (tq_prompt req) = Inr bs" "\<not> startswith (tq_prompt req) ox"
    using assms(3) by (auto simp: plain_request_def)
  define ph where "ph = keccak E bs"
  note hash = ts_text_hash_text [OF assms(1) bs(2,1), of E, folded ph_def]
  have len: "length ph = 32" using assms(2) by (simp add: ph_def keccak_width_def)
  let ?n = "w_nonce w"
  have pad: "replicate (64 - length (hex_text (nat ?n))) 48 @ hex_text (nat ?n) = to_hex (be_bytes 32 ?n)"
    using format_064x_bytes [OF assms(4,5)] assms(4) by (simp add: format_064x_def Let_def)
  have spelled: "ox @ to_hex ph @ replicate (64 - length (hex_text (nat ?n))) 48 @ hex_text (nat ?n) = hex0x (ph @ be_bytes 32 ?n)"
    unfolding pad by (simp add: hex0x_def to_hex_append)
  define sh where "sh = sentinel_hash E ph ?n"
  have "ts_text_hash E V (JStr (hex0x (ph @ be_bytes 32 ?n))) = Inr (hex0x sh)"
    using assms(1) by (simp add: ts_text_hash_def viem_ok_def sh_def sentinel_hash_def)
  note sentinel = this sentinel_text_bytes [OF assms(4,5), of E ph, folded sh_def]
  have shlen: "length sh = 32" using assms(2) by (simp add: sh_def sentinel_hash_def keccak_width_def)
  have addr: "js_prop miner (lit ''address'') = Inr address"
    using assms(6) by (cases miner) (auto simp: dict_get_or_def split: option.splits)
  define p where "p = \<lparr>rc_user = JStr (key_address E key), rc_miner = address, rc_brain_id = tq_brain_id req,
    rc_prompt_hash = JStr (hex0x ph), rc_response_hash = JStr (hex0x sh), rc_amount = ts_reservation req,
    rc_expiry = (case tq_expiry req of Some x \<Rightarrow> x | None \<Rightarrow> w_now w + 3600), rc_nonce = ?n\<rparr>"
  have exp: "(case tq_expiry req of Some x \<Rightarrow> if x \<noteq> 0 then x else w_now w + 3600 | None \<Rightarrow> w_now w + 3600) = rc_expiry p"
    using assms(3) by (auto simp: p_def plain_request_def split: option.splits)
  have ts: "ts_prepare E V rep cfg key w req miner = rbind (ts_sign E V rep cfg key (ts_of p)) (\<lambda>sig. Inr (address, ts_of p, sig))"
    by (simp add: ts_prepare_def hash Let_def spelled sentinel addr ts_of_def p_def)
  have py: "prepare E cfg key w (python_request req) miner = rbind (sign_receipt E cfg key p) (\<lambda>sig. Inr (address, p, sig))"
    unfolding prepare_def by (simp add: python_request_def hash(2) sentinel(2) assms(6) exp [unfolded p_def, simplified] p_def
        ts_reservation_python [OF assms(3), unfolded python_request_def] Let_def)
  show ?thesis
    unfolding ts py ts_sign_python [OF assms(1), of p ph sh, unfolded p_def, simplified, OF len shlen, folded p_def]
    by (cases "sign_receipt E cfg key p") simp_all
qed

text \<open>What the miner reads of a receipt sent by the TypeScript client.\<close>

lemma js_sent_safe: "\<bar>i\<bar> < 2 ^ 53 \<Longrightarrow> js_sent (js_num i) = JInt i"
proof -
  assume "\<bar>i\<bar> < 2 ^ 53"
  then have "\<bar>rat_of_int i\<bar> < rat_of_int (2 ^ 53)" by (simp only: of_int_abs [symmetric] of_int_less_iff)
  then show ?thesis by simp
qed

lemma ts_read_serialized:
  assumes "rc_user p = JStr (key_address E key)" and "rc_miner p = JStr addr"
    and "checksum E addr = Inr (miner_address E mcfg)" and "keys_checksummed E"
    and "\<bar>rc_brain_id p\<bar> < 2 ^ 53" and "\<bar>rc_expiry p\<bar> < 2 ^ 53" and "0 \<le> rc_amount p" and "0 \<le> rc_nonce p"
  shows "read_receipt E (ts_serialize (ts_of p)) = Inr (as_read E key mcfg p)"
proof -
  have nums: "js_sent (js_num (rc_brain_id p)) = JInt (rc_brain_id p)" "js_sent (js_num (rc_expiry p)) = JInt (rc_expiry p)"
    using assms(5,6) by (simp_all only: js_sent_safe)
  show ?thesis
    using assms(1-4,7,8) unfolding ts_serialize_def ts_of_def ts_receipt.simps nums
    by (simp add: read_receipt_def as_read_def keys_checksummed_def checksum_def py_int_text_int_text)
qed

text \<open>
  C27. The TypeScript client is a client: on a request both read alike it prepares what the Python client
  prepares, the same receipt with the same signature, and every miner serves the request body it
  sends, with its big integers as texts, as it serves the Python client's, provided Brain and expiry
  are integers below \<open>2 ^ 53\<close>.
\<close>
theorem typescript_prepares_what_python_prepares:
  assumes "libraries_ok E" and "viem_ok V" and "plain_request req"
    and "same_deployment E cfg mcfg w (python_request req) addr" and "jkey miner (lit ''address'') = Inr (JStr addr)"
    and "prepare E cfg key w (python_request req) miner = Inr (JStr addr, p, sig)"
    and "loads payload = Inr (ts_request_body req (JStr addr) (ts_of p) (with_0x sig))" and "length payload \<le> MAX_PAYLOAD_BYTES"
    and "length (tq_prompt req) \<le> MAX_PROMPT_CHARS" and "clock mv < rc_expiry p"
    and "0 \<le> rc_expiry p" and "rc_expiry p < 2 ^ 53" and "tq_brain_id req < 2 ^ 53"
    and "used_nonces mv (key_address E key) (w_nonce w) = Inr False"
    and "balances mv (key_address E key) = Inr bal" and "tq_budget req \<le> bal"
  shows "ts_prepare E V rep cfg key w req miner = Inr (JStr addr, ts_of p, with_0x sig)
    \<and> infer_check E mcfg loads mv payload = Inr (Accept
        \<lparr>sv_prompt = tq_prompt req, sv_receipt = as_read E key mcfg p, sv_sig = JStr (with_0x sig), sv_budget = tq_budget req\<rparr>)"
proof -
  have lib: "keys_checksummed E" "abi_address_value E" "recovers_signer E" "keccak_width E"
    using assms(1) by (simp_all add: libraries_ok_def)
  have req: "rq_brain_id (python_request req) = tq_brain_id req" "rq_prompt (python_request req) = tq_prompt req"
    "rq_budget (python_request req) = tq_budget req" by (simp_all add: python_request_def)
  have dep: "checksum E addr = Inr (miner_address E mcfg)" "cc_market cfg = mc_market mcfg"
    "cc_chain_id cfg = mc_chain_id mcfg" "tq_brain_id req = mc_brain_id mcfg" "0 \<le> mc_brain_id mcfg"
    "0 \<le> w_nonce w" "w_nonce w < 2 ^ 64" "0 \<le> tq_budget req"
    using assms(4) by (simp_all add: same_deployment_def req)
  from prepare_Inr [OF assms(6)] obtain ph where p: "rc_user p = JStr (key_address E key)" "rc_miner p = JStr addr"
    "rc_brain_id p = tq_brain_id req" "rc_amount p = reservation_of (python_request req)" "rc_nonce p = w_nonce w"
    "sign_receipt E cfg key p = Inr sig" "text_hash E (tq_prompt req) = Inr ph" "rc_prompt_hash p = JStr ph"
    by (auto simp: req)
  have small: "w_nonce w < 2 ^ 256" using dep(7) by (rule less_trans) simp
  have prep: "ts_prepare E V rep cfg key w req miner = Inr (JStr addr, ts_of p, with_0x sig)"
    using ts_prepare_python [OF assms(2) lib(4) assms(3) dep(6) small assms(5)] assms(6) by simp
  have amount: "0 \<le> rc_amount p" "rc_amount p \<le> tq_budget req"
    using assms(3) dep(8) reservation_le_budget [of "python_request req"]
    by (auto simp: p req reservation_of_def python_request_def plain_request_def Let_def DEFAULT_RESERVATION_def split: option.splits)
  have "infer_check E mcfg loads mv payload = Inr (Accept
     \<lparr>sv_prompt = tq_prompt req, sv_receipt = as_read E key mcfg p, sv_sig = JStr (with_0x sig),
      sv_budget = max (tq_budget req) (rc_amount (as_read E key mcfg p))\<rparr>)"
  proof (rule infer_check_complete [where payload = payload and loads = loads, OF assms(8,7)])
    show "read_receipt E (ts_serialize (ts_of p)) = Inr (as_read E key mcfg p)"
      using dep(4,5) assms(11-13) amount dep(6) by (intro ts_read_serialized [OF p(1,2) dep(1) lib(1)]) (simp_all add: p)
    show "verify_user_signature E (mc_market mcfg) (mc_chain_id mcfg) (as_read E key mcfg p) (JStr (with_0x sig)) = Inr True"
      using signature_verifies(2) [OF p(6,1,2) dep(1) lib(2,3)] dep by simp
    show "eligible E mcfg mv (as_read E key mcfg p) (max (tq_budget req) (rc_amount (as_read E key mcfg p)))"
      using assms(10,14-16) p lib(1) dep amount by (simp add: eligible_def as_read_def keys_checksummed_def)
    show "rc_prompt_hash (as_read E key mcfg p) = JStr ph" by (simp add: as_read_def p)
    show "text_hash E (tq_prompt req) = Inr ph" by (rule p)
  qed (use assms(9) dep(8) in \<open>simp_all add: ts_request_body_def dict_get_or_def py_int_text_int_text\<close>)
  with prep amount show ?thesis by (simp add: as_read_def)
qed

section \<open>The answer of a miner in JavaScript\<close>

lemma div_half_even_le: "0 < u \<Longrightarrow> 0 \<le> m \<Longrightarrow> 0 \<le> div_half_even m u * u \<and> div_half_even m u * u \<le> m + u"
proof -
  assume u: "0 < u" and m: "0 \<le> m"
  have "0 \<le> div_half_even m u" "div_half_even m u \<le> m div u + 1"
    using u m by (auto simp: div_half_even_def Let_def pos_imp_zdiv_nonneg_iff)
  moreover have "m div u * u \<le> m" using u by (simp add: minus_mod_eq_div_mult [symmetric])
  ultimately show ?thesis using u mult_right_mono [of "div_half_even m u" "m div u + 1" u] by (simp add: distrib_right)
qed

lemma js_unit_le: "0 < n \<Longrightarrow> js_unit n \<le> n"
proof -
  assume n: "0 < n"
  let ?k = "bit_length (nat n)"
  have "2 ^ (?k - 1) \<le> nat n" using bit_length_bounds [of "nat n"] n by simp
  then have lower_bound: "2 ^ (?k - 1) \<le> n" using n by (simp add: le_nat_iff)
  have "(2 :: int) ^ (?k - 53) \<le> 2 ^ (?k - 1)" by (intro power_increasing) simp_all
  from order.trans [OF this lower_bound] n show ?thesis by (simp add: js_unit_def)
qed

lemma js_double_word: "0 \<le> n \<Longrightarrow> n < 2 ^ 256 \<Longrightarrow> js_double n = js_num (js_integer n)"
proof -
  assume n: "0 \<le> n" "n < 2 ^ 256"
  have "\<bar>js_integer n\<bar> \<le> 2 * n"
  proof (cases "n = 0")
    case False
    with n have "0 < n" by simp
    with div_half_even_le [OF js_unit_pos, of n n] js_unit_le [of n] show ?thesis by (simp add: js_integer_def)
  qed (simp add: js_integer_def)
  also have "\<dots> < 2 * 2 ^ 256" using n by simp
  also have "\<dots> < (2 :: int) ^ 1024" by simp
  finally show ?thesis by (simp add: js_double_def)
qed

lemma js_double_safe: "\<bar>n\<bar> < 2 ^ 53 \<Longrightarrow> js_double n = js_num n"
proof -
  assume n: "\<bar>n\<bar> < 2 ^ 53"
  have "(2 :: int) ^ 53 < 2 ^ 1024" by simp
  with n have "\<bar>n\<bar> < 2 ^ 1024" by (rule less_trans)
  with n show ?thesis by (simp add: js_double_def js_integer_small)
qed

text \<open>The final receipt as the client reads it: amount and nonce have been doubles.\<close>

definition rounded :: "json receipt \<Rightarrow> ts_receipt" where
  "rounded f = (ts_of f)\<lparr>tr_amount := js_integer (rc_amount f), tr_nonce := js_integer (rc_nonce f)\<rparr>"

lemma ts_read_proposed:
  assumes "\<bar>rc_brain_id r\<bar> < 2 ^ 53" and "\<bar>rc_expiry r\<bar> < 2 ^ 53" and "0 \<le> charge" and "charge < 2 ^ 256"
    and "0 \<le> rc_nonce r" and "rc_nonce r < 2 ^ 256" and "js_value (rc_prompt_hash r) = rc_prompt_hash r"
  shows "ts_read_final rep (js_value (final_receipt_json r response charge)) = Inr (rounded (proposed_final r response charge))"
proof -
  have nums: "js_double (rc_brain_id r) = js_num (rc_brain_id r)" "js_double (rc_expiry r) = js_num (rc_expiry r)"
    "js_double charge = js_num (js_integer charge)" "js_double (rc_nonce r) = js_num (js_integer (rc_nonce r))"
    using assms by (simp_all only: js_double_safe js_double_word)
  show ?thesis
    by (simp add: final_receipt_json_def ts_read_final_def dict_get_or_def nums assms(7) rounded_def proposed_final_def ts_of_def)
qed

text \<open>The two readings of a final receipt that the Python client accepts.\<close>

lemma same_text_ts: "same_text a b = Inr True \<Longrightarrow> ts_same_text a b = Inr True"
  by (auto simp: same_text_True ts_same_text_def)

lemma rounded_identity:
  assumes "assert_final_receipt_identity p f = Inr ()"
  shows "ts_assert_identity (ts_of p) (rounded f) =
    (if js_integer (rc_nonce f) = rc_nonce f then Inr ()
     else Inl (RuntimeError (lit ''final receipt identity does not match preauthorization'')))"
proof -
  have id: "same_text (rc_user f) (rc_user p) = Inr True" "same_text (rc_miner f) (rc_miner p) = Inr True"
    "same_text (rc_prompt_hash f) (rc_prompt_hash p) = Inr True"
    and nums: "rc_brain_id f = rc_brain_id p" "rc_expiry f = rc_expiry p" "rc_nonce f = rc_nonce p"
    using assms by (simp_all add: identity_Inr)
  show ?thesis
    using id [THEN same_text_ts] nums by (simp add: ts_assert_identity_def rounded_def ts_of_def Let_def)
qed

lemma rounded_check:
  assumes "ts_read_final rep fr = Inr (rounded f)" and "check_final w (python_request req) p t rh final = Inr f"
    and "plain_request req"
  shows "if js_integer (rc_nonce f) = rc_nonce f \<and> js_integer (rc_amount f) = rc_amount f
     then ts_check_final rep w req (ts_of p) (JStr t) (JStr rh) fr = Inr (ts_of f)
     else \<exists>m. ts_check_final rep w req (ts_of p) (JStr t) (JStr rh) fr = Inl (RuntimeError m)"
proof -
  from assms(2) [unfolded check_final_Inr] obtain ppt ppr pb tb where py: "assert_final_receipt_identity p f = Inr ()"
    "read_pricing w = (ppt, ppr)" "0 < ppt \<or> 0 < ppr" "utf8_encode (tq_prompt req) = Inr pb" "utf8_encode t = Inr tb"
    "rc_amount f = min (ppr + ppt * (int (length pb) + int (length tb))) (tq_budget req)"
    "jlower (rc_response_hash f) = Inr (lower rh)"
    by (auto simp: python_request_def)
  have lengths: "js_utf8 (tq_prompt req) = pb" "js_utf8 t = tb" using py(4,5) by (simp_all add: js_utf8_encode)
  have h: "ts_same_text (tr_response_hash (rounded f)) (JStr rh) = Inr True"
    using py(7) by (cases "rc_response_hash f") (simp_all add: ts_same_text_def rounded_def ts_of_def)
  let ?quoted = "ppr + ppt * (int (length pb) + int (length tb))"
  have expected: "(if ?quoted < tq_budget req then ?quoted else tq_budget req) = rc_amount f"
    unfolding py(6) by simp
  have amount: "tr_amount (rounded f) = js_integer (rc_amount f)" by (simp add: rounded_def)
  have le: "rc_amount f \<le> tq_budget req" unfolding py(6) by simp
  have not_free: "\<not> (ppt \<le> 0 \<and> ppr \<le> 0)" using py(3) by auto
  have exact: "rounded f = ts_of f" if "js_integer (rc_nonce f) = rc_nonce f" "js_integer (rc_amount f) = rc_amount f"
    using that by (simp add: rounded_def ts_of_def)
  have "ts_check_final rep w req (ts_of p) (JStr t) (JStr rh) fr =
    rbind (ts_assert_identity (ts_of p) (rounded f)) (\<lambda>_.
      if js_integer (rc_amount f) > tq_budget req then Inl (RuntimeError (lit ''final amount exceeds budget''))
      else if js_integer (rc_amount f) \<noteq> rc_amount f
      then Inl (RuntimeError (lit ''incorrect metered charge: amount '' @ int_text (js_integer (rc_amount f))
              @ lit '', expected '' @ int_text (rc_amount f)))
      else Inr (rounded f))"
    unfolding ts_check_final_def assms(1) rbind_simps py(2) prod.case Let_def js_text.simps lengths expected amount h
    using not_free by (simp del: de_Morgan_conj cong: if_cong)
  then show ?thesis unfolding rounded_identity [OF py(1)] using le exact by auto
qed

text \<open>The answer does not depend on the signature that is queued, and it reaches the client field by field.\<close>

lemma infer_finish_sig:
  assumes "infer_finish E cfg mv engine elapsed (sv\<lparr>sv_sig := x\<rparr>) q = (q', Inr reply)"
  shows "\<exists>q''. infer_finish E cfg mv engine elapsed sv q = (q'', Inr reply)"
  using assms by (auto simp: infer_finish_def split: sum.splits)

lemma reply_parsed:
  assumes "rc_prompt_hash r = JStr ph"
  shows "\<exists>data. js_parse (infer_reply r response charge ms) = Inr data
    \<and> js_prop data (lit ''text'') = Inr (JStr (ir_text response))
    \<and> js_prop data (lit ''response_hash'') = Inr (JStr (ir_response_hash response))
    \<and> js_prop data (lit ''final_receipt'') = Inr (js_value (final_receipt_json r response charge))
    \<and> js_true (js_value (final_receipt_json r response charge))
    \<and> (\<forall>a n. \<exists>result. ts_make_response a data n = Inr result \<and> tp_amount result = n)"
  using assms by (simp add: js_parse_def infer_reply_def final_receipt_json_def dict_get_or_def ts_make_response_def)

lemma conclude_rounded:
  assumes "ts_delivered E V data = Inr (JStr t, JStr rh)" and "js_prop data (lit ''final_receipt'') = Inr fr" and "js_true fr"
    and "ts_read_final rep fr = Inr (rounded f)" and "check_final w (python_request req) p t rh final = Inr f"
    and "plain_request req" and "ts_sign E V rep cfg key (ts_of f) = Inr fsig"
    and "\<And>n. \<exists>result. ts_make_response a data n = Inr result \<and> tp_amount result = n"
  shows "if js_integer (rc_nonce f) = rc_nonce f \<and> js_integer (rc_amount f) = rc_amount f
     then \<exists>result. ts_conclude E V rep cfg key w req a (ts_of p) posted data =
         \<lparr>to_signed = [ts_of p, ts_of f], to_posted = posted @ [ts_settle_body (ts_of f) fsig], to_result = Inr result\<rparr>
       \<and> tp_amount result = rc_amount f
     else \<exists>m. ts_conclude E V rep cfg key w req a (ts_of p) posted data =
         \<lparr>to_signed = [ts_of p], to_posted = posted, to_result = Inl (RuntimeError m)\<rparr>"
proof -
  obtain result where "ts_make_response a data (rc_amount f) = Inr result" "tp_amount result = rc_amount f"
    using assms(8) by blast
  moreover have "tr_amount (ts_of f) = rc_amount f" by (simp add: ts_of_def)
  ultimately show ?thesis
    using rounded_check [OF assms(4-6)] assms(1-3,7)
    by (cases "js_integer (rc_nonce f) = rc_nonce f \<and> js_integer (rc_amount f) = rc_amount f") (auto simp: ts_conclude_def)
qed


section \<open>A concrete exchange\<close>

definition demo_viem :: viem where
  "demo_viem = \<lparr>to_bytes = (\<lambda>j. case j of JStr s \<Rightarrow> if startswith s ox then fromhex (drop 2 s) else utf8_encode s | _ \<Rightarrow> Inr []),
     to_bytes32 = (\<lambda>j. case j of JStr s \<Rightarrow> fromhex (drop 2 s) | _ \<Rightarrow> Inl TypeError)\<rparr>"

lemma demo_viem_ok: "viem_ok demo_viem"
  by (simp add: viem_ok_def demo_viem_def)

definition demo_ts_request :: ts_request where
  "demo_ts_request = \<lparr>tq_brain_id = 3, tq_prompt = lit ''hi'', tq_max_tokens = None, tq_temperature = Some 0, tq_budget = 50,
     tq_expiry = Some 200, tq_reservation = Some 10\<rparr>"

definition demo_ts_world :: "int \<Rightarrow> client_world" where
  "demo_ts_world n = (demo_world (\<lambda>_. Inl OtherError))\<lparr>w_nonce := n\<rparr>"

lemma demo_ts_request: "python_request demo_ts_request = demo_request" "plain_request demo_ts_request"
  by (simp_all add: python_request_def demo_ts_request_def demo_request_def plain_request_def startswith_def ox_def lit_def
      utf8_encode_def utf8_char_def)

lemma demo_ts_deployment:
  "0 \<le> n \<Longrightarrow> n < 2 ^ 64 \<Longrightarrow> same_deployment demo_eth demo_client demo_miner_cfg (demo_ts_world n) demo_request (hex0x [8])"
  by (simp add: same_deployment_def demo_client_def demo_miner_cfg_def demo_world_def demo_request_def
      miner_address_def demo_key_def demo_ts_world_def)

lemma demo_ts_prepare:
  assumes "0 \<le> n" and "n < 2 ^ 64"
  shows "\<exists>p sig. prepare demo_eth demo_client [7] (demo_ts_world n) demo_request demo_miner_entry = Inr (JStr (hex0x [8]), p, sig)
     \<and> rc_expiry p = 200"
proof -
  let ?p = "\<lparr>rc_user = JStr (hex0x [7]), rc_miner = JStr (hex0x [8]), rc_brain_id = 3,
    rc_prompt_hash = JStr (hex0x (demo_hash 209)),
    rc_response_hash = JStr (hex0x (sentinel_hash demo_eth (demo_hash 209) n)),
    rc_amount = 10, rc_expiry = 200, rc_nonce = n\<rparr>"
  have "length (sentinel_hash demo_eth (demo_hash 209) n) = 32" by (simp add: sentinel_hash_def)
  then obtain sig where "sign_receipt demo_eth demo_client [7] ?p = Inr sig"
    using sign_receipt_total [OF demo_libraries demo_ts_deployment [OF assms], of ?p "[7]" "hex0x [8]" "hex0x [8]"
        "demo_hash 209" "sentinel_hash demo_eth (demo_hash 209) n"]
    by (auto simp: demo_key_def demo_request_def demo_ts_world_def)
  moreover have "sentinel_text demo_eth (hex0x (demo_hash 209)) n = Inr (hex0x (sentinel_hash demo_eth (demo_hash 209) n))"
    using assms by (intro sentinel_text_bytes) simp_all
  ultimately show ?thesis
    by (simp add: prepare_def demo_request_def demo_hi_hash demo_ts_world_def demo_world_def demo_miner_entry_def demo_key_def
        reservation_of_def Let_def)
qed

theorem typescript_prepares_what_python_prepares_witness:
  "\<exists>p sig. ts_prepare demo_eth demo_viem (\<lambda>_. []) demo_client [7] (demo_ts_world 5) demo_ts_request demo_miner_entry =
      Inr (JStr (hex0x [8]), ts_of p, with_0x sig)
    \<and> infer_check demo_eth demo_miner_cfg (\<lambda>_. Inr (ts_request_body demo_ts_request (JStr (hex0x [8])) (ts_of p) (with_0x sig)))
        MinerRun.demo_view [] = Inr (Accept
        \<lparr>sv_prompt = lit ''hi'', sv_receipt = as_read demo_eth [7] demo_miner_cfg p, sv_sig = JStr (with_0x sig), sv_budget = 50\<rparr>)"
proof -
  obtain p sig where p: "prepare demo_eth demo_client [7] (demo_ts_world 5) demo_request demo_miner_entry
      = Inr (JStr (hex0x [8]), p, sig)" "rc_expiry p = 200"
    using demo_ts_prepare [of 5] by auto
  have entry: "jkey demo_miner_entry (lit ''address'') = Inr (JStr (hex0x [8]))" by (simp add: demo_miner_entry_def)
  from typescript_prepares_what_python_prepares [OF demo_libraries demo_viem_ok demo_ts_request(2) _ entry,
      unfolded demo_ts_request(1), OF demo_ts_deployment p(1),
      of "\<lambda>_. Inr (ts_request_body demo_ts_request (JStr (hex0x [8])) (ts_of p) (with_0x sig))" "[]" MinerRun.demo_view 100 "\<lambda>_. []"] p(2)
  show ?thesis
    by (auto simp: demo_ts_request_def MinerRun.demo_view_def lit_def MAX_PROMPT_CHARS_def demo_ts_world_def)
qed

text \<open>A nonce of 64 bits that is odd: the answer is delivered, and thrown away.\<close>

definition demo_nonce :: int where
  "demo_nonce = 2 ^ 63 + 1"

lemma demo_nonce: "\<not> js_unit demo_nonce dvd demo_nonce" "0 \<le> demo_nonce" "demo_nonce < 2 ^ 64"
proof -
  have "bit_length (2 ^ 63 + 1) = 64" by (simp add: bit_length.simps)
  then show "\<not> js_unit demo_nonce dvd demo_nonce" by (simp add: js_unit_def demo_nonce_def nat_add_distrib)
qed (simp_all add: demo_nonce_def)


end
