(* ===== verification/Spec2Isabelle.thy ===== *)
theory Spec2Isabelle imports Session Devnet GatewayApp OverrideCheck Generators Custody Listing Commands TsClient
begin

text \<open>
  BasedAI is a marketplace for language model inference: users deposit tokens in a contract, clients
  sign receipts, miners answer prompts and redeem the receipts, validators challenge the miners,
  score them and co-sign the Merkle root of the scores of each epoch. This development models the
  repository's Python services, the five contracts they settle on and the TypeScript client, and
  proves what makes them correct.

  Parts of the program and the theories that model them (paths under \<open>src/\<close>):

  \<^item> Foundations. \<open>Prelude\<close>: Python exceptions as values of a sum type (\<open>'a res\<close>), dictionaries as
    insertion-ordered association lists behind the locale \<open>dictionary\<close>, \<open>max\<close> and \<open>sorted\<close> with keys, and
    the locale \<open>event_machine\<close> from which components obtain their run invariants. \<open>PyText\<close>: strings as
    lists of code points, bytes as 8-bit words, hexadecimal, UTF-8, \<open>int(text, base)\<close>. \<open>Json\<close>: decoded
    JSON and the Python operations on it with their exceptions. \<open>EthLib\<close>: the Ethereum libraries as
    a record of functions, every law used named as a predicate (\<open>keccak_width\<close>, \<open>recovers_signer\<close>,
    \<open>checksum_canonical\<close>, \<open>abi_total\<close>, \<open>...\<close>) and met by a concrete instance \<open>demo_eth\<close>.
  \<^item> Validator (\<open>validator/src/basedai_validator\<close>). \<open>Merkle\<close>: \<open>merkle.py\<close>. \<open>Commitment\<close>: \<open>commitment.py\<close>.
    \<open>Aggregator\<close> and \<open>Candidates\<close>: the two classes of \<open>aggregator.py\<close>. \<open>Service\<close>: \<open>service.py\<close>. \<open>Doubles\<close>
    and \<open>Scoring\<close>: \<open>scoring.py\<close> with rounding to doubles. \<open>Validator\<close>: \<open>runtime.py\<close>. \<open>Epochs\<close>: the clock of its
    epoch loop against the epochs of the contract.
  \<^item> Contracts (\<open>contracts/src\<close>), as the other end of the services. \<open>Vault\<close>: \<open>staking/StakingVault.sol\<close>.
    \<open>Registry\<close>: \<open>scoring/ScoringRegistry.sol\<close> on that vault. \<open>Market\<close>: accounts and \<open>redeem\<close> of
    \<open>market/ComputeUnitMarket.sol\<close>. \<open>Subnet\<close>: \<open>subnet/SubnetRegistry.sol\<close>, whose history of transactions is what the
    gateway's poller reads and what miners and validators register with. \<open>Fees\<close>: the fee split, the
    administration and the redemption with its settlement of the market, and \<open>reward/RewardDistributor.sol\<close>.
    \<open>Custody\<close>: the three contracts that hold tokens, with every call on them in any order. \<open>Abis\<close>: the
    contract interfaces the services write down against those of the contracts. \<open>Committed\<close>: an epoch
    from the validators through the aggregator to a score that verifies on chain.
  \<^item> Gateway (\<open>gateway/src/basedai_gateway\<close>). \<open>MemberIndex\<close>: \<open>indexer.py\<close>. \<open>Gateway\<close>: \<open>announce.py\<close> and
    the handlers of \<open>make_app\<close> in \<open>server.py\<close>. \<open>GatewayApp\<close>: its routes, the limiter per address and the
    requests, as a refinement of the gateway machine. \<open>Poller\<close>: \<open>ChainPoller\<close> and \<open>CursorStore\<close> of \<open>server.py\<close>.
    \<open>Listing\<close>: announcements of one miner among everything else that reaches the index.
  \<^item> Miner (\<open>miner/src/basedai_miner\<close>). \<open>Receipts\<close>: \<open>receipts.py\<close>. \<open>Miner\<close> and \<open>MinerRun\<close>: \<open>runtime.py\<close> and
    \<open>generate\<close> of \<open>inference.py\<close>. \<open>Engine\<close>: the rest of \<open>inference.py\<close>. \<open>Transport\<close>: \<open>http_server.py\<close>,
    \<open>p2p.py\<close> and the start-up of \<open>runtime.py\<close>.
  \<^item> Client (\<open>client/python/basedai_client\<close>). \<open>Client\<close>: \<open>client.py\<close> and \<open>types.py\<close>. \<open>Session\<close>: one inference
    from both ends. \<open>TsClient\<close>: \<open>client/typescript/src/client.ts\<close> and \<open>receipt.ts\<close> beside it.
  \<^item> \<open>Config\<close> and \<open>ConfigFile\<close>: the two \<open>config.py\<close>, first the environment and the chain section, then the files.
    \<open>Startup\<close>: the constructors of miner, validator and client on a loaded configuration, the announce and
    challenge loops. \<open>Programs\<close>: the three \<open>cli.py\<close>, with the gateway process in which poll
    loop and application share one index. \<open>Commands\<close>: these programs from file or arguments to the state
    in which they serve. \<open>SolidityCheck\<close> and \<open>SourceChecks\<close>: \<open>scripts/check_solidity.py\<close>.
    \<open>OverrideCheck\<close>: \<open>scripts/check_overrides.py\<close>. \<open>Devnet\<close>: \<open>scripts/devnet_e2e.py\<close>, the smoke test composed
    from the models of the programs it runs. \<open>Generators\<close>: \<open>scripts/gen_eval_set.py\<close> and
    \<open>scripts/generate_deployment_manifest.py\<close>.
  \<^item> This theory: the properties that span components.

  Correspondence. A class is a record of its attributes and each method a definition that takes and
  returns the record, with the exception or the answer as \<open>Inl\<close> or \<open>Inr\<close>; a state change made before
  an exception is in the returned record. A handler takes the decoded body. Where a coroutine
  awaits, the code before and after it are two definitions and two events of the component's
  machine (\<open>infer_check\<close> and \<open>infer_finish\<close>, \<open>proxy_begin\<close> and \<open>proxy_end\<close>, \<open>EpochPosting\<close> and \<open>EpochDone\<close>),
  so that every interleaving is a run. Answers of the network and the chain, clocks, nonces and
  random choices are arguments. Integers are unbounded as in Python; where the ABI encoder bounds
  them the encoder's range is a hypothesis, and the contract's words are bounded by its checks.

  What the lemmas show.

  \<^item> Scores on chain: every row of a canonical pair has a proof that verifies, a root binds its
    leaves absent a Keccak collision among named inputs, frozen pairs are consistent and final, rows
    are stake-weighted medians, candidates and commitments are authenticated, an aggregator has at
    most one accepted submission per epoch, its submissions pass the checks of \<open>proposeEpoch\<close>
    (\<open>propose_epoch_iff\<close>), a committed root is final, only signers of two roots are slashed, and the
    vault's books balance.
  \<^item> Scoring: one score per observed miner in 0 to 1000000, never an exception for non-negative
    latencies.
  \<^item> Discovery: membership is decided by the last event, a poll follows the canonical chain across
    reorganisations, cursors survive restarts, endpoints are signed, dials are guarded, bounded and
    go to signed endpoints, admissions per window are bounded, and the index after a poll is the
    membership of the registry contract, whose counters and caps are exact. An announcing miner stays
    listed until its announcement expires.
  \<^item> Payment: what a miner serves, queues, replaces and can redeem, what a client can be made to
    sign and pay, in which of its answers the TypeScript client can follow the Python one, that the market pays a nonce once, splits a payment without losing or inventing
    tokens, that a distribution reaches exactly the validators in proportion to their stake, and
    that market, distributor and vault hold what they owe after any calls.
  \<^item> Honest exchanges go through: requests, answers, settlements, challenges, candidates,
    commitments and announcements of one program are accepted by the other, and an honest majority
    of the stake commits its epoch whatever the other signers send.
  \<^item> Start-up: a configuration that loads is well-formed, its miner starts, every contract call of the
    services selects a function of its contract, when a service can register itself, and that the
    miner's programs serve or end accordingly.
  \<^item> Where the code does not do what it means to, a theorem shows the behaviour, for instance
    \<open>settlement_goes_to_best_miner\<close>, \<open>preauth_served_many_paid_once\<close>, \<open>unhashable_answer_blocks_epoch\<close>,
    \<open>posted_epoch_complete_iff\<close>, \<open>replayed_announcement_unlists\<close>, \<open>typescript_settles_iff_doubles_suffice\<close>, \<open>failed_poll_drops_events\<close>, \<open>honest_validator_is_slashable\<close>.

  Termination and bounds. All definitions are total: loops over layers, texts and blocks recurse
  with a measure, and no fuel is used except for the polling of the canonical root, whose sixty
  rounds are the code's own bound. Endless loops of the services are the event machines.

  Assumptions about libraries. They describe the locked versions (eth-account 0.13.7, hexbytes 1.3.1,
  web3 7): signatures recover to the key's address, checksummed addresses are canonical, the encoder
  depends only on an address's value, Keccak digests have 32 bytes; viem 2.53 reads \<open>0x\<close> texts as bytes and
  others as UTF-8. JavaScript's numbers are the doubles of theory Doubles (\<open>js_integer_double\<close>). Case conversion is modelled on
  code points below 256 and word characters of numbers on ASCII; non-Latin letters in reference
  texts could compare differently after lower-casing.

  Not modelled: the governance and NFT contracts (another language, the services do not use them),
  logging, the servers and sockets of aiohttp, httpx and libp2p, YAML parsing and pydantic's coercions, the GPU backends, and the
  size limits the web framework enforces.
\<close>

section \<open>A challenge from both ends\<close>

lemma challenge_digests_agree:
  "build_challenge_payload E vcfg prompt seed =
     rbind (challenge_digest E (vc_brain_id vcfg) prompt seed) (\<lambda>digest.
       Inr (JObj [(lit ''prompt'', JStr prompt), (lit ''seed'', JInt seed),
                  (lit ''validator'', JStr (validator_address E vcfg)),
                  (lit ''validator_signature'', JStr (sign_message E (vc_key vcfg) digest))]))"
proof (cases "keccak_text E prompt")
  case (Inr ph)
  then show ?thesis
    by (cases "abi_encode E [AUint 256 (vc_brain_id vcfg), ABytes32 ph, AUint 256 seed]")
      (simp_all add: build_challenge_payload_def challenge_digest_def)
qed (simp add: build_challenge_payload_def challenge_digest_def)

text \<open>
  C36. An honest challenge is answered and observed: a miner of the same Brain accepts the payload
  a registered validator builds, and when its engine answers, the validator stores exactly the
  text the engine gave and the hash the miner computed from it, with its own time.
\<close>
theorem honest_challenge_is_answered:
  assumes "recovers_signer E" and "keys_checksummed E" and "vc_brain_id vcfg = mc_brain_id mcfg"
    and "build_challenge_payload E vcfg prompt seed = Inr body" and "loads payload = Inr body"
    and "length payload \<le> MAX_PAYLOAD_BYTES" and "prompt_ok (JStr prompt)"
    and "view_is_validator mv (mc_brain_id mcfg) (validator_address E vcfg) = Inr True"
    and "generate E engine ms ((new_inference_request prompt)\<lparr>iq_temperature := 0, iq_seed := Some seed\<rparr>) = Inr response"
    and "sign_response E mcfg response = Inr s" and "url \<noteq> []"
  shows "challenge_check E mcfg loads mv payload = Inr (Accept (prompt, seed))
    \<and> call_miner_challenge E vcfg (JStr url) prompt seed
           (\<lambda>sent. if sent = body then Inr (200, handle_challenge E mcfg loads mv engine ms payload) else Inl OtherError) elapsed
         = Inr (JStr (ir_text response), JStr (ir_response_hash response), elapsed)"
proof -
  obtain digest where d: "challenge_digest E (mc_brain_id mcfg) prompt seed = Inr digest"
    and body: "body = JObj [(lit ''prompt'', JStr prompt), (lit ''seed'', JInt seed),
                  (lit ''validator'', JStr (validator_address E vcfg)),
                  (lit ''validator_signature'', JStr (sign_message E (vc_key vcfg) digest))]"
    using assms(3,4) by (auto simp: challenge_digests_agree)
  have rec: "recover_message E digest (JStr (sign_message E (vc_key vcfg) digest)) = Inr (validator_address E vcfg)"
    using assms(1) by (simp add: recovers_signer_def validator_address_def)
  have own: "to_checksum_address E (JStr (validator_address E vcfg)) = Inr (validator_address E vcfg)"
    using assms(2) by (simp add: keys_checksummed_def checksum_def validator_address_def)
  have fields: "jkey body (lit ''prompt'') = Inr (JStr prompt)" "jget body (lit ''seed'') (JInt 0) = Inr (JInt seed)"
    "jkey body (lit ''validator'') = Inr (JStr (validator_address E vcfg))"
    "jkey body (lit ''validator_signature'') = Inr (JStr (sign_message E (vc_key vcfg) digest))"
    by (simp_all add: body dict_get_or_def)
  have check: "challenge_check E mcfg loads mv payload = Inr (Accept (prompt, seed))"
    unfolding challenge_check_def
    using assms(5-8) by (simp add: fields own rec d del: rbind_Inr_iff prompt_ok.simps)
  have "handle_challenge E mcfg loads mv engine ms payload = Inr (challenge_reply response s)"
    using assms(9,10) by (simp add: handle_challenge_def check)
  with assms(4,11) have "call_miner_challenge E vcfg (JStr url) prompt seed
           (\<lambda>sent. if sent = body then Inr (200, handle_challenge E mcfg loads mv engine ms payload) else Inl OtherError) elapsed
         = Inr (JStr (ir_text response), JStr (ir_response_hash response), elapsed)"
    by (simp add: call_miner_challenge_def checked_json_def challenge_reply_def dict_get_or_def)
  with check show ?thesis by blast
qed

section \<open>The gateway between clients and miners\<close>

text \<open>
  An honest announcement is accepted: a registered miner whose clock is within ten minutes of the
  gateway's and whose URL passes the guard is told so, and from then on the gateway routes
  requests that name it to the announced URL and lists it, with score 0, until the announcement is
  older than the configured lifetime.
\<close>
theorem honest_announcement_is_accepted:
  assumes "recovers_signer E" and "keys_checksummed E" and "miner_sign_announce E key b url ts = Inr sig"
    and "\<bar>now mo - ts\<bar> \<le> ANNOUNCE_MAX_AGE" and "url_guard mo url = Inr None"
    and "is_miner mi b (key_address E key)" and "finite (reg_miners mi b)" and "enumerates order"
    and "t - ts \<le> ttl mi"
  shows "\<exists>mi'. announce E rep mo mi b (announce_payload E key url ts sig) = (mi', Inr (200, JObj [(lit ''ok'', JBool True)]))
    \<and> announce_once E key gateway b url ts
         (\<lambda>path body. if body = announce_payload E key url ts sig
            then rbind (snd (announce E rep mo mi b body)) (\<lambda>reply. Inr (fst reply)) else Inl OtherError) = Inr True
    \<and> endpoint_of mi' b (key_address E key) = Some url
    \<and> (lower (key_address E key), url, 0) \<in> set (miners_of order mi' b (Some t))"
proof -
  let ?a = "key_address E key" and ?body = "announce_payload E key url ts sig"
  let ?mi' = "announce_endpoint mi b ?a url ts 0"
  have ok: "announce E rep mo mi b ?body = (?mi', Inr (200, JObj [(lit ''ok'', JBool True)]))"
    by (rule own_announcement_stored [OF assms(1-6)])
  moreover have "announce_once E key gateway b url ts
         (\<lambda>path body. if body = ?body
            then rbind (snd (announce E rep mo mi b body)) (\<lambda>reply. Inr (fst reply)) else Inl OtherError) = Inr True"
    by (simp add: announce_once_def assms(3) ok)
  moreover have "endpoint_of ?mi' b ?a = Some url"
    by (simp add: endpoint_of_def announce_endpoint_def)
  moreover have "(lower ?a, url, 0) \<in> set (miners_of order ?mi' b (Some t))"
    using listed_in_miners_of [of order ?mi' b "lower ?a" "\<lparr>ep_url = url, ep_score = 0, ep_ts = ts\<rparr>" "Some t"] assms(6-9)
    by (simp add: announce_endpoint_def is_miner_def is_fresh_def)
  ultimately show ?thesis by blast
qed

text \<open>
  C37. A settlement goes to the best-scored miner, whoever served the request: the client's settlement
  names no target, unlike its inference request, so the gateway routes it to the first miner of its
  list; and any miner but the one the receipt is for refuses it and keeps its queue, so that the
  reservation stays what the serving miner can redeem.
\<close>
theorem settlement_goes_to_best_miner:
  assumes "miners_of (set_order mo) mi b (Some (now mo)) = (best, url, best_score) # others"
    and "loads payload = Inr (settle_body r sig)"
    and "read_receipt E (serialize_receipt r) = Inr read" and "lower (rc_miner read) \<noteq> lower (miner_address E mcfg)"
  shows "target_url mo mi b (settle_body r sig) = Inr (Some url)
    \<and> (endpoint_of mi b served = Some served_url \<longrightarrow> served \<noteq> [] \<longrightarrow>
         target_url mo mi b (request_body req (JStr served) r sig) = Inr (Some served_url))
    \<and> fst (handle_settle E mcfg loads mv q payload) = q
    \<and> (\<forall>qd. settle_check E mcfg loads mv payload \<noteq> Inr (Accept qd))"
proof -
  have "target_url mo mi b (settle_body r sig) = Inr (Some url)"
    using assms(1) by (simp add: target_url_def settle_body_def dict_get_or_def)
  moreover have "target_url mo mi b (request_body req (JStr served) r sig) = Inr (Some served_url)"
    if "endpoint_of mi b served = Some served_url" "served \<noteq> []"
    using that by (simp add: target_url_def request_body_def dict_get_or_def)
  moreover have refused: "settle_check E mcfg loads mv payload \<noteq> Inr (Accept qd)" for qd
    using assms(2-4)
    by (auto simp: settle_check_def settle_body_def check_eligibility_def split: if_splits option.splits)
  moreover have "fst (handle_settle E mcfg loads mv q payload) = q"
    using refused by (auto simp: handle_settle_def split: sum.splits verdict.splits)
  ultimately show ?thesis by blast
qed

text \<open>
  What a client asks for besides the prompt does not reach the engine: the miner's verdict, and with
  it everything it does from the engine on, is the same for every token limit and temperature.
\<close>
lemma sampling_parameters_are_ignored:
  "infer_check E mcfg (\<lambda>_. Inr (request_body (req\<lparr>rq_max_tokens := n, rq_temperature := t\<rparr>) a p sig)) mv payload =
   infer_check E mcfg (\<lambda>_. Inr (request_body req a p sig)) mv payload"
  by (simp add: infer_check_def request_body_def dict_get_or_def Let_def cong: if_cong)

section \<open>Concrete exchanges\<close>

theorem honest_challenge_is_answered_witness:
  "\<exists>body. build_challenge_payload demo_eth demo_vcfg (lit ''hi'') 1 = Inr body
    \<and> challenge_check demo_eth demo_miner_cfg (\<lambda>_. Inr body) MinerRun.demo_view [] = Inr (Accept (lit ''hi'', 1))
    \<and> (\<exists>h. call_miner_challenge demo_eth demo_vcfg (JStr (lit ''u'')) (lit ''hi'') 1
          (\<lambda>sent. if sent = body then Inr (200, handle_challenge demo_eth demo_miner_cfg (\<lambda>_. Inr body) MinerRun.demo_view demo_engine 0 [])
                  else Inl OtherError) 9 = Inr (JStr (lit ''hi''), JStr h, 9))"
proof -
  obtain body where body: "build_challenge_payload demo_eth demo_vcfg (lit ''hi'') 1 = Inr body"
    using demo_payload by blast
  let ?req = "(new_inference_request (lit ''hi''))\<lparr>iq_temperature := 0, iq_seed := Some 1\<rparr>"
  obtain response where g: "generate demo_eth demo_engine 0 ?req = Inr response" "ir_text response = lit ''hi''"
      "ir_prompt_hash response = hex0x (demo_hash 209)" "ir_response_hash response = hex0x (demo_hash 209)"
    by (simp add: generate_def new_inference_request_def demo_hi_hash)
  then obtain s where s: "sign_response demo_eth demo_miner_cfg response = Inr s"
    by (simp add: sign_response_def demo_miner_cfg_def)
  have "prompt_ok (JStr (lit ''hi''))" by (simp add: lit_def MAX_PROMPT_CHARS_def)
  moreover have "vc_brain_id demo_vcfg = mc_brain_id demo_miner_cfg"
    "view_is_validator MinerRun.demo_view (mc_brain_id demo_miner_cfg) (validator_address demo_eth demo_vcfg) = Inr True"
    by (simp_all add: demo_vcfg_def demo_miner_cfg_def validator_address_def demo_key_def MinerRun.demo_view_def)
  ultimately show ?thesis
    using honest_challenge_is_answered [OF demo_recovers_keys(1,2) _ body, of demo_miner_cfg "\<lambda>_. Inr body" "[]"
        MinerRun.demo_view demo_engine 0 response s "lit ''u''" 9] g s body
    by (auto simp: MAX_PAYLOAD_BYTES_def)
qed

theorem honest_announcement_is_accepted_witness:
  "\<exists>mi' sig. announce demo_eth (\<lambda>_. []) demo_moment demo_members 8 (announce_payload demo_eth [7] [104] 100 sig) =
      (mi', Inr (200, JObj [(lit ''ok'', JBool True)])) \<and> endpoint_of mi' 8 (hex0x [7]) = Some [104]"
proof -
  obtain sig where sig: "miner_sign_announce demo_eth [7] 8 [104] 100 = Inr sig"
    by (simp add: miner_sign_announce_def miner_announce_digest_def utf8_encode_def utf8_char_def)
  have member: "is_miner demo_members 8 (key_address demo_eth [7])" "ttl demo_members = 600"
    by (simp_all add: demo_members_def replace_membership_def apply_event_def is_miner_def new_index_def Let_def demo_key_def)
  moreover have "finite (reg_miners demo_members 8)"
    by (simp add: demo_members_def replace_membership_def apply_event_def new_index_def Let_def)
  ultimately show ?thesis
    using honest_announcement_is_accepted [OF demo_recovers_keys(1,2) sig _ _ _ _ sorted_list_enumerates,
        of demo_moment demo_members 100 "\<lambda>_. []" "[]"]
    by (auto simp: ANNOUNCE_MAX_AGE_def demo_key_def)
qed

text \<open>Two listed miners, the second with the better score, and a receipt for the first.\<close>

definition demo_two_miners :: member_index where
  "demo_two_miners = (new_index 600)\<lparr>reg_miners := (\<lambda>_. {hex0x [8], hex0x [9]}),
     endpoints := (\<lambda>_. None)((3, hex0x [8]) \<mapsto> \<lparr>ep_url = [104], ep_score = 0, ep_ts = 100\<rparr>,
                             (3, hex0x [9]) \<mapsto> \<lparr>ep_url = [105], ep_score = 1, ep_ts = 100\<rparr>)\<rparr>"

definition demo_final :: "json receipt" where
  "demo_final = \<lparr>rc_user = JStr (hex0x [7]), rc_miner = JStr (hex0x [8]), rc_brain_id = 3,
     rc_prompt_hash = JStr (hex0x (demo_hash 1)), rc_response_hash = JStr (hex0x (demo_hash 2)),
     rc_amount = 5, rc_expiry = 200, rc_nonce = 5\<rparr>"

theorem settlement_goes_to_best_miner_witness:
  "target_url (demo_moment\<lparr>set_order := (\<lambda>_. [hex0x [8], hex0x [9]])\<rparr>) demo_two_miners 3 (settle_body demo_final []) = Inr (Some [105])
   \<and> fst (handle_settle demo_eth (demo_miner_cfg\<lparr>mc_key := [9]\<rparr>) (\<lambda>_. Inr (settle_body demo_final []))
            MinerRun.demo_view (new_batcher 5) []) = new_batcher 5"
proof -
  let ?mo = "demo_moment\<lparr>set_order := (\<lambda>_. [hex0x [8], hex0x [9]])\<rparr>"
  have "miners_of (set_order ?mo) demo_two_miners 3 (Some (now ?mo)) = [(hex0x [9], [105], 1), (hex0x [8], [104], 0)]"
    by (simp add: miners_of_def demo_two_miners_def listed_def is_fresh_def new_index_def List.map_filter_simps sort_desc_def)
  moreover have "read_receipt demo_eth (serialize_receipt demo_final) =
      Inr \<lparr>rc_user = hex0x [7], rc_miner = hex0x [8], rc_brain_id = 3, rc_prompt_hash = JStr (hex0x (demo_hash 1)),
        rc_response_hash = JStr (hex0x (demo_hash 2)), rc_amount = 5, rc_expiry = 200, rc_nonce = 5\<rparr>"
    by (simp add: read_receipt_def serialize_receipt_def demo_final_def)
  ultimately show ?thesis
    using settlement_goes_to_best_miner [where mcfg = "demo_miner_cfg\<lparr>mc_key := [9]\<rparr>" and E = demo_eth and r = demo_final
        and mo = ?mo and mi = demo_two_miners and b = 3 and loads = "\<lambda>_. Inr (settle_body demo_final [])" and payload = "[]"
        and sig = "[]" and mv = MinerRun.demo_view and q = "new_batcher 5"]
    by (auto simp: miner_address_def demo_key_def demo_miner_cfg_def)
qed

end
